(* ===== verification/Go_Strings.thy ===== *)
theory Go_Strings
  imports Go_Prelude
begin

text \<open>
  The operations of \<^verbatim>\<open>strings\<close>, \<^verbatim>\<open>strconv\<close> and \<^verbatim>\<open>encoding/hex\<close> the program calls.
  Go strings are byte sequences; \<^verbatim>\<open>strings.TrimSpace\<close> also removes the white space of Unicode,
  given here by its UTF-8 encodings.
\<close>

section \<open>Classes of characters\<close>

definition is_digit :: "char \<Rightarrow> bool" where
  "is_digit c \<longleftrightarrow> 48 \<le> code c \<and> code c \<le> 57"

definition is_lower :: "char \<Rightarrow> bool" where
  "is_lower c \<longleftrightarrow> 97 \<le> code c \<and> code c \<le> 122"

definition is_upper :: "char \<Rightarrow> bool" where
  "is_upper c \<longleftrightarrow> 65 \<le> code c \<and> code c \<le> 90"

definition upper_char :: "char \<Rightarrow> char" where
  "upper_char c = (if is_lower c then char_of (code c - 32) else c)"

definition lower_char :: "char \<Rightarrow> char" where
  "lower_char c = (if is_upper c then char_of (code c + 32) else c)"

text \<open>Comparing a character with a literal is comparing its code.\<close>

lemma char_eq_code: "c = d \<longleftrightarrow> code c = code d"
  by (simp add: code_inject)

lemma char_codes:
  "code CHR ''0'' = 48" "code CHR ''-'' = 45" "code CHR ''+'' = 43" "code CHR ''.'' = 46"
  "code CHR ''e'' = 101" "code CHR ''E'' = 69" "code CHR ''u'' = 117" "code CHR ''/'' = 47"
  "code CHR ''b'' = 98" "code CHR ''f'' = 102" "code CHR ''n'' = 110" "code CHR ''r'' = 114"
  "code CHR ''t'' = 116" "code CHR '','' = 44" "code CHR '':'' = 58" "code CHR ''{'' = 123"
  "code CHR ''}'' = 125" "code CHR ''['' = 91" "code CHR '']'' = 93" "code CHR 0x22 = 34"
  "code CHR 0x5C = 92" "code CHR ''@'' = 64" "code CHR ''='' = 61" "code CHR 0x0A = 10"
  by (simp_all add: code_def)

text \<open>\<^verbatim>\<open>strings.ToUpper\<close>, \<^verbatim>\<open>strings.ToLower\<close> and \<^verbatim>\<open>strings.EqualFold\<close> on ASCII text\<close>

definition to_upper :: "string \<Rightarrow> string" where
  "to_upper = map upper_char"

definition to_lower :: "string \<Rightarrow> string" where
  "to_lower = map lower_char"

definition equal_fold :: "string \<Rightarrow> string \<Rightarrow> bool" where
  "equal_fold s t \<longleftrightarrow> to_lower s = to_lower t"

lemma equal_fold_refl [simp]: "equal_fold s s"
  by (simp add: equal_fold_def)

lemma equal_fold_sym: "equal_fold s t \<Longrightarrow> equal_fold t s"
  by (simp add: equal_fold_def)

lemma code_lower_char: "code (lower_char c) = (if is_upper c then code c + 32 else code c)"
  by (simp add: lower_char_def is_upper_def)

lemma code_upper_char: "code (upper_char c) = (if is_lower c then code c - 32 else code c)"
proof -
  have "code c - 32 < 256" using code_less_256 [of c] by linarith
  then show ?thesis by (simp add: upper_char_def)
qed

section \<open>Splitting and trimming\<close>

text \<open>\<^verbatim>\<open>strings.Split\<close> at a one-byte separator\<close>

fun split_on :: "char \<Rightarrow> string \<Rightarrow> string list" where
  "split_on c [] = [[]]"
| "split_on c (x # xs) =
     (if x = c then [] # split_on c xs
      else (case split_on c xs of [] \<Rightarrow> [[x]] | w # ws \<Rightarrow> (x # w) # ws))"

text \<open>\<^verbatim>\<open>strings.Join\<close>\<close>

fun join_with :: "string \<Rightarrow> string list \<Rightarrow> string" where
  "join_with sep [] = []"
| "join_with sep [w] = w"
| "join_with sep (w # ws) = w @ sep @ join_with sep ws"

text \<open>\<^verbatim>\<open>strings.Cut\<close> at a one-byte separator: before, after, found\<close>

fun cut_at :: "char \<Rightarrow> string \<Rightarrow> string \<times> string \<times> bool" where
  "cut_at c [] = ([], [], False)"
| "cut_at c (x # xs) =
     (if x = c then ([], xs, True)
      else (case cut_at c xs of (b, a, ok) \<Rightarrow> (x # b, a, ok)))"

text \<open>\<^verbatim>\<open>strings.ReplaceAll(s, c, "")\<close>\<close>

definition remove_char :: "char \<Rightarrow> string \<Rightarrow> string" where
  "remove_char c = filter (\<lambda>x. x \<noteq> c)"

text \<open>\<^verbatim>\<open>strings.Trim\<close>, \<^verbatim>\<open>TrimRight\<close> with a set of one-byte characters\<close>

definition trim_right_set :: "char list \<Rightarrow> string \<Rightarrow> string" where
  "trim_right_set cs s = rev (dropWhile (\<lambda>x. x \<in> set cs) (rev s))"

definition trim_set :: "char list \<Rightarrow> string \<Rightarrow> string" where
  "trim_set cs s = trim_right_set cs (dropWhile (\<lambda>x. x \<in> set cs) s)"

text \<open>\<^verbatim>\<open>strings.HasPrefix\<close> with the rest, and \<^verbatim>\<open>strings.Contains\<close>\<close>

fun strip_prefix :: "string \<Rightarrow> string \<Rightarrow> string option" where
  "strip_prefix [] s = Some s"
| "strip_prefix (p # ps) [] = None"
| "strip_prefix (p # ps) (x # xs) = (if p = x then strip_prefix ps xs else None)"

fun contains :: "string \<Rightarrow> string \<Rightarrow> bool" where
  "contains p [] \<longleftrightarrow> p = []"
| "contains p (x # xs) \<longleftrightarrow> strip_prefix p (x # xs) \<noteq> None \<or> contains p xs"

lemma strip_prefix_Some: "strip_prefix p s = Some r \<longleftrightarrow> s = p @ r"
  by (induction p s rule: strip_prefix.induct) auto

text \<open>The UTF-8 encodings of the code points \<^verbatim>\<open>unicode.IsSpace\<close> accepts\<close>

definition space_codes :: "nat list list" where
  "space_codes =
     [[9], [10], [11], [12], [13], [32], [0xC2, 0x85], [0xC2, 0xA0], [0xE1, 0x9A, 0x80],
      [0xE2, 0x80, 0x80], [0xE2, 0x80, 0x81], [0xE2, 0x80, 0x82], [0xE2, 0x80, 0x83],
      [0xE2, 0x80, 0x84], [0xE2, 0x80, 0x85], [0xE2, 0x80, 0x86], [0xE2, 0x80, 0x87],
      [0xE2, 0x80, 0x88], [0xE2, 0x80, 0x89], [0xE2, 0x80, 0x8A], [0xE2, 0x80, 0xA8],
      [0xE2, 0x80, 0xA9], [0xE2, 0x80, 0xAF], [0xE2, 0x81, 0x9F], [0xE3, 0x80, 0x80]]"

definition spaces :: "string list" where
  "spaces = map (map char_of) space_codes"

fun strip_any :: "string list \<Rightarrow> string \<Rightarrow> string option" where
  "strip_any [] s = None"
| "strip_any (p # ps) s =
     (case strip_prefix p s of Some r \<Rightarrow> Some r | None \<Rightarrow> strip_any ps s)"

function trim_left_any :: "string list \<Rightarrow> string \<Rightarrow> string" where
  "trim_left_any ps s =
     (case strip_any ps s of
        Some r \<Rightarrow> (if length r < length s then trim_left_any ps r else s)
      | None \<Rightarrow> s)"
  by pat_completeness auto
termination
  by (relation "measure (\<lambda>(ps, s). length s)") auto

declare trim_left_any.simps [simp del]

text \<open>\<^verbatim>\<open>strings.TrimSpace\<close>: leading white space first, then trailing.\<close>

definition trim_space :: "string \<Rightarrow> string" where
  "trim_space s = rev (trim_left_any (map rev spaces) (rev (trim_left_any spaces s)))"

lemma strip_any_Some: "strip_any ps s = Some r \<Longrightarrow> \<exists>p \<in> set ps. s = p @ r"
  by (induction ps) (auto simp: strip_prefix_Some split: option.splits)

lemma trim_left_any_suffix: "\<exists>p. s = p @ trim_left_any ps s"
proof (induction ps s rule: trim_left_any.induct)
  case (1 ps s)
  show ?case
  proof (cases "strip_any ps s")
    case None
    then show ?thesis by (simp add: trim_left_any.simps [of ps s])
  next
    case (Some r)
    then obtain p where p: "s = p @ r" using strip_any_Some by blast
    show ?thesis
    proof (cases "length r < length s")
      case True
      with "1" Some obtain q where "r = q @ trim_left_any ps r" by blast
      with p have "s = (p @ q) @ trim_left_any ps r" by simp
      moreover have "trim_left_any ps s = trim_left_any ps r"
        using Some True by (simp add: trim_left_any.simps [of ps s])
      ultimately show ?thesis by metis
    next
      case False
      then show ?thesis using Some by (simp add: trim_left_any.simps [of ps s])
    qed
  qed
qed

lemma length_trim_space: "length (trim_space s) \<le> length s"
proof -
  have le: "length (trim_left_any ps t) \<le> length t" for ps t
    using trim_left_any_suffix [of t ps] by (metis le_add2 length_append)
  show ?thesis
    unfolding trim_space_def using le [of "map rev spaces"] le [of spaces s]
    by (metis le_trans length_rev)
qed

lemma strip_any_None_iff:
  "strip_any ps s = None \<longleftrightarrow> (\<forall>p \<in> set ps. strip_prefix p s = None)"
  by (induction ps) (auto split: option.splits)

text \<open>Text whose first and last bytes are graphic ASCII is not changed by trimming.\<close>

lemma strip_any_spaces_None:
  assumes "33 \<le> code c" and "code c < 128"
  shows "strip_any spaces (c # s) = None"
proof -
  have "strip_prefix (map char_of p) (c # s) = None" if p: "p \<in> set space_codes" for p
  proof -
    obtain n ns where pn: "p = n # ns" and n: "n < 256" "n < 33 \<or> 128 \<le> n"
      using p by (auto simp: space_codes_def)
    have "code (char_of n) = n" using n(1) by simp
    with n(2) assms have "char_of n \<noteq> c" by auto
    then show ?thesis by (simp add: pn)
  qed
  then show ?thesis by (auto simp: strip_any_None_iff spaces_def)
qed

lemma strip_any_rev_spaces_None:
  assumes "33 \<le> code c" and "code c < 128"
  shows "strip_any (map rev spaces) (c # s) = None"
proof -
  have "strip_prefix (rev (map char_of p)) (c # s) = None" if p: "p \<in> set space_codes" for p
  proof -
    have l: "p \<noteq> []" "last p < 256" "last p < 33 \<or> 128 \<le> last p"
      using p by (auto simp: space_codes_def)
    then obtain n ns where pn: "rev p = n # ns" by (cases "rev p") auto
    then have n: "n < 256" "n < 33 \<or> 128 \<le> n"
      using l by (metis hd_rev list.sel(1))+
    have "code (char_of n) = n" using n(1) by simp
    with n(2) assms have "char_of n \<noteq> c" by auto
    then show ?thesis by (simp add: rev_map pn)
  qed
  then show ?thesis by (auto simp: strip_any_None_iff spaces_def)
qed

definition graphic :: "char \<Rightarrow> bool" where
  "graphic c \<longleftrightarrow> 33 \<le> code c \<and> code c < 127"

lemma trim_space_graphic [go_string]:
  assumes "s \<noteq> []" and "graphic (hd s)" and "graphic (last s)"
  shows "trim_space s = s"
proof -
  obtain c r where s: "s = c # r" using assms(1) by (cases s) auto
  have l: "trim_left_any spaces s = s"
    using strip_any_spaces_None [of c r] assms(2)
    by (simp add: s graphic_def trim_left_any.simps)
  obtain d t where t: "rev s = d # t" using assms(1) by (cases "rev s") auto
  then have "d = last s" by (metis hd_rev list.sel(1))
  then have "trim_left_any (map rev spaces) (rev s) = rev s"
    using strip_any_rev_spaces_None [of d t] assms(3)
    by (simp add: t graphic_def trim_left_any.simps)
  with l show ?thesis by (simp add: trim_space_def)
qed

lemma trim_space_Nil [simp]: "trim_space [] = []"
  using length_trim_space [of "[]"] by simp

subsection \<open>Laws of splitting\<close>

lemma split_on_nonempty [simp]: "split_on c s \<noteq> []"
  by (induction s) (auto split: list.splits)

lemma split_on_none: "c \<notin> set s \<Longrightarrow> split_on c s = [s]"
  by (induction s) auto

lemma split_on_append: "c \<notin> set w \<Longrightarrow> split_on c (w @ c # s) = w # split_on c s"
  by (induction w) auto

lemma split_join [go_string]:
  "ws \<noteq> [] \<Longrightarrow> \<forall>w \<in> set ws. c \<notin> set w \<Longrightarrow> split_on c (join_with [c] ws) = ws"
  by (induction "[c]" ws rule: join_with.induct) (auto simp: split_on_none split_on_append)

lemma cut_at_found: "c \<notin> set b \<Longrightarrow> cut_at c (b @ c # a) = (b, a, True)"
  by (induction b) auto

lemma cut_at_none: "c \<notin> set s \<Longrightarrow> cut_at c s = (s, [], False)"
  by (induction s) auto

lemma cut_at_True: "cut_at c s = (b, a, True) \<Longrightarrow> s = b @ c # a \<and> c \<notin> set b"
  by (induction s arbitrary: b) (auto split: if_splits prod.splits)

section \<open>Decimal numbers\<close>

definition digit_char :: "nat \<Rightarrow> char" where
  "digit_char d = char_of (48 + d)"

definition digit_val :: "char \<Rightarrow> nat" where
  "digit_val c = code c - 48"

fun nat_dec :: "nat \<Rightarrow> string" where
  "nat_dec n = (if n < 10 then [digit_char n] else nat_dec (n div 10) @ [digit_char (n mod 10)])"

declare nat_dec.simps [simp del]

text \<open>\<^verbatim>\<open>strconv.Itoa\<close>, \<^verbatim>\<open>FormatInt(_, 10)\<close>, \<^verbatim>\<open>%d\<close>\<close>

definition itoa :: "int \<Rightarrow> string" where
  "itoa i = (if i < 0 then CHR ''-'' # nat_dec (nat (- i)) else nat_dec (nat i))"

definition dec_nat :: "string \<Rightarrow> nat" where
  "dec_nat s = foldl (\<lambda>n c. 10 * n + digit_val c) 0 s"

text \<open>\<^verbatim>\<open>strconv.Atoi\<close> and \<^verbatim>\<open>ParseInt(_, 10, 64)\<close> on a 64-bit platform\<close>

definition in_int64 :: "int \<Rightarrow> bool" where
  "in_int64 i \<longleftrightarrow> - (2 ^ 63) \<le> i \<and> i < 2 ^ 63"

definition atoi :: "string \<Rightarrow> int option" where
  "atoi s =
     (let (neg, ds) = (case s of
          [] \<Rightarrow> (False, [])
        | c # cs \<Rightarrow> if c = CHR ''-'' then (True, cs)
                    else if c = CHR ''+'' then (False, cs) else (False, s));
        i = (if neg then - int (dec_nat ds) else int (dec_nat ds))
      in if ds \<noteq> [] \<and> list_all is_digit ds \<and> in_int64 i then Some i else None)"

lemma code_digit_char: "d < 10 \<Longrightarrow> code (digit_char d) = 48 + d"
  by (simp add: digit_char_def)

lemma is_digit_digit_char [simp]: "d < 10 \<Longrightarrow> is_digit (digit_char d)"
  by (simp add: is_digit_def code_digit_char)

lemma digit_val_digit_char [simp]: "d < 10 \<Longrightarrow> digit_val (digit_char d) = d"
  by (simp add: digit_val_def code_digit_char)

lemma nat_dec_digits [simp]: "list_all is_digit (nat_dec n)"
proof (induction n rule: nat_dec.induct)
  case (1 n)
  then show ?case by (cases "n < 10") (simp_all add: nat_dec.simps [of n])
qed

lemma nat_dec_not_Nil [simp]: "nat_dec n \<noteq> []"
  by (simp add: nat_dec.simps [of n])

lemma dec_nat_append: "dec_nat (s @ [c]) = 10 * dec_nat s + digit_val c"
  by (simp add: dec_nat_def)

lemma dec_nat_nat_dec [simp, go_string]: "dec_nat (nat_dec n) = n"
proof (induction n rule: nat_dec.induct)
  case (1 n)
  show ?case
  proof (cases "n < 10")
    case True
    then show ?thesis by (simp add: nat_dec.simps [of n] dec_nat_def)
  next
    case False
    with "1" show ?thesis by (simp add: nat_dec.simps [of n] dec_nat_append)
  qed
qed

lemma nat_dec_inject [simp]: "nat_dec m = nat_dec n \<longleftrightarrow> m = n"
  by (metis dec_nat_nat_dec)

lemma is_digit_not_special: "is_digit c \<Longrightarrow> c \<noteq> CHR ''-'' \<and> c \<noteq> CHR ''+'' \<and> c \<noteq> CHR '':''
   \<and> c \<noteq> CHR '','' \<and> c \<noteq> CHR ''.''"
  by (auto simp: is_digit_def code_def)

lemma nat_dec_Cons: "\<exists>c cs. nat_dec n = c # cs \<and> is_digit c"
  using nat_dec_digits [of n] nat_dec_not_Nil [of n] by (cases "nat_dec n") auto

lemma atoi_itoa [go_string]: "in_int64 i \<Longrightarrow> atoi (itoa i) = Some i"
proof (cases "i < 0")
  case True
  assume "in_int64 i"
  with True show ?thesis by (simp add: atoi_def itoa_def)
next
  case False
  assume i: "in_int64 i"
  obtain c cs where c: "nat_dec (nat i) = c # cs" "is_digit c" using nat_dec_Cons by blast
  have "list_all is_digit (nat_dec (nat i))" by simp
  moreover have "int (dec_nat (nat_dec (nat i))) = i" using False by simp
  ultimately show ?thesis
    using False i c is_digit_not_special [OF c(2)] by (simp add: atoi_def itoa_def)
qed

section \<open>Hexadecimal\<close>

definition hex_char :: "nat \<Rightarrow> char" where
  "hex_char d = (if d < 10 then char_of (48 + d) else char_of (87 + d))"

definition hex_val :: "char \<Rightarrow> nat option" where
  "hex_val c =
     (if is_digit c then Some (code c - 48)
      else if 97 \<le> code c \<and> code c \<le> 102 then Some (code c - 87)
      else if 65 \<le> code c \<and> code c \<le> 70 then Some (code c - 55)
      else None)"

definition hex_byte :: "byte \<Rightarrow> string" where
  "hex_byte b = [hex_char (unat b div 16), hex_char (unat b mod 16)]"

definition hex2 :: "char \<Rightarrow> char \<Rightarrow> byte option" where
  "hex2 a b = (case (hex_val a, hex_val b) of
      (Some x, Some y) \<Rightarrow> Some (word_of_nat (16 * x + y))
    | _ \<Rightarrow> None)"

definition is_hex :: "char \<Rightarrow> bool" where
  "is_hex c \<longleftrightarrow> hex_val c \<noteq> None"

definition hex_nat :: "string \<Rightarrow> nat" where
  "hex_nat s = foldl (\<lambda>n c. 16 * n + (case hex_val c of Some d \<Rightarrow> d | None \<Rightarrow> 0)) 0 s"

lemma hex_val_hex_char [simp]: "d < 16 \<Longrightarrow> hex_val (hex_char d) = Some d"
  by (auto simp: hex_val_def hex_char_def is_digit_def)

lemma hex_val_less: "hex_val c = Some d \<Longrightarrow> d < 16"
  by (auto simp: hex_val_def is_digit_def split: if_splits)

lemma unat_byte_less [simp]: "unat (b :: byte) < 256"
  using unsigned_less [of b] by simp

lemma hex2_hex_char [simp, go_string]:
  "hex2 (hex_char (unat b div 16)) (hex_char (unat b mod 16)) = Some b"
proof -
  have "unat b div 16 < 16" using unat_byte_less [of b] by (simp add: less_mult_imp_div_less)
  moreover have "16 * (unat b div 16) + unat b mod 16 = unat b" by simp
  ultimately show ?thesis by (simp add: hex2_def)
qed

definition is_hex_lower :: "char \<Rightarrow> bool" where
  "is_hex_lower c \<longleftrightarrow> is_digit c \<or> 97 \<le> code c \<and> code c \<le> 102"

lemma hex_char_is_hex [simp]: "d < 16 \<Longrightarrow> is_hex_lower (hex_char d)"
  by (auto simp: is_hex_lower_def hex_char_def is_digit_def)

lemma hex_byte_is_hex [simp]: "list_all is_hex_lower (hex_byte b)"
proof -
  have "unat b div 16 < 16" using unat_byte_less [of b] by (simp add: less_mult_imp_div_less)
  then show ?thesis by (simp add: hex_byte_def)
qed

lemma length_hex_byte [simp]: "length (hex_byte b) = 2"
  by (simp add: hex_byte_def)

text \<open>\<^verbatim>\<open>hex.EncodeToString\<close>, \<^verbatim>\<open>hex.DecodeString\<close>\<close>

definition hex_encode :: "bytes \<Rightarrow> string" where
  "hex_encode bs = concat (map hex_byte bs)"

fun hex_decode :: "string \<Rightarrow> bytes option" where
  "hex_decode [] = Some []"
| "hex_decode [c] = None"
| "hex_decode (a # b # s) =
     (case (hex2 a b, hex_decode s) of (Some x, Some xs) \<Rightarrow> Some (x # xs) | _ \<Rightarrow> None)"

lemma hex_decode_encode [simp, go_string]: "hex_decode (hex_encode bs) = Some bs"
  by (induction bs) (simp_all add: hex_encode_def hex_byte_def)

lemma length_hex_decode: "hex_decode s = Some bs \<Longrightarrow> length s = 2 * length bs"
  by (induction s arbitrary: bs rule: hex_decode.induct) (auto split: option.splits)

text \<open>\<^verbatim>\<open>strconv.ParseBool\<close>\<close>

definition parse_bool :: "string \<Rightarrow> bool option" where
  "parse_bool s =
     (if s \<in> {''1'', ''t'', ''T'', ''TRUE'', ''true'', ''True''} then Some True
      else if s \<in> {''0'', ''f'', ''F'', ''FALSE'', ''false'', ''False''} then Some False
      else None)"

end
