(* ===== verification/Go_Net.thy ===== *)
theory Go_Net
  imports Go_Strings
begin

text \<open>
  The address types of package \<^verbatim>\<open>net\<close>: hardware addresses (\<^verbatim>\<open>ParseMAC\<close>,
  \<^verbatim>\<open>HardwareAddr.String\<close>) and IP addresses (\<^verbatim>\<open>ParseIP\<close>, \<^verbatim>\<open>To4\<close>, \<^verbatim>\<open>String\<close>).
  A text form and its parser are an instance of the interface \<open>text_codec\<close>, from which the
  injectivity of the text form follows.
\<close>

locale text_codec =
  fixes show_text :: "'a \<Rightarrow> string"
    and parse_text :: "string \<Rightarrow> 'a option"
    and valid :: "'a \<Rightarrow> bool"
  assumes parse_show: "valid v \<Longrightarrow> parse_text (show_text v) = Some v"
begin

lemma show_inject: "valid v \<Longrightarrow> valid w \<Longrightarrow> show_text v = show_text w \<longleftrightarrow> v = w"
  by (metis option.inject parse_show)

lemma inj_on_show: "inj_on show_text {v. valid v}"
  by (rule inj_onI) (auto simp: show_inject)

lemma distinct_show:
  "\<forall>v \<in> set vs. valid v \<Longrightarrow> distinct (map show_text vs) \<longleftrightarrow> distinct vs"
  using inj_on_subset [OF inj_on_show, of "set vs"] by (auto simp: distinct_map)

lemma reparse: "parse_text s = Some v \<Longrightarrow> valid v \<Longrightarrow> parse_text (show_text v) = parse_text s"
  by (simp add: parse_show)

end

section \<open>Hardware addresses\<close>

text \<open>The groups of the form \<^verbatim>\<open>xx:xx:\<dots>\<close>, all with the separator of the first.\<close>

fun mac_pairs :: "char \<Rightarrow> string \<Rightarrow> bytes option" where
  "mac_pairs e [a, b] = map_option (\<lambda>v. [v]) (hex2 a b)"
| "mac_pairs e (a # b # c # rest) =
     (if c = e then
        (case (hex2 a b, mac_pairs e rest) of (Some v, Some vs) \<Rightarrow> Some (v # vs) | _ \<Rightarrow> None)
      else None)"
| "mac_pairs e _ = None"

text \<open>The groups of the form \<^verbatim>\<open>xxxx.xxxx.\<dots>\<close>\<close>

fun mac_quads :: "string \<Rightarrow> bytes option" where
  "mac_quads [a, b, c, d] =
     (case (hex2 a b, hex2 c d) of (Some v, Some w) \<Rightarrow> Some [v, w] | _ \<Rightarrow> None)"
| "mac_quads (a # b # c # d # e # rest) =
     (if e = CHR ''.'' then
        (case (hex2 a b, hex2 c d, mac_quads rest) of
           (Some v, Some w, Some vs) \<Rightarrow> Some (v # w # vs) | _ \<Rightarrow> None)
      else None)"
| "mac_quads _ = None"

text \<open>\<^verbatim>\<open>net.ParseMAC\<close>: 6, 8 or 20 bytes.\<close>

definition parse_mac :: "string \<Rightarrow> bytes option" where
  "parse_mac s =
     (if length s < 14 then None
      else
        (case (if s ! 2 = CHR '':'' \<or> s ! 2 = CHR ''-'' then mac_pairs (s ! 2) s
               else if s ! 4 = CHR ''.'' then mac_quads s else None) of
           None \<Rightarrow> None
         | Some v \<Rightarrow> if length v = 6 \<or> length v = 8 \<or> length v = 20 then Some v else None))"

text \<open>\<^verbatim>\<open>HardwareAddr.String\<close>\<close>

definition mac_string :: "bytes \<Rightarrow> string" where
  "mac_string v = join_with '':'' (map hex_byte v)"

lemma mac_string_simps:
  "mac_string [] = []"
  "mac_string [b] = hex_byte b"
  "mac_string (b # c # bs) = hex_byte b @ CHR '':'' # mac_string (c # bs)"
  by (simp_all add: mac_string_def)

lemma mac_pairs_mac_string: "v \<noteq> [] \<Longrightarrow> mac_pairs CHR '':'' (mac_string v) = Some v"
proof (induction v)
  case (Cons b v)
  then show ?case
    by (cases v) (simp_all add: mac_string_simps hex_byte_def)
qed simp

lemma length_mac_string: "v \<noteq> [] \<Longrightarrow> length (mac_string v) = 3 * length v - 1"
proof (induction v)
  case (Cons b v)
  then show ?case by (cases v) (simp_all add: mac_string_simps)
qed simp

lemma mac_string_third: "2 \<le> length v \<Longrightarrow> mac_string v ! 2 = CHR '':''"
  by (cases v rule: list.exhaust; cases "tl v") (auto simp: mac_string_simps nth_append)

lemma parse_mac_string [go_string]:
  assumes "length v = 6 \<or> length v = 8 \<or> length v = 20"
  shows "parse_mac (mac_string v) = Some v"
proof -
  have "v \<noteq> []" "2 \<le> length v" using assms by auto
  then show ?thesis
    using assms length_mac_string [of v] mac_string_third [of v] mac_pairs_mac_string [of v]
    by (auto simp: parse_mac_def)
qed

lemma parse_mac_length: "parse_mac s = Some v \<Longrightarrow> length v = 6 \<or> length v = 8 \<or> length v = 20"
  by (auto simp: parse_mac_def split: if_splits option.splits)

lemma mac_string_chars: "list_all (\<lambda>c. c = CHR '':'' \<or> is_hex_lower c) (mac_string v)"
proof (induction v)
  case (Cons b v)
  have "list_all (\<lambda>c. c = CHR '':'' \<or> is_hex_lower c) (hex_byte b)"
    using hex_byte_is_hex [of b] by (auto simp: list_all_iff)
  with Cons show ?case by (cases v) (simp_all add: mac_string_simps)
qed (simp add: mac_string_simps)

text \<open>The hexadecimal digits of an address without separators\<close>

lemma remove_colon_hex_byte [simp]: "remove_char CHR '':'' (hex_byte b) = hex_byte b"
proof -
  have "c \<noteq> CHR '':''" if "c \<in> set (hex_byte b)" for c
    using that hex_byte_is_hex [of b] by (auto simp: list_all_iff is_hex_lower_def is_digit_def code_def)
  then show ?thesis unfolding remove_char_def by (intro filter_True ballI) simp
qed

lemma remove_char_append [simp]: "remove_char c (s @ t) = remove_char c s @ remove_char c t"
  by (simp add: remove_char_def)

lemma remove_colon_mac_string: "remove_char CHR '':'' (mac_string v) = hex_encode v"
proof (induction v)
  case Nil
  then show ?case by (simp add: mac_string_simps hex_encode_def remove_char_def)
next
  case (Cons b v)
  have c: "remove_char CHR '':'' (CHR '':'' # s) = remove_char CHR '':'' s" for s
    by (simp add: remove_char_def)
  from Cons show ?case by (cases v) (simp_all add: mac_string_simps hex_encode_def c)
qed

interpretation mac6: text_codec mac_string parse_mac "\<lambda>v. length v = 6"
  by unfold_locales (simp add: parse_mac_string)

section \<open>IP addresses\<close>

text \<open>
  One field of a dotted address: one to three digits, no leading zero, at most 255
  (\<^verbatim>\<open>net/netip.parseIPv4Fields\<close>).
\<close>

definition v4_field :: "string \<Rightarrow> byte option" where
  "v4_field f =
     (if f = [] \<or> 3 < length f \<or> \<not> list_all is_digit f \<or> (1 < length f \<and> hd f = CHR ''0'')
         \<or> 255 < dec_nat f
      then None else Some (word_of_nat (dec_nat f)))"

fun all_some :: "'a option list \<Rightarrow> 'a list option" where
  "all_some [] = Some []"
| "all_some (None # xs) = None"
| "all_some (Some x # xs) = map_option (\<lambda>ys. x # ys) (all_some xs)"

definition parse_v4 :: "string \<Rightarrow> bytes option" where
  "parse_v4 s =
     (case all_some (map v4_field (split_on CHR ''.'' s)) of
        None \<Rightarrow> None
      | Some v \<Rightarrow> if length v = 4 then Some v else None)"

definition v4_string :: "bytes \<Rightarrow> string" where
  "v4_string v = join_with ''.'' (map (\<lambda>b. nat_dec (unat b)) v)"

text \<open>
  The loop of \<^verbatim>\<open>net/netip.parseIPv6\<close>: the fields still allowed, the place of the
  \<^verbatim>\<open>::\<close> if it was seen, the bytes read, the text left.
\<close>

fun v6_fields :: "nat \<Rightarrow> nat option \<Rightarrow> bytes \<Rightarrow> string \<Rightarrow> (bytes \<times> nat option \<times> string) option" where
  "v6_fields 0 e acc s = Some (acc, e, s)"
| "v6_fields (Suc k) e acc s =
     (let h = takeWhile is_hex s; r = dropWhile is_hex s;
          acc' = acc @ put_u16 (word_of_nat (hex_nat h)) in
      if h = [] \<or> 4 < length h then None
      else if r = [] then Some (acc', e, [])
      else if hd r = CHR ''.'' then
        (if e = None \<and> length acc \<noteq> 12 \<or> 16 < length acc + 4 then None
         else map_option (\<lambda>v. (acc @ v, e, [])) (parse_v4 s))
      else if hd r \<noteq> CHR '':'' \<or> length r = 1 then None
      else if r ! 1 = CHR '':'' then
        (if e \<noteq> None then None
         else if drop 2 r = [] then Some (acc', Some (length acc'), [])
         else v6_fields k (Some (length acc')) acc' (drop 2 r))
      else v6_fields k e acc' (tl r))"

definition parse_v6 :: "string \<Rightarrow> bytes option" where
  "parse_v6 s =
     (let (e0, s0) = (case strip_prefix ''::'' s of Some r \<Rightarrow> (Some 0, r) | None \<Rightarrow> (None, s)) in
      if e0 \<noteq> None \<and> s0 = [] then Some (replicate 16 0)
      else (case v6_fields 8 e0 [] s0 of
              None \<Rightarrow> None
            | Some (acc, e, rest) \<Rightarrow>
                if rest \<noteq> [] then None
                else if length acc < 16 then
                  (case e of None \<Rightarrow> None
                   | Some p \<Rightarrow> Some (take p acc @ replicate (16 - length acc) 0 @ drop p acc))
                else if e \<noteq> None then None
                else Some acc))"

definition v4_in_v6 :: "bytes \<Rightarrow> bytes" where
  "v4_in_v6 v = replicate 10 0 @ [255, 255] @ v"

text \<open>
  \<^verbatim>\<open>net.ParseIP\<close>: the first of the characters dot, colon and percent decides the family;
  an address with a zone is no address. The result has the 16-byte form.
\<close>

definition parse_ip :: "string \<Rightarrow> bytes option" where
  "parse_ip s =
     (case dropWhile (\<lambda>c. c \<noteq> CHR ''.'' \<and> c \<noteq> CHR '':'' \<and> c \<noteq> CHR ''%'') s of
        [] \<Rightarrow> None
      | c # _ \<Rightarrow> if c = CHR ''.'' then map_option v4_in_v6 (parse_v4 s)
                 else if c = CHR '':'' \<and> CHR ''%'' \<notin> set s then parse_v6 s
                 else None)"

text \<open>\<^verbatim>\<open>IP.To4\<close>\<close>

definition to4 :: "bytes \<Rightarrow> bytes option" where
  "to4 ip =
     (if length ip = 4 then Some ip
      else if length ip = 16 \<and> take 12 ip = replicate 10 0 @ [255, 255] then Some (drop 12 ip)
      else None)"

lemma to4_length: "to4 ip = Some v \<Longrightarrow> length v = 4"
  by (auto simp: to4_def split: if_splits)

lemma to4_self [simp]: "length ip = 4 \<Longrightarrow> to4 ip = Some ip"
  by (simp add: to4_def)

lemma to4_v4_in_v6 [simp]: "length v = 4 \<Longrightarrow> to4 (v4_in_v6 v) = Some v"
  by (simp add: to4_def v4_in_v6_def)

lemma nat_dec_small: "n < 1000 \<Longrightarrow> length (nat_dec n) \<le> 3"
  by (simp add: nat_dec.simps [of n] nat_dec.simps [of "n div 10"] nat_dec.simps [of "n div 10 div 10"])

lemma nat_dec_no_leading_zero: "1 < length (nat_dec n) \<Longrightarrow> hd (nat_dec n) \<noteq> CHR ''0''"
proof (induction n rule: nat_dec.induct)
  case (1 n)
  show ?case
  proof (cases "n < 10")
    case True
    with "1" show ?thesis by (simp add: nat_dec.simps [of n])
  next
    case False
    let ?m = "n div 10"
    have h: "hd (nat_dec n) = hd (nat_dec ?m)" using False by (simp add: nat_dec.simps [of n])
    show ?thesis
    proof (cases "?m < 10")
      case True
      then have "code (hd (nat_dec ?m)) = 48 + ?m" "0 < ?m" using False
        by (simp_all add: nat_dec.simps [of ?m] code_digit_char)
      with h show ?thesis by (auto simp: code_def)
    next
      case ge: False
      then have "1 < length (nat_dec ?m)"
        by (simp add: nat_dec.simps [of ?m])
      with "1" False h show ?thesis by simp
    qed
  qed
qed

lemma v4_field_nat_dec [simp]: "v4_field (nat_dec (unat (b :: byte))) = Some b"
proof -
  have b: "unat b < 256" by simp
  then have "unat b < 1000" "\<not> 255 < unat b" by linarith+
  then show ?thesis
    using nat_dec_no_leading_zero [of "unat b"] nat_dec_small [of "unat b"]
    by (auto simp: v4_field_def)
qed

lemma nat_dec_no_dot: "CHR ''.'' \<notin> set (nat_dec n)"
  using nat_dec_digits [of n] is_digit_not_special by (auto simp: list_all_iff)

lemma all_some_map_Some [simp]: "all_some (map Some xs) = Some xs"
  by (induction xs) auto

lemma parse_v4_string: "length v = 4 \<Longrightarrow> parse_v4 (v4_string v) = Some v"
proof -
  assume v: "length v = 4"
  then have "map (\<lambda>b. nat_dec (unat b)) v \<noteq> []" by auto
  then have "split_on CHR ''.'' (v4_string v) = map (\<lambda>b. nat_dec (unat b)) v"
    unfolding v4_string_def by (rule split_join) (auto simp: nat_dec_no_dot)
  then show ?thesis using v by (simp add: parse_v4_def o_def)
qed

interpretation v4: text_codec v4_string parse_v4 "\<lambda>v. length v = 4"
  by unfold_locales (simp add: parse_v4_string)

end
