(* ===== verification/Discovery.thy ===== *)
theory Discovery
  imports Go_Net
begin

text \<open>
  The L2 discovery packet (\<^verbatim>\<open>discovery/packet.go\<close>): the announcement a device
  broadcasts, \<^verbatim>\<open>Marshal\<close> and the parser. A nil \<^verbatim>\<open>net.HardwareAddr\<close> or
  \<^verbatim>\<open>net.IP\<close> is \<^const>\<open>None\<close>; an empty slice that is not nil is \<^term>\<open>Some []\<close>. The address
  entries hold plain byte lists, where nil and empty behave alike.
\<close>

section \<open>Data\<close>

type_synonym version = byte

definition V1 :: version where "V1 = 1"
definition V2 :: version where "V2 = 2"

definition tlvMAC :: byte where "tlvMAC = 0x01"
definition tlvMACIP :: byte where "tlvMACIP = 0x02"
definition tlvFirmware :: byte where "tlvFirmware = 0x03"
definition tlvUptime :: byte where "tlvUptime = 0x0a"
definition tlvHostname :: byte where "tlvHostname = 0x0b"
definition tlvPlatform :: byte where "tlvPlatform = 0x0c"
definition tlvESSID :: byte where "tlvESSID = 0x0d"
definition tlvWmode :: byte where "tlvWmode = 0x0e"
definition tlvSeq :: byte where "tlvSeq = 0x12"
definition tlvSrcMAC :: byte where "tlvSrcMAC = 0x13"
definition tlvModel :: byte where "tlvModel = 0x15"
definition tlvNetmask :: byte where "tlvNetmask = 0x35"

lemmas tlv_defs = tlvMAC_def tlvMACIP_def tlvFirmware_def tlvUptime_def tlvHostname_def
  tlvPlatform_def tlvESSID_def tlvWmode_def tlvSeq_def tlvSrcMAC_def tlvModel_def tlvNetmask_def

record address =
  addr_MAC :: bytes
  addr_IP :: bytes

record announcement =
  Version :: version
  Command :: byte
  MAC :: "bytes option"
  Addresses :: "address list"
  Firmware :: string
  Uptime :: u32
  Hostname :: string
  Platform :: string
  ESSID :: string
  Wmode :: u32
  Seq :: u32
  SourceMAC :: "bytes option"
  Model :: string
  Netmask :: "bytes option"

datatype discovery_error =
    VersionRequired
  | BadMAC nat
  | BadAddressMAC nat
  | AddressNotIPv4 bytes
  | BadSourceMAC nat
  | NetmaskNotIPv4 bytes
  | BodyTooLong nat
  | PacketTooShort nat
  | BodyExceedsPacket nat nat
  | TruncatedTLVHeader
  | TLVOverrun byte nat

section \<open>Marshal\<close>

definition putTLV :: "bytes \<Rightarrow> byte \<Rightarrow> bytes \<Rightarrow> bytes" where
  "putTLV buf typ val = buf @ typ # put_u16 (word_of_nat (length val)) @ val"

definition putU32 :: "bytes \<Rightarrow> byte \<Rightarrow> u32 \<Rightarrow> bytes" where
  "putU32 buf typ v = putTLV buf typ (put_u32 v)"

definition put_string :: "bytes \<Rightarrow> byte \<Rightarrow> string \<Rightarrow> bytes" where
  "put_string buf typ s = (if s \<noteq> [] then putTLV buf typ (bytes_of s) else buf)"

definition put_number :: "bytes \<Rightarrow> byte \<Rightarrow> u32 \<Rightarrow> bytes" where
  "put_number buf typ v = (if v \<noteq> 0 then putU32 buf typ v else buf)"

definition put_address :: "address \<Rightarrow> bytes \<Rightarrow> discovery_error + bytes" where
  "put_address ad body =
     (if length (addr_MAC ad) \<noteq> 6 then Inl (BadAddressMAC (length (addr_MAC ad)))
      else (case to4 (addr_IP ad) of
              None \<Rightarrow> Inl (AddressNotIPv4 (addr_IP ad))
            | Some ip \<Rightarrow> Inr (putTLV body tlvMACIP (addr_MAC ad @ ip))))"

definition put_hardware :: "(nat \<Rightarrow> discovery_error) \<Rightarrow> byte \<Rightarrow> bytes option \<Rightarrow> bytes \<Rightarrow> discovery_error + bytes" where
  "put_hardware err typ m body =
     (case m of
        None \<Rightarrow> Inr body
      | Some hw \<Rightarrow> if length hw \<noteq> 6 then Inl (err (length hw)) else Inr (putTLV body typ hw))"

definition put_netmask :: "bytes option \<Rightarrow> bytes \<Rightarrow> discovery_error + bytes" where
  "put_netmask n body =
     (case n of
        None \<Rightarrow> Inr body
      | Some ip \<Rightarrow> (case to4 ip of None \<Rightarrow> Inl (NetmaskNotIPv4 ip)
                    | Some v \<Rightarrow> Inr (putTLV body tlvNetmask v)))"

definition put_common :: "announcement \<Rightarrow> bytes \<Rightarrow> bytes" where
  "put_common a body =
     (let body = put_string body tlvFirmware (Firmware a);
          body = put_number body tlvUptime (Uptime a);
          body = put_string body tlvHostname (Hostname a);
          body = put_string body tlvPlatform (Platform a);
          body = put_string body tlvESSID (ESSID a)
      in put_number body tlvWmode (Wmode a))"

definition put_v2 :: "announcement \<Rightarrow> bytes \<Rightarrow> discovery_error + bytes" where
  "put_v2 a body =
     (if Version a = V2 then
        rbind (put_hardware BadSourceMAC tlvSrcMAC (SourceMAC a) (put_number body tlvSeq (Seq a)))
          (\<lambda>body. Inr (put_string body tlvModel (Model a)))
      else Inr body)"

definition marshal_body :: "announcement \<Rightarrow> discovery_error + bytes" where
  "marshal_body a =
     rbind (put_hardware BadMAC tlvMAC (MAC a) [])
       (\<lambda>body. rbind (rfold put_address (Addresses a) body)
       (\<lambda>body. rbind (put_v2 a (put_common a body))
       (\<lambda>body. put_netmask (Netmask a) body)))"

definition Marshal :: "announcement \<Rightarrow> discovery_error + bytes" where
  "Marshal a =
     (if Version a = 0 then Inl VersionRequired
      else rbind (marshal_body a) (\<lambda>body.
        if length body > 0xffff then Inl (BodyTooLong (length body))
        else Inr ([Version a, Command a] @ put_u16 (word_of_nat (length body)) @ body)))"

section \<open>Parse\<close>

definition empty_announcement :: "version \<Rightarrow> byte \<Rightarrow> announcement" where
  "empty_announcement v c =
     \<lparr>Version = v, Command = c, MAC = None, Addresses = [], Firmware = [], Uptime = 0,
      Hostname = [], Platform = [], ESSID = [], Wmode = 0, Seq = 0, SourceMAC = None,
      Model = [], Netmask = None\<rparr>"

text \<open>The switch over the TLV type: a known type with another length changes nothing.\<close>

definition apply_tlv :: "byte \<Rightarrow> bytes \<Rightarrow> announcement \<Rightarrow> announcement" where
  "apply_tlv typ v a =
     (if typ = tlvMAC then (if length v = 6 then a\<lparr>MAC := Some v\<rparr> else a)
      else if typ = tlvMACIP then
        (if length v = 10
         then a\<lparr>Addresses := Addresses a @ [\<lparr>addr_MAC = take 6 v, addr_IP = drop 6 v\<rparr>]\<rparr> else a)
      else if typ = tlvFirmware then a\<lparr>Firmware := string_of v\<rparr>
      else if typ = tlvUptime then (if length v = 4 then a\<lparr>Uptime := get_u32 v\<rparr> else a)
      else if typ = tlvHostname then a\<lparr>Hostname := string_of v\<rparr>
      else if typ = tlvPlatform then a\<lparr>Platform := string_of v\<rparr>
      else if typ = tlvESSID then a\<lparr>ESSID := string_of v\<rparr>
      else if typ = tlvWmode then (if length v = 4 then a\<lparr>Wmode := get_u32 v\<rparr> else a)
      else if typ = tlvSeq then (if length v = 4 then a\<lparr>Seq := get_u32 v\<rparr> else a)
      else if typ = tlvSrcMAC then (if length v = 6 then a\<lparr>SourceMAC := Some v\<rparr> else a)
      else if typ = tlvModel then a\<lparr>Model := string_of v\<rparr>
      else if typ = tlvNetmask then (if length v = 4 then a\<lparr>Netmask := Some v\<rparr> else a)
      else a)"

function parse_tlvs :: "announcement \<Rightarrow> bytes \<Rightarrow> discovery_error + announcement" where
  "parse_tlvs a b =
     (if b = [] then Inr a
      else if length b < 3 then Inl TruncatedTLVHeader
      else
        (let typ = b ! 0; n = unat (get_u16 (drop 1 b)) in
         if 3 + n > length b then Inl (TLVOverrun typ n)
         else parse_tlvs (apply_tlv typ (take n (drop 3 b)) a) (drop (3 + n) b)))"
  by pat_completeness auto
termination
  by (relation "measure (\<lambda>(a, b). length b)") auto

declare parse_tlvs.simps [simp del]

definition Parse :: "bytes \<Rightarrow> discovery_error + announcement" where
  "Parse pkt =
     (if length pkt < 4 then Inl (PacketTooShort (length pkt))
      else
        (let a = empty_announcement (pkt ! 0) (pkt ! 1);
             bodyLen = unat (get_u16 (drop 2 pkt)) in
         if 4 + bodyLen > length pkt then Inl (BodyExceedsPacket bodyLen (length pkt))
         else parse_tlvs a (take bodyLen (drop 4 pkt))))"

section \<open>Lemmas\<close>

subsection \<open>One TLV at a time\<close>

lemma unat_word16_of_nat: "n \<le> 0xffff \<Longrightarrow> unat (word_of_nat n :: u16) = n"
  by (simp add: unat_of_nat)

definition tlv :: "byte \<Rightarrow> bytes \<Rightarrow> bytes" where
  "tlv typ val = typ # put_u16 (word_of_nat (length val)) @ val"

lemma putTLV_tlv: "putTLV buf typ val = buf @ tlv typ val"
  by (simp add: putTLV_def tlv_def)

lemma length_tlv [simp]: "length (tlv typ val) = 3 + length val"
  by (simp add: tlv_def)

lemma parse_tlvs_Nil [simp]: "parse_tlvs a [] = Inr a"
  by (simp add: parse_tlvs.simps)

lemma parse_tlvs_tlv:
  assumes "length val \<le> 0xffff"
  shows "parse_tlvs a (tlv typ val @ rest) = parse_tlvs (apply_tlv typ val a) rest"
proof -
  let ?w = "word_of_nat (length val) :: u16"
  define b where "b = tlv typ val @ rest"
  have b_eq: "b = typ # put_u16 ?w @ val @ rest" by (simp add: b_def tlv_def)
  have n: "unat (get_u16 (drop (Suc 0) b)) = length val"
    using assms by (simp add: b_eq unat_word16_of_nat)
  have len: "length b = 3 + length val + length rest" by (simp add: b_def)
  have val: "take (length val) (drop 3 b) = val" by (simp add: b_eq put_u16_def)
  have rest: "drop (3 + length val) b = rest" by (simp add: b_def)
  have hd: "b ! 0 = typ" "b \<noteq> []" by (simp_all add: b_eq)
  have "parse_tlvs a b = parse_tlvs (apply_tlv typ val a) rest"
    by (subst parse_tlvs.simps) (simp add: n len val rest hd Let_def)
  then show ?thesis by (simp add: b_def)
qed

text \<open>A sequence of TLVs is parsed as the fold of the switch.\<close>

definition tlvs :: "(byte \<times> bytes) list \<Rightarrow> bytes" where
  "tlvs ts = concat (map (\<lambda>(t, v). tlv t v) ts)"

lemma tlvs_simps [simp]:
  "tlvs [] = []"
  "tlvs (p # ts) = tlv (fst p) (snd p) @ tlvs ts"
  "tlvs (ts @ us) = tlvs ts @ tlvs us"
  by (simp_all add: tlvs_def split_def)

lemma parse_tlvs_tlvs:
  assumes "length (tlvs ts) \<le> 0xffff"
  shows "parse_tlvs a (tlvs ts @ rest) = parse_tlvs (fold (\<lambda>(t, v). apply_tlv t v) ts a) rest"
  using assms
proof (induction ts arbitrary: a)
  case (Cons p ts)
  obtain t v where p: "p = (t, v)" by (cases p)
  with Cons show ?case by (simp add: parse_tlvs_tlv)
qed simp

subsection \<open>The body as a sequence of TLVs\<close>

definition opt_tlv :: "bool \<Rightarrow> byte \<Rightarrow> bytes \<Rightarrow> (byte \<times> bytes) list" where
  "opt_tlv b t v = (if b then [(t, v)] else [])"

definition address_tlv :: "address \<Rightarrow> byte \<times> bytes" where
  "address_tlv ad = (tlvMACIP, addr_MAC ad @ the (to4 (addr_IP ad)))"

definition body_tlvs :: "announcement \<Rightarrow> (byte \<times> bytes) list" where
  "body_tlvs a =
     opt_tlv (MAC a \<noteq> None) tlvMAC (the (MAC a)) @
     map address_tlv (Addresses a) @
     opt_tlv (Firmware a \<noteq> []) tlvFirmware (bytes_of (Firmware a)) @
     opt_tlv (Uptime a \<noteq> 0) tlvUptime (put_u32 (Uptime a)) @
     opt_tlv (Hostname a \<noteq> []) tlvHostname (bytes_of (Hostname a)) @
     opt_tlv (Platform a \<noteq> []) tlvPlatform (bytes_of (Platform a)) @
     opt_tlv (ESSID a \<noteq> []) tlvESSID (bytes_of (ESSID a)) @
     opt_tlv (Wmode a \<noteq> 0) tlvWmode (put_u32 (Wmode a)) @
     opt_tlv (Version a = V2 \<and> Seq a \<noteq> 0) tlvSeq (put_u32 (Seq a)) @
     opt_tlv (Version a = V2 \<and> SourceMAC a \<noteq> None) tlvSrcMAC (the (SourceMAC a)) @
     opt_tlv (Version a = V2 \<and> Model a \<noteq> []) tlvModel (bytes_of (Model a)) @
     opt_tlv (Netmask a \<noteq> None) tlvNetmask (the (to4 (the (Netmask a))))"

definition good_address :: "address \<Rightarrow> bool" where
  "good_address ad \<longleftrightarrow> length (addr_MAC ad) = 6 \<and> to4 (addr_IP ad) \<noteq> None"

text \<open>The announcements \<^verbatim>\<open>Marshal\<close> accepts, apart from the bound on the length\<close>

definition marshalable :: "announcement \<Rightarrow> bool" where
  "marshalable a \<longleftrightarrow>
     Version a \<noteq> 0 \<and> (\<forall>m. MAC a = Some m \<longrightarrow> length m = 6) \<and>
     list_all good_address (Addresses a) \<and>
     (\<forall>m. Version a = V2 \<and> SourceMAC a = Some m \<longrightarrow> length m = 6) \<and>
     (\<forall>n. Netmask a = Some n \<longrightarrow> to4 n \<noteq> None)"

lemma put_address_Inr:
  "put_address ad body = Inr out \<longleftrightarrow>
     good_address ad \<and> out = body @ tlv (fst (address_tlv ad)) (snd (address_tlv ad))"
  by (auto simp: put_address_def good_address_def address_tlv_def putTLV_tlv
      split: if_splits option.splits)

lemma put_addresses_Inr:
  "rfold put_address ads body = Inr out \<longleftrightarrow>
     list_all good_address ads \<and> out = body @ tlvs (map address_tlv ads)"
proof (induction ads arbitrary: body)
  case (Cons ad ads)
  show ?case by (auto simp: Cons.IH go_result put_address_Inr)
qed auto

lemma put_string_tlvs: "put_string body t s = body @ tlvs (opt_tlv (s \<noteq> []) t (bytes_of s))"
  by (simp add: put_string_def opt_tlv_def putTLV_tlv)

lemma put_number_tlvs: "put_number body t v = body @ tlvs (opt_tlv (v \<noteq> 0) t (put_u32 v))"
  by (simp add: put_number_def putU32_def opt_tlv_def putTLV_tlv)

lemma put_hardware_Inr:
  "put_hardware err t m body = Inr out \<longleftrightarrow>
     (\<forall>hw. m = Some hw \<longrightarrow> length hw = 6) \<and> out = body @ tlvs (opt_tlv (m \<noteq> None) t (the m))"
  by (auto simp: put_hardware_def opt_tlv_def putTLV_tlv split: option.splits if_splits)

lemma put_netmask_Inr:
  "put_netmask n body = Inr out \<longleftrightarrow>
     (\<forall>ip. n = Some ip \<longrightarrow> to4 ip \<noteq> None) \<and>
     out = body @ tlvs (opt_tlv (n \<noteq> None) tlvNetmask (the (to4 (the n))))"
  by (auto simp: put_netmask_def opt_tlv_def putTLV_tlv split: option.splits)

lemma put_v2_Inr:
  "put_v2 a body = Inr out \<longleftrightarrow>
     (\<forall>m. Version a = V2 \<and> SourceMAC a = Some m \<longrightarrow> length m = 6) \<and>
     out = body @ tlvs (
       opt_tlv (Version a = V2 \<and> Seq a \<noteq> 0) tlvSeq (put_u32 (Seq a)) @
       opt_tlv (Version a = V2 \<and> SourceMAC a \<noteq> None) tlvSrcMAC (the (SourceMAC a)) @
       opt_tlv (Version a = V2 \<and> Model a \<noteq> []) tlvModel (bytes_of (Model a)))"
  by (cases "Version a = V2")
    (auto simp: put_v2_def go_result put_hardware_Inr put_string_tlvs put_number_tlvs opt_tlv_def)

lemma marshal_body_Inr:
  assumes "marshal_body a = Inr out" and "Version a \<noteq> 0"
  shows "marshalable a \<and> out = tlvs (body_tlvs a)"
  using assms unfolding marshal_body_def marshalable_def body_tlvs_def put_common_def Let_def
  by (simp add: go_result put_hardware_Inr put_addresses_Inr put_v2_Inr put_netmask_Inr
      put_string_tlvs put_number_tlvs)

lemma Marshal_Inr:
  assumes "Marshal a = Inr out"
  shows "marshalable a" and "length (tlvs (body_tlvs a)) \<le> 0xffff"
    and "out = [Version a, Command a] @ put_u16 (word_of_nat (length (tlvs (body_tlvs a)))) @
           tlvs (body_tlvs a)"
  using assms marshal_body_Inr [of a] unfolding Marshal_def
  by (auto simp: go_result split: if_splits)

subsection \<open>What the parser reads back\<close>

text \<open>
  The announcement as the receiver sees it: addresses and netmask in their 4-byte form, and
  for a version other than 2 none of the version-2 fields.
\<close>

definition wire_address :: "address \<Rightarrow> address" where
  "wire_address ad = ad\<lparr>addr_IP := the (to4 (addr_IP ad))\<rparr>"

definition wire_form :: "announcement \<Rightarrow> announcement" where
  "wire_form a =
     (let a = a\<lparr>Addresses := map wire_address (Addresses a),
                Netmask := map_option (\<lambda>n. the (to4 n)) (Netmask a)\<rparr>
      in if Version a = V2 then a else a\<lparr>Seq := 0, SourceMAC := None, Model := []\<rparr>)"

lemma apply_address_tlvs:
  "list_all good_address ads \<Longrightarrow>
   fold (\<lambda>(t, v). apply_tlv t v) (map address_tlv ads) a =
     a\<lparr>Addresses := Addresses a @ map wire_address ads\<rparr>"
proof (induction ads arbitrary: a)
  case (Cons ad ads)
  then obtain ip where ip: "to4 (addr_IP ad) = Some ip" "length ip = 4" "length (addr_MAC ad) = 6"
    by (auto simp: good_address_def dest: to4_length)
  then have "apply_tlv tlvMACIP (addr_MAC ad @ ip) a =
      a\<lparr>Addresses := Addresses a @ [wire_address ad]\<rparr>"
    by (simp add: apply_tlv_def tlv_defs wire_address_def)
  with Cons ip show ?case by (simp add: address_tlv_def)
qed simp

lemma apply_tlv_simps:
  "length v = 6 \<Longrightarrow> apply_tlv tlvMAC v a = a\<lparr>MAC := Some v\<rparr>"
  "apply_tlv tlvFirmware v a = a\<lparr>Firmware := string_of v\<rparr>"
  "length v = 4 \<Longrightarrow> apply_tlv tlvUptime v a = a\<lparr>Uptime := get_u32 v\<rparr>"
  "apply_tlv tlvHostname v a = a\<lparr>Hostname := string_of v\<rparr>"
  "apply_tlv tlvPlatform v a = a\<lparr>Platform := string_of v\<rparr>"
  "apply_tlv tlvESSID v a = a\<lparr>ESSID := string_of v\<rparr>"
  "length v = 4 \<Longrightarrow> apply_tlv tlvWmode v a = a\<lparr>Wmode := get_u32 v\<rparr>"
  "length v = 4 \<Longrightarrow> apply_tlv tlvSeq v a = a\<lparr>Seq := get_u32 v\<rparr>"
  "length v = 6 \<Longrightarrow> apply_tlv tlvSrcMAC v a = a\<lparr>SourceMAC := Some v\<rparr>"
  "apply_tlv tlvModel v a = a\<lparr>Model := string_of v\<rparr>"
  "length v = 4 \<Longrightarrow> apply_tlv tlvNetmask v a = a\<lparr>Netmask := Some v\<rparr>"
  by (simp_all add: apply_tlv_def tlv_defs)

abbreviation apply_tlvs :: "(byte \<times> bytes) list \<Rightarrow> announcement \<Rightarrow> announcement" where
  "apply_tlvs \<equiv> fold (\<lambda>(t, v). apply_tlv t v)"

text \<open>A field that is omitted when it has its zero value is read back as it was.\<close>

lemma apply_opt_tlv:
  "MAC a = None \<Longrightarrow> \<forall>m. x = Some m \<longrightarrow> length m = 6 \<Longrightarrow>
     apply_tlvs (opt_tlv (x \<noteq> None) tlvMAC (the x)) a = a\<lparr>MAC := x\<rparr>"
  "Firmware a = [] \<Longrightarrow>
     apply_tlvs (opt_tlv (s \<noteq> []) tlvFirmware (bytes_of s)) a = a\<lparr>Firmware := s\<rparr>"
  "Uptime a = 0 \<Longrightarrow> apply_tlvs (opt_tlv (n \<noteq> 0) tlvUptime (put_u32 n)) a = a\<lparr>Uptime := n\<rparr>"
  "Hostname a = [] \<Longrightarrow>
     apply_tlvs (opt_tlv (s \<noteq> []) tlvHostname (bytes_of s)) a = a\<lparr>Hostname := s\<rparr>"
  "Platform a = [] \<Longrightarrow>
     apply_tlvs (opt_tlv (s \<noteq> []) tlvPlatform (bytes_of s)) a = a\<lparr>Platform := s\<rparr>"
  "ESSID a = [] \<Longrightarrow> apply_tlvs (opt_tlv (s \<noteq> []) tlvESSID (bytes_of s)) a = a\<lparr>ESSID := s\<rparr>"
  "Wmode a = 0 \<Longrightarrow> apply_tlvs (opt_tlv (n \<noteq> 0) tlvWmode (put_u32 n)) a = a\<lparr>Wmode := n\<rparr>"
  "Seq a = 0 \<Longrightarrow> apply_tlvs (opt_tlv (b \<and> n \<noteq> 0) tlvSeq (put_u32 n)) a
     = a\<lparr>Seq := (if b then n else 0)\<rparr>"
  "SourceMAC a = None \<Longrightarrow> \<forall>m. b \<and> x = Some m \<longrightarrow> length m = 6 \<Longrightarrow>
     apply_tlvs (opt_tlv (b \<and> x \<noteq> None) tlvSrcMAC (the x)) a
     = a\<lparr>SourceMAC := (if b then x else None)\<rparr>"
  "Model a = [] \<Longrightarrow> apply_tlvs (opt_tlv (b \<and> s \<noteq> []) tlvModel (bytes_of s)) a
     = a\<lparr>Model := (if b then s else [])\<rparr>"
  "Netmask a = None \<Longrightarrow> \<forall>n. x = Some n \<longrightarrow> to4 n \<noteq> None \<Longrightarrow>
     apply_tlvs (opt_tlv (x \<noteq> None) tlvNetmask (the (to4 (the x)))) a
     = a\<lparr>Netmask := map_option (\<lambda>n. the (to4 n)) x\<rparr>"
  by (cases a; auto simp: opt_tlv_def apply_tlv_simps dest: to4_length)+

lemma fold_body_tlvs:
  assumes "marshalable a"
  shows "apply_tlvs (body_tlvs a) (empty_announcement (Version a) (Command a)) = wire_form a"
proof -
  have ads: "list_all good_address (Addresses a)"
    and hw: "\<forall>m. MAC a = Some m \<longrightarrow> length m = 6"
    and src: "\<forall>m. Version a = V2 \<and> SourceMAC a = Some m \<longrightarrow> length m = 6"
    and mask: "\<forall>n. Netmask a = Some n \<longrightarrow> to4 n \<noteq> None"
    using assms by (auto simp: marshalable_def)
  show ?thesis
    by (simp add: body_tlvs_def wire_form_def empty_announcement_def Let_def
        apply_opt_tlv apply_address_tlvs [OF ads] hw src mask del: not_None_eq)
qed

subsection \<open>Truncation and errors\<close>

lemma parse_tlvs_extends:
  assumes "parse_tlvs a b = Inr r"
  shows "parse_tlvs a (b @ c) = parse_tlvs r c"
  using assms
proof (induction a b rule: parse_tlvs.induct)
  case (1 a b)
  show ?case
  proof (cases "b = []")
    case True
    with "1" show ?thesis by simp
  next
    case False
    let ?n = "unat (get_u16 (drop (Suc 0) b))"
    have b3: "3 \<le> length b" and n: "3 + ?n \<le> length b"
      and rec: "parse_tlvs (apply_tlv (b ! 0) (take ?n (drop 3 b)) a) (drop (3 + ?n) b) = Inr r"
      using "1.prems" False by (simp_all add: parse_tlvs.simps [of a b] Let_def split: if_splits)
    obtain x y z w where b: "b = x # y # z # w" using b3
      by (metis Suc_le_length_iff numeral_3_eq_3)
    have "get_u16 (drop (Suc 0) (b @ c)) = get_u16 (drop (Suc 0) b)" by (simp add: b)
    moreover have "parse_tlvs (apply_tlv (b ! 0) (take ?n (drop 3 b)) a) (drop (3 + ?n) b @ c)
        = parse_tlvs r c"
      using "1.IH" False b3 n rec by (simp add: Let_def)
    ultimately show ?thesis using False b3 n
      by (subst parse_tlvs.simps) (simp add: Let_def nth_append)
  qed
qed

subsection \<open>Whole packets\<close>

definition packet :: "version \<Rightarrow> byte \<Rightarrow> bytes \<Rightarrow> bytes" where
  "packet v c body = [v, c] @ put_u16 (word_of_nat (length body)) @ body"

lemma Parse_packet:
  assumes "length body \<le> 0xffff"
  shows "Parse (packet v c body @ junk) = parse_tlvs (empty_announcement v c) body"
proof -
  let ?w = "word_of_nat (length body) :: u16"
  define b where "b = packet v c body @ junk"
  have b: "b = v # c # put_u16 ?w @ body @ junk" by (simp add: b_def packet_def)
  have "length b = 4 + length body + length junk" "b ! 0 = v" "b ! Suc 0 = c"
    by (simp_all add: b)
  moreover have "unat (get_u16 (drop 2 b)) = length body"
    using assms by (simp add: b unat_word16_of_nat)
  moreover have "take (length body) (drop 4 b) = body" by (simp add: b put_u16_def)
  ultimately have "Parse b = parse_tlvs (empty_announcement v c) body"
    by (simp add: Parse_def Let_def)
  then show ?thesis by (simp add: b_def)
qed

lemma Marshal_packet:
  "Marshal a = Inr out \<Longrightarrow> out = packet (Version a) (Command a) (tlvs (body_tlvs a))"
  using Marshal_Inr [of a out] by (simp add: packet_def)

section \<open>Properties\<close>

text \<open>
  C23: A packet that \<^verbatim>\<open>Marshal\<close> produced, with anything behind it in the buffer, is parsed
  back to the announcement it was made from, in wire form: IPv4 addresses in four bytes, the
  fields of version 2 only in a version-2 packet.
\<close>

theorem discovery_roundtrip:
  assumes "Marshal a = Inr out"
  shows "Parse (out @ junk) = Inr (wire_form a)"
proof -
  let ?body = "tlvs (body_tlvs a)"
  have len: "length ?body \<le> 0xffff" and ok: "marshalable a"
    using Marshal_Inr [OF assms] by auto
  have "Parse (out @ junk) = parse_tlvs (empty_announcement (Version a) (Command a)) (?body @ [])"
    using Marshal_packet [OF assms] Parse_packet [OF len] by simp
  also have "\<dots> = Inr (wire_form a)"
    by (subst parse_tlvs_tlvs [OF len]) (simp add: fold_body_tlvs [OF ok])
  finally show ?thesis .
qed

definition sample_announcement :: announcement where
  "sample_announcement = (empty_announcement 2 6)
     \<lparr>MAC := Some [0, 0x27, 0x22, 0xe0, 0, 1],
      Addresses := [\<lparr>addr_MAC = [0, 0x27, 0x22, 0xe0, 0, 1], addr_IP = v4_in_v6 [192, 168, 1, 242]\<rparr>],
      Firmware := ''4.4.57'', Uptime := 7, Model := ''UGW3'', Seq := 3\<rparr>"

theorem discovery_roundtrip_witness:
  "\<exists>out. Marshal sample_announcement = Inr out \<and>
     Parse (out @ [1, 2, 3]) = Inr (wire_form sample_announcement)"
proof -
  have "\<exists>out. Marshal sample_announcement = Inr out"
    by (simp add: Marshal_def marshal_body_def sample_announcement_def empty_announcement_def
        put_hardware_def put_address_def put_v2_def put_common_def put_netmask_def put_string_def
        put_number_def putU32_def putTLV_def V2_def Let_def)
  then show ?thesis using discovery_roundtrip by blast
qed

definition known_types :: "byte set" where
  "known_types = {tlvMAC, tlvMACIP, tlvFirmware, tlvUptime, tlvHostname, tlvPlatform, tlvESSID,
     tlvWmode, tlvSeq, tlvSrcMAC, tlvModel, tlvNetmask}"

text \<open>
  A TLV whose type the parser does not know, anywhere in the body, changes nothing: the packet
  is parsed as if the TLV were not there.
\<close>

theorem unknown_tlv_skipped:
  assumes "typ \<notin> known_types"
    and "length (pre @ tlv typ val @ post) \<le> 0xffff"
    and "parse_tlvs (empty_announcement v c) pre = Inr a"
  shows "Parse (packet v c (pre @ tlv typ val @ post)) = Parse (packet v c (pre @ post))"
proof -
  have "apply_tlv typ val a = a" using assms(1) by (simp add: apply_tlv_def known_types_def)
  then have "parse_tlvs a (tlv typ val @ post) = parse_tlvs a post"
    using assms(2) by (simp add: parse_tlvs_tlv)
  then show ?thesis
    using Parse_packet [of "pre @ tlv typ val @ post" v c "[]"] Parse_packet [of "pre @ post" v c "[]"]
      assms(2) parse_tlvs_extends [OF assms(3)]
    by simp
qed

theorem unknown_tlv_skipped_witness:
  "Parse (packet 1 0 (tlv tlvESSID [120] @ tlv 0x99 [1, 2] @ tlv tlvModel [121])) =
   Parse (packet 1 0 (tlv tlvESSID [120] @ tlv tlvModel [121]))"
proof -
  have t: "(0x99 :: byte) \<notin> known_types" by (simp add: known_types_def tlv_defs)
  have "parse_tlvs (empty_announcement 1 0) (tlv tlvESSID [120] @ []) =
      Inr (apply_tlv tlvESSID [120] (empty_announcement 1 0))"
    by (subst parse_tlvs_tlv) simp_all
  then show ?thesis using unknown_tlv_skipped [OF t, of "tlv tlvESSID [120]"] by simp
qed

lemma marshal_body_complete:
  assumes "marshalable a"
  shows "marshal_body a = Inr (tlvs (body_tlvs a))"
proof -
  have 1: "put_hardware BadMAC tlvMAC (MAC a) [] = Inr (tlvs (opt_tlv (MAC a \<noteq> None) tlvMAC (the (MAC a))))"
    using assms by (subst put_hardware_Inr) (simp add: marshalable_def)
  have 2: "rfold put_address (Addresses a) body = Inr (body @ tlvs (map address_tlv (Addresses a)))" for body
    using assms by (subst put_addresses_Inr) (simp add: marshalable_def)
  have 3: "put_v2 a body = Inr (body @ tlvs (
       opt_tlv (Version a = V2 \<and> Seq a \<noteq> 0) tlvSeq (put_u32 (Seq a)) @
       opt_tlv (Version a = V2 \<and> SourceMAC a \<noteq> None) tlvSrcMAC (the (SourceMAC a)) @
       opt_tlv (Version a = V2 \<and> Model a \<noteq> []) tlvModel (bytes_of (Model a))))" for body
    using assms by (subst put_v2_Inr) (simp add: marshalable_def)
  have 4: "put_netmask (Netmask a) body = Inr (body @
       tlvs (opt_tlv (Netmask a \<noteq> None) tlvNetmask (the (to4 (the (Netmask a))))))" for body
    using assms by (subst put_netmask_Inr) (simp add: marshalable_def)
  show ?thesis
    by (simp add: marshal_body_def 1 2 3 4 put_common_def put_string_tlvs put_number_tlvs Let_def
        body_tlvs_def del: not_None_eq)
qed

text \<open>
  C24: \<^verbatim>\<open>Marshal\<close> accepts exactly the announcements with a version, six-byte hardware addresses,
  IPv4 addresses and a body of at most 65535 bytes; any other is an error, never a packet that is
  truncated or whose lengths wrapped.
\<close>

theorem marshal_accepts_iff:
  "(\<exists>out. Marshal a = Inr out) \<longleftrightarrow> marshalable a \<and> length (tlvs (body_tlvs a)) \<le> 65535"
proof
  assume "\<exists>out. Marshal a = Inr out"
  then show "marshalable a \<and> length (tlvs (body_tlvs a)) \<le> 65535"
    using Marshal_Inr by auto
next
  assume "marshalable a \<and> length (tlvs (body_tlvs a)) \<le> 65535"
  then show "\<exists>out. Marshal a = Inr out"
    using marshal_body_complete [of a] by (simp add: Marshal_def marshalable_def)
qed

end
