(* ===== verification/Go_Json.thy ===== *)
theory Go_Json
  imports Go_Strings
begin

text \<open>
  The part of \<^verbatim>\<open>encoding/json\<close> the program uses: the scanner and parser behind
  \<^verbatim>\<open>Unmarshal\<close>, the text \<^verbatim>\<open>Marshal\<close> writes, string quoting, and the rules by which an
  object is decoded into a struct. A document keeps number literals and the body of string literals
  as written, so that a \<^verbatim>\<open>json.RawMessage\<close> loses nothing but insignificant white space, as in
  Go's compaction.
\<close>

section \<open>Documents and tokens\<close>

datatype json =
    JNull
  | JBool bool
  | JNum string
  | JStr string
  | JArr "json list"
  | JObj "(string \<times> json) list"

datatype token =
    TLBrace | TRBrace | TLBrack | TRBrack | TComma | TColon
  | TNull | TTrue | TFalse | TNum string | TStr string

definition quote_mark :: char where "quote_mark = CHR 0x22"
definition backslash :: char where "backslash = CHR 0x5C"

definition is_ws :: "char \<Rightarrow> bool" where
  "is_ws c \<longleftrightarrow> code c = 32 \<or> code c = 9 \<or> code c = 10 \<or> code c = 13"

subsection \<open>The scanner\<close>

text \<open>The number grammar: sign, integer part, fraction, exponent.\<close>

definition num_exp :: "string \<Rightarrow> bool" where
  "num_exp s =
     (case s of [] \<Rightarrow> True
      | c # t \<Rightarrow> (c = CHR ''e'' \<or> c = CHR ''E'') \<and>
          (let d = (case t of [] \<Rightarrow> [] | x # u \<Rightarrow> if x = CHR ''+'' \<or> x = CHR ''-'' then u else t)
           in d \<noteq> [] \<and> list_all is_digit d))"

definition num_frac :: "string \<Rightarrow> bool" where
  "num_frac s =
     (case s of [] \<Rightarrow> True
      | c # t \<Rightarrow> if c = CHR ''.''
                 then takeWhile is_digit t \<noteq> [] \<and> num_exp (dropWhile is_digit t)
                 else num_exp s)"

definition num_body :: "string \<Rightarrow> bool" where
  "num_body s =
     (case s of [] \<Rightarrow> False
      | c # t \<Rightarrow> if c = CHR ''0'' then num_frac t
                 else is_digit c \<and> num_frac (dropWhile is_digit t))"

definition valid_num :: "string \<Rightarrow> bool" where
  "valid_num s = (case s of [] \<Rightarrow> False | c # t \<Rightarrow> if c = CHR ''-'' then num_body t else num_body s)"

definition num_char :: "char \<Rightarrow> bool" where
  "num_char c \<longleftrightarrow> is_digit c \<or> c = CHR ''-'' \<or> c = CHR ''+'' \<or> c = CHR ''.'' \<or> c = CHR ''e'' \<or> c = CHR ''E''"

definition num_start :: "char \<Rightarrow> bool" where
  "num_start c \<longleftrightarrow> is_digit c \<or> c = CHR ''-''"

definition simple_escapes :: string where
  "simple_escapes = [quote_mark, backslash, CHR ''/'', CHR ''b'', CHR ''f'', CHR ''n'', CHR ''r'', CHR ''t'']"

text \<open>A string literal after its opening quote: the body as written, and the rest.\<close>

fun lex_str :: "string \<Rightarrow> (string \<times> string) option" where
  "lex_str [] = None"
| "lex_str (c # s) =
     (if c = quote_mark then Some ([], s)
      else if c = backslash then
        (case s of
           e # t \<Rightarrow>
             (if e = CHR ''u'' then
                (case t of
                   h1 # h2 # h3 # h4 # t' \<Rightarrow>
                     (if list_all (\<lambda>h. hex_val h \<noteq> None) [h1, h2, h3, h4]
                      then map_option (\<lambda>(b, r). (c # e # h1 # h2 # h3 # h4 # b, r)) (lex_str t')
                      else None)
                 | _ \<Rightarrow> None)
              else if e \<in> set simple_escapes
              then map_option (\<lambda>(b, r). (c # e # b, r)) (lex_str t)
              else None)
         | [] \<Rightarrow> None)
      else if code c < 32 then None
      else map_option (\<lambda>(b, r). (c # b, r)) (lex_str s))"

lemma lex_str_length: "lex_str s = Some (b, r) \<Longrightarrow> length r < length s"
proof (induction s arbitrary: b r rule: lex_str.induct)
  case (2 c s)
  then show ?case
    by (auto split: if_splits list.splits) (force dest: less_SucI)+
qed simp

definition word_token :: "string \<Rightarrow> token option" where
  "word_token w =
     (if w = ''null'' then Some TNull else if w = ''true'' then Some TTrue
      else if w = ''false'' then Some TFalse else None)"

definition punct_token :: "char \<Rightarrow> token option" where
  "punct_token c =
     (if c = CHR ''{'' then Some TLBrace else if c = CHR ''}'' then Some TRBrace
      else if c = CHR ''['' then Some TLBrack else if c = CHR '']'' then Some TRBrack
      else if c = CHR '','' then Some TComma else if c = CHR '':'' then Some TColon else None)"

lemma length_dropWhile_Suc: "length (dropWhile P s) < Suc (length s)"
  using length_dropWhile_le [of P s] by simp

function lex :: "string \<Rightarrow> token list option" where
  "lex [] = Some []"
| "lex (c # s) =
     (if is_ws c then lex s
      else case punct_token c of
        Some t \<Rightarrow> map_option ((#) t) (lex s)
      | None \<Rightarrow>
        if c = quote_mark then
          (case lex_str s of None \<Rightarrow> None
           | Some (b, r) \<Rightarrow> if length r < length s then map_option ((#) (TStr b)) (lex r) else None)
        else if num_start c then
          (if valid_num (c # takeWhile num_char s)
           then map_option ((#) (TNum (c # takeWhile num_char s))) (lex (dropWhile num_char s))
           else None)
        else if is_lower c then
          (case word_token (c # takeWhile is_lower s) of None \<Rightarrow> None
           | Some t \<Rightarrow> map_option ((#) t) (lex (dropWhile is_lower s)))
        else None)"
  by pat_completeness auto
termination
  by (relation "measure length") (auto simp: length_dropWhile_Suc)

declare lex.simps(2) [simp del]

subsection \<open>The parser: a push-down machine that reads one token at a time\<close>

datatype frame = FArr "json list" | FObj "(string \<times> json) list" string

datatype mode = MVal | MArrFirst | MKey bool | MColon | MDone json

type_synonym config = "frame list \<times> mode"

definition max_nesting_depth :: nat where
  "max_nesting_depth = 10000"

definition push_frame :: "frame \<Rightarrow> frame list \<Rightarrow> mode \<Rightarrow> config option" where
  "push_frame f st m = (if length st < max_nesting_depth then Some (f # st, m) else None)"

definition value_step :: "frame list \<Rightarrow> token \<Rightarrow> config option" where
  "value_step st t =
     (case t of
        TNull \<Rightarrow> Some (st, MDone JNull)
      | TTrue \<Rightarrow> Some (st, MDone (JBool True))
      | TFalse \<Rightarrow> Some (st, MDone (JBool False))
      | TNum n \<Rightarrow> Some (st, MDone (JNum n))
      | TStr b \<Rightarrow> Some (st, MDone (JStr b))
      | TLBrack \<Rightarrow> push_frame (FArr []) st MArrFirst
      | TLBrace \<Rightarrow> push_frame (FObj [] []) st (MKey True)
      | _ \<Rightarrow> None)"

fun json_step :: "config \<Rightarrow> token \<Rightarrow> config option" where
  "json_step (st, MVal) t = value_step st t"
| "json_step (st, MArrFirst) t =
     (if t = TRBrack then (case st of FArr vs # st' \<Rightarrow> Some (st', MDone (JArr (rev vs))) | _ \<Rightarrow> None)
      else value_step st t)"
| "json_step (st, MKey first) t =
     (case (t, st) of
        (TStr k, FObj kvs _ # st') \<Rightarrow> Some (FObj kvs k # st', MColon)
      | (TRBrace, FObj kvs _ # st') \<Rightarrow> if first then Some (st', MDone (JObj (rev kvs))) else None
      | _ \<Rightarrow> None)"
| "json_step (st, MColon) t = (if t = TColon then Some (st, MVal) else None)"
| "json_step (st, MDone v) t =
     (case st of
        FArr vs # st' \<Rightarrow>
          (if t = TComma then Some (FArr (v # vs) # st', MVal)
           else if t = TRBrack then Some (st', MDone (JArr (rev (v # vs)))) else None)
      | FObj kvs k # st' \<Rightarrow>
          (if t = TComma then Some (FObj ((k, v) # kvs) [] # st', MKey False)
           else if t = TRBrace then Some (st', MDone (JObj (rev ((k, v) # kvs)))) else None)
      | [] \<Rightarrow> None)"

fun json_run :: "config \<Rightarrow> token list \<Rightarrow> config option" where
  "json_run c [] = Some c"
| "json_run c (t # ts) = Option.bind (json_step c t) (\<lambda>c'. json_run c' ts)"

definition json_parse :: "string \<Rightarrow> json option" where
  "json_parse s =
     (case lex s of None \<Rightarrow> None
      | Some ts \<Rightarrow> (case json_run ([], MVal) ts of Some ([], MDone v) \<Rightarrow> Some v | _ \<Rightarrow> None))"

subsection \<open>Writing a document\<close>

fun commas :: "token list list \<Rightarrow> token list" where
  "commas [] = []"
| "commas [x] = x"
| "commas (x # y # r) = x @ TComma # commas (y # r)"

fun tokens :: "json \<Rightarrow> token list" where
  "tokens JNull = [TNull]"
| "tokens (JBool b) = [if b then TTrue else TFalse]"
| "tokens (JNum n) = [TNum n]"
| "tokens (JStr b) = [TStr b]"
| "tokens (JArr vs) = TLBrack # commas (map tokens vs) @ [TRBrack]"
| "tokens (JObj kvs) = TLBrace # commas (map (\<lambda>(k, v). TStr k # TColon # tokens v) kvs) @ [TRBrace]"

fun token_text :: "token \<Rightarrow> string" where
  "token_text TLBrace = ''{''"
| "token_text TRBrace = ''}''"
| "token_text TLBrack = ''[''"
| "token_text TRBrack = '']''"
| "token_text TComma = '',''"
| "token_text TColon = '':''"
| "token_text TNull = ''null''"
| "token_text TTrue = ''true''"
| "token_text TFalse = ''false''"
| "token_text (TNum n) = n"
| "token_text (TStr b) = quote_mark # b @ [quote_mark]"

definition json_text :: "json \<Rightarrow> string" where
  "json_text v = concat (map token_text (tokens v))"

section \<open>Parsing what was written\<close>

fun json_depth :: "json \<Rightarrow> nat" where
  "json_depth (JArr vs) = Suc (foldr max (map json_depth vs) 0)"
| "json_depth (JObj kvs) = Suc (foldr max (map (\<lambda>(k, v). json_depth v) kvs) 0)"
| "json_depth _ = 0"

text \<open>A string body that the scanner reads as one literal\<close>

definition str_ok :: "string \<Rightarrow> bool" where
  "str_ok b \<longleftrightarrow> lex_str (b @ [quote_mark]) = Some (b, [])"

fun json_ok :: "json \<Rightarrow> bool" where
  "json_ok (JNum n) \<longleftrightarrow> valid_num n"
| "json_ok (JStr b) \<longleftrightarrow> str_ok b"
| "json_ok (JArr vs) \<longleftrightarrow> list_all json_ok vs"
| "json_ok (JObj kvs) \<longleftrightarrow> list_all (\<lambda>(k, v). str_ok k \<and> json_ok v) kvs"
| "json_ok _ \<longleftrightarrow> True"

subsection \<open>The parser inverts the token sequence\<close>

lemma json_run_append:
  "json_run c (xs @ ys) = Option.bind (json_run c xs) (\<lambda>c'. json_run c' ys)"
  by (induction xs arbitrary: c) (auto split: Option.bind_splits)

lemma foldr_max_ge: "x \<in> set xs \<Longrightarrow> x \<le> foldr max xs (0 :: nat)"
  by (induction xs) auto

lemma tokens_Cons: "\<exists>t ts. tokens v = t # ts \<and> t \<noteq> TRBrack"
  by (cases v) auto

lemma json_run_MArrFirst:
  "json_run (st, MArrFirst) (tokens v @ ts) = json_run (st, MVal) (tokens v @ ts)"
  using tokens_Cons [of v] by auto

lemma run_elements:
  assumes "vs \<noteq> []"
    and "\<And>v f. v \<in> set vs \<Longrightarrow> json_run (f # st, MVal) (tokens v) = Some (f # st, MDone v)"
  shows "json_run (FArr acc # st, MVal) (commas (map tokens vs) @ [TRBrack]) =
     Some (st, MDone (JArr (rev acc @ vs)))"
  using assms
proof (induction vs arbitrary: acc)
  case (Cons v vs)
  have v: "json_run (FArr acc # st, MVal) (tokens v) = Some (FArr acc # st, MDone v)"
    using Cons.prems(2) by simp
  show ?case
  proof (cases vs)
    case Nil
    then show ?thesis by (simp add: json_run_append v)
  next
    case (Cons w ws)
    then have "json_run (FArr (v # acc) # st, MVal) (commas (map tokens vs) @ [TRBrack]) =
        Some (st, MDone (JArr (rev (v # acc) @ vs)))"
      by (intro Cons.IH) (use Cons.prems in auto)
    then show ?thesis using Cons by (simp add: json_run_append v)
  qed
qed simp

abbreviation member_tokens :: "string \<times> json \<Rightarrow> token list" where
  "member_tokens \<equiv> \<lambda>(k, v). TStr k # TColon # tokens v"

lemma run_members:
  assumes "kvs \<noteq> []"
    and "\<And>k v f. (k, v) \<in> set kvs \<Longrightarrow> json_run (f # st, MVal) (tokens v) = Some (f # st, MDone v)"
  shows "json_run (FObj acc x # st, MKey first) (commas (map member_tokens kvs) @ [TRBrace]) =
     Some (st, MDone (JObj (rev acc @ kvs)))"
  using assms
proof (induction kvs arbitrary: acc x first)
  case (Cons kv kvs)
  obtain k v where kv: "kv = (k, v)" by (cases kv)
  have v: "json_run (FObj acc k # st, MVal) (tokens v) = Some (FObj acc k # st, MDone v)"
    using Cons.prems(2) [of k v "FObj acc k"] kv by simp
  show ?case
  proof (cases kvs)
    case Nil
    then show ?thesis by (simp add: kv json_run_append v)
  next
    case (Cons w ws)
    then have "json_run (FObj ((k, v) # acc) [] # st, MKey False) (commas (map member_tokens kvs) @ [TRBrace]) =
        Some (st, MDone (JObj (rev ((k, v) # acc) @ kvs)))"
      by (intro Cons.IH) (use Cons.prems in auto)
    then show ?thesis using Cons by (simp add: kv json_run_append v)
  qed
qed simp

lemma run_value:
  "length st + json_depth v \<le> max_nesting_depth \<Longrightarrow>
   json_run (st, MVal) (tokens v) = Some (st, MDone v)"
proof (induction v arbitrary: st)
  case (JArr vs)
  have st: "length st < max_nesting_depth" using JArr.prems by simp
  show ?case
  proof (cases vs)
    case Nil
    then show ?thesis using st by (simp add: value_step_def push_frame_def)
  next
    case (Cons v ws)
    have "json_run (f # st, MVal) (tokens w) = Some (f # st, MDone w)" if w: "w \<in> set vs" for w f
    proof (rule JArr.IH [OF w])
      have "json_depth w \<le> foldr max (map json_depth vs) 0"
        using w by (intro foldr_max_ge) simp
      then show "length (f # st) + json_depth w \<le> max_nesting_depth" using JArr.prems by simp
    qed
    then have "json_run (FArr [] # st, MVal) (commas (map tokens vs) @ [TRBrack]) =
        Some (st, MDone (JArr (rev [] @ vs)))"
      using Cons by (intro run_elements) auto
    moreover have "json_run (FArr [] # st, MArrFirst) (commas (map tokens vs) @ [TRBrack]) =
        json_run (FArr [] # st, MVal) (commas (map tokens vs) @ [TRBrack])"
      using Cons by (cases ws) (simp_all add: json_run_MArrFirst)
    ultimately show ?thesis using st by (simp add: value_step_def push_frame_def)
  qed
next
  case (JObj kvs)
  have st: "length st < max_nesting_depth" using JObj.prems by simp
  show ?case
  proof (cases "kvs = []")
    case True
    then show ?thesis using st by (simp add: value_step_def push_frame_def)
  next
    case False
    have "json_run (f # st, MVal) (tokens w) = Some (f # st, MDone w)" if w: "(k, w) \<in> set kvs" for k w f
    proof (rule JObj.IH [OF w])
      have "json_depth w \<le> foldr max (map (\<lambda>(k, v). json_depth v) kvs) 0"
        using w by (intro foldr_max_ge) force
      then show "length (f # st) + json_depth w \<le> max_nesting_depth" using JObj.prems by simp
    qed (simp add: Basic_BNFs.snds.intros)
    then have "json_run (FObj [] [] # st, MKey True) (commas (map member_tokens kvs) @ [TRBrace]) =
        Some (st, MDone (JObj (rev [] @ kvs)))"
      using False by (intro run_members) auto
    then show ?thesis using st by (simp add: value_step_def push_frame_def)
  qed
qed (simp_all add: value_step_def)

subsection \<open>The scanner inverts the text of the tokens\<close>

lemma lex_str_extend: "lex_str s = Some (b, r) \<Longrightarrow> lex_str (s @ x) = Some (b, r @ x)"
proof (induction s arbitrary: b r rule: lex_str.induct)
  case (2 c s)
  show ?case
  proof (cases "c = quote_mark \<or> c \<noteq> backslash")
    case True
    with 2 show ?thesis by (auto split: if_splits)
  next
    case False
    then obtain e t where s: "s = e # t" using "2.prems" by (auto split: list.splits)
    show ?thesis
    proof (cases "e = CHR ''u''")
      case True
      then obtain h1 h2 h3 h4 t' where "t = h1 # h2 # h3 # h4 # t'"
        using "2.prems" False s by (auto split: list.splits)
      then show ?thesis using 2 False s True by (auto split: if_splits)
    next
      case e: False
      then show ?thesis using 2 False s by (auto split: if_splits)
    qed
  qed
qed simp

lemma lex_str_ok: "str_ok b \<Longrightarrow> lex_str (b @ quote_mark # s) = Some (b, s)"
  unfolding str_ok_def using lex_str_extend [of "b @ [quote_mark]" b "[]" s] by simp

lemma num_char_digit: "is_digit c \<Longrightarrow> num_char c"
  by (simp add: num_char_def)

lemma list_all_take_drop: "list_all P (takeWhile Q s) \<Longrightarrow> list_all P (dropWhile Q s) \<Longrightarrow> list_all P s"
  by (metis list_all_append takeWhile_dropWhile_id)

lemma list_all_takeWhile_digit: "list_all num_char (takeWhile is_digit s)"
  by (induction s) (auto simp: num_char_digit)

lemma num_exp_chars:
  assumes "num_exp s"
  shows "list_all num_char s"
proof (cases s)
  case (Cons c t)
  have digits: "list_all num_char d" if "list_all is_digit d" for d
    using that by (auto simp: list_all_iff num_char_digit)
  show ?thesis
    using assms Cons digits by (cases t) (auto simp: num_exp_def num_char_def Let_def split: if_splits)
qed simp

lemma num_frac_chars: "num_frac s \<Longrightarrow> list_all num_char s"
proof (cases s)
  case (Cons c t)
  assume "num_frac s"
  then show ?thesis
    using Cons num_exp_chars [of s] num_exp_chars [of "dropWhile is_digit t"]
      list_all_take_drop [OF list_all_takeWhile_digit, of t]
    by (auto simp: num_frac_def num_char_def split: if_splits)
qed simp

lemma num_body_chars: "num_body s \<Longrightarrow> \<exists>c t. s = c # t \<and> is_digit c \<and> list_all num_char t"
proof (cases s)
  case (Cons c t)
  assume "num_body s"
  moreover have "is_digit CHR ''0''" by (simp add: is_digit_def code_def)
  ultimately show ?thesis
    using Cons num_frac_chars [of t] num_frac_chars [of "dropWhile is_digit t"]
      list_all_take_drop [OF list_all_takeWhile_digit, of t]
    by (auto simp: num_body_def split: if_splits)
qed (simp add: num_body_def)

lemma valid_num_chars: "valid_num s \<Longrightarrow> \<exists>c t. s = c # t \<and> num_start c \<and> list_all num_char t"
  using num_body_chars [of s] num_body_chars [of "tl s"]
  by (auto simp: valid_num_def num_start_def num_char_digit split: list.splits if_splits)

definition delim :: "string \<Rightarrow> bool" where
  "delim s \<longleftrightarrow> s = [] \<or> punct_token (hd s) \<noteq> None"

lemma delim_simps [simp]:
  "delim []" "delim (CHR '','' # s)" "delim (CHR ''}'' # s)" "delim (CHR '']'' # s)"
  by (simp_all add: delim_def punct_token_def)

lemma punct_token_code:
  "punct_token c = None \<longleftrightarrow> code c \<notin> {123, 125, 91, 93, 44, 58}"
  by (simp add: punct_token_def char_eq_code char_codes)

lemma num_char_code:
  "num_char c \<longleftrightarrow> is_digit c \<or> code c \<in> {45, 43, 46, 101, 69}"
  by (simp add: num_char_def char_eq_code char_codes)

lemma num_start_code: "num_start c \<longleftrightarrow> is_digit c \<or> code c = 45"
  by (simp add: num_start_def char_eq_code char_codes)

lemma quote_code: "c = quote_mark \<longleftrightarrow> code c = 34"
  by (simp add: quote_mark_def char_eq_code char_codes)

lemmas class_codes = punct_token_code num_char_code num_start_code quote_code
  is_digit_def is_lower_def is_ws_def

lemma punct_char:
  "punct_token c \<noteq> None \<Longrightarrow> \<not> num_char c \<and> \<not> is_lower c \<and> \<not> is_ws c"
  unfolding class_codes by auto

lemma takeWhile_delim:
  assumes "list_all P t" and "delim s" and "\<And>c. punct_token c \<noteq> None \<Longrightarrow> \<not> P c"
  shows "takeWhile P (t @ s) = t" and "dropWhile P (t @ s) = s"
proof -
  have "takeWhile P s = []" "dropWhile P s = s" using assms(2,3) by (cases s; auto simp: delim_def)+
  moreover have "\<And>c. c \<in> set t \<Longrightarrow> P c" using assms(1) by (simp add: list_all_iff)
  ultimately show "takeWhile P (t @ s) = t" and "dropWhile P (t @ s) = s" by simp_all
qed

lemma num_start_class: "num_start c \<Longrightarrow> \<not> is_ws c \<and> punct_token c = None \<and> c \<noteq> quote_mark"
  unfolding class_codes by auto

lemma lex_num:
  assumes "valid_num n" and "delim s"
  shows "lex (n @ s) = map_option ((#) (TNum n)) (lex s)"
proof -
  obtain c t where n: "n = c # t" "num_start c" "list_all num_char t"
    using valid_num_chars [OF assms(1)] by blast
  have "takeWhile num_char (t @ s) = t" "dropWhile num_char (t @ s) = s"
    using takeWhile_delim [OF n(3) assms(2)] punct_char by blast+
  then show ?thesis using num_start_class [OF n(2)] assms(1) n by (simp add: lex.simps)
qed

lemma lex_word:
  assumes "word_token (c # t) = Some k" and "is_lower c" and "list_all is_lower t" and "delim s"
  shows "lex (c # t @ s) = map_option ((#) k) (lex s)"
proof -
  have "takeWhile is_lower (t @ s) = t" "dropWhile is_lower (t @ s) = s"
    using takeWhile_delim [OF assms(3,4)] punct_char by blast+
  moreover have "\<not> is_ws c \<and> punct_token c = None \<and> c \<noteq> quote_mark \<and> \<not> num_start c"
    using assms(2) unfolding class_codes by auto
  ultimately show ?thesis using assms(1,2) by (simp add: lex.simps)
qed

lemma lex_punct [simp]:
  "lex (CHR ''{'' # s) = map_option ((#) TLBrace) (lex s)"
  "lex (CHR ''}'' # s) = map_option ((#) TRBrace) (lex s)"
  "lex (CHR ''['' # s) = map_option ((#) TLBrack) (lex s)"
  "lex (CHR '']'' # s) = map_option ((#) TRBrack) (lex s)"
  "lex (CHR '','' # s) = map_option ((#) TComma) (lex s)"
  "lex (CHR '':'' # s) = map_option ((#) TColon) (lex s)"
  by (simp_all add: lex.simps punct_token_def is_ws_def code_def)

lemma lex_string:
  assumes "str_ok b"
  shows "lex (quote_mark # b @ quote_mark # s) = map_option ((#) (TStr b)) (lex s)"
  using lex_str_ok [OF assms, of s]
  by (simp add: lex.simps is_ws_def punct_token_def quote_mark_def code_def)

lemma append_fun:
  "(@) (x # xs) = (\<lambda>r. x # xs @ r)" "(@) (xs @ ys) = (\<lambda>r. xs @ ys @ r)" "(@) [] = (\<lambda>r. r)"
  by (simp_all add: fun_eq_iff)

abbreviation texts :: "token list \<Rightarrow> string" where
  "texts ts \<equiv> concat (map token_text ts)"

lemma lex_commas:
  assumes "\<And>x s. x \<in> set xs \<Longrightarrow> delim s \<Longrightarrow> lex (texts x @ s) = map_option ((@) x) (lex s)"
    and "delim s"
  shows "lex (texts (commas xs) @ s) = map_option ((@) (commas xs)) (lex s)"
  using assms(1)
proof (induction xs rule: commas.induct)
  case 1
  then show ?case by (cases "lex s") auto
next
  case (2 x)
  then show ?case using assms(2) by simp
next
  case (3 x y r)
  have "lex (texts x @ CHR '','' # texts (commas (y # r)) @ s) =
      map_option ((@) x) (lex (CHR '','' # texts (commas (y # r)) @ s))"
    using "3.prems" by simp
  moreover have "lex (texts (commas (y # r)) @ s) = map_option ((@) (commas (y # r))) (lex s)"
    using "3.IH" "3.prems" by simp
  ultimately show ?case by (simp add: option.map_comp o_def append_fun)
qed

lemma lex_value:
  "json_ok v \<Longrightarrow> delim s \<Longrightarrow> lex (texts (tokens v) @ s) = map_option ((@) (tokens v)) (lex s)"
proof (induction v arbitrary: s)
  case JNull
  then show ?case using lex_word [of "CHR ''n''" "''ull''" TNull s]
    by (simp add: word_token_def is_lower_def code_def append_fun)
next
  case (JBool b)
  then show ?case using lex_word [of "CHR ''t''" "''rue''" TTrue s] lex_word [of "CHR ''f''" "''alse''" TFalse s]
    by (simp add: word_token_def is_lower_def code_def append_fun)
next
  case (JNum n)
  then show ?case by (simp add: lex_num append_fun)
next
  case (JStr b)
  then show ?case by (simp add: lex_string append_fun)
next
  case (JArr vs)
  have "lex (texts (commas (map tokens vs)) @ CHR '']'' # s) =
      map_option ((@) (commas (map tokens vs))) (lex (CHR '']'' # s))"
    by (rule lex_commas) (use JArr in \<open>auto simp: list_all_iff\<close>)
  then show ?case by (simp add: option.map_comp o_def append_fun)
next
  case (JObj kvs)
  have "lex (texts (commas (map member_tokens kvs)) @ CHR ''}'' # s) =
      map_option ((@) (commas (map member_tokens kvs))) (lex (CHR ''}'' # s))"
  proof (rule lex_commas)
    fix x s'
    assume "x \<in> set (map member_tokens kvs)" and s': "delim s'"
    then obtain k v where kv: "(k, v) \<in> set kvs" "x = TStr k # TColon # tokens v" by auto
    have ok: "str_ok k" "json_ok v" using JObj.prems(1) kv(1) by (auto simp: list_all_iff)
    have "lex (texts (tokens v) @ s') = map_option ((@) (tokens v)) (lex s')"
      by (rule JObj.IH [OF kv(1) _ ok(2) s']) (simp add: Basic_BNFs.snds.intros)
    then show "lex (texts x @ s') = map_option ((@) x) (lex s')"
      using kv(2) ok(1) by (simp add: lex_string option.map_comp o_def append_fun)
  qed simp
  then show ?case by (simp add: option.map_comp o_def append_fun)
qed

lemma json_parse_text:
  assumes "json_ok v" and "json_depth v \<le> max_nesting_depth"
  shows "json_parse (json_text v) = Some v"
proof -
  have "lex (json_text v) = Some (tokens v)"
    using lex_value [OF assms(1), of "[]"] by (simp add: json_text_def)
  moreover have "json_run ([], MVal) (tokens v) = Some ([], MDone v)"
    using run_value [of "[]" v] assms(2) by simp
  ultimately show ?thesis by (simp add: json_parse_def)
qed

section \<open>What the parser returns is well formed\<close>

lemma lex_str_sound: "lex_str s = Some (b, r) \<Longrightarrow> str_ok b"
proof (induction s arbitrary: b r rule: lex_str.induct)
  case (2 c s)
  show ?case
  proof (cases "c = quote_mark \<or> c \<noteq> backslash")
    case True
    with 2 show ?thesis by (auto simp: str_ok_def split: if_splits)
  next
    case False
    then obtain e t where s: "s = e # t" using "2.prems" by (auto split: list.splits)
    show ?thesis
    proof (cases "e = CHR ''u''")
      case True
      then obtain h1 h2 h3 h4 t' where "t = h1 # h2 # h3 # h4 # t'"
        using "2.prems" False s by (auto split: list.splits)
      then show ?thesis using 2 False s True by (auto simp: str_ok_def split: if_splits)
    next
      case e: False
      then show ?thesis using 2 False s by (auto simp: str_ok_def split: if_splits)
    qed
  qed
qed simp

fun token_ok :: "token \<Rightarrow> bool" where
  "token_ok (TNum n) \<longleftrightarrow> valid_num n"
| "token_ok (TStr b) \<longleftrightarrow> str_ok b"
| "token_ok _ \<longleftrightarrow> True"

lemma word_punct_token_ok:
  "word_token w = Some t \<Longrightarrow> token_ok t" "punct_token c = Some t \<Longrightarrow> token_ok t"
  by (auto simp: word_token_def punct_token_def split: if_splits)

lemma lex_sound: "lex s = Some ts \<Longrightarrow> list_all token_ok ts"
proof (induction s arbitrary: ts rule: lex.induct)
  case (2 c s)
  show ?case
  proof (cases "is_ws c")
    case True
    then show ?thesis using 2 by (simp add: lex.simps)
  next
    case ws: False
    show ?thesis
    proof (cases "punct_token c")
      case (Some t)
      then obtain us where us: "lex s = Some us" "ts = t # us"
        using "2.prems" ws by (auto simp: lex.simps)
      show ?thesis
        using "2.IH"(5) [OF ws Some us(1)] word_punct_token_ok(2) [OF Some] us(2) by simp
    next
      case punct: None
      consider (str) "c = quote_mark" | (num) "c \<noteq> quote_mark" "num_start c"
        | (word) "c \<noteq> quote_mark" "\<not> num_start c" by blast
      then show ?thesis
      proof cases
        case str
        then obtain b r us where "lex_str s = Some (b, r)" "length r < length s" "lex r = Some us" "ts = TStr b # us"
          using "2.prems" ws punct by (auto simp: lex.simps split: option.splits if_splits)
        then show ?thesis
          using "2.IH"(2) [OF ws punct str] lex_str_sound [of s b r] by simp
      next
        case num
        then obtain us where us: "valid_num (c # takeWhile num_char s)" "lex (dropWhile num_char s) = Some us"
            "ts = TNum (c # takeWhile num_char s) # us"
          using "2.prems" ws punct by (auto simp: lex.simps split: if_splits)
        then show ?thesis using "2.IH"(3) [OF ws punct num us(1,2)] by simp
      next
        case word
        then have "is_lower c" using "2.prems" ws punct by (auto simp: lex.simps split: if_splits)
        moreover from this obtain t us where t: "word_token (c # takeWhile is_lower s) = Some t"
            "lex (dropWhile is_lower s) = Some us" "ts = t # us"
          using "2.prems" ws punct word by (auto simp: lex.simps split: option.splits)
        ultimately show ?thesis
          using "2.IH"(4) [OF ws punct word _ t(1,2)] word_punct_token_ok(1) [OF t(1)] by simp
      qed
    qed
  qed
qed simp

fun frame_ok :: "nat \<Rightarrow> frame \<Rightarrow> bool" where
  "frame_ok n (FArr vs) \<longleftrightarrow> (\<forall>v \<in> set vs. json_ok v \<and> n + json_depth v \<le> max_nesting_depth)"
| "frame_ok n (FObj kvs k) \<longleftrightarrow>
     str_ok k \<and> (\<forall>(k, v) \<in> set kvs. str_ok k \<and> json_ok v \<and> n + json_depth v \<le> max_nesting_depth)"

fun frames_ok :: "frame list \<Rightarrow> bool" where
  "frames_ok [] \<longleftrightarrow> True"
| "frames_ok (f # st) \<longleftrightarrow> length st < max_nesting_depth \<and> frame_ok (Suc (length st)) f \<and> frames_ok st"

fun config_ok :: "config \<Rightarrow> bool" where
  "config_ok (st, MDone v) \<longleftrightarrow> frames_ok st \<and> json_ok v \<and> length st + json_depth v \<le> max_nesting_depth"
| "config_ok (st, m) \<longleftrightarrow> frames_ok st \<and> length st \<le> max_nesting_depth"

lemma foldr_max_le: "(\<And>x. x \<in> set xs \<Longrightarrow> x \<le> (n :: nat)) \<Longrightarrow> foldr max xs 0 \<le> n"
  by (induction xs) auto

lemma close_array:
  assumes "frame_ok (Suc n) (FArr vs)" and "n < max_nesting_depth"
  shows "json_ok (JArr (rev vs)) \<and> n + json_depth (JArr (rev vs)) \<le> max_nesting_depth"
proof -
  have "foldr max (map json_depth (rev vs)) 0 \<le> max_nesting_depth - Suc n"
    using assms by (intro foldr_max_le) (auto simp: Let_def)
  then show ?thesis using assms by (auto simp: list_all_iff)
qed

lemma close_object:
  assumes "frame_ok (Suc n) (FObj kvs k)" and "n < max_nesting_depth"
  shows "json_ok (JObj (rev kvs)) \<and> n + json_depth (JObj (rev kvs)) \<le> max_nesting_depth"
proof -
  have "foldr max (map (\<lambda>(k, v). json_depth v) (rev kvs)) 0 \<le> max_nesting_depth - Suc n"
    using assms by (intro foldr_max_le) auto
  then show ?thesis using assms by (auto simp: list_all_iff)
qed

lemma str_ok_Nil [simp]: "str_ok []"
  by (simp add: str_ok_def)

lemma value_step_ok:
  "value_step st t = Some c \<Longrightarrow> token_ok t \<Longrightarrow> frames_ok st \<Longrightarrow> length st \<le> max_nesting_depth \<Longrightarrow> config_ok c"
  by (cases t) (auto simp: value_step_def push_frame_def split: if_splits)

lemma json_step_ok:
  assumes "json_step (st, m) t = Some c" and "config_ok (st, m)" and "token_ok t"
  shows "config_ok c"
proof (cases m)
  case MVal
  then show ?thesis using assms value_step_ok by auto
next
  case MArrFirst
  show ?thesis
  proof (cases "t = TRBrack")
    case True
    then obtain vs st' where "st = FArr vs # st'" "c = (st', MDone (JArr (rev vs)))"
      using assms MArrFirst by (auto split: list.splits frame.splits)
    then show ?thesis using assms MArrFirst close_array [of "length st'" vs] by auto
  next
    case False
    then show ?thesis using assms MArrFirst value_step_ok by auto
  qed
next
  case (MKey first)
  then consider k kvs x st' where "t = TStr k" "st = FObj kvs x # st'" "c = (FObj kvs k # st', MColon)"
    | kvs x st' where "t = TRBrace" "st = FObj kvs x # st'" "c = (st', MDone (JObj (rev kvs)))"
    using assms by (auto split: token.splits list.splits frame.splits if_splits)
  then show ?thesis
  proof cases
    case 1
    then show ?thesis using assms MKey by auto
  next
    case 2
    then show ?thesis using assms MKey close_object [of "length st'" kvs x] by auto
  qed
next
  case MColon
  then show ?thesis using assms by (auto split: if_splits)
next
  case (MDone v)
  then consider vs st' where "st = FArr vs # st'" "c = (FArr (v # vs) # st', MVal)"
    | vs st' where "st = FArr vs # st'" "c = (st', MDone (JArr (rev (v # vs))))"
    | kvs k st' where "st = FObj kvs k # st'" "c = (FObj ((k, v) # kvs) [] # st', MKey False)"
    | kvs k st' where "st = FObj kvs k # st'" "c = (st', MDone (JObj (rev ((k, v) # kvs))))"
    using assms by (auto split: list.splits frame.splits if_splits)
  then show ?thesis
  proof cases
    case 2
    then show ?thesis using assms MDone close_array [of "length st'" "v # vs"] by auto
  next
    case 4
    then show ?thesis using assms MDone close_object [of "length st'" "(k, v) # kvs" k] by auto
  qed (use assms MDone in auto)
qed

lemma json_run_ok:
  "json_run c ts = Some c' \<Longrightarrow> config_ok c \<Longrightarrow> list_all token_ok ts \<Longrightarrow> config_ok c'"
proof (induction ts arbitrary: c)
  case (Cons t ts)
  obtain st m where c: "c = (st, m)" by (cases c)
  obtain d where d: "json_step c t = Some d" "json_run d ts = Some c'"
    using Cons.prems(1) by (auto split: Option.bind_splits)
  then show ?case using Cons.IH Cons.prems c json_step_ok [of st m t d] by auto
qed simp

lemma json_parse_sound:
  assumes "json_parse s = Some v"
  shows "json_ok v" and "json_depth v \<le> max_nesting_depth"
proof -
  obtain ts where ts: "lex s = Some ts" "json_run ([], MVal) ts = Some ([], MDone v)"
    using assms by (auto simp: json_parse_def split: option.splits prod.splits list.splits mode.splits)
  have "config_ok ([], MDone v)"
    using json_run_ok [OF ts(2)] lex_sound [OF ts(1)] by simp
  then show "json_ok v" and "json_depth v \<le> max_nesting_depth" by simp_all
qed

section \<open>A written document is one line\<close>

lemma hex_val_printable: "hex_val h \<noteq> None \<Longrightarrow> 32 \<le> code h"
  by (auto simp: hex_val_def is_digit_def split: if_splits)

lemma escape_printable:
  "e \<in> set simple_escapes \<Longrightarrow> 32 \<le> code e" "32 \<le> code backslash" "32 \<le> code CHR ''u''"
  by (auto simp: simple_escapes_def quote_mark_def backslash_def code_def)

lemma lex_str_printable: "lex_str s = Some (b, r) \<Longrightarrow> \<forall>c \<in> set b. 32 \<le> code c"
proof (induction s arbitrary: b r rule: lex_str.induct)
  case (2 c s)
  consider "c = quote_mark" | (esc) "c \<noteq> quote_mark" "c = backslash"
    | (plain) "c \<noteq> quote_mark" "c \<noteq> backslash" "\<not> code c < 32"
    using "2.prems" by (auto split: if_splits)
  then show ?case
  proof cases
    case 1
    then show ?thesis using "2.prems" by simp
  next
    case esc
    then obtain e t where s: "s = e # t" using "2.prems" by (auto split: list.splits)
    show ?thesis
    proof (cases "e = CHR ''u''")
      case u: True
      then obtain h1 h2 h3 h4 t' where t: "t = h1 # h2 # h3 # h4 # t'"
        using "2.prems" esc s by (auto split: list.splits)
      have h: "\<forall>h \<in> {h1, h2, h3, h4}. hex_val h \<noteq> None"
        using "2.prems" esc s u t by (auto split: if_splits)
      obtain b' where b: "b = c # e # h1 # h2 # h3 # h4 # b'" "lex_str t' = Some (b', r)"
        using "2.prems" esc s u t by (auto split: if_splits)
      have "\<forall>c \<in> set b'. 32 \<le> code c" using "2.IH"(1) esc s u t h b(2) by simp
      moreover have "32 \<le> code h1" "32 \<le> code h2" "32 \<le> code h3" "32 \<le> code h4"
        using h hex_val_printable by blast+
      ultimately show ?thesis using b(1) esc u escape_printable(2,3) by simp
    next
      case u: False
      obtain b' where b: "b = c # e # b'" "lex_str t = Some (b', r)" and e: "e \<in> set simple_escapes"
        using "2.prems" esc s u by (auto split: if_splits)
      have "\<forall>c \<in> set b'. 32 \<le> code c" using "2.IH"(2) esc s u e b(2) by simp
      then show ?thesis using b(1) esc escape_printable(1) [OF e] escape_printable(2) by simp
    qed
  next
    case plain
    obtain b' where b: "b = c # b'" "lex_str s = Some (b', r)" using "2.prems" plain by auto
    then show ?thesis using "2.IH"(3) plain by simp
  qed
qed simp

lemma num_char_printable: "num_char c \<Longrightarrow> 32 \<le> code c"
  by (auto simp: num_char_code is_digit_def)

lemma num_start_printable: "num_start c \<Longrightarrow> 32 \<le> code c"
  by (auto simp: num_start_code is_digit_def)

lemma valid_num_printable: "valid_num n \<Longrightarrow> c \<in> set n \<Longrightarrow> 32 \<le> code c"
  using valid_num_chars [of n] num_char_printable num_start_printable
  by (auto simp: list_all_iff)

definition one_line :: "string \<Rightarrow> bool" where
  "one_line s \<longleftrightarrow> (\<forall>c \<in> set s. 32 \<le> code c)"

lemma one_line_simps [simp]:
  "one_line []" "one_line (c # s) \<longleftrightarrow> 32 \<le> code c \<and> one_line s"
  "one_line (s @ t) \<longleftrightarrow> one_line s \<and> one_line t"
  by (auto simp: one_line_def)

lemma one_line_token: "token_ok t \<Longrightarrow> one_line (token_text t)"
proof (cases t)
  case (TStr b)
  assume "token_ok t"
  with TStr have "lex_str (b @ [quote_mark]) = Some (b, [])" by (simp add: str_ok_def)
  from lex_str_printable [OF this] show ?thesis
    using TStr by (auto simp: one_line_def quote_mark_def code_def)
qed (auto simp: one_line_def code_def intro: valid_num_printable [unfolded code_def])

lemma commas_ok: "\<forall>l \<in> set ls. list_all token_ok l \<Longrightarrow> list_all token_ok (commas ls)"
  by (induction ls rule: commas.induct) auto

lemma tokens_ok: "json_ok v \<Longrightarrow> list_all token_ok (tokens v)"
proof (induction v)
  case (JArr vs)
  have "list_all token_ok (commas (map tokens vs))"
    by (rule commas_ok) (use JArr in \<open>auto simp: list_all_iff\<close>)
  then show ?case by simp
next
  case (JObj kvs)
  have "\<forall>l \<in> set (map member_tokens kvs). list_all token_ok l"
    using JObj by (fastforce simp: list_all_iff Basic_BNFs.snds.intros)
  then have "list_all token_ok (commas (map member_tokens kvs))" by (rule commas_ok)
  then show ?case by simp
qed auto

lemma one_line_json_text: "json_ok v \<Longrightarrow> one_line (json_text v)"
proof -
  assume "json_ok v"
  then have "list_all token_ok (tokens v)" by (rule tokens_ok)
  then have "one_line (concat (map token_text ts))" if "set ts \<subseteq> set (tokens v)" for ts
    using that by (induction ts) (auto simp: list_all_iff one_line_token)
  then show ?thesis by (simp add: json_text_def)
qed

lemma one_line_no_newline: "one_line s \<Longrightarrow> CHR 0x0A \<notin> set s"
  by (auto simp: one_line_def code_def)

end
