(* ===== verification/Go_Marshal.thy ===== *)
theory Go_Marshal
  imports Go_Json "HOL-Library.AList" "HOL-Library.List_Lexorder" "HOL-Library.Char_ord"
begin

text \<open>
  The value layer of \<^verbatim>\<open>encoding/json\<close>: strings to and from literals (escapes, UTF-8), Go
  values as documents, and the decoding of an object into the fields of a struct.
\<close>

section \<open>UTF-8\<close>

definition cont_byte :: "nat \<Rightarrow> nat \<Rightarrow> char \<Rightarrow> bool" where
  "cont_byte lo hi c \<longleftrightarrow> lo \<le> code c \<and> code c \<le> hi"

text \<open>The length of the valid encoding at the front (\<^verbatim>\<open>utf8.DecodeRune\<close>), if there is one.\<close>

definition utf8_len :: "string \<Rightarrow> nat option" where
  "utf8_len s =
     (case s of [] \<Rightarrow> None
      | a # t \<Rightarrow>
        (let x = code a in
         if x < 0x80 then Some 1
         else if x < 0xC2 then None
         else if x \<le> 0xDF then
           (case t of b # _ \<Rightarrow> if cont_byte 0x80 0xBF b then Some 2 else None | _ \<Rightarrow> None)
         else if x \<le> 0xEF then
           (case t of
              b # c # _ \<Rightarrow>
                if cont_byte (if x = 0xE0 then 0xA0 else 0x80) (if x = 0xED then 0x9F else 0xBF) b
                   \<and> cont_byte 0x80 0xBF c
                then Some 3 else None
            | _ \<Rightarrow> None)
         else if x \<le> 0xF4 then
           (case t of
              b # c # d # _ \<Rightarrow>
                if cont_byte (if x = 0xF0 then 0x90 else 0x80) (if x = 0xF4 then 0x8F else 0xBF) b
                   \<and> cont_byte 0x80 0xBF c \<and> cont_byte 0x80 0xBF d
                then Some 4 else None
            | _ \<Rightarrow> None)
         else None))"

definition utf8_encode :: "nat \<Rightarrow> string" where
  "utf8_encode r =
     map char_of
       (if r < 0x80 then [r]
        else if r < 0x800 then [0xC0 + r div 64, 0x80 + r mod 64]
        else if r < 0x10000 then [0xE0 + r div 4096, 0x80 + r div 64 mod 64, 0x80 + r mod 64]
        else [0xF0 + r div 262144, 0x80 + r div 4096 mod 64, 0x80 + r div 64 mod 64, 0x80 + r mod 64])"

definition replacement :: string where
  "replacement = map char_of [0xEF, 0xBF, 0xBD :: nat]"

definition line_sep :: string where
  "line_sep = map char_of [0xE2, 0x80, 0xA8 :: nat]"

definition para_sep :: string where
  "para_sep = map char_of [0xE2, 0x80, 0xA9 :: nat]"

lemma utf8_len_bounds: "utf8_len s = Some n \<Longrightarrow> 1 \<le> n \<and> n \<le> length s"
  by (auto simp: utf8_len_def Let_def split: list.splits if_splits)

section \<open>String literals\<close>

text \<open>One ASCII byte as \<^verbatim>\<open>Marshal\<close> writes it: HTML characters are escaped too.\<close>

definition escape_char :: "char \<Rightarrow> string" where
  "escape_char c =
     (if c = quote_mark \<or> c = backslash then [backslash, c]
      else if code c = 8 then backslash # ''b''
      else if code c = 12 then backslash # ''f''
      else if code c = 10 then backslash # ''n''
      else if code c = 13 then backslash # ''r''
      else if code c = 9 then backslash # ''t''
      else if code c < 32 \<or> code c = 60 \<or> code c = 62 \<or> code c = 38
      then backslash # ''u00'' @ [hex_char (code c div 16), hex_char (code c mod 16)]
      else [c])"

function quote_body :: "string \<Rightarrow> string" where
  "quote_body [] = []"
| "quote_body (c # s) =
     (if code c < 128 then escape_char c @ quote_body s
      else case utf8_len (c # s) of
        None \<Rightarrow> (backslash # ''ufffd'') @ quote_body s
      | Some n \<Rightarrow>
          (let r = take n (c # s) in
           (if r = line_sep then backslash # ''u2028''
            else if r = para_sep then backslash # ''u2029'' else r)
           @ quote_body (drop (n - 1) s)))"
  by pat_completeness auto
termination
  by (relation "measure length") auto

declare quote_body.simps(2) [simp del]

definition unescape_char :: "char \<Rightarrow> string" where
  "unescape_char e =
     (if e = CHR ''b'' then [char_of (8 :: nat)] else if e = CHR ''f'' then [char_of (12 :: nat)]
      else if e = CHR ''n'' then [char_of (10 :: nat)] else if e = CHR ''r'' then [char_of (13 :: nat)]
      else if e = CHR ''t'' then [char_of (9 :: nat)] else [e])"

definition high_surrogate :: "nat \<Rightarrow> bool" where
  "high_surrogate v \<longleftrightarrow> 0xD800 \<le> v \<and> v < 0xDC00"

definition low_surrogate :: "nat \<Rightarrow> bool" where
  "low_surrogate v \<longleftrightarrow> 0xDC00 \<le> v \<and> v < 0xE000"

text \<open>The code of the escape \<^verbatim>\<open>\uXXXX\<close> at the front, and the text behind it\<close>

definition unicode_escape :: "string \<Rightarrow> (nat \<times> string) option" where
  "unicode_escape s =
     (case s of
        b # u # h1 # h2 # h3 # h4 # r \<Rightarrow>
          if b = backslash \<and> u = CHR ''u'' \<and> list_all is_hex [h1, h2, h3, h4]
          then Some (hex_nat [h1, h2, h3, h4], r) else None
      | _ \<Rightarrow> None)"

lemma unicode_escape_length: "unicode_escape s = Some (v, r) \<Longrightarrow> length r < length s"
  by (auto simp: unicode_escape_def split: list.splits if_splits)

function unquote :: "string \<Rightarrow> string" where
  "unquote [] = []"
| "unquote (c # s) =
     (if c = backslash then
        (case unicode_escape (c # s) of
           Some (v, r) \<Rightarrow>
             (if length r \<le> length s then
                (if high_surrogate v then
                   (case unicode_escape r of
                      Some (w, r') \<Rightarrow>
                        if low_surrogate w \<and> length r' \<le> length s
                        then utf8_encode (0x10000 + (v - 0xD800) * 1024 + (w - 0xDC00)) @ unquote r'
                        else replacement @ unquote r
                    | None \<Rightarrow> replacement @ unquote r)
                 else if low_surrogate v then replacement @ unquote r
                 else utf8_encode v @ unquote r)
              else [])
         | None \<Rightarrow> (case s of [] \<Rightarrow> [] | e # t \<Rightarrow> unescape_char e @ unquote t))
      else if code c < 128 then c # unquote s
      else case utf8_len (c # s) of
        None \<Rightarrow> replacement @ unquote s
      | Some n \<Rightarrow> take n (c # s) @ unquote (drop (n - 1) s))"
  by pat_completeness auto
termination
  by (relation "measure length") auto

declare unquote.simps(2) [simp del]

function valid_utf8 :: "string \<Rightarrow> bool" where
  "valid_utf8 [] \<longleftrightarrow> True"
| "valid_utf8 (c # s) \<longleftrightarrow>
     (case utf8_len (c # s) of None \<Rightarrow> False | Some n \<Rightarrow> valid_utf8 (drop (n - 1) s))"
  by pat_completeness auto
termination
  by (relation "measure length") auto

declare valid_utf8.simps(2) [simp del]

section \<open>Go values as documents\<close>

definition jstr :: "string \<Rightarrow> json" where
  "jstr s = JStr (quote_body s)"

definition jint :: "int \<Rightarrow> json" where
  "jint i = JNum (itoa i)"

text \<open>
  A \<^verbatim>\<open>map[string]any\<close> under construction is an association list; \<^verbatim>\<open>Marshal\<close> writes
  its members sorted by key.
\<close>

type_synonym gomap = "(string \<times> json) list"

definition json_object :: "gomap \<Rightarrow> json" where
  "json_object m = JObj (map (\<lambda>(k, v). (quote_body k, v)) (sort_key fst m))"

text \<open>The HTML escaping that compaction applies to a \<^verbatim>\<open>RawMessage\<close>\<close>

fun html_escape :: "string \<Rightarrow> string" where
  "html_escape [] = []"
| "html_escape (c # s) =
     (if code c = 60 \<or> code c = 62 \<or> code c = 38
      then (backslash # ''u00'' @ [hex_char (code c div 16), hex_char (code c mod 16)]) @ html_escape s
      else (case s of
              b # d # r \<Rightarrow>
                (if [c, b, d] = line_sep then (backslash # ''u2028'') @ html_escape r
                 else if [c, b, d] = para_sep then (backslash # ''u2029'') @ html_escape r
                 else c # html_escape s)
            | _ \<Rightarrow> c # html_escape s))"

fun compact :: "json \<Rightarrow> json" where
  "compact (JStr b) = JStr (html_escape b)"
| "compact (JArr vs) = JArr (map compact vs)"
| "compact (JObj kvs) = JObj (map (\<lambda>(k, v). (html_escape k, compact v)) kvs)"
| "compact v = v"

section \<open>Decoding an object into a struct\<close>

datatype json_error = SyntaxError | UnmarshalTypeError string | UnknownField string

text \<open>
  The folding by which a key matches a field name when no name matches exactly: upper case, with
  the long s and the Kelvin sign, whose case orbits hold an ASCII letter.
\<close>

fun fold_name :: "string \<Rightarrow> string" where
  "fold_name [] = []"
| "fold_name (c # s) =
     (case s of
        b # r \<Rightarrow>
          (if code c = 0xC5 \<and> code b = 0xBF then CHR ''S'' # fold_name r
           else case r of
             d # r' \<Rightarrow>
               (if code c = 0xE2 \<and> code b = 0x84 \<and> code d = 0xAA then CHR ''K'' # fold_name r'
                else upper_char c # fold_name s)
           | [] \<Rightarrow> upper_char c # fold_name s)
      | [] \<Rightarrow> [upper_char c])"

definition pick_field :: "string list \<Rightarrow> string \<Rightarrow> string option" where
  "pick_field fs k = (if k \<in> set fs then Some k else find (\<lambda>f. fold_name f = fold_name k) fs)"

definition dec_string :: "string \<Rightarrow> string \<Rightarrow> json \<Rightarrow> json_error + string" where
  "dec_string f cur v =
     (case v of JNull \<Rightarrow> Inr cur | JStr b \<Rightarrow> Inr (unquote b) | _ \<Rightarrow> Inl (UnmarshalTypeError f))"

definition dec_int :: "string \<Rightarrow> int \<Rightarrow> json \<Rightarrow> json_error + int" where
  "dec_int f cur v =
     (case v of
        JNull \<Rightarrow> Inr cur
      | JNum n \<Rightarrow> (case atoi n of Some i \<Rightarrow> Inr i | None \<Rightarrow> Inl (UnmarshalTypeError f))
      | _ \<Rightarrow> Inl (UnmarshalTypeError f))"

definition dec_bool :: "string \<Rightarrow> bool \<Rightarrow> json \<Rightarrow> json_error + bool" where
  "dec_bool f cur v =
     (case v of JNull \<Rightarrow> Inr cur | JBool b \<Rightarrow> Inr b | _ \<Rightarrow> Inl (UnmarshalTypeError f))"

text \<open>
  A slice: the elements are decoded into the slots the slice already has, then into zero values;
  \<^verbatim>\<open>null\<close> gives the nil slice.
\<close>

fun dec_elems :: "('a \<Rightarrow> json \<Rightarrow> json_error + 'a) \<Rightarrow> 'a \<Rightarrow> json list \<Rightarrow> 'a list \<Rightarrow> json_error + 'a list" where
  "dec_elems f z [] cur = Inr []"
| "dec_elems f z (v # vs) cur =
     rbind (f (case cur of [] \<Rightarrow> z | c # _ \<Rightarrow> c) v) (\<lambda>x.
     rbind (dec_elems f z vs (tl cur)) (\<lambda>xs. Inr (x # xs)))"

definition dec_list :: "string \<Rightarrow> ('a \<Rightarrow> json \<Rightarrow> json_error + 'a) \<Rightarrow> 'a \<Rightarrow> 'a list \<Rightarrow> json \<Rightarrow> json_error + 'a list" where
  "dec_list f dec z cur v =
     (case v of
        JNull \<Rightarrow> Inr []
      | JArr vs \<Rightarrow> dec_elems dec z vs cur
      | _ \<Rightarrow> Inl (UnmarshalTypeError f))"

text \<open>
  The members in order; a member with no field of that name is ignored, or an error with
  \<^verbatim>\<open>DisallowUnknownFields\<close>. A document \<^verbatim>\<open>null\<close> leaves the struct as it is.
\<close>

definition dec_member ::
  "bool \<Rightarrow> string list \<Rightarrow> (string \<Rightarrow> json \<Rightarrow> 'r \<Rightarrow> json_error + 'r) \<Rightarrow> string \<times> json \<Rightarrow> 'r \<Rightarrow> json_error + 'r"
where
  "dec_member strict fs setf kv r =
     (case kv of (k, v) \<Rightarrow>
        (case pick_field fs (unquote k) of
           Some f \<Rightarrow> setf f v r
         | None \<Rightarrow> if strict then Inl (UnknownField (unquote k)) else Inr r))"

definition dec_struct ::
  "bool \<Rightarrow> string list \<Rightarrow> (string \<Rightarrow> json \<Rightarrow> 'r \<Rightarrow> json_error + 'r) \<Rightarrow> json \<Rightarrow> 'r \<Rightarrow> json_error + 'r"
where
  "dec_struct strict fs setf v r =
     (case v of
        JNull \<Rightarrow> Inr r
      | JObj kvs \<Rightarrow> rfold (dec_member strict fs setf) kvs r
      | _ \<Rightarrow> Inl (UnmarshalTypeError []))"

text \<open>\<^verbatim>\<open>json.Unmarshal\<close> into a struct, and into a \<^verbatim>\<open>map[string]json.RawMessage\<close>\<close>

definition unmarshal_struct ::
  "string list \<Rightarrow> (string \<Rightarrow> json \<Rightarrow> 'r \<Rightarrow> json_error + 'r) \<Rightarrow> string \<Rightarrow> 'r \<Rightarrow> json_error + 'r"
where
  "unmarshal_struct fs setf body r =
     (case json_parse body of
        None \<Rightarrow> Inl SyntaxError
      | Some v \<Rightarrow> dec_struct False fs setf v r)"

definition unmarshal_raw_map :: "string \<Rightarrow> json_error + gomap" where
  "unmarshal_raw_map body =
     (case json_parse body of
        None \<Rightarrow> Inl SyntaxError
      | Some JNull \<Rightarrow> Inr []
      | Some (JObj kvs) \<Rightarrow> Inr (fold (\<lambda>(k, v). AList.update (unquote k) v) kvs [])
      | Some _ \<Rightarrow> Inl (UnmarshalTypeError []))"

section \<open>A written literal is one literal\<close>

text \<open>A piece the scanner passes over: it ends no literal and breaks no escape.\<close>

definition passes :: "string \<Rightarrow> bool" where
  "passes p \<longleftrightarrow> (\<forall>z b r. lex_str z = Some (b, r) \<longrightarrow> lex_str (p @ z) = Some (p @ b, r))"

lemma passes_Nil [simp]: "passes []"
  by (simp add: passes_def)

lemma passes_append: "passes p \<Longrightarrow> passes q \<Longrightarrow> passes (p @ q)"
  by (simp add: passes_def)

lemma passes_plain: "\<forall>c \<in> set p. 32 \<le> code c \<and> c \<noteq> quote_mark \<and> c \<noteq> backslash \<Longrightarrow> passes p"
  by (induction p) (auto simp: passes_def)

lemma passes_simple_escape: "e \<in> set simple_escapes \<Longrightarrow> passes [backslash, e]"
  by (auto simp: passes_def simple_escapes_def backslash_def quote_mark_def)

lemma passes_unicode_escape:
  "\<forall>h \<in> {h1, h2, h3, h4}. hex_val h \<noteq> None \<Longrightarrow> passes [backslash, CHR ''u'', h1, h2, h3, h4]"
  by (auto simp: passes_def backslash_def quote_mark_def)

lemma str_ok_passes: "passes p \<Longrightarrow> str_ok p"
  by (simp add: passes_def str_ok_def)

lemma hex_val_digits [simp]:
  "hex_val CHR ''0'' = Some 0" "hex_val CHR ''2'' = Some 2" "hex_val CHR ''8'' = Some 8"
  "hex_val CHR ''9'' = Some 9" "hex_val CHR ''f'' = Some 15" "hex_val CHR ''d'' = Some 13"
  by (simp_all add: hex_val_def is_digit_def code_def)

lemma passes_u00:
  "n < 256 \<Longrightarrow> passes (backslash # ''u00'' @ [hex_char (n div 16), hex_char (n mod 16)])"
  using passes_unicode_escape [of "CHR ''0''" "CHR ''0''" "hex_char (n div 16)" "hex_char (n mod 16)"]
  by (simp add: less_mult_imp_div_less)

lemma passes_escape_char: "passes (escape_char c)"
proof -
  have e: "passes [backslash, x]" if "x \<in> set simple_escapes" for x
    using that by (rule passes_simple_escape)
  have "passes [c]" if "\<not> code c < 32" "c \<noteq> quote_mark" "c \<noteq> backslash"
    using that by (intro passes_plain) auto
  then show ?thesis
    using passes_u00 [of "code c"] by (auto simp: escape_char_def simple_escapes_def intro!: e)
qed

lemma utf8_len_high:
  assumes "utf8_len s = Some n" and "s = c # t" and "128 \<le> code c"
  shows "\<forall>x \<in> set (take n s). 128 \<le> code x"
  using assms by (auto simp: utf8_len_def cont_byte_def Let_def split: list.splits if_splits)

lemma high_not_special: "128 \<le> code x \<Longrightarrow> x \<noteq> quote_mark \<and> x \<noteq> backslash \<and> 32 \<le> code x"
  by (auto simp: quote_mark_def backslash_def code_def)

lemma passes_quote_body: "passes (quote_body s)"
proof (induction s rule: quote_body.induct)
  case (2 c s)
  show ?case
  proof (cases "code c < 128")
    case True
    then show ?thesis
      using "2.IH"(1) passes_escape_char by (simp add: quote_body.simps passes_append)
  next
    case False
    show ?thesis
    proof (cases "utf8_len (c # s)")
      case None
      then show ?thesis
        using "2.IH"(2) False passes_unicode_escape [of "CHR ''f''" "CHR ''f''" "CHR ''f''" "CHR ''d''"]
          passes_append [of "backslash # ''ufffd''"]
        by (simp add: quote_body.simps)
    next
      case (Some n)
      have "passes (take n (c # s))"
        using utf8_len_high [OF Some] False by (intro passes_plain) (auto dest: high_not_special)
      moreover have "passes (backslash # ''u2028'')" "passes (backslash # ''u2029'')"
        using passes_unicode_escape [of "CHR ''2''" "CHR ''0''" "CHR ''2''"] by simp_all
      ultimately have p: "passes (if take n (c # s) = line_sep then backslash # ''u2028''
          else if take n (c # s) = para_sep then backslash # ''u2029'' else take n (c # s))"
        by (auto split: if_splits)
      have "passes (quote_body (drop (n - 1) s))" using "2.IH"(3) [OF False Some refl] .
      from passes_append [OF p this] show ?thesis
        using False Some by (subst quote_body.simps) (simp add: Let_def)
    qed
  qed
qed simp

lemma str_ok_quote_body [simp]: "str_ok (quote_body s)"
  by (rule str_ok_passes) (rule passes_quote_body)

section \<open>Reading a literal back\<close>

lemma is_hex_hex_char [simp]: "d < 16 \<Longrightarrow> is_hex (hex_char d)"
  by (simp add: is_hex_def)

lemma unquote_plain: "code c < 128 \<Longrightarrow> c \<noteq> backslash \<Longrightarrow> unquote (c # z) = c # unquote z"
  by (simp add: unquote.simps)

lemma unquote_simple_escape:
  "e \<noteq> CHR ''u'' \<Longrightarrow> unquote (backslash # e # z) = unescape_char e @ unquote z"
proof -
  assume "e \<noteq> CHR ''u''"
  then have "unicode_escape (backslash # e # z) = None"
    by (auto simp: unicode_escape_def split: list.splits)
  then show ?thesis by (subst unquote.simps) simp
qed

lemma unquote_unicode_escape:
  assumes "list_all is_hex [h1, h2, h3, h4]"
    and "\<not> high_surrogate (hex_nat [h1, h2, h3, h4])" "\<not> low_surrogate (hex_nat [h1, h2, h3, h4])"
  shows "unquote (backslash # CHR ''u'' # h1 # h2 # h3 # h4 # z) =
     utf8_encode (hex_nat [h1, h2, h3, h4]) @ unquote z"
  using assms by (simp add: unquote.simps unicode_escape_def)

lemma unquote_u00:
  assumes "n < 128"
  shows "unquote (backslash # CHR ''u'' # CHR ''0'' # CHR ''0'' # hex_char (n div 16) # hex_char (n mod 16) # z)
     = char_of n # unquote z"
proof -
  have d: "n div 16 < 16" using assms by (simp add: less_mult_imp_div_less)
  then have "hex_nat [CHR ''0'', CHR ''0'', hex_char (n div 16), hex_char (n mod 16)] = n"
    by (simp add: hex_nat_def)
  then show ?thesis
    using assms d
    by (subst unquote_unicode_escape) (simp_all add: high_surrogate_def low_surrogate_def utf8_encode_def is_hex_def)
qed

lemma char_of_code [simp]: "char_of (code c) = c"
  by (simp add: code_def)

lemma unescape_simple:
  "unescape_char quote_mark = [quote_mark]" "unescape_char backslash = [backslash]"
  "code c = 8 \<Longrightarrow> unescape_char CHR ''b'' = [c]" "code c = 12 \<Longrightarrow> unescape_char CHR ''f'' = [c]"
  "code c = 10 \<Longrightarrow> unescape_char CHR ''n'' = [c]" "code c = 13 \<Longrightarrow> unescape_char CHR ''r'' = [c]"
  "code c = 9 \<Longrightarrow> unescape_char CHR ''t'' = [c]"
  using char_of_code [of c] by (simp_all add: unescape_char_def quote_mark_def backslash_def)

lemma special_not_u: "quote_mark \<noteq> CHR ''u''" "backslash \<noteq> CHR ''u''"
  by (simp_all add: quote_mark_def backslash_def)

lemma escape_char_cases:
  "(\<exists>e. escape_char c = [backslash, e] \<and> e \<noteq> CHR ''u'' \<and> unescape_char e = [c]) \<or>
   escape_char c = backslash # ''u00'' @ [hex_char (code c div 16), hex_char (code c mod 16)] \<or>
   escape_char c = [c] \<and> c \<noteq> backslash"
proof -
  consider "c = quote_mark \<or> c = backslash"
    | "c \<noteq> quote_mark" "c \<noteq> backslash" "code c \<in> {8, 12, 10, 13, 9}"
    | "c \<noteq> quote_mark" "c \<noteq> backslash" "code c \<notin> {8, 12, 10, 13, 9}" by blast
  then show ?thesis
  proof cases
    case 1
    then show ?thesis using unescape_simple(1,2) special_not_u by (auto simp: escape_char_def)
  next
    case 2
    then show ?thesis using unescape_simple(3-7) [of c] by (auto simp: escape_char_def)
  next
    case 3
    then show ?thesis by (simp add: escape_char_def)
  qed
qed

lemma unquote_escape_char:
  assumes "code c < 128"
  shows "unquote (escape_char c @ z) = c # unquote z"
  using escape_char_cases [of c]
proof (elim disjE exE conjE)
  fix e
  assume "escape_char c = [backslash, e]" "e \<noteq> CHR ''u''" "unescape_char e = [c]"
  then show ?thesis by (simp add: unquote_simple_escape)
next
  assume "escape_char c = backslash # ''u00'' @ [hex_char (code c div 16), hex_char (code c mod 16)]"
  then show ?thesis using unquote_u00 [OF assms, of z] by simp
next
  assume "escape_char c = [c]" "c \<noteq> backslash"
  then show ?thesis using assms by (simp add: unquote_plain)
qed

lemma utf8_len_take: "utf8_len s = Some n \<Longrightarrow> utf8_len (take n s @ z) = Some n"
  by (cases s; cases "tl s"; cases "tl (tl s)"; cases "tl (tl (tl s))";
      auto simp: utf8_len_def Let_def split: if_splits)

lemma unquote_utf8:
  assumes "utf8_len (c # s) = Some n" and "128 \<le> code c"
  shows "unquote (take n (c # s) @ z) = take n (c # s) @ unquote z"
proof -
  obtain m where n: "n = Suc m" and m: "m \<le> length s"
    using utf8_len_bounds [OF assms(1)] by (cases n) auto
  have t: "take n (c # s) @ z = c # (take m s @ z)" using n by simp
  have u: "utf8_len (c # take m s @ z) = Some n" using utf8_len_take [OF assms(1), of z] t by simp
  have "c \<noteq> backslash" using assms(2) by (auto simp: backslash_def code_def)
  then have "unquote (c # take m s @ z) = take n (c # take m s @ z) @ unquote (drop (n - 1) (take m s @ z))"
    using u assms(2) by (simp add: unquote.simps)
  then show ?thesis using n m by simp
qed

lemma unquote_separators:
  "unquote (backslash # ''u2028'' @ z) = line_sep @ unquote z"
  "unquote (backslash # ''u2029'' @ z) = para_sep @ unquote z"
  using unquote_unicode_escape [of "CHR ''2''" "CHR ''0''" "CHR ''2''" _ z]
  by (simp_all add: is_hex_def hex_nat_def high_surrogate_def low_surrogate_def utf8_encode_def
      line_sep_def para_sep_def)

lemma unquote_quote_body [simp]: "valid_utf8 s \<Longrightarrow> unquote (quote_body s) = s"
proof (induction s rule: quote_body.induct)
  case (2 c s)
  obtain n where n: "utf8_len (c # s) = Some n" and rest: "valid_utf8 (drop (n - 1) s)"
    using "2.prems" by (auto simp: valid_utf8.simps split: option.splits)
  show ?case
  proof (cases "code c < 128")
    case True
    then have "n = 1" using n by (simp add: utf8_len_def)
    then show ?thesis
      using "2.IH"(1) True rest by (simp add: quote_body.simps unquote_escape_char)
  next
    case False
    obtain m where m: "n = Suc m" using utf8_len_bounds [OF n] by (cases n) auto
    have ih: "unquote (quote_body (drop m s)) = drop m s"
      using "2.IH"(3) [OF False n] rest m by simp
    let ?r = "take n (c # s)" and ?q = "quote_body (drop m s)"
    have "quote_body (c # s) = (if ?r = line_sep then backslash # ''u2028''
        else if ?r = para_sep then backslash # ''u2029'' else ?r) @ ?q"
      using False n m by (subst quote_body.simps) (simp add: Let_def)
    moreover have "unquote (?r @ ?q) = ?r @ unquote ?q"
      using unquote_utf8 [OF n] False by simp
    ultimately have "unquote (quote_body (c # s)) = ?r @ unquote ?q"
      using unquote_separators [of ?q] by (auto split: if_splits)
    also have "\<dots> = c # s" using ih m by simp
    finally show ?thesis .
  qed
qed simp

text \<open>ASCII text is valid UTF-8.\<close>

lemma valid_utf8_ascii: "list_all (\<lambda>c. code c < 128) s \<Longrightarrow> valid_utf8 s"
  by (induction s) (simp_all add: valid_utf8.simps utf8_len_def)

section \<open>Compaction keeps a document well formed\<close>

lemma char_of_bytes: "char_of (226 :: nat) = CHR 0xE2" "char_of (128 :: nat) = CHR 0x80"
  "char_of (168 :: nat) = CHR 0xA8" "char_of (169 :: nat) = CHR 0xA9"
  by (rule code_inject [THEN iffD1]; simp add: code_def)+

lemma separators: "line_sep = [CHR 0xE2, CHR 0x80, CHR 0xA8]" "para_sep = [CHR 0xE2, CHR 0x80, CHR 0xA9]"
  by (simp_all add: line_sep_def para_sep_def char_of_bytes)

lemma html_escape_step:
  assumes "\<not> (code c = 60 \<or> code c = 62 \<or> code c = 38)"
    and "\<And>b d r. s = b # d # r \<Longrightarrow> [c, b, d] \<noteq> line_sep \<and> [c, b, d] \<noteq> para_sep"
  shows "html_escape (c # s) = c # html_escape s"
  using assms by (cases s rule: list.exhaust; cases "tl s") auto

declare html_escape.simps(2) [simp del]

lemma html_escape_ordinary:
  assumes "code c \<notin> {60, 62, 38, 0xE2}"
  shows "html_escape (c # s) = c # html_escape s"
proof (rule html_escape_step)
  have "code CHR 0xE2 = 0xE2" by (simp add: code_def)
  then have "c \<noteq> CHR 0xE2" using assms by auto
  then show "[c, b, d] \<noteq> line_sep \<and> [c, b, d] \<noteq> para_sep" for b d
    by (simp add: separators)
qed (use assms in auto)

lemma html_escape_e2:
  assumes "\<not> (code c = 60 \<or> code c = 62 \<or> code c = 38)"
  shows "html_escape (c # s) = c # html_escape s \<or>
     (\<exists>b d r. s = b # d # r \<and> code b = 0x80 \<and> code d \<in> {0xA8, 0xA9} \<and>
        (html_escape (c # s) = (backslash # ''u2028'') @ html_escape r \<or>
         html_escape (c # s) = (backslash # ''u2029'') @ html_escape r))"
proof (cases "\<exists>b d r. s = b # d # r \<and> ([c, b, d] = line_sep \<or> [c, b, d] = para_sep)")
  case True
  then obtain b d r where s: "s = b # d # r" "[c, b, d] = line_sep \<or> [c, b, d] = para_sep" by blast
  then have "html_escape (c # s) = (backslash # ''u2028'') @ html_escape r \<or>
      html_escape (c # s) = (backslash # ''u2029'') @ html_escape r"
    using assms by (auto simp: html_escape.simps(2))
  moreover have "code b = 0x80 \<and> code d \<in> {0xA8, 0xA9}"
    using s(2) by (auto simp: separators code_def)
  ultimately show ?thesis using s(1) by blast
next
  case False
  then show ?thesis using assms by (intro disjI1 html_escape_step) blast+
qed

lemma passes_tail:
  assumes "passes (p @ q)" and "\<forall>x \<in> set p. 32 \<le> code x \<and> x \<noteq> quote_mark \<and> x \<noteq> backslash"
  shows "passes q"
proof -
  have "lex_str (p @ z) = map_option (\<lambda>(b, r). (p @ b, r)) (lex_str z)" for z
    using assms(2) by (induction p) (auto simp: option.map_comp o_def case_prod_unfold option.map_ident)
  then have "lex_str ((p @ q) @ z) = map_option (\<lambda>(b, r). (p @ b, r)) (lex_str (q @ z))" for z
    by simp
  then show ?thesis using assms(1) by (fastforce simp: passes_def)
qed

lemma escape_letters_ordinary:
  "e \<in> set simple_escapes \<Longrightarrow> code e \<notin> {60, 62, 38, 0xE2}"
  "hex_val h \<noteq> None \<Longrightarrow> code h \<notin> {60, 62, 38, 0xE2}"
  "code backslash \<notin> {60, 62, 38, 0xE2}" "code CHR ''u'' \<notin> {60, 62, 38, 0xE2}"
  by (auto simp: simple_escapes_def quote_mark_def backslash_def code_def hex_val_def is_digit_def split: if_splits)

lemma passes_html_escape: "lex_str s = Some (b, r) \<Longrightarrow> passes (html_escape b)"
proof (induction s arbitrary: b r rule: lex_str.induct)
  case (2 c s)
  consider "c = quote_mark" | (esc) "c \<noteq> quote_mark" "c = backslash"
    | (plain) "c \<noteq> quote_mark" "c \<noteq> backslash" "\<not> code c < 32"
    using "2.prems" by (auto split: if_splits)
  then show ?case
  proof cases
    case 1
    then show ?thesis using "2.prems" by simp
  next
    case esc
    then obtain e t where s: "s = e # t" using "2.prems" by (auto split: list.splits)
    show ?thesis
    proof (cases "e = CHR ''u''")
      case u: True
      then obtain h1 h2 h3 h4 t' where t: "t = h1 # h2 # h3 # h4 # t'"
        using "2.prems" esc s by (auto split: list.splits)
      have h: "\<forall>h \<in> {h1, h2, h3, h4}. hex_val h \<noteq> None"
        using "2.prems" esc s u t by (auto split: if_splits)
      obtain b' where b: "b = c # e # h1 # h2 # h3 # h4 # b'" "lex_str t' = Some (b', r)"
        using "2.prems" esc s u t by (auto split: if_splits)
      have "passes (html_escape b')" using "2.IH"(1) esc s u t h b(2) by simp
      moreover have "html_escape b = [c, e, h1, h2, h3, h4] @ html_escape b'"
        using b h esc u escape_letters_ordinary by (simp add: html_escape_ordinary)
      ultimately show ?thesis
        using passes_append [OF passes_unicode_escape [OF h]] esc u by simp
    next
      case u: False
      obtain b' where b: "b = c # e # b'" "lex_str t = Some (b', r)" and e: "e \<in> set simple_escapes"
        using "2.prems" esc s u by (auto split: if_splits)
      have "passes (html_escape b')" using "2.IH"(2) esc s u e b(2) by simp
      moreover have "html_escape b = [c, e] @ html_escape b'"
        using b e esc escape_letters_ordinary by (simp add: html_escape_ordinary)
      ultimately show ?thesis
        using passes_append [OF passes_simple_escape [OF e]] esc by simp
    qed
  next
    case plain
    obtain b' where b: "b = c # b'" "lex_str s = Some (b', r)"
      using "2.prems" plain by auto
    have ih: "passes (html_escape b')" using "2.IH"(3) plain b(2) by simp
    have pc: "passes [c]" using plain by (intro passes_plain) auto
    show ?thesis
    proof (cases "code c = 60 \<or> code c = 62 \<or> code c = 38")
      case True
      then show ?thesis using passes_append [OF passes_u00 [of "code c"] ih] b
        by (simp add: html_escape.simps(2))
    next
      case False
      from html_escape_e2 [OF this, of b'] consider
          "html_escape (c # b') = c # html_escape b'"
        | (sep) x d q where "b' = x # d # q" "code x = 0x80" "code d \<in> {0xA8, 0xA9}"
            "html_escape (c # b') = (backslash # ''u2028'') @ html_escape q \<or>
             html_escape (c # b') = (backslash # ''u2029'') @ html_escape q"
        by blast
      then show ?thesis
      proof cases
        case 1
        then show ?thesis using passes_append [OF pc ih] b by simp
      next
        case q: sep
        have "html_escape b' = [x, d] @ html_escape q" using q by (auto simp: html_escape_ordinary)
        moreover have "\<forall>y \<in> set [x, d]. 32 \<le> code y \<and> y \<noteq> quote_mark \<and> y \<noteq> backslash"
          using q high_not_special [of x] high_not_special [of d] by auto
        ultimately have "passes (html_escape q)" using ih passes_tail [of "[x, d]"] by simp
        then have "passes ((backslash # ''u2028'') @ html_escape q)" "passes ((backslash # ''u2029'') @ html_escape q)"
          using passes_unicode_escape [of "CHR ''2''" "CHR ''0''" "CHR ''2''"] by (intro passes_append; simp)+
        then show ?thesis using q(4) b(1) by auto
      qed
    qed
  qed
qed simp

lemma str_ok_html_escape: "str_ok b \<Longrightarrow> str_ok (html_escape b)"
  unfolding str_ok_def [of b] by (intro str_ok_passes passes_html_escape)

lemma json_ok_compact: "json_ok v \<Longrightarrow> json_ok (compact v)"
  by (induction v) (auto simp: list_all_iff str_ok_html_escape)

lemma json_depth_compact [simp]: "json_depth (compact v) = json_depth v"
proof (induction v)
  case (JArr vs)
  then have "map json_depth (map compact vs) = map json_depth vs" by simp
  then show ?case by (metis compact.simps(2) json_depth.simps(1))
next
  case (JObj kvs)
  then have "map (\<lambda>(k, v). json_depth v) (map (\<lambda>(k, v). (html_escape k, compact v)) kvs) =
      map (\<lambda>(k, v). json_depth v) kvs"
    by (force simp: Basic_BNFs.snds.intros)
  then show ?case by (metis compact.simps(3) json_depth.simps(2))
qed simp_all

section \<open>An object that is written and read back\<close>

text \<open>A written integer is a JSON number: no leading zero.\<close>

lemma nat_dec_head: "n \<noteq> 0 \<Longrightarrow> hd (nat_dec n) \<noteq> CHR ''0''"
proof (induction n rule: nat_dec.induct)
  case (1 n)
  show ?case
  proof (cases "n < 10")
    case True
    then have "code (digit_char n) \<noteq> code CHR ''0''"
      using "1.prems" code_digit_char [of n] by (simp add: char_codes)
    then show ?thesis using True by (auto simp: nat_dec.simps [of n])
  next
    case False
    then have "hd (nat_dec (n div 10)) \<noteq> CHR ''0''" using "1.IH" by simp
    then show ?thesis using False by (simp add: nat_dec.simps [of n])
  qed
qed

lemma num_body_nat_dec: "num_body (nat_dec n)"
proof (cases "n = 0")
  case True
  have "digit_char 0 = CHR ''0''"
    by (rule code_inject [THEN iffD1]) (simp add: code_digit_char char_codes)
  then show ?thesis using True by (simp add: nat_dec.simps [of 0] num_body_def num_frac_def)
next
  case False
  obtain c t where ct: "nat_dec n = c # t" "is_digit c" using nat_dec_Cons by blast
  have "list_all is_digit t" using nat_dec_digits [of n] ct by simp
  then have "dropWhile is_digit t = []" by (simp add: list_all_iff)
  then show ?thesis using nat_dec_head [OF False] ct
    by (simp add: num_body_def num_frac_def del: dropWhile_eq_Nil_conv)
qed

lemma valid_num_itoa [simp]: "valid_num (itoa i)"
proof (cases "i < 0")
  case False
  obtain c t where ct: "nat_dec (nat i) = c # t" "is_digit c" using nat_dec_Cons by blast
  then show ?thesis
    using num_body_nat_dec [of "nat i"] False is_digit_not_special by (simp add: valid_num_def itoa_def)
qed (simp add: valid_num_def itoa_def num_body_nat_dec)

lemma json_ok_values [simp]:
  "json_ok (jstr s)" "json_ok (jint i)" "json_depth (jstr s) = 0" "json_depth (jint i) = 0"
  by (simp_all add: jstr_def jint_def)

definition gomap_ok :: "nat \<Rightarrow> gomap \<Rightarrow> bool" where
  "gomap_ok n m \<longleftrightarrow> (\<forall>(k, v) \<in> set m. json_ok v \<and> json_depth v \<le> n)"

lemma gomap_ok_simps [simp]:
  "gomap_ok n []" "gomap_ok n ((k, v) # m) \<longleftrightarrow> json_ok v \<and> json_depth v \<le> n \<and> gomap_ok n m"
  by (auto simp: gomap_ok_def)

lemma gomap_ok_update: "gomap_ok n m \<Longrightarrow> json_ok v \<Longrightarrow> json_depth v \<le> n \<Longrightarrow> gomap_ok n (AList.update k v m)"
  by (induction m) auto

lemma gomap_ok_mono: "gomap_ok n m \<Longrightarrow> n \<le> k \<Longrightarrow> gomap_ok k m"
  by (induction m) auto

lemma json_ok_object: "gomap_ok n m \<Longrightarrow> json_ok (json_object m)"
  by (auto simp: json_object_def gomap_ok_def list_all_iff)

lemma json_depth_object: "gomap_ok n m \<Longrightarrow> json_depth (json_object m) \<le> Suc n"
proof -
  assume "gomap_ok n m"
  then have "foldr max (map (\<lambda>(k, v). json_depth v) (map (\<lambda>(k, v). (quote_body k, v)) (sort_key fst m))) 0 \<le> n"
    by (intro foldr_max_le) (auto simp: gomap_ok_def)
  then show ?thesis by (simp add: json_object_def)
qed

lemma map_of_fold_update:
  "map_of (fold (\<lambda>(k, v). AList.update k v) xs m) = map_of m ++ map_of (rev xs)"
  by (induction xs arbitrary: m) (auto simp: update_conv fun_eq_iff map_add_def split: option.splits)

lemma distinct_fst_map: "map fst (map (\<lambda>(k, v). (f k, v)) xs) = map f (map fst xs)"
  by (induction xs) auto

lemma unmarshal_written_object:
  assumes "gomap_ok n m" and "n < max_nesting_depth" and "distinct (map fst m)"
    and "\<And>k. k \<in> fst ` set m \<Longrightarrow> valid_utf8 k"
  shows "\<exists>m'. unmarshal_raw_map (json_text (json_object m)) = Inr m' \<and> map_of m' = map_of m"
proof -
  let ?s = "sort_key fst m"
  have p: "json_parse (json_text (json_object m)) = Some (json_object m)"
    using json_ok_object [OF assms(1)] json_depth_object [OF assms(1)] assms(2) by (intro json_parse_text) auto
  have "fold (\<lambda>(k, v). AList.update (unquote k) v) (map (\<lambda>(k, v). (quote_body k, v)) ?s) [] =
      fold (\<lambda>(k, v). AList.update k v) ?s []"
    unfolding fold_map
  proof (rule fold_cong)
    fix x assume "x \<in> set ?s"
    then have "valid_utf8 (fst x)" using assms(4) by simp
    then show "((\<lambda>(k, v). AList.update (unquote k) v) \<circ> (\<lambda>(k, v). (quote_body k, v))) x = (\<lambda>(k, v). AList.update k v) x"
      by (cases x) simp
  qed simp_all
  then have u: "unmarshal_raw_map (json_text (json_object m)) = Inr (fold (\<lambda>(k, v). AList.update k v) ?s [])"
    using p by (simp add: unmarshal_raw_map_def json_object_def)
  have "distinct (map fst ?s)"
    using assms(3) by (simp add: distinct_map)
  then have d: "distinct (map fst (rev ?s))" by (simp add: rev_map [symmetric])
  have "map_of (rev ?s) = map_of m"
    using d assms(3) by (intro map_of_inject_set [THEN iffD2]) simp_all
  then show ?thesis using u map_of_fold_update [of ?s "[]"] by auto
qed

text \<open>The members of a struct are written in the order of its fields, under plain keys.\<close>

definition plain_key :: "string \<Rightarrow> bool" where
  "plain_key k \<longleftrightarrow> list_all (\<lambda>c. is_lower c \<or> c = CHR ''_'') k"

lemma plain_key_char:
  "is_lower c \<or> c = CHR ''_'' \<Longrightarrow> 32 \<le> code c \<and> code c < 128 \<and> c \<noteq> quote_mark \<and> c \<noteq> backslash"
  by (auto simp: is_lower_def quote_mark_def backslash_def code_def)

lemma plain_key_str_ok: "plain_key k \<Longrightarrow> str_ok k"
  using plain_key_char by (intro str_ok_passes passes_plain) (auto simp: plain_key_def list_all_iff)

lemma unquote_plain_key: "plain_key k \<Longrightarrow> unquote k = k"
proof (induction k)
  case (Cons c k)
  then have "code c < 128 \<and> c \<noteq> backslash" using plain_key_char [of c] by (simp add: plain_key_def)
  then show ?case using Cons by (simp add: unquote_plain plain_key_def)
qed simp

definition struct_ok :: "nat \<Rightarrow> (string \<times> json) list \<Rightarrow> bool" where
  "struct_ok n kvs \<longleftrightarrow> (\<forall>(k, v) \<in> set kvs. plain_key k \<and> json_ok v \<and> json_depth v \<le> n)"

lemma struct_ok_simps [simp]:
  "struct_ok n []"
  "struct_ok n ((k, v) # kvs) \<longleftrightarrow> plain_key k \<and> json_ok v \<and> json_depth v \<le> n \<and> struct_ok n kvs"
  "struct_ok n (kvs @ kws) \<longleftrightarrow> struct_ok n kvs \<and> struct_ok n kws"
  by (auto simp: struct_ok_def)

lemma struct_json: "struct_ok n kvs \<Longrightarrow> json_ok (JObj kvs) \<and> json_depth (JObj kvs) \<le> Suc n"
proof -
  assume ok: "struct_ok n kvs"
  then have "foldr max (map (\<lambda>(k, v). json_depth v) kvs) 0 \<le> n"
    by (intro foldr_max_le) (auto simp: struct_ok_def)
  then show ?thesis using ok by (auto simp: struct_ok_def list_all_iff plain_key_str_ok)
qed

lemma array_json: "\<forall>v \<in> set vs. json_ok v \<and> json_depth v \<le> n \<Longrightarrow> json_ok (JArr vs) \<and> json_depth (JArr vs) \<le> Suc n"
proof -
  assume ok: "\<forall>v \<in> set vs. json_ok v \<and> json_depth v \<le> n"
  then have "foldr max (map json_depth vs) 0 \<le> n" by (intro foldr_max_le) auto
  then show ?thesis using ok by (auto simp: list_all_iff)
qed

lemma unmarshal_written_struct:
  assumes "struct_ok n kvs" and "n < max_nesting_depth"
  shows "json_parse (json_text (JObj kvs)) = Some (JObj kvs) \<and>
     (\<exists>m. unmarshal_raw_map (json_text (JObj kvs)) = Inr m \<and> map_of m = map_of (rev kvs))"
proof -
  have p: "json_parse (json_text (JObj kvs)) = Some (JObj kvs)"
    using struct_json [OF assms(1)] assms(2) by (intro json_parse_text) auto
  have "fold (\<lambda>(k, v). AList.update (unquote k) v) kvs [] = fold (\<lambda>(k, v). AList.update k v) kvs []"
  proof (rule fold_cong)
    fix x assume "x \<in> set kvs"
    then show "(\<lambda>(k, v). AList.update (unquote k) v) x = (\<lambda>(k, v). AList.update k v) x"
      using assms(1) by (cases x) (auto simp: struct_ok_def unquote_plain_key)
  qed simp_all
  then show ?thesis using p map_of_fold_update [of kvs "[]"] by (simp add: unmarshal_raw_map_def)
qed

section \<open>The length of a written object\<close>

lemma length_escape_char: "length (escape_char c) \<le> 6"
  by (simp add: escape_char_def)

lemma length_quote_body: "length (quote_body s) \<le> 6 * length s"
proof (induction s rule: quote_body.induct)
  case (2 c s)
  show ?case
  proof (cases "code c < 128")
    case True
    then show ?thesis using "2.IH"(1) length_escape_char [of c] by (simp add: quote_body.simps)
  next
    case False
    show ?thesis
    proof (cases "utf8_len (c # s)")
      case None
      then show ?thesis using "2.IH"(2) False by (simp add: quote_body.simps)
    next
      case (Some n)
      obtain m where m: "n = Suc m" "m \<le> length s" using utf8_len_bounds [OF Some] by (cases n) auto
      have "length (quote_body (drop m s)) \<le> 6 * (length s - m)"
        using "2.IH"(3) [OF False Some refl] m by simp
      moreover have "quote_body (c # s) = (if take n (c # s) = line_sep then backslash # ''u2028''
          else if take n (c # s) = para_sep then backslash # ''u2029'' else take n (c # s)) @ quote_body (drop m s)"
        using False Some m by (subst quote_body.simps) (simp add: Let_def)
      ultimately show ?thesis using m by (auto split: if_splits)
    qed
  qed
qed simp

lemma length_texts_commas: "length (texts (commas ls)) \<le> (\<Sum>l\<leftarrow>ls. Suc (length (texts l)))"
  by (induction ls rule: commas.induct) auto

lemma sum_list_sort_key: "(\<Sum>x\<leftarrow>sort_key g xs. f x) = (\<Sum>x\<leftarrow>xs. (f x :: nat))"
proof -
  have ins: "(\<Sum>x\<leftarrow>insort_key g y ys. f x) = f y + (\<Sum>x\<leftarrow>ys. f x)" for y ys
    by (induction ys) auto
  show ?thesis by (induction xs) (auto simp: ins)
qed

lemma length_json_object:
  "length (json_text (json_object m)) \<le> 2 + (\<Sum>(k, v)\<leftarrow>m. 4 + 6 * length k + length (json_text v))"
proof -
  let ?w = "\<lambda>(k, v). Suc (length (texts (member_tokens (quote_body k, v))))"
  have "length (json_text (json_object m)) \<le> 2 + (\<Sum>kv\<leftarrow>sort_key fst m. ?w kv)"
    using length_texts_commas [of "map member_tokens (map (\<lambda>(k, v). (quote_body k, v)) (sort_key fst m))"]
    by (simp add: json_text_def json_object_def o_def case_prod_unfold)
  also have "\<dots> = 2 + (\<Sum>kv\<leftarrow>m. ?w kv)" by (simp add: sum_list_sort_key)
  also have "\<dots> \<le> 2 + (\<Sum>(k, v)\<leftarrow>m. 4 + 6 * length k + length (json_text v))"
    using length_quote_body by (auto intro!: sum_list_mono simp: json_text_def)
  finally show ?thesis .
qed

lemma length_json_scalars:
  "length (json_text (jstr s)) \<le> 2 + 6 * length s" "length (json_text (JBool b)) \<le> 5"
  "length (json_text (jint i)) = length (itoa i)"
  using length_quote_body [of s] by (auto simp: json_text_def jstr_def jint_def)

end
