(* ===== verification/Herder_Protocol.thy ===== *)
theory Herder_Protocol
  imports Go_Marshal
begin

text \<open>
  The control protocol of the herder (\<^verbatim>\<open>internal/herder/protocol.go\<close>): phases, failure codes
  and the matrix that pairs them, the events and their JSON form, and the writer that enforces the
  order of the events on stdout. A failure carries a value for the detail its message is formatted
  from; the English text of the message, which goes to stderr, is not modelled.
\<close>

section \<open>Phases and codes\<close>

datatype phase = PhaseValidate | PhasePull | PhaseStart | PhaseHealth | PhaseRuntime | PhaseCleanup

fun phase_rank :: "phase \<Rightarrow> nat" where
  "phase_rank PhaseValidate = 0"
| "phase_rank PhasePull = 1"
| "phase_rank PhaseStart = 2"
| "phase_rank PhaseHealth = 3"
| "phase_rank PhaseRuntime = 4"
| "phase_rank PhaseCleanup = 5"

lemma phase_rank_inject: "phase_rank a = phase_rank b \<longleftrightarrow> a = b"
  by (cases a; cases b) simp_all

instantiation phase :: linorder
begin

definition less_eq_phase :: "phase \<Rightarrow> phase \<Rightarrow> bool" where
  "less_eq_phase a b \<longleftrightarrow> phase_rank a \<le> phase_rank b"

definition less_phase :: "phase \<Rightarrow> phase \<Rightarrow> bool" where
  "less_phase a b \<longleftrightarrow> phase_rank a < phase_rank b"

instance
  by standard (auto simp: less_eq_phase_def less_phase_def phase_rank_inject)

end

datatype code =
    CodeInvalidRequest | CodeInvalidRuntimeConfig | CodeNetworkNotFound | CodeInformURLInvalid
  | CodeDockerVersionUnsupported | CodeReaperDisabled | CodeSyntheticModelUnknown
  | CodeSyntheticImageRequired | CodeImagePullFailed | CodeStartupTimeout | CodeImageInvalid
  | CodeCapabilityUnsupported | CodeContainerStartFailed | CodeEndpointMACMismatch
  | CodeDeviceUnhealthy | CodeDeviceExited | CodeDeviceRestarted | CodeNetworkDetached
  | CodeDockerUnavailable | CodeCleanupFailed

fun phase_text :: "phase \<Rightarrow> string" where
  "phase_text PhaseValidate = ''validate''"
| "phase_text PhasePull = ''pull''"
| "phase_text PhaseStart = ''start''"
| "phase_text PhaseHealth = ''health''"
| "phase_text PhaseRuntime = ''runtime''"
| "phase_text PhaseCleanup = ''cleanup''"

fun code_text :: "code \<Rightarrow> string" where
  "code_text CodeInvalidRequest = ''invalid_request''"
| "code_text CodeInvalidRuntimeConfig = ''invalid_runtime_config''"
| "code_text CodeNetworkNotFound = ''network_not_found''"
| "code_text CodeInformURLInvalid = ''inform_url_invalid''"
| "code_text CodeDockerVersionUnsupported = ''docker_version_unsupported''"
| "code_text CodeReaperDisabled = ''reaper_disabled''"
| "code_text CodeSyntheticModelUnknown = ''synthetic_model_unknown''"
| "code_text CodeSyntheticImageRequired = ''synthetic_image_required''"
| "code_text CodeImagePullFailed = ''image_pull_failed''"
| "code_text CodeStartupTimeout = ''startup_timeout''"
| "code_text CodeImageInvalid = ''image_invalid''"
| "code_text CodeCapabilityUnsupported = ''capability_unsupported''"
| "code_text CodeContainerStartFailed = ''container_start_failed''"
| "code_text CodeEndpointMACMismatch = ''endpoint_mac_mismatch''"
| "code_text CodeDeviceUnhealthy = ''device_unhealthy''"
| "code_text CodeDeviceExited = ''device_exited''"
| "code_text CodeDeviceRestarted = ''device_restarted''"
| "code_text CodeNetworkDetached = ''network_detached''"
| "code_text CodeDockerUnavailable = ''docker_unavailable''"
| "code_text CodeCleanupFailed = ''cleanup_failed''"

text \<open>One row of the matrix: the phases, the exit status, the public summary.\<close>

fun codeMatrix :: "code \<Rightarrow> phase list \<times> int \<times> string" where
  "codeMatrix CodeInvalidRequest =
     ([PhaseValidate], 1, ''the device request is not valid'')"
| "codeMatrix CodeInvalidRuntimeConfig =
     ([PhaseValidate], 1, ''the runtime configuration is not valid'')"
| "codeMatrix CodeNetworkNotFound =
     ([PhaseValidate], 1, ''the requested Docker network does not exist'')"
| "codeMatrix CodeInformURLInvalid =
     ([PhaseValidate], 1, ''the inform URL is not a canonical IPv4 inform endpoint'')"
| "codeMatrix CodeDockerVersionUnsupported =
     ([PhaseValidate], 1, ''the Docker daemon is older than the supported engine and API versions'')"
| "codeMatrix CodeReaperDisabled =
     ([PhaseValidate], 1, ''the Testcontainers reaper is disabled'')"
| "codeMatrix CodeSyntheticModelUnknown =
     ([PhaseValidate], 1, ''a requested model has no synthetic profile'')"
| "codeMatrix CodeSyntheticImageRequired =
     ([PhaseValidate], 1, ''the plan needs a synthetic image and none was selected'')"
| "codeMatrix CodeImagePullFailed =
     ([PhasePull], 1, ''a required device image could not be pulled'')"
| "codeMatrix CodeStartupTimeout =
     ([PhaseValidate, PhasePull, PhaseStart, PhaseHealth], 1,
      ''startup did not complete before the startup timeout'')"
| "codeMatrix CodeImageInvalid =
     ([PhasePull], 1, ''a required device image does not satisfy the device-container contract'')"
| "codeMatrix CodeCapabilityUnsupported =
     ([PhaseValidate], 1, ''the Docker daemon cannot apply the configured capability set'')"
| "codeMatrix CodeContainerStartFailed =
     ([PhaseStart], 1, ''a device container could not be created or started as required'')"
| "codeMatrix CodeEndpointMACMismatch =
     ([PhaseStart], 1, ''a device container endpoint MAC does not match the requested MAC'')"
| "codeMatrix CodeDeviceUnhealthy =
     ([PhaseHealth, PhaseRuntime], 1, ''one or more device runtimes did not become healthy'')"
| "codeMatrix CodeDeviceExited =
     ([PhaseHealth, PhaseRuntime], 1, ''one or more device containers exited'')"
| "codeMatrix CodeDeviceRestarted =
     ([PhaseRuntime], 1, ''one or more device containers restarted'')"
| "codeMatrix CodeNetworkDetached =
     ([PhaseRuntime], 1, ''a device container network attachment changed'')"
| "codeMatrix CodeDockerUnavailable =
     ([PhaseValidate, PhasePull, PhaseStart, PhaseHealth, PhaseRuntime], 1,
      ''the Docker API became unavailable'')"
| "codeMatrix CodeCleanupFailed =
     ([PhaseCleanup], 1, ''one or more device containers remain after cleanup'')"

definition AllowsPhase :: "code \<Rightarrow> phase \<Rightarrow> bool" where
  "AllowsPhase c p \<longleftrightarrow> p \<in> set (fst (codeMatrix c))"

definition ExitStatus :: "code \<Rightarrow> int" where
  "ExitStatus c = fst (snd (codeMatrix c))"

definition Message :: "code \<Rightarrow> string" where
  "Message c = snd (snd (codeMatrix c))"

section \<open>Identities, failures and events\<close>

record identity =
  id_Index :: nat
  id_Model :: string
  id_MAC :: string
  id_Serial :: string
  id_Name :: string

text \<open>
  What the detail of a failure says, one constructor for each message of the package, grouped by the
  file that formats it.
\<close>

datatype request_detail =
    RequestEmpty | RequestDocument | RequestVersion int | RequestNoDevices

datatype identity_detail =
    ModelMissing | ModelUnprintable string
  | MACUnparsable string | MACLength string nat | MACMulticast string | MACGlobal string
  | MACDuplicate string
  | SerialTooLong string | SerialUnprintable string | SerialDuplicate string
  | NameTooLong string | NameNotLabel string | NameDuplicate string
  | SerialTaken string string | NameTaken string string
  | RandomShort | MACExhausted nat

datatype runtime_detail =
    RuntimeStat string | RuntimeNotRegular string | RuntimeWritable string | RuntimeOwner string
  | RuntimeOpen string | RuntimeDocument | RuntimeVersion int
  | ImageNotPinned string | DigestShape string | DigestNotHex string
  | CapabilityAll string | CapabilityUnknown string string | CapabilityTwice string string

datatype url_detail =
    URLUnparsable | URLScheme string | URLUser | URLQuery | URLPath string | URLNoPort
  | URLHostNotIPv4 string | URLHostNotCanonical string | URLHostUnreachable string | URLPort string

datatype unit_detail =
    ModelUnknown nat string | SyntheticImageMissing nat
  | AttachedTo string nat | NotAttached string | PortBindings string int
  | EndpointMACWrong string string string | NoAddress string
  | Exited string int | Unhealthy string | Restarted string | Detached string nat | LostNetwork string

datatype docker_detail =
    ServerVersion | APIVersion string | NetworkInspect string | ImageInspect string
  | NoHealthcheck string | ExposesPorts string | WrongPlatform string string string
  | PullFailed string | DaemonOS string | ReaperOff | Connect
  | CreateFailed string | StartFailed string | HealthWait | InspectFailed | ListFailed

datatype detail =
    RequestDetail request_detail | IdentityDetail identity_detail | RuntimeDetail runtime_detail
  | URLDetail url_detail | UnitDetail unit_detail | DockerDetail docker_detail
  | DeadlineExpired phase | OtherError

record failure =
  fl_Code :: code
  fl_Phase :: phase
  fl_Devices :: "identity list"
  fl_Detail :: detail

definition failf :: "code \<Rightarrow> phase \<Rightarrow> detail \<Rightarrow> failure" where
  "failf c p d = \<lparr>fl_Code = c, fl_Phase = p, fl_Devices = [], fl_Detail = d\<rparr>"

record failed_event =
  ev_RunID :: string
  ev_Phase :: phase
  ev_Code :: code
  ev_Cause :: "code option"
  ev_CleanupComplete :: bool
  ev_Devices :: "identity list"

text \<open>A ready device is an identity and the address Docker assigned.\<close>

type_synonym ready_device = "identity \<times> string"

definition ProtocolVersion :: int where
  "ProtocolVersion = 1"

definition identity_members :: "identity \<Rightarrow> (string \<times> json) list" where
  "identity_members d =
     [(''index'', jint (int (id_Index d))), (''model'', jstr (id_Model d)), (''mac'', jstr (id_MAC d)),
      (''serial'', jstr (id_Serial d)), (''name'', jstr (id_Name d))]"

definition identity_json :: "identity \<Rightarrow> json" where
  "identity_json d = JObj (identity_members d)"

definition ready_json :: "ready_device \<Rightarrow> json" where
  "ready_json rd = JObj (identity_members (fst rd) @ [(''ip'', jstr (snd rd))])"

definition event_json :: "string \<Rightarrow> string \<Rightarrow> (string \<times> json) list \<Rightarrow> json" where
  "event_json event runID rest =
     JObj ([(''protocol'', jint ProtocolVersion), (''event'', jstr event), (''run_id'', jstr runID)] @ rest)"

definition failed_wire :: "failed_event \<Rightarrow> (string \<times> json) list" where
  "failed_wire ev =
     [(''phase'', jstr (phase_text (ev_Phase ev))), (''code'', jstr (code_text (ev_Code ev)))] @
     (case ev_Cause ev of None \<Rightarrow> [] | Some c \<Rightarrow> [(''cause'', jstr (code_text c))]) @
     [(''message'', jstr (Message (ev_Code ev))), (''cleanup_complete'', JBool (ev_CleanupComplete ev)),
      (''devices'', JArr (map identity_json (ev_Devices ev)))]"

section \<open>The writer\<close>

datatype event_kind = KStarted | KReady | KFailed | KStopped

text \<open>\<^verbatim>\<open>w_lines\<close> is what has been written: each event's kind and its line.\<close>

record writer =
  w_lines :: "(event_kind \<times> string) list"
  w_broken :: bool
  w_started :: bool
  w_ready :: bool
  w_terminal :: bool

datatype writer_error =
    StartedAlready | ReadyBeforeStarted | ReadyAlready | ReadyAfterTerminal
  | TerminalBeforeStarted | TerminalAlready | CodeNotInPhase code phase | BrokenStdout

definition NewWriter :: writer where
  "NewWriter = \<lparr>w_lines = [], w_broken = False, w_started = False, w_ready = False, w_terminal = False\<rparr>"

text \<open>\<open>ok\<close> says whether the write to stdout succeeds.\<close>

definition emit :: "bool \<Rightarrow> event_kind \<Rightarrow> json \<Rightarrow> writer \<Rightarrow> writer \<times> writer_error option" where
  "emit ok kind v w =
     (if w_broken w then (w, Some BrokenStdout)
      else if ok then (w\<lparr>w_lines := w_lines w @ [(kind, json_text v @ [CHR 0x0A])]\<rparr>, None)
      else (w\<lparr>w_broken := True\<rparr>, Some BrokenStdout))"

definition Started :: "bool \<Rightarrow> string \<Rightarrow> writer \<Rightarrow> writer \<times> writer_error option" where
  "Started ok runID w =
     (if w_started w then (w, Some StartedAlready)
      else (case emit ok KStarted (event_json ''started'' runID []) w of
              (w, Some e) \<Rightarrow> (w, Some e)
            | (w, None) \<Rightarrow> (w\<lparr>w_started := True\<rparr>, None)))"

definition Ready :: "bool \<Rightarrow> string \<Rightarrow> ready_device list \<Rightarrow> writer \<Rightarrow> writer \<times> writer_error option" where
  "Ready ok runID devices w =
     (if \<not> w_started w then (w, Some ReadyBeforeStarted)
      else if w_ready w then (w, Some ReadyAlready)
      else if w_terminal w then (w, Some ReadyAfterTerminal)
      else (case emit ok KReady (event_json ''ready'' runID [(''devices'', JArr (map ready_json devices))]) w of
              (w, Some e) \<Rightarrow> (w, Some e)
            | (w, None) \<Rightarrow> (w\<lparr>w_ready := True\<rparr>, None)))"

definition beforeTerminal :: "writer \<Rightarrow> writer_error option" where
  "beforeTerminal w =
     (if \<not> w_started w then Some TerminalBeforeStarted
      else if w_terminal w then Some TerminalAlready else None)"

definition Failed :: "bool \<Rightarrow> failed_event \<Rightarrow> writer \<Rightarrow> writer \<times> writer_error option" where
  "Failed ok ev w =
     (case beforeTerminal w of
        Some e \<Rightarrow> (w, Some e)
      | None \<Rightarrow>
          if \<not> AllowsPhase (ev_Code ev) (ev_Phase ev) then (w, Some (CodeNotInPhase (ev_Code ev) (ev_Phase ev)))
          else (case emit ok KFailed (event_json ''failed'' (ev_RunID ev) (failed_wire ev)) w of
                  (w, Some e) \<Rightarrow> (w, Some e)
                | (w, None) \<Rightarrow> (w\<lparr>w_terminal := True\<rparr>, None)))"

definition Stopped :: "bool \<Rightarrow> string \<Rightarrow> string \<Rightarrow> writer \<Rightarrow> writer \<times> writer_error option" where
  "Stopped ok runID reason w =
     (case beforeTerminal w of
        Some e \<Rightarrow> (w, Some e)
      | None \<Rightarrow>
          (case emit ok KStopped (event_json ''stopped'' runID [(''reason'', jstr reason)]) w of
             (w, Some e) \<Rightarrow> (w, Some e)
           | (w, None) \<Rightarrow> (w\<lparr>w_terminal := True\<rparr>, None)))"

section \<open>Any sequence of calls\<close>

inductive writer_step :: "writer \<Rightarrow> writer \<Rightarrow> bool" where
  started: "writer_step w (fst (Started ok runID w))"
| ready: "writer_step w (fst (Ready ok runID devices w))"
| failed: "writer_step w (fst (Failed ok ev w))"
| stopped: "writer_step w (fst (Stopped ok runID reason w))"

inductive_cases writer_stepE: "writer_step w w'"

text \<open>The calls that name a run of the set \<open>R\<close>: one run, or any\<close>

inductive run_step :: "string set \<Rightarrow> writer \<Rightarrow> writer \<Rightarrow> bool" for R :: "string set" where
  run_started: "runID \<in> R \<Longrightarrow> run_step R w (fst (Started ok runID w))"
| run_ready: "runID \<in> R \<Longrightarrow> run_step R w (fst (Ready ok runID devices w))"
| run_failed: "ev_RunID ev \<in> R \<Longrightarrow> run_step R w (fst (Failed ok ev w))"
| run_stopped: "runID \<in> R \<Longrightarrow> run_step R w (fst (Stopped ok runID reason w))"

text \<open>The event kinds written and the flags tell the same story.\<close>

definition writer_ok :: "writer \<Rightarrow> bool" where
  "writer_ok w \<longleftrightarrow>
     (\<not> w_started w \<and> \<not> w_ready w \<and> \<not> w_terminal w \<and> map fst (w_lines w) = []) \<or>
     (w_started w \<and> \<not> w_ready w \<and> \<not> w_terminal w \<and> map fst (w_lines w) = [KStarted]) \<or>
     (w_started w \<and> w_ready w \<and> \<not> w_terminal w \<and> map fst (w_lines w) = [KStarted, KReady]) \<or>
     (w_started w \<and> \<not> w_ready w \<and> w_terminal w \<and>
        (\<exists>k \<in> {KFailed, KStopped}. map fst (w_lines w) = [KStarted, k])) \<or>
     (w_started w \<and> w_ready w \<and> w_terminal w \<and>
        (\<exists>k \<in> {KFailed, KStopped}. map fst (w_lines w) = [KStarted, KReady, k]))"

lemmas writer_defs = Started_def Ready_def Failed_def Stopped_def beforeTerminal_def emit_def

lemma writer_ok_new: "writer_ok NewWriter"
  by (simp add: writer_ok_def NewWriter_def)

lemma writer_ok_step: "writer_step w w' \<Longrightarrow> writer_ok w \<Longrightarrow> writer_ok w'"
  by (erule writer_stepE) (auto simp: writer_ok_def writer_defs)

lemma writer_ok_steps: "writer_step\<^sup>*\<^sup>* w w' \<Longrightarrow> writer_ok w \<Longrightarrow> writer_ok w'"
  by (induction rule: rtranclp_induct) (auto intro: writer_ok_step)

section \<open>The lines of the stream\<close>

fun kind_text :: "event_kind \<Rightarrow> string" where
  "kind_text KStarted = ''started''"
| "kind_text KReady = ''ready''"
| "kind_text KFailed = ''failed''"
| "kind_text KStopped = ''stopped''"

definition newline :: char where
  "newline = CHR 0x0A"

definition rest_ok :: "(string \<times> json) list \<Rightarrow> bool" where
  "rest_ok rest \<longleftrightarrow> struct_ok 3 rest \<and> ''protocol'' \<notin> fst ` set rest \<and> ''event'' \<notin> fst ` set rest \<and>
     ''run_id'' \<notin> fst ` set rest"

definition line_ok :: "string set \<Rightarrow> event_kind \<times> string \<Rightarrow> bool" where
  "line_ok R kl \<longleftrightarrow>
     (\<exists>runID rest. runID \<in> R \<and> snd kl = json_text (event_json (kind_text (fst kl)) runID rest) @ [newline] \<and>
        rest_ok rest \<and>
        (fst kl = KFailed \<longrightarrow> (\<exists>ev. AllowsPhase (ev_Code ev) (ev_Phase ev) \<and> rest = failed_wire ev)))"

lemma plain_keys [simp]:
  "plain_key ''index''" "plain_key ''model''" "plain_key ''mac''" "plain_key ''serial''" "plain_key ''name''"
  "plain_key ''ip''" "plain_key ''protocol''" "plain_key ''event''" "plain_key ''run_id''" "plain_key ''phase''"
  "plain_key ''code''" "plain_key ''cause''" "plain_key ''message''" "plain_key ''cleanup_complete''"
  "plain_key ''devices''" "plain_key ''reason''"
  by (simp_all add: plain_key_def is_lower_def code_def)

lemma identity_json_ok: "json_ok (identity_json d) \<and> json_depth (identity_json d) \<le> 1"
  using struct_json [of 0 "identity_members d"] by (simp add: identity_json_def identity_members_def)

lemma ready_json_ok: "json_ok (ready_json rd) \<and> json_depth (ready_json rd) \<le> 1"
  using struct_json [of 0 "identity_members (fst rd) @ [(''ip'', jstr (snd rd))]"]
  by (simp add: ready_json_def identity_members_def)

lemma devices_json_ok:
  "json_ok (JArr (map identity_json ds)) \<and> json_depth (JArr (map identity_json ds)) \<le> 2"
  "json_ok (JArr (map ready_json rs)) \<and> json_depth (JArr (map ready_json rs)) \<le> 2"
  using array_json [of "map identity_json ds" 1] array_json [of "map ready_json rs" 1]
    identity_json_ok ready_json_ok by auto

lemma failed_wire_ok: "rest_ok (failed_wire ev)"
  using devices_json_ok(1) [of "ev_Devices ev"]
  by (auto simp: failed_wire_def rest_ok_def split: option.splits)

definition lines_ok :: "string set \<Rightarrow> writer \<Rightarrow> bool" where
  "lines_ok R w \<longleftrightarrow> (\<forall>kl \<in> set (w_lines w). line_ok R kl)"

lemma emit_lines:
  assumes "lines_ok R w" and "line_ok R (k, json_text v @ [newline])"
  shows "lines_ok R (fst (emit ok k v w))"
  using assms by (auto simp: emit_def lines_ok_def newline_def)

lemma line_okI:
  "runID \<in> R \<Longrightarrow> rest_ok rest \<Longrightarrow> (k = KFailed \<Longrightarrow> \<exists>ev. AllowsPhase (ev_Code ev) (ev_Phase ev) \<and> rest = failed_wire ev) \<Longrightarrow>
   line_ok R (k, json_text (event_json (kind_text k) runID rest) @ [newline])"
  unfolding line_ok_def fst_conv snd_conv by blast

lemma ready_line_ok: "rest_ok [(''devices'', JArr (map ready_json devices))]"
  using devices_json_ok(2) [of devices] by (auto simp: rest_ok_def)

lemma lines_ok_flag [simp]:
  "lines_ok R (w\<lparr>w_started := b\<rparr>) = lines_ok R w" "lines_ok R (w\<lparr>w_ready := b\<rparr>) = lines_ok R w"
  "lines_ok R (w\<lparr>w_terminal := b\<rparr>) = lines_ok R w"
  by (simp_all add: lines_ok_def)

lemma lines_ok_step:
  assumes "run_step R w w'" and "lines_ok R w"
  shows "lines_ok R w'"
  using assms(1)
proof cases
  case (run_started runID ok)
  have "lines_ok R (fst (emit ok KStarted (event_json ''started'' runID []) w))"
    using line_okI [OF run_started(2), of "[]" KStarted] by (intro emit_lines [OF assms(2)]) (simp add: rest_ok_def)
  then show ?thesis using run_started assms(2) by (auto simp: Started_def split: prod.splits option.splits)
next
  case (run_ready runID ok devices)
  have "lines_ok R (fst (emit ok KReady (event_json ''ready'' runID [(''devices'', JArr (map ready_json devices))]) w))"
    using line_okI [OF run_ready(2) ready_line_ok, of KReady devices] by (intro emit_lines [OF assms(2)]) (simp add: rest_ok_def)
  then show ?thesis using run_ready assms(2) by (auto simp: Ready_def split: prod.splits option.splits)
next
  case (run_failed ev ok)
  show ?thesis
  proof (cases "AllowsPhase (ev_Code ev) (ev_Phase ev)")
    case True
    have "lines_ok R (fst (emit ok KFailed (event_json ''failed'' (ev_RunID ev) (failed_wire ev)) w))"
      using line_okI [OF run_failed(2) failed_wire_ok, of KFailed ev] True by (intro emit_lines [OF assms(2)]) auto
    then show ?thesis using run_failed assms(2) by (auto simp: Failed_def split: prod.splits option.splits)
  qed (use run_failed assms(2) in \<open>auto simp: Failed_def split: option.splits\<close>)
next
  case (run_stopped runID ok reason)
  have "lines_ok R (fst (emit ok KStopped (event_json ''stopped'' runID [(''reason'', jstr reason)]) w))"
    using line_okI [OF run_stopped(2), of "[(''reason'', jstr reason)]" KStopped] by (intro emit_lines [OF assms(2)]) (simp add: rest_ok_def)
  then show ?thesis using run_stopped assms(2) by (auto simp: Stopped_def split: prod.splits option.splits)
qed

lemma lines_ok_steps: "(run_step R)\<^sup>*\<^sup>* w w' \<Longrightarrow> lines_ok R w \<Longrightarrow> lines_ok R w'"
  by (induction rule: rtranclp_induct) (auto intro: lines_ok_step)

lemma map_of_rev_append_other: "k \<notin> fst ` set ys \<Longrightarrow> map_of (rev (xs @ ys)) k = map_of (rev xs) k"
proof -
  assume "k \<notin> fst ` set ys"
  then have "map_of (rev ys) k = None" by (simp add: map_of_eq_None_iff)
  then show ?thesis by (simp add: map_add_def)
qed

lemma failed_wire_members:
  "map_of (rev (base @ failed_wire ev)) ''code'' = Some (jstr (code_text (ev_Code ev)))"
  "map_of (rev (base @ failed_wire ev)) ''phase'' = Some (jstr (phase_text (ev_Phase ev)))"
  "map_of (rev (base @ failed_wire ev)) ''message'' = Some (jstr (Message (ev_Code ev)))"
  by (simp_all add: failed_wire_def split: option.splits)

lemma line_ok_reads:
  assumes "line_ok R (k, line)"
  shows "\<exists>text m. line = text @ [newline] \<and> newline \<notin> set text \<and> unmarshal_raw_map text = Inr m \<and>
     map_of m ''protocol'' = Some (jint 1) \<and> map_of m ''event'' = Some (jstr (kind_text k)) \<and>
     (\<exists>runID \<in> R. map_of m ''run_id'' = Some (jstr runID)) \<and>
     (k = KFailed \<longrightarrow> (\<exists>c p. AllowsPhase c p \<and> map_of m ''code'' = Some (jstr (code_text c)) \<and>
        map_of m ''phase'' = Some (jstr (phase_text p)) \<and> map_of m ''message'' = Some (jstr (Message c))))"
proof -
  obtain runID rest where r: "line = json_text (event_json (kind_text k) runID rest) @ [newline]"
      and rest: "rest_ok rest" and run: "runID \<in> R"
      and f: "k = KFailed \<longrightarrow> (\<exists>ev. AllowsPhase (ev_Code ev) (ev_Phase ev) \<and> rest = failed_wire ev)"
    using assms unfolding line_ok_def fst_conv snd_conv by blast
  define base where "base = [(''protocol'', jint ProtocolVersion), (''event'', jstr (kind_text k)), (''run_id'', jstr runID)]"
  let ?v = "JObj (base @ rest)"
  have v: "event_json (kind_text k) runID rest = ?v" by (simp add: event_json_def base_def)
  have ok: "struct_ok 3 (base @ rest)" using rest by (simp add: base_def rest_ok_def)
  obtain m where m: "unmarshal_raw_map (json_text ?v) = Inr m" "map_of m = map_of (rev (base @ rest))"
    using unmarshal_written_struct [OF ok] by (auto simp: max_nesting_depth_def)
  have nl: "newline \<notin> set (json_text ?v)"
    using struct_json [OF ok] one_line_no_newline one_line_json_text by (simp add: newline_def)
  have "map_of m ''protocol'' = map_of (rev base) ''protocol''" "map_of m ''event'' = map_of (rev base) ''event''"
    "map_of m ''run_id'' = map_of (rev base) ''run_id''"
    using rest unfolding m(2) by (intro map_of_rev_append_other; simp add: rest_ok_def)+
  then have hd: "map_of m ''protocol'' = Some (jint 1)" "map_of m ''event'' = Some (jstr (kind_text k))"
    "map_of m ''run_id'' = Some (jstr runID)"
    by (simp_all add: base_def ProtocolVersion_def)
  have "\<exists>c p. AllowsPhase c p \<and> map_of m ''code'' = Some (jstr (code_text c)) \<and>
        map_of m ''phase'' = Some (jstr (phase_text p)) \<and> map_of m ''message'' = Some (jstr (Message c))"
    if "k = KFailed"
  proof -
    obtain ev where "AllowsPhase (ev_Code ev) (ev_Phase ev)" "rest = failed_wire ev" using f \<open>k = KFailed\<close> by blast
    then show ?thesis using failed_wire_members [of base ev] m(2) by (metis (no_types))
  qed
  then show ?thesis using r [unfolded v] nl m(1) hd run by blast
qed

section \<open>Properties\<close>

text \<open>
  C26: the order of the control stream. Whatever calls are made on a fresh writer, in any order and
  with any writes failing, the events on stdout are nothing, started, started and ready, or one of
  these followed by exactly one terminal event.
\<close>

theorem control_stream_order:
  assumes "writer_step\<^sup>*\<^sup>* NewWriter w"
  shows "map fst (w_lines w) \<in> {[], [KStarted], [KStarted, KReady], [KStarted, KFailed], [KStarted, KStopped],
     [KStarted, KReady, KFailed], [KStarted, KReady, KStopped]}"
  using writer_ok_steps [OF assms writer_ok_new] by (auto simp: writer_ok_def)

text \<open>
  C27: every line of the stream is one JSON object on one line: it ends with the only newline it has,
  decodes to an object that carries protocol version 1, its event's name and the run its call named,
  and a failed event carries a code and a phase that the matrix pairs, with that code's public
  summary. So if all calls name one run, every line does.
\<close>

theorem control_stream_lines:
  assumes "(run_step R)\<^sup>*\<^sup>* NewWriter w" and "(k, line) \<in> set (w_lines w)"
  shows "\<exists>text m. line = text @ [newline] \<and> newline \<notin> set text \<and> unmarshal_raw_map text = Inr m \<and>
     map_of m ''protocol'' = Some (jint 1) \<and> map_of m ''event'' = Some (jstr (kind_text k)) \<and>
     (\<exists>runID \<in> R. map_of m ''run_id'' = Some (jstr runID)) \<and>
     (k = KFailed \<longrightarrow> (\<exists>c p. AllowsPhase c p \<and> map_of m ''code'' = Some (jstr (code_text c)) \<and>
        map_of m ''phase'' = Some (jstr (phase_text p)) \<and> map_of m ''message'' = Some (jstr (Message c))))"
proof -
  have "lines_ok R w" by (rule lines_ok_steps [OF assms(1)]) (simp add: lines_ok_def NewWriter_def)
  then have "line_ok R (k, line)" using assms(2) by (simp add: lines_ok_def)
  then show ?thesis by (rule line_ok_reads)
qed

section \<open>Witnesses\<close>

definition sample_failed :: failed_event where
  "sample_failed = \<lparr>ev_RunID = ''0badcafe'', ev_Phase = PhasePull, ev_Code = CodeImageInvalid, ev_Cause = None,
     ev_CleanupComplete = True, ev_Devices = []\<rparr>"

definition sample_stream :: writer where
  "sample_stream = fst (Failed True sample_failed (fst (Started True ''0badcafe'' NewWriter)))"

lemma sample_stream_steps: "writer_step\<^sup>*\<^sup>* NewWriter sample_stream"
proof -
  have "writer_step NewWriter (fst (Started True ''0badcafe'' NewWriter))" by (rule writer_step.started)
  moreover have "writer_step (fst (Started True ''0badcafe'' NewWriter)) sample_stream"
    unfolding sample_stream_def by (rule writer_step.failed)
  ultimately show ?thesis by auto
qed

lemma sample_stream_lines: "\<exists>l1 l2. w_lines sample_stream = [(KStarted, l1), (KFailed, l2)]"
  by (simp add: sample_stream_def writer_defs NewWriter_def sample_failed_def AllowsPhase_def)

theorem control_stream_order_witness: "map fst (w_lines sample_stream) = [KStarted, KFailed]"
  using control_stream_order [OF sample_stream_steps] sample_stream_lines by auto

lemma sample_run_steps: "(run_step {''0badcafe''})\<^sup>*\<^sup>* NewWriter sample_stream"
proof -
  have "run_step {''0badcafe''} NewWriter (fst (Started True ''0badcafe'' NewWriter))" by (rule run_started) simp
  moreover have "run_step {''0badcafe''} (fst (Started True ''0badcafe'' NewWriter)) sample_stream"
    unfolding sample_stream_def by (rule run_failed) (simp add: sample_failed_def)
  ultimately show ?thesis by auto
qed

theorem control_stream_lines_witness:
  "\<exists>l2 text m. (KFailed, l2) \<in> set (w_lines sample_stream) \<and> l2 = text @ [newline] \<and> newline \<notin> set text \<and>
     unmarshal_raw_map text = Inr m \<and> map_of m ''run_id'' = Some (jstr ''0badcafe'')"
proof -
  obtain l1 l2 where l: "w_lines sample_stream = [(KStarted, l1), (KFailed, l2)]" using sample_stream_lines by blast
  then have "(KFailed, l2) \<in> set (w_lines sample_stream)" by simp
  with control_stream_lines [OF sample_run_steps this] show ?thesis by blast
qed

end
