(* ===== verification/Herder_Identity.thy ===== *)
theory Herder_Identity
  imports Herder_Protocol Go_Net
begin

text \<open>
  The request and the identities (\<^verbatim>\<open>internal/herder/request.go\<close>, \<^verbatim>\<open>identity.go\<close>):
  the strict decoding of a device request and the three passes of \<^verbatim>\<open>Allocate\<close>, which
  gives every requested device a MAC, a serial and a name of its own. The random source is the bytes
  it will deliver.
\<close>

section \<open>The request\<close>

record request_device =
  rq_Model :: string
  rq_MAC :: string
  rq_Serial :: string
  rq_Name :: string

record request =
  req_Version :: int
  req_Devices :: "request_device list"

definition request_failure :: "request_detail \<Rightarrow> failure" where
  "request_failure d = failf CodeInvalidRequest PhaseValidate (RequestDetail d)"

definition requestVersion :: int where
  "requestVersion = 1"

definition zero_request_device :: request_device where
  "zero_request_device = \<lparr>rq_Model = [], rq_MAC = [], rq_Serial = [], rq_Name = []\<rparr>"

definition set_device_field :: "string \<Rightarrow> json \<Rightarrow> request_device \<Rightarrow> json_error + request_device" where
  "set_device_field f v d =
     (if f = ''model'' then rbind (dec_string f (rq_Model d) v) (\<lambda>x. Inr (d\<lparr>rq_Model := x\<rparr>))
      else if f = ''mac'' then rbind (dec_string f (rq_MAC d) v) (\<lambda>x. Inr (d\<lparr>rq_MAC := x\<rparr>))
      else if f = ''serial'' then rbind (dec_string f (rq_Serial d) v) (\<lambda>x. Inr (d\<lparr>rq_Serial := x\<rparr>))
      else rbind (dec_string f (rq_Name d) v) (\<lambda>x. Inr (d\<lparr>rq_Name := x\<rparr>)))"

definition dec_request_device :: "request_device \<Rightarrow> json \<Rightarrow> json_error + request_device" where
  "dec_request_device d v = dec_struct True [''model'', ''mac'', ''serial'', ''name''] set_device_field v d"

definition set_request_field :: "string \<Rightarrow> json \<Rightarrow> request \<Rightarrow> json_error + request" where
  "set_request_field f v r =
     (if f = ''version'' then rbind (dec_int f (req_Version r) v) (\<lambda>x. Inr (r\<lparr>req_Version := x\<rparr>))
      else rbind (dec_list f dec_request_device zero_request_device (req_Devices r) v)
             (\<lambda>x. Inr (r\<lparr>req_Devices := x\<rparr>)))"

text \<open>
  The whole input must be one document and white space: a decoding error, a second document and
  trailing text all make \<^const>\<open>json_parse\<close> or the strict decoding fail.
\<close>

definition DecodeRequest :: "string \<Rightarrow> failure + request" where
  "DecodeRequest body =
     (if list_all is_ws body then Inl (request_failure RequestEmpty)
      else
        (case json_parse body of
           None \<Rightarrow> Inl (request_failure RequestDocument)
         | Some v \<Rightarrow>
           (case dec_struct True [''version'', ''devices''] set_request_field v
                   \<lparr>req_Version = 0, req_Devices = []\<rparr> of
              Inl e \<Rightarrow> Inl (request_failure RequestDocument)
            | Inr req \<Rightarrow>
                if req_Version req \<noteq> requestVersion then Inl (request_failure (RequestVersion (req_Version req)))
                else if length (req_Devices req) = 0 then Inl (request_failure RequestNoDevices)
                else Inr req)))"

section \<open>Checks and derived values\<close>

definition bad_identity :: "identity_detail \<Rightarrow> failure" where
  "bad_identity d = failf CodeInvalidRequest PhaseValidate (IdentityDetail d)"

definition serialMax :: nat where "serialMax = 32"
definition nameMax :: nat where "nameMax = 63"
definition macRetries :: nat where "macRetries = 64"

definition printableASCII :: "string \<Rightarrow> bool" where
  "printableASCII s \<longleftrightarrow> list_all (\<lambda>c. 0x20 \<le> code c \<and> code c \<le> 0x7e) s"

definition alnum :: "char \<Rightarrow> bool" where
  "alnum c \<longleftrightarrow> is_lower c \<or> is_digit c"

definition dnsLabel :: "string \<Rightarrow> bool" where
  "dnsLabel s \<longleftrightarrow> s \<noteq> [] \<and> alnum (hd s) \<and> alnum (last s) \<and> list_all (\<lambda>c. alnum c \<or> c = CHR ''-'') s"

definition checkModel :: "string \<Rightarrow> failure option" where
  "checkModel model =
     (if model = [] then Some (bad_identity ModelMissing)
      else if \<not> printableASCII model then Some (bad_identity (ModelUnprintable model))
      else None)"

definition checkSerial :: "string \<Rightarrow> failure option" where
  "checkSerial serial =
     (if length serial > serialMax then Some (bad_identity (SerialTooLong serial))
      else if \<not> printableASCII serial then Some (bad_identity (SerialUnprintable serial))
      else None)"

definition checkName :: "string \<Rightarrow> failure option" where
  "checkName name =
     (if length name > nameMax then Some (bad_identity (NameTooLong name))
      else if \<not> dnsLabel name then Some (bad_identity (NameNotLabel name))
      else None)"

definition canonicalMAC :: "string \<Rightarrow> failure + string" where
  "canonicalMAC s =
     (case parse_mac s of
        None \<Rightarrow> Inl (bad_identity (MACUnparsable s))
      | Some hw \<Rightarrow>
          if length hw \<noteq> 6 then Inl (bad_identity (MACLength s (length hw)))
          else if hw ! 0 AND 0x01 \<noteq> 0 then Inl (bad_identity (MACMulticast s))
          else if hw ! 0 AND 0x02 = 0 then Inl (bad_identity (MACGlobal s))
          else Inr (mac_string hw))"

definition macHex :: "string \<Rightarrow> string" where
  "macHex mac = remove_char CHR '':'' mac"

definition derivedSerial :: "string \<Rightarrow> string" where
  "derivedSerial hex = ''EMU'' @ to_upper hex"

text \<open>The loop of \<^verbatim>\<open>normalizeModel\<close>, with the builder's contents\<close>

fun normalize_loop :: "string \<Rightarrow> string \<Rightarrow> bool \<Rightarrow> string" where
  "normalize_loop [] b dash = b"
| "normalize_loop (c # cs) b dash =
     (if is_upper c then normalize_loop cs (b @ [lower_char c]) False
      else if is_lower c \<or> is_digit c then normalize_loop cs (b @ [c]) False
      else if \<not> dash \<and> length b > 0 then normalize_loop cs (b @ ''-'') True
      else normalize_loop cs b dash)"

definition normalizeModel :: "string \<Rightarrow> string" where
  "normalizeModel model =
     (let out = trim_set ''-'' (normalize_loop model [] False) in if out = [] then ''device'' else out)"

definition derivedName :: "string \<Rightarrow> string \<Rightarrow> string" where
  "derivedName model hex =
     (let suffix = 1 + 12;
          budget = nameMax - length ''emu-'' - suffix;
          norm = normalizeModel model;
          norm = (if length norm > budget then
                    (let t = trim_set ''-'' (take budget norm) in if t = [] then ''device'' else t)
                  else norm)
      in ''emu-'' @ norm @ ''-'' @ hex)"

section \<open>The sets of claimed values\<close>

record identity_set =
  is_macs :: "string set"
  is_serials :: "string set"
  is_names :: "string set"

definition newIdentitySet :: identity_set where
  "newIdentitySet = \<lparr>is_macs = {}, is_serials = {}, is_names = {}\<rparr>"

definition add :: "string set \<Rightarrow> string \<Rightarrow> string set \<times> bool" where
  "add s v = (if v \<in> s then (s, False) else (insert v s, True))"

definition addMAC :: "string \<Rightarrow> identity_set \<Rightarrow> identity_set \<times> bool" where
  "addMAC v s = (case add (is_macs s) v of (t, ok) \<Rightarrow> (s\<lparr>is_macs := t\<rparr>, ok))"

definition addSerial :: "string \<Rightarrow> identity_set \<Rightarrow> identity_set \<times> bool" where
  "addSerial v s = (case add (is_serials s) v of (t, ok) \<Rightarrow> (s\<lparr>is_serials := t\<rparr>, ok))"

definition addName :: "string \<Rightarrow> identity_set \<Rightarrow> identity_set \<times> bool" where
  "addName v s = (case add (is_names s) v of (t, ok) \<Rightarrow> (s\<lparr>is_names := t\<rparr>, ok))"

text \<open>What the passes rely on: a claim succeeds on a value that is free, and takes it.\<close>

locale claim_set =
  fixes claim :: "'v \<Rightarrow> 's \<Rightarrow> 's \<times> bool"
    and taken :: "'s \<Rightarrow> 'v set"
  assumes claim_free: "snd (claim v s) \<longleftrightarrow> v \<notin> taken s"
    and claim_takes: "taken (fst (claim v s)) = insert v (taken s)"
begin

lemma claimed: "claim v s = (s', True) \<Longrightarrow> v \<notin> taken s \<and> taken s' = insert v (taken s)"
  using claim_free [of v s] claim_takes [of v s] by simp

lemma claim_once: "\<not> snd (claim v (fst (claim v s)))"
  by (simp add: claim_free claim_takes)

text \<open>Claims that all succeed are of values distinct and free at the start.\<close>

lemma claims_distinct:
  assumes "list_all2 (\<lambda>v ab. claim v (fst ab) = (snd ab, True)) vs (zip (s # ss) ss)"
  shows "distinct vs \<and> set vs \<inter> taken s = {}"
  using assms
proof (induction vs arbitrary: s ss)
  case (Cons v vs)
  then obtain t ts where ss: "ss = t # ts" by (cases ss) auto
  then have v: "claim v s = (t, True)" and rest: "list_all2 (\<lambda>v ab. claim v (fst ab) = (snd ab, True)) vs (zip (t # ts) ts)"
    using Cons.prems by auto
  show ?case using Cons.IH [OF rest] claimed [OF v] by auto
qed simp

end

interpretation mac_claims: claim_set addMAC is_macs
  by unfold_locales (auto simp: addMAC_def add_def)

interpretation serial_claims: claim_set addSerial is_serials
  by unfold_locales (auto simp: addSerial_def add_def)

interpretation name_claims: claim_set addName is_names
  by unfold_locales (auto simp: addName_def add_def)

lemma add_other [simp]:
  "is_serials (fst (addMAC v s)) = is_serials s" "is_names (fst (addMAC v s)) = is_names s"
  "is_macs (fst (addSerial v s)) = is_macs s" "is_names (fst (addSerial v s)) = is_names s"
  "is_macs (fst (addName v s)) = is_macs s" "is_serials (fst (addName v s)) = is_serials s"
  by (simp_all add: addMAC_def addSerial_def addName_def split: prod.splits)

section \<open>Pass 1: validate and reserve what the caller supplied\<close>

definition supply_mac :: "request_device \<Rightarrow> identity \<times> identity_set \<Rightarrow> failure + identity \<times> identity_set" where
  "supply_mac d st =
     (case st of (dev, reserved) \<Rightarrow>
        if rq_MAC d = [] then Inr (dev, reserved)
        else rbind (canonicalMAC (rq_MAC d)) (\<lambda>mac.
          case addMAC mac reserved of
            (reserved, ok) \<Rightarrow>
              if \<not> ok then Inl (bad_identity (MACDuplicate mac)) else Inr (dev\<lparr>id_MAC := mac\<rparr>, reserved)))"

definition supply_serial :: "request_device \<Rightarrow> identity \<times> identity_set \<Rightarrow> failure + identity \<times> identity_set" where
  "supply_serial d st =
     (case st of (dev, reserved) \<Rightarrow>
        if rq_Serial d = [] then Inr (dev, reserved)
        else
          (case checkSerial (rq_Serial d) of
             Some e \<Rightarrow> Inl e
           | None \<Rightarrow>
             (case addSerial (rq_Serial d) reserved of
                (reserved, ok) \<Rightarrow>
                  if \<not> ok then Inl (bad_identity (SerialDuplicate (rq_Serial d)))
                  else Inr (dev\<lparr>id_Serial := rq_Serial d\<rparr>, reserved))))"

definition supply_name :: "request_device \<Rightarrow> identity \<times> identity_set \<Rightarrow> failure + identity \<times> identity_set" where
  "supply_name d st =
     (case st of (dev, reserved) \<Rightarrow>
        if rq_Name d = [] then Inr (dev, reserved)
        else
          (case checkName (rq_Name d) of
             Some e \<Rightarrow> Inl e
           | None \<Rightarrow>
             (case addName (rq_Name d) reserved of
                (reserved, ok) \<Rightarrow>
                  if \<not> ok then Inl (bad_identity (NameDuplicate (rq_Name d)))
                  else Inr (dev\<lparr>id_Name := rq_Name d\<rparr>, reserved))))"

definition supply_device :: "nat \<Rightarrow> request_device \<Rightarrow> identity_set \<Rightarrow> failure + identity \<times> identity_set" where
  "supply_device i d reserved =
     (case checkModel (rq_Model d) of
        Some e \<Rightarrow> Inl e
      | None \<Rightarrow>
          rbind (supply_mac d (\<lparr>id_Index = i, id_Model = rq_Model d, id_MAC = [], id_Serial = [], id_Name = []\<rparr>, reserved))
            (\<lambda>st. rbind (supply_serial d st) (supply_name d)))"

fun supply_all :: "nat \<Rightarrow> request_device list \<Rightarrow> identity_set \<Rightarrow> failure + identity list \<times> identity_set" where
  "supply_all i [] reserved = Inr ([], reserved)"
| "supply_all i (d # ds) reserved =
     rbind (supply_device i d reserved) (\<lambda>(dev, reserved).
     rbind (supply_all (Suc i) ds reserved) (\<lambda>(ids, reserved). Inr (dev # ids, reserved)))"

section \<open>Pass 2: finish the entries that have a MAC\<close>

definition complete_serial :: "identity_set \<Rightarrow> identity \<times> identity_set \<Rightarrow> failure + identity \<times> identity_set" where
  "complete_serial reserved st =
     (case st of (dev, final) \<Rightarrow>
        if id_Serial dev \<noteq> [] then Inr (dev, final)
        else
          (let serial = derivedSerial (macHex (id_MAC dev)) in
           if serial \<in> is_serials reserved then Inl (bad_identity (SerialTaken (id_MAC dev) serial))
           else (case addSerial serial final of
                   (final, ok) \<Rightarrow>
                     if \<not> ok then Inl (bad_identity (SerialTaken (id_MAC dev) serial))
                     else Inr (dev\<lparr>id_Serial := serial\<rparr>, final))))"

definition complete_name :: "identity_set \<Rightarrow> identity \<times> identity_set \<Rightarrow> failure + identity \<times> identity_set" where
  "complete_name reserved st =
     (case st of (dev, final) \<Rightarrow>
        if id_Name dev \<noteq> [] then Inr (dev, final)
        else
          (let name = derivedName (id_Model dev) (macHex (id_MAC dev)) in
           if name \<in> is_names reserved then Inl (bad_identity (NameTaken (id_MAC dev) name))
           else (case addName name final of
                   (final, ok) \<Rightarrow>
                     if \<not> ok then Inl (bad_identity (NameTaken (id_MAC dev) name))
                     else Inr (dev\<lparr>id_Name := name\<rparr>, final))))"

definition complete :: "identity_set \<Rightarrow> identity \<Rightarrow> identity_set \<Rightarrow> failure + identity \<times> identity_set" where
  "complete reserved dev final =
     (if id_MAC dev = [] then Inr (dev, final)
      else rbind (complete_serial reserved (dev, final)) (complete_name reserved))"

fun complete_all :: "identity_set \<Rightarrow> identity list \<Rightarrow> identity_set \<Rightarrow> failure + identity list \<times> identity_set" where
  "complete_all reserved [] final = Inr ([], final)"
| "complete_all reserved (dev # ids) final =
     rbind (complete reserved dev final) (\<lambda>(dev, final).
     rbind (complete_all reserved ids final) (\<lambda>(ids, final). Inr (dev # ids, final)))"

section \<open>Pass 3: generate the missing MACs\<close>

text \<open>What one draw of six bytes gives, if nothing of it is taken\<close>

definition candidate :: "identity \<Rightarrow> identity_set \<Rightarrow> identity_set \<Rightarrow> bytes \<Rightarrow> identity option" where
  "candidate dev reserved final raw =
     (let raw = raw[0 := raw ! 0 AND NOT 0x01];
          raw = raw[0 := raw ! 0 OR 0x02];
          mac = mac_string raw in
      if mac \<in> is_macs reserved \<or> mac \<in> is_macs final then None
      else
        (let hex = macHex mac;
             c = dev\<lparr>id_MAC := mac\<rparr>;
             c1 = (if id_Serial c = [] then c\<lparr>id_Serial := derivedSerial hex\<rparr> else c) in
         if id_Serial c = [] \<and> (id_Serial c1 \<in> is_serials reserved \<or> id_Serial c1 \<in> is_serials final) then None
         else
           (let c2 = (if id_Name c1 = [] then c1\<lparr>id_Name := derivedName (id_Model c1) hex\<rparr> else c1) in
            if id_Name c1 = [] \<and> (id_Name c2 \<in> is_names reserved \<or> id_Name c2 \<in> is_names final) then None
            else Some c2)))"

fun generate :: "nat \<Rightarrow> identity \<Rightarrow> identity_set \<Rightarrow> identity_set \<Rightarrow> bytes \<Rightarrow>
    failure + identity \<times> identity_set \<times> bytes" where
  "generate 0 dev reserved final rnd = Inl (bad_identity (MACExhausted (id_Index dev)))"
| "generate (Suc n) dev reserved final rnd =
     (if length rnd < 6 then Inl (bad_identity RandomShort)
      else
        (case candidate dev reserved final (take 6 rnd) of
           None \<Rightarrow> generate n dev reserved final (drop 6 rnd)
         | Some c \<Rightarrow>
             Inr (c, fst (addName (id_Name c) (fst (addSerial (id_Serial c) (fst (addMAC (id_MAC c) final))))),
                  drop 6 rnd)))"

fun generate_all :: "identity_set \<Rightarrow> identity list \<Rightarrow> identity_set \<Rightarrow> bytes \<Rightarrow> failure + identity list" where
  "generate_all reserved [] final rnd = Inr []"
| "generate_all reserved (dev # ids) final rnd =
     (if id_MAC dev \<noteq> [] then rbind (generate_all reserved ids final rnd) (\<lambda>ids. Inr (dev # ids))
      else rbind (generate macRetries dev reserved final rnd) (\<lambda>(dev, final, rnd).
           rbind (generate_all reserved ids final rnd) (\<lambda>ids. Inr (dev # ids))))"

definition Allocate :: "request_device list \<Rightarrow> bytes \<Rightarrow> failure + identity list" where
  "Allocate devices rnd =
     rbind (supply_all 0 devices newIdentitySet) (\<lambda>(supplied, reserved).
     rbind (complete_all reserved supplied newIdentitySet) (\<lambda>(ids, final).
     generate_all reserved ids final rnd))"

end
