(* ===== verification/Herder_Runtime.thy ===== *)
theory Herder_Runtime
  imports Herder_Identity
begin

text \<open>
  The runner-local runtime mapping (\<^verbatim>\<open>internal/herder/runtimeconfig.go\<close>): its strict decoding, the
  checks on images and capabilities, the checks on the file that holds it, and the precedence by
  which the file is chosen. The file system is an argument: what \<^verbatim>\<open>os.Stat\<close> says of a path and what
  \<^verbatim>\<open>os.Open\<close> reads from it. Go ranges over a map in no fixed order, so the order is an argument too.
\<close>

section \<open>The mapping\<close>

record model_runtime =
  mr_Image :: string
  mr_CapAdd :: "string list"

type_synonym runtime_map = "(string \<times> model_runtime) list"

record runtime_config =
  rc_Version :: int
  rc_Models :: runtime_map

definition Mapping :: "runtime_config \<Rightarrow> string \<Rightarrow> model_runtime option" where
  "Mapping c model = map_of (rc_Models c) model"

definition runtimeConfigVersion :: int where
  "runtimeConfigVersion = 1"

definition capabilityAllowlist :: "string list" where
  "capabilityAllowlist =
     [''CHOWN'', ''DAC_OVERRIDE'', ''DAC_READ_SEARCH'', ''FOWNER'',
      ''KILL'', ''MKNOD'', ''NET_ADMIN'', ''NET_BIND_SERVICE'',
      ''NET_RAW'', ''SETGID'', ''SETUID'', ''SYS_ADMIN'',
      ''SYS_CHROOT'', ''SYS_PTRACE'', ''SYS_RESOURCE'']"

definition bad_runtime :: "runtime_detail \<Rightarrow> failure" where
  "bad_runtime d = failf CodeInvalidRuntimeConfig PhaseValidate (RuntimeDetail d)"

section \<open>Images and capabilities\<close>

definition checkImageDigest :: "string \<Rightarrow> string \<Rightarrow> failure option" where
  "checkImageDigest model img =
     (case cut_at CHR ''@'' img of
        (repo, digest, ok) \<Rightarrow>
          if \<not> ok \<or> repo = [] then Some (bad_runtime (ImageNotPinned model))
          else
            (case strip_prefix ''sha256:'' digest of
               None \<Rightarrow> Some (bad_runtime (DigestShape model))
             | Some hex \<Rightarrow>
                 if length hex \<noteq> 64 then Some (bad_runtime (DigestShape model))
                 else if \<not> list_all is_hex_lower hex then Some (bad_runtime (DigestNotHex model))
                 else None))"

fun check_caps :: "string \<Rightarrow> string set \<Rightarrow> string list \<Rightarrow> failure option" where
  "check_caps model seen [] = None"
| "check_caps model seen (c # cs) =
     (if c = ''ALL'' then Some (bad_runtime (CapabilityAll model))
      else if c \<notin> set capabilityAllowlist then Some (bad_runtime (CapabilityUnknown model c))
      else if c \<in> seen then Some (bad_runtime (CapabilityTwice model c))
      else check_caps model (insert c seen) cs)"

definition checkCapabilities :: "string \<Rightarrow> string list \<Rightarrow> failure option" where
  "checkCapabilities model caps = check_caps model {} caps"

text \<open>The checks of one entry, and of the entries in the order of the range\<close>

definition check_model :: "string \<times> model_runtime \<Rightarrow> failure option" where
  "check_model e =
     (case e of (model, rt) \<Rightarrow>
        (case checkImageDigest model (mr_Image rt) of
           Some f \<Rightarrow> Some f
         | None \<Rightarrow> checkCapabilities model (mr_CapAdd rt)))"

fun check_models :: "runtime_map \<Rightarrow> failure option" where
  "check_models [] = None"
| "check_models (e # es) = (case check_model e of Some f \<Rightarrow> Some f | None \<Rightarrow> check_models es)"

section \<open>Decoding\<close>

definition zero_runtime :: model_runtime where
  "zero_runtime = \<lparr>mr_Image = [], mr_CapAdd = []\<rparr>"

definition set_runtime_field :: "string \<Rightarrow> json \<Rightarrow> model_runtime \<Rightarrow> json_error + model_runtime" where
  "set_runtime_field f v rt =
     (if f = ''image'' then rbind (dec_string f (mr_Image rt) v) (\<lambda>x. Inr (rt\<lparr>mr_Image := x\<rparr>))
      else rbind (dec_list f (dec_string f) [] (mr_CapAdd rt) v) (\<lambda>x. Inr (rt\<lparr>mr_CapAdd := x\<rparr>)))"

definition dec_runtime :: "json \<Rightarrow> json_error + model_runtime" where
  "dec_runtime v = dec_struct True [''image'', ''cap_add''] set_runtime_field v zero_runtime"

text \<open>A map takes its keys verbatim, each value decoded afresh; \<^verbatim>\<open>null\<close> gives the nil map.\<close>

definition put_runtime :: "string \<times> json \<Rightarrow> runtime_map \<Rightarrow> json_error + runtime_map" where
  "put_runtime kv m =
     (case kv of (k, v) \<Rightarrow> rbind (dec_runtime v) (\<lambda>rt. Inr (AList.update (unquote k) rt m)))"

definition dec_runtime_map :: "runtime_map \<Rightarrow> json \<Rightarrow> json_error + runtime_map" where
  "dec_runtime_map m v =
     (case v of
        JNull \<Rightarrow> Inr []
      | JObj kvs \<Rightarrow> rfold put_runtime kvs m
      | _ \<Rightarrow> Inl (UnmarshalTypeError ''models''))"

definition set_config_field :: "string \<Rightarrow> json \<Rightarrow> runtime_config \<Rightarrow> json_error + runtime_config" where
  "set_config_field f v c =
     (if f = ''version'' then rbind (dec_int f (rc_Version c) v) (\<lambda>x. Inr (c\<lparr>rc_Version := x\<rparr>))
      else rbind (dec_runtime_map (rc_Models c) v) (\<lambda>x. Inr (c\<lparr>rc_Models := x\<rparr>)))"

text \<open>\<open>rng\<close> lists the entries in the order the range statement visits them.\<close>

definition decodeRuntimeConfig :: "(runtime_map \<Rightarrow> runtime_map) \<Rightarrow> string \<Rightarrow> failure + runtime_config" where
  "decodeRuntimeConfig rng body =
     (case json_parse body of
        None \<Rightarrow> Inl (bad_runtime RuntimeDocument)
      | Some v \<Rightarrow>
          (case dec_struct True [''version'', ''models''] set_config_field v \<lparr>rc_Version = 0, rc_Models = []\<rparr> of
             Inl e \<Rightarrow> Inl (bad_runtime RuntimeDocument)
           | Inr cfg \<Rightarrow>
               if rc_Version cfg \<noteq> runtimeConfigVersion then Inl (bad_runtime (RuntimeVersion (rc_Version cfg)))
               else (case check_models (rng (rc_Models cfg)) of
                       Some f \<Rightarrow> Inl f
                     | None \<Rightarrow> Inr cfg)))"

section \<open>The file\<close>

record file_info =
  fi_Regular :: bool
  fi_Perm :: "32 word"
  fi_Uid :: "32 word option"

datatype stat_error = NotExist | StatOther

record file_system =
  fs_Stat :: "string \<Rightarrow> stat_error + file_info"
  fs_Open :: "string \<Rightarrow> string option"
  fs_Getuid :: "32 word"

definition checkOwner :: "file_system \<Rightarrow> string \<Rightarrow> file_info \<Rightarrow> failure option" where
  "checkOwner fs path info =
     (case fi_Uid info of
        None \<Rightarrow> None
      | Some uid \<Rightarrow> if uid \<noteq> 0 \<and> uid \<noteq> fs_Getuid fs then Some (bad_runtime (RuntimeOwner path)) else None)"

definition LoadRuntimeConfig :: "(runtime_map \<Rightarrow> runtime_map) \<Rightarrow> file_system \<Rightarrow> string \<Rightarrow> failure + runtime_config" where
  "LoadRuntimeConfig rng fs path =
     (case fs_Stat fs path of
        Inl e \<Rightarrow> Inl (bad_runtime (RuntimeStat path))
      | Inr info \<Rightarrow>
          if \<not> fi_Regular info then Inl (bad_runtime (RuntimeNotRegular path))
          else if fi_Perm info AND 0x12 \<noteq> 0 then Inl (bad_runtime (RuntimeWritable path))
          else
            (case checkOwner fs path info of
               Some f \<Rightarrow> Inl f
             | None \<Rightarrow>
                 (case fs_Open fs path of
                    None \<Rightarrow> Inl (bad_runtime (RuntimeOpen path))
                  | Some body \<Rightarrow> decodeRuntimeConfig rng body)))"

definition defaultRuntimeConfigPath :: string where
  "defaultRuntimeConfigPath = ''/etc/unifi-emu-herder/runtimes.json''"

definition runtimeConfigEnv :: string where
  "runtimeConfigEnv = ''UNIFI_EMU_RUNTIME_CONFIG''"

definition ResolveRuntimeConfig ::
  "(runtime_map \<Rightarrow> runtime_map) \<Rightarrow> file_system \<Rightarrow> string \<Rightarrow> (string \<Rightarrow> string) \<Rightarrow> failure + runtime_config"
where
  "ResolveRuntimeConfig rng fs flagPath getenv =
     (if flagPath \<noteq> [] then LoadRuntimeConfig rng fs flagPath
      else if getenv runtimeConfigEnv \<noteq> [] then LoadRuntimeConfig rng fs (getenv runtimeConfigEnv)
      else
        (case fs_Stat fs defaultRuntimeConfigPath of
           Inr info \<Rightarrow> LoadRuntimeConfig rng fs defaultRuntimeConfigPath
         | Inl StatOther \<Rightarrow> Inl (bad_runtime (RuntimeStat defaultRuntimeConfigPath))
         | Inl NotExist \<Rightarrow> Inr \<lparr>rc_Version = 0, rc_Models = []\<rparr>))"

section \<open>What an accepted configuration is\<close>

definition pinned_image :: "string \<Rightarrow> bool" where
  "pinned_image img \<longleftrightarrow>
     (\<exists>repo hex. img = repo @ ''@sha256:'' @ hex \<and> repo \<noteq> [] \<and> CHR ''@'' \<notin> set repo \<and>
        length hex = 64 \<and> list_all is_hex_lower hex)"

lemma checkImageDigest_iff: "checkImageDigest model img = None \<longleftrightarrow> pinned_image img"
proof
  assume ok: "checkImageDigest model img = None"
  obtain repo digest b where c: "cut_at CHR ''@'' img = (repo, digest, b)" by (metis prod.exhaust)
  with ok have b: "b" "repo \<noteq> []" by (auto simp: checkImageDigest_def split: if_splits)
  then obtain hex where h: "strip_prefix ''sha256:'' digest = Some hex" "length hex = 64" "list_all is_hex_lower hex"
    using ok c by (auto simp: checkImageDigest_def split: option.splits if_splits)
  have "digest = ''sha256:'' @ hex" using h(1) by (simp only: strip_prefix_Some)
  moreover have "img = repo @ CHR ''@'' # digest" "CHR ''@'' \<notin> set repo"
    using cut_at_True [of "CHR ''@''" img repo digest] c b by auto
  ultimately show "pinned_image img" using b h by (auto simp: pinned_image_def)
next
  assume "pinned_image img"
  then obtain repo hex where p: "img = repo @ CHR ''@'' # (''sha256:'' @ hex)" "repo \<noteq> []" "CHR ''@'' \<notin> set repo"
    "length hex = 64" "list_all is_hex_lower hex"
    by (auto simp: pinned_image_def)
  have "strip_prefix ''sha256:'' (''sha256:'' @ hex) = Some hex" by (simp only: strip_prefix_Some)
  then show "checkImageDigest model img = None"
    using p cut_at_found [OF p(3), of "''sha256:'' @ hex"] by (simp add: checkImageDigest_def del: append.simps strip_prefix.simps)
qed

lemma check_caps_iff:
  "check_caps model seen cs = None \<longleftrightarrow>
     distinct cs \<and> set cs \<inter> seen = {} \<and> set cs \<subseteq> set capabilityAllowlist"
proof (induction cs arbitrary: seen)
  case (Cons c cs)
  have "''ALL'' \<notin> set capabilityAllowlist" by code_simp
  then show ?case using Cons.IH [of "insert c seen"] by auto
qed simp

definition runtime_ok :: "model_runtime \<Rightarrow> bool" where
  "runtime_ok rt \<longleftrightarrow> pinned_image (mr_Image rt) \<and> distinct (mr_CapAdd rt) \<and> set (mr_CapAdd rt) \<subseteq> set capabilityAllowlist"

lemma check_model_iff: "check_model (model, rt) = None \<longleftrightarrow> runtime_ok rt"
  by (auto simp: check_model_def runtime_ok_def checkCapabilities_def check_caps_iff
      simp flip: checkImageDigest_iff [of model] split: option.splits)

lemma check_models_iff: "check_models es = None \<longleftrightarrow> (\<forall>(model, rt) \<in> set es. runtime_ok rt)"
proof (induction es)
  case (Cons e es)
  have "check_models (e # es) = None \<longleftrightarrow> check_model e = None \<and> check_models es = None"
    by (simp split: option.split)
  with Cons show ?case by (cases e) (simp add: check_model_iff del: check_models.simps)
qed simp

text \<open>A file nobody else can have written: regular, not open to group or world, the user's or root's\<close>

definition trusted_file :: "file_system \<Rightarrow> string \<Rightarrow> bool" where
  "trusted_file fs path \<longleftrightarrow>
     (\<exists>info. fs_Stat fs path = Inr info \<and> fi_Regular info \<and> fi_Perm info AND 0x12 = 0 \<and>
        (\<forall>uid. fi_Uid info = Some uid \<longrightarrow> uid = 0 \<or> uid = fs_Getuid fs))"

lemma load_ok:
  assumes "LoadRuntimeConfig rng fs path = Inr cfg" and "\<And>m. set (rng m) = set m"
  shows "trusted_file fs path \<and> rc_Version cfg = 1 \<and> (\<forall>(model, rt) \<in> set (rc_Models cfg). runtime_ok rt)"
proof -
  obtain info where info: "fs_Stat fs path = Inr info" using assms(1) by (auto simp: LoadRuntimeConfig_def split: sum.splits)
  with assms(1) have f: "fi_Regular info" "fi_Perm info AND 0x12 = 0" "checkOwner fs path info = None"
    by (auto simp: LoadRuntimeConfig_def split: if_splits option.splits)
  then obtain body where "decodeRuntimeConfig rng body = Inr cfg"
    using assms(1) info by (auto simp: LoadRuntimeConfig_def split: option.splits)
  then have "rc_Version cfg = 1" "check_models (rng (rc_Models cfg)) = None"
    by (auto simp: decodeRuntimeConfig_def runtimeConfigVersion_def split: option.splits sum.splits if_splits)
  then show ?thesis
    using info f assms(2) [of "rc_Models cfg"]
    by (auto simp: check_models_iff trusted_file_def checkOwner_def split: option.splits if_splits)
qed

lemma Mapping_in: "Mapping c model = Some rt \<Longrightarrow> (model, rt) \<in> set (rc_Models c)"
  by (simp add: Mapping_def map_of_SomeD)

text \<open>
  C38: whichever source a runtime configuration comes from, and in whatever order its entries are
  ranged over, every model it maps gets an image pinned by a sha256 digest and a duplicate-free set
  of allowlisted capabilities (so never \<^verbatim>\<open>ALL\<close>), read from a file only the user or root can write;
  a configuration without a file maps nothing.
\<close>
theorem runtime_config_is_safe:
  assumes "ResolveRuntimeConfig rng fs flagPath getenv = Inr cfg" and "\<And>m. set (rng m) = set m"
    and "Mapping cfg model = Some rt"
  shows "pinned_image (mr_Image rt) \<and> distinct (mr_CapAdd rt) \<and> set (mr_CapAdd rt) \<subseteq> set capabilityAllowlist \<and>
    ''ALL'' \<notin> set (mr_CapAdd rt) \<and>
    trusted_file fs (if flagPath \<noteq> [] then flagPath
      else if getenv runtimeConfigEnv \<noteq> [] then getenv runtimeConfigEnv else defaultRuntimeConfigPath)"
proof -
  let ?path = "if flagPath \<noteq> [] then flagPath
      else if getenv runtimeConfigEnv \<noteq> [] then getenv runtimeConfigEnv else defaultRuntimeConfigPath"
  have "LoadRuntimeConfig rng fs ?path = Inr cfg"
    using assms(1,3) by (auto simp: ResolveRuntimeConfig_def Mapping_def split: if_splits sum.splits stat_error.splits)
  note ok = load_ok [OF this assms(2)]
  then have "runtime_ok rt" using Mapping_in [OF assms(3)] by auto
  moreover have "''ALL'' \<notin> set capabilityAllowlist" by code_simp
  ultimately show ?thesis using ok by (auto simp: runtime_ok_def)
qed

definition sample_runtime_body :: string where
  "sample_runtime_body =
     ''{\"version\":1,\"models\":{\"U7PG2\":{\"image\":\"r/a@sha256:'' @ replicate 64 CHR ''0'' @ ''\",\"cap_add\":[\"KILL\"]}}}''"

definition sample_runtime :: runtime_config where
  "sample_runtime =
     \<lparr>rc_Version = 1, rc_Models = [(''U7PG2'', \<lparr>mr_Image = ''r/a@sha256:'' @ replicate 64 CHR ''0'', mr_CapAdd = [''KILL'']\<rparr>)]\<rparr>"

definition sample_fs :: "string \<Rightarrow> file_system" where
  "sample_fs body =
     \<lparr>fs_Stat = (\<lambda>p. if p = ''/r'' then Inr \<lparr>fi_Regular = True, fi_Perm = 0x1a4, fi_Uid = Some 0\<rparr> else Inl NotExist),
      fs_Open = (\<lambda>p. if p = ''/r'' then Some body else None), fs_Getuid = 1000\<rparr>"

lemma sample_runtime_loads: "ResolveRuntimeConfig (\<lambda>m. m) (sample_fs sample_runtime_body) ''/r'' (\<lambda>_. []) = Inr sample_runtime"
  by code_simp

theorem runtime_config_is_safe_witness:
  "pinned_image (''r/a@sha256:'' @ replicate 64 CHR ''0'') \<and> trusted_file (sample_fs sample_runtime_body) ''/r''"
  using runtime_config_is_safe [OF sample_runtime_loads, of "''U7PG2''"]
  by (simp add: Mapping_def sample_runtime_def)

end
