(* ===== verification/Inform_Tables.thy ===== *)
theory Inform_Tables
  imports Go_Net Go_Marshal
begin

text \<open>
  The identity of a device (\<^verbatim>\<open>inform/descriptor.go\<close>) and the tables of the inform payload
  (\<^verbatim>\<open>inform/tables.go\<close>). A table row is a \<^verbatim>\<open>map[string]any\<close>: the members of its JSON
  object.
\<close>

section \<open>The descriptor\<close>

record port =
  port_IfName :: string
  port_Name :: string
  port_PortIdx :: int
  port_Media :: string
  port_PoECaps :: int
  port_IsUplink :: bool

record radio =
  radio_Name :: string
  radio_Radio :: string
  radio_Channel :: int
  radio_HT :: string
  radio_MinTxPower :: int
  radio_MaxTxPower :: int
  radio_NSS :: int
  radio_RadioCaps :: int
  radio_AntennaGain :: int

record descriptor =
  desc_MAC :: string
  desc_Serial :: string
  desc_Model :: string
  desc_ModelDisplay :: string
  desc_Version :: string
  desc_IP :: string
  desc_Hostname :: string
  desc_Type :: string
  desc_FWCaps :: int
  desc_UDAPIVersion :: string
  desc_UDAPICaps :: int
  desc_Ports :: "port list"
  desc_Radios :: "radio list"
  desc_SSIDs :: "string list"

definition PlaceholderFWCaps :: int where
  "PlaceholderFWCaps = 3"

section \<open>The tables\<close>

definition macHeader :: "string \<Rightarrow> bytes" where
  "macHeader mac =
     (case parse_mac mac of
        Some hw \<Rightarrow> if length hw = 6 then hw else replicate 6 0
      | None \<Rightarrow> replicate 6 0)"

definition port_row :: "port \<Rightarrow> gomap" where
  "port_row p =
     [(''ifname'', jstr (port_IfName p)), (''name'', jstr (port_Name p)),
      (''port_idx'', jint (port_PortIdx p)), (''media'', jstr (port_Media p)),
      (''poe_caps'', jint (port_PoECaps p)), (''is_uplink'', JBool (port_IsUplink p)),
      (''up'', JBool True), (''speed'', jint 1000), (''full_duplex'', JBool True),
      (''rx_bytes'', jint 0), (''tx_bytes'', jint 0)]"

definition portTable :: "descriptor \<Rightarrow> gomap list" where
  "portTable desc = map port_row (desc_Ports desc)"

definition ethernetTable :: "descriptor \<Rightarrow> gomap list" where
  "ethernetTable desc =
     [[(''mac'', jstr (desc_MAC desc)), (''name'', jstr ''eth0''),
       (''num_port'', jint (int (length (desc_Ports desc))))]]"

definition radio_row :: "radio \<Rightarrow> gomap" where
  "radio_row r =
     [(''name'', jstr (radio_Name r)), (''radio'', jstr (radio_Radio r)),
      (''channel'', jint (radio_Channel r)), (''ht'', jstr (radio_HT r)),
      (''min_txpower'', jint (radio_MinTxPower r)), (''max_txpower'', jint (radio_MaxTxPower r)),
      (''nss'', jint (radio_NSS r)), (''tx_power'', jint (radio_MaxTxPower r)),
      (''radio_caps'', jint (radio_RadioCaps r)), (''antenna_gain'', jint (radio_AntennaGain r)),
      (''builtin_antenna'', JBool True), (''builtin_ant_gain'', jint (radio_AntennaGain r))]"

definition radioTable :: "descriptor \<Rightarrow> gomap list" where
  "radioTable desc = map radio_row (desc_Radios desc)"

definition radio_stats_row :: "radio \<Rightarrow> gomap" where
  "radio_stats_row r =
     [(''name'', jstr (radio_Name r)), (''channel'', jint (radio_Channel r)),
      (''tx_power'', jint (radio_MaxTxPower r)), (''cu_self_tx'', jint 0),
      (''cu_self_rx'', jint 0), (''cu_total'', jint 0), (''num_sta'', jint 0), (''noise'', jint (-95))]"

definition radioTableStats :: "descriptor \<Rightarrow> gomap list" where
  "radioTableStats desc = map radio_stats_row (desc_Radios desc)"

text \<open>\<^verbatim>\<open>bssid[0] |= 0x02; bssid[4] += byte(idx)\<close>\<close>

definition vap_bssid :: "bytes \<Rightarrow> nat \<Rightarrow> bytes" where
  "vap_bssid mac idx =
     (let b = mac[0 := mac ! 0 OR 0x02] in b[4 := b ! 4 + word_of_nat idx])"

definition vap_row :: "bytes \<Rightarrow> nat \<Rightarrow> radio \<Rightarrow> string \<Rightarrow> gomap" where
  "vap_row mac idx r ssid =
     [(''essid'', jstr ssid), (''bssid'', jstr (mac_string (vap_bssid mac idx))),
      (''name'', jstr (''wlan'' @ nat_dec idx)), (''radio'', jstr (radio_Radio r)),
      (''up'', JBool True), (''channel'', jint (radio_Channel r)),
      (''tx_power'', jint (radio_MaxTxPower r)), (''num_sta'', jint 0), (''usage'', jstr ''user''),
      (''id'', jstr ''user''), (''ccq'', jint 0), (''rx_bytes'', jint 0), (''tx_bytes'', jint 0),
      (''rx_packets'', jint 0), (''tx_packets'', jint 0), (''sta_table'', JArr [])]"

text \<open>The two nested loops: for every radio every SSID, with a running index.\<close>

fun vap_ssids :: "bytes \<Rightarrow> radio \<Rightarrow> string list \<Rightarrow> nat \<Rightarrow> gomap list" where
  "vap_ssids mac r [] idx = []"
| "vap_ssids mac r (ssid # ssids) idx = vap_row mac idx r ssid # vap_ssids mac r ssids (Suc idx)"

fun vap_radios :: "bytes \<Rightarrow> string list \<Rightarrow> radio list \<Rightarrow> nat \<Rightarrow> gomap list" where
  "vap_radios mac ssids [] idx = []"
| "vap_radios mac ssids (r # rs) idx =
     vap_ssids mac r ssids idx @ vap_radios mac ssids rs (idx + length ssids)"

definition vapTable :: "descriptor \<Rightarrow> gomap list" where
  "vapTable desc = vap_radios (macHeader (desc_MAC desc)) (desc_SSIDs desc) (desc_Radios desc) 0"

section \<open>Lemmas\<close>

lemma length_macHeader [simp]: "length (macHeader mac) = 6"
  by (simp add: macHeader_def split: option.splits)

lemma macHeader_mac_string [simp]: "length v = 6 \<Longrightarrow> macHeader (mac_string v) = v"
  by (simp add: macHeader_def parse_mac_string)

lemma length_vap_ssids [simp]: "length (vap_ssids mac r ssids idx) = length ssids"
  by (induction ssids arbitrary: idx) auto

lemma length_vap_radios [simp]:
  "length (vap_radios mac ssids rs idx) = length rs * length ssids"
  by (induction rs arbitrary: idx) auto

lemma vap_ssids_nth:
  "i < length ssids \<Longrightarrow> vap_ssids mac r ssids idx ! i = vap_row mac (idx + i) r (ssids ! i)"
proof (induction ssids arbitrary: idx i)
  case (Cons s ssids)
  then show ?case by (cases i) auto
qed simp

text \<open>Row \<open>i\<close> of the table carries the index \<open>i\<close>.\<close>

lemma vap_radios_nth:
  "i < length rs * length ssids \<Longrightarrow>
   vap_radios mac ssids rs idx ! i =
     vap_row mac (idx + i) (rs ! (i div length ssids)) (ssids ! (i mod length ssids))"
proof (induction rs arbitrary: idx i)
  case (Cons r rs)
  show ?case
  proof (cases "i < length ssids")
    case True
    then show ?thesis by (simp add: nth_append vap_ssids_nth)
  next
    case False
    let ?n = "length ssids"
    have pos: "0 < ?n" using Cons.prems by (cases ssids) auto
    have "i - ?n < length rs * ?n" using Cons.prems False by simp
    moreover have "i div ?n = Suc ((i - ?n) div ?n)" "(i - ?n) mod ?n = i mod ?n"
      using False pos by (simp_all add: le_div_geq le_mod_geq)
    ultimately show ?thesis using Cons.IH [of "i - ?n" "idx + ?n"] False
      by (simp add: nth_append)
  qed
qed simp

lemma vapTable_nth:
  "i < length (vapTable desc) \<Longrightarrow>
   map_of (vapTable desc ! i) ''bssid'' =
     Some (jstr (mac_string (vap_bssid (macHeader (desc_MAC desc)) i)))"
  by (simp add: vapTable_def vap_radios_nth vap_row_def)

lemma length_vap_bssid [simp]: "length (vap_bssid mac i) = length mac"
  by (simp add: vap_bssid_def Let_def)

lemma vap_bssid_nth:
  assumes "length mac = 6"
  shows "vap_bssid mac i ! 0 = mac ! 0 OR 0x02" and "vap_bssid mac i ! 1 = mac ! 1"
    and "vap_bssid mac i ! 2 = mac ! 2" and "vap_bssid mac i ! 3 = mac ! 3"
    and "vap_bssid mac i ! 4 = mac ! 4 + word_of_nat i" and "vap_bssid mac i ! 5 = mac ! 5"
  using assms by (simp_all add: vap_bssid_def Let_def)

section \<open>Properties\<close>

text \<open>
  C25: The BSSIDs of up to 256 virtual access points of one access point are distinct, all are locally
  administered, and no BSSID of an access point is a BSSID of another whose address differs
  in the last octet, as those of a fleet numbered from one base do.
\<close>

theorem vap_bssids_disjoint:
  assumes "length m1 = 6" and "length m2 = 6" and "i < 256" and "j < 256"
  shows "vap_bssid m1 i ! 0 AND 0x02 = 0x02 \<and>
     (vap_bssid m1 i = vap_bssid m1 j \<longleftrightarrow> i = j) \<and>
     (m1 ! 5 \<noteq> m2 ! 5 \<longrightarrow> vap_bssid m1 i \<noteq> vap_bssid m2 j)"
proof (intro conjI impI)
  have "(mac OR 2) AND 2 = (2 :: byte)" for mac
    by (rule bit_word_eqI) (auto simp: bit_simps)
  then show "vap_bssid m1 i ! 0 AND 0x02 = 0x02"
    using vap_bssid_nth(1) [OF assms(1), of i] by simp
  show "vap_bssid m1 i \<noteq> vap_bssid m2 j" if "m1 ! 5 \<noteq> m2 ! 5"
    using that vap_bssid_nth(6) [OF assms(1), of i] vap_bssid_nth(6) [OF assms(2), of j] by metis
  have "i = j" if "vap_bssid m1 i = vap_bssid m1 j"
  proof -
    have "(word_of_nat i :: byte) = word_of_nat j"
      using that vap_bssid_nth(5) [OF assms(1), of i] vap_bssid_nth(5) [OF assms(1), of j] by simp
    then have "unat (word_of_nat i :: byte) = unat (word_of_nat j :: byte)" by simp
    then show ?thesis using assms(3,4) by (simp add: unat_of_nat)
  qed
  then show "vap_bssid m1 i = vap_bssid m1 j \<longleftrightarrow> i = j" by auto
qed

theorem vap_bssids_disjoint_witness:
  "vap_bssid [0, 0x27, 0x22, 0xe0, 0, 1] 3 \<noteq> vap_bssid [0, 0x27, 0x22, 0xe0, 0, 2] 0"
  using vap_bssids_disjoint [of "[0, 0x27, 0x22, 0xe0, 0, 1]" "[0, 0x27, 0x22, 0xe0, 0, 2]" 3 0]
  by simp

text \<open>
  A device whose own address is locally administered, as every address the herder hands out is,
  announces its first virtual access point with that very address as the BSSID.
\<close>

theorem vap_bssid_own_address:
  assumes "length mac = 6" and "mac ! 0 AND 0x02 = 0x02"
  shows "vap_bssid mac 0 = mac"
proof -
  have "bit (mac ! 0) 1"
  proof -
    have "bit (mac ! 0 AND 0x02) 1" using assms(2) by (simp add: bit_simps)
    then show ?thesis by (simp add: bit_simps)
  qed
  then have "mac ! 0 OR 0x02 = mac ! 0"
    by (intro bit_word_eqI) (auto simp: bit_simps)
  then show ?thesis using assms(1) by (simp add: vap_bssid_def Let_def)
qed

theorem vap_bssid_own_address_witness:
  "vap_bssid [0x02, 0, 0, 0, 0, 1] 0 = [0x02, 0, 0, 0, 0, 1]"
  by (rule vap_bssid_own_address) simp_all

end
