(* ===== verification/Emu_Registry.thy ===== *)
theory Emu_Registry
  imports Inform_Tables
begin

text \<open>
  The model catalog (\<^verbatim>\<open>models.go\<close>, \<^verbatim>\<open>registry.go\<close>, \<^verbatim>\<open>profile.go\<close>): the
  decoding of \<^verbatim>\<open>model_profiles.json\<close> into profiles and the registry they form. The text of
  the catalog is an argument; a panic is the left side of the result.
\<close>

record model_profile =
  pf_Model :: string
  pf_ModelDisplay :: string
  pf_Type :: string
  pf_Version :: string
  pf_UDAPIVersion :: string
  pf_UDAPICaps :: int
  pf_FWCaps :: int
  pf_Ports :: "port list"
  pf_Radios :: "radio list"

definition zero_port :: port where
  "zero_port = \<lparr>port_IfName = [], port_Name = [], port_PortIdx = 0, port_Media = [],
     port_PoECaps = 0, port_IsUplink = False\<rparr>"

definition zero_radio :: radio where
  "zero_radio = \<lparr>radio_Name = [], radio_Radio = [], radio_Channel = 0, radio_HT = [],
     radio_MinTxPower = 0, radio_MaxTxPower = 0, radio_NSS = 0, radio_RadioCaps = 0,
     radio_AntennaGain = 0\<rparr>"

definition zero_profile :: model_profile where
  "zero_profile = \<lparr>pf_Model = [], pf_ModelDisplay = [], pf_Type = [], pf_Version = [],
     pf_UDAPIVersion = [], pf_UDAPICaps = 0, pf_FWCaps = 0, pf_Ports = [], pf_Radios = []\<rparr>"

section \<open>Decoding the catalog\<close>

definition port_fields :: "string list" where
  "port_fields = [''ifname'', ''name'', ''port_idx'', ''media'', ''poe_caps'', ''is_uplink'']"

definition set_port_field :: "string \<Rightarrow> json \<Rightarrow> port \<Rightarrow> json_error + port" where
  "set_port_field f v p =
     (if f = ''ifname'' then rbind (dec_string f (port_IfName p) v) (\<lambda>x. Inr (p\<lparr>port_IfName := x\<rparr>))
      else if f = ''name'' then rbind (dec_string f (port_Name p) v) (\<lambda>x. Inr (p\<lparr>port_Name := x\<rparr>))
      else if f = ''port_idx'' then rbind (dec_int f (port_PortIdx p) v) (\<lambda>x. Inr (p\<lparr>port_PortIdx := x\<rparr>))
      else if f = ''media'' then rbind (dec_string f (port_Media p) v) (\<lambda>x. Inr (p\<lparr>port_Media := x\<rparr>))
      else if f = ''poe_caps'' then rbind (dec_int f (port_PoECaps p) v) (\<lambda>x. Inr (p\<lparr>port_PoECaps := x\<rparr>))
      else rbind (dec_bool f (port_IsUplink p) v) (\<lambda>x. Inr (p\<lparr>port_IsUplink := x\<rparr>)))"

text \<open>\<^verbatim>\<open>Channel\<close> is tagged \<^verbatim>\<open>json:"-"\<close>: it is no field of the document.\<close>

definition radio_fields :: "string list" where
  "radio_fields = [''name'', ''radio'', ''ht'', ''min_txpower'', ''max_txpower'', ''nss'',
     ''radio_caps'', ''antenna_gain'']"

definition set_radio_field :: "string \<Rightarrow> json \<Rightarrow> radio \<Rightarrow> json_error + radio" where
  "set_radio_field f v r =
     (if f = ''name'' then rbind (dec_string f (radio_Name r) v) (\<lambda>x. Inr (r\<lparr>radio_Name := x\<rparr>))
      else if f = ''radio'' then rbind (dec_string f (radio_Radio r) v) (\<lambda>x. Inr (r\<lparr>radio_Radio := x\<rparr>))
      else if f = ''ht'' then rbind (dec_string f (radio_HT r) v) (\<lambda>x. Inr (r\<lparr>radio_HT := x\<rparr>))
      else if f = ''min_txpower'' then rbind (dec_int f (radio_MinTxPower r) v) (\<lambda>x. Inr (r\<lparr>radio_MinTxPower := x\<rparr>))
      else if f = ''max_txpower'' then rbind (dec_int f (radio_MaxTxPower r) v) (\<lambda>x. Inr (r\<lparr>radio_MaxTxPower := x\<rparr>))
      else if f = ''nss'' then rbind (dec_int f (radio_NSS r) v) (\<lambda>x. Inr (r\<lparr>radio_NSS := x\<rparr>))
      else if f = ''radio_caps'' then rbind (dec_int f (radio_RadioCaps r) v) (\<lambda>x. Inr (r\<lparr>radio_RadioCaps := x\<rparr>))
      else rbind (dec_int f (radio_AntennaGain r) v) (\<lambda>x. Inr (r\<lparr>radio_AntennaGain := x\<rparr>)))"

definition dec_port :: "port \<Rightarrow> json \<Rightarrow> json_error + port" where
  "dec_port p v = dec_struct False port_fields set_port_field v p"

definition dec_radio :: "radio \<Rightarrow> json \<Rightarrow> json_error + radio" where
  "dec_radio r v = dec_struct False radio_fields set_radio_field v r"

definition profile_fields :: "string list" where
  "profile_fields = [''model'', ''model_display'', ''type'', ''version'', ''udapi_version'',
     ''udapi_caps'', ''fw_caps'', ''ports'', ''radios'']"

definition set_profile_field :: "string \<Rightarrow> json \<Rightarrow> model_profile \<Rightarrow> json_error + model_profile" where
  "set_profile_field f v p =
     (if f = ''model'' then rbind (dec_string f (pf_Model p) v) (\<lambda>x. Inr (p\<lparr>pf_Model := x\<rparr>))
      else if f = ''model_display'' then rbind (dec_string f (pf_ModelDisplay p) v) (\<lambda>x. Inr (p\<lparr>pf_ModelDisplay := x\<rparr>))
      else if f = ''type'' then rbind (dec_string f (pf_Type p) v) (\<lambda>x. Inr (p\<lparr>pf_Type := x\<rparr>))
      else if f = ''version'' then rbind (dec_string f (pf_Version p) v) (\<lambda>x. Inr (p\<lparr>pf_Version := x\<rparr>))
      else if f = ''udapi_version'' then rbind (dec_string f (pf_UDAPIVersion p) v) (\<lambda>x. Inr (p\<lparr>pf_UDAPIVersion := x\<rparr>))
      else if f = ''udapi_caps'' then rbind (dec_int f (pf_UDAPICaps p) v) (\<lambda>x. Inr (p\<lparr>pf_UDAPICaps := x\<rparr>))
      else if f = ''fw_caps'' then rbind (dec_int f (pf_FWCaps p) v) (\<lambda>x. Inr (p\<lparr>pf_FWCaps := x\<rparr>))
      else if f = ''ports'' then
        rbind (dec_list f dec_port zero_port (pf_Ports p) v) (\<lambda>x. Inr (p\<lparr>pf_Ports := x\<rparr>))
      else rbind (dec_list f dec_radio zero_radio (pf_Radios p) v) (\<lambda>x. Inr (p\<lparr>pf_Radios := x\<rparr>)))"

definition dec_profile :: "model_profile \<Rightarrow> json \<Rightarrow> json_error + model_profile" where
  "dec_profile p v = dec_struct False profile_fields set_profile_field v p"

definition set_catalog_field :: "string \<Rightarrow> json \<Rightarrow> model_profile list \<Rightarrow> json_error + model_profile list" where
  "set_catalog_field f v ms = dec_list f dec_profile zero_profile ms v"

section \<open>The registry\<close>

type_synonym registry = "string \<rightharpoonup> model_profile"

datatype registry_panic = ParseFailed json_error | NoModels

definition defaultChannel :: "string \<Rightarrow> int" where
  "defaultChannel radio = (if radio = ''ng'' then 1 else if radio = ''na'' then 36 else 5)"

definition set_channels :: "model_profile \<Rightarrow> model_profile" where
  "set_channels m =
     m\<lparr>pf_Radios := map (\<lambda>r. r\<lparr>radio_Channel := defaultChannel (radio_Radio r)\<rparr>) (pf_Radios m)\<rparr>"

definition loadRegistry :: "string \<Rightarrow> registry_panic + registry" where
  "loadRegistry modelCatalogJSON =
     (case unmarshal_struct [''models''] set_catalog_field modelCatalogJSON [] of
        Inl e \<Rightarrow> Inl (ParseFailed e)
      | Inr models \<Rightarrow>
          if length models = 0 then Inl NoModels
          else Inr (fold (\<lambda>m reg. reg(pf_Model m \<mapsto> set_channels m)) models Map.empty))"

definition Profile :: "registry \<Rightarrow> string \<Rightarrow> model_profile option" where
  "Profile reg model = reg model"

text \<open>The model names of a registry with finitely many entries, sorted.\<close>

definition Models :: "registry \<Rightarrow> string list" where
  "Models reg = sorted_list_of_set (dom reg)"

section \<open>What a registry holds\<close>

definition registry_ok :: "registry \<Rightarrow> bool" where
  "registry_ok reg \<longleftrightarrow> finite (dom reg) \<and>
     (\<forall>m p. reg m = Some p \<longrightarrow> pf_Model p = m \<and>
        (\<forall>r \<in> set (pf_Radios p). radio_Channel r = defaultChannel (radio_Radio r)))"

lemma registry_ok_update: "registry_ok reg \<Longrightarrow> registry_ok (reg(pf_Model m \<mapsto> set_channels m))"
  by (auto simp: registry_ok_def set_channels_def)

lemma registry_ok_fold:
  "registry_ok reg \<Longrightarrow> registry_ok (fold (\<lambda>m reg. reg(pf_Model m \<mapsto> set_channels m)) ms reg)"
  by (induction ms arbitrary: reg) (simp_all add: registry_ok_update del: fun_upd_apply)

lemma fold_update_dom:
  "dom (fold (\<lambda>m reg. reg(pf_Model m \<mapsto> set_channels m)) ms reg) = pf_Model ` set ms \<union> dom reg"
  by (induction ms arbitrary: reg) auto

lemma loadRegistry_ok:
  assumes "loadRegistry txt = Inr reg"
  shows "registry_ok reg" and "dom reg \<noteq> {}"
proof -
  obtain ms where ms: "ms \<noteq> []" "reg = fold (\<lambda>m reg. reg(pf_Model m \<mapsto> set_channels m)) ms Map.empty"
    using assms by (auto simp: loadRegistry_def split: sum.splits if_splits)
  have "registry_ok Map.empty" by (simp add: registry_ok_def)
  then show "registry_ok reg" unfolding ms(2) by (rule registry_ok_fold)
  show "dom reg \<noteq> {}" using ms fold_update_dom [of ms Map.empty] by simp
qed

text \<open>
  The registry the program starts with is never empty, is keyed by each profile's own model
  name, gives every radio the default channel of its band, and \<^verbatim>\<open>Models\<close> lists exactly the
  models it can look up, once each and in order.
\<close>

theorem registry_is_consistent:
  assumes "loadRegistry txt = Inr reg"
  shows "registry_ok reg \<and> Models reg \<noteq> [] \<and> sorted (Models reg) \<and> distinct (Models reg) \<and>
     (\<forall>m. m \<in> set (Models reg) \<longleftrightarrow> Profile reg m \<noteq> None)"
proof -
  have ok: "registry_ok reg" and ne: "dom reg \<noteq> {}"
    using loadRegistry_ok [OF assms] by auto
  then have "finite (dom reg)" by (simp add: registry_ok_def)
  then show ?thesis using ok ne by (auto simp: Models_def Profile_def)
qed

definition sample_catalog :: string where
  "sample_catalog = ''{\"models\":[{\"model\":\"BZ2\",\"type\":\"uap\",\"radios\":[{\"radio\":\"na\"}]}]}''"

definition sample_profile :: model_profile where
  "sample_profile = zero_profile\<lparr>pf_Model := ''BZ2'', pf_Type := ''uap'',
     pf_Radios := [zero_radio\<lparr>radio_Radio := ''na'', radio_Channel := 36\<rparr>]\<rparr>"

lemma load_sample: "loadRegistry sample_catalog = Inr [''BZ2'' \<mapsto> sample_profile]"
proof -
  have "unmarshal_struct [''models''] set_catalog_field sample_catalog [] =
      Inr [zero_profile\<lparr>pf_Model := ''BZ2'', pf_Type := ''uap'', pf_Radios := [zero_radio\<lparr>radio_Radio := ''na''\<rparr>]\<rparr>]"
    by code_simp
  then show ?thesis
    by (simp add: loadRegistry_def set_channels_def defaultChannel_def sample_profile_def zero_radio_def)
qed

theorem registry_is_consistent_witness:
  "registry_ok [''BZ2'' \<mapsto> sample_profile] \<and> Models [''BZ2'' \<mapsto> sample_profile] = [''BZ2'']"
  using registry_is_consistent [OF load_sample] by (simp add: Models_def)

end
