(* ===== verification/Herder_Plan.thy ===== *)
theory Herder_Plan
  imports Herder_Runtime Emu_Registry "HOL-Library.Multiset"
begin

text \<open>
  The launch plan (\<^verbatim>\<open>internal/herder/plan.go\<close>): which device runs in which container, from which image.
  The registry of synthetic models is the one of the emulator; the lookup in it is all that is used.
\<close>

section \<open>Units and plans\<close>

datatype unit_kind = UnitSynthetic | UnitOpaque

record plan_unit =
  un_Kind :: unit_kind
  un_Image :: string
  un_CapAdd :: "string list"
  un_Devices :: "identity list"

definition DeviceIndices :: "plan_unit \<Rightarrow> string" where
  "DeviceIndices u = join_with '','' (map (\<lambda>d. itoa (int (id_Index d))) (un_Devices u))"

definition EndpointMAC :: "plan_unit \<Rightarrow> string" where
  "EndpointMAC u =
     (if un_Kind u \<noteq> UnitOpaque \<or> length (un_Devices u) \<noteq> 1 then [] else id_MAC (un_Devices u ! 0))"

record plan =
  pl_RunID :: string
  pl_Network :: string
  pl_InformURL :: string
  pl_Units :: "plan_unit list"

record plan_input =
  in_RunID :: string
  in_Network :: string
  in_InformURL :: string
  in_Devices :: "identity list"
  in_Runtime :: runtime_config
  in_SyntheticImage :: string

section \<open>Building the plan\<close>

fun check_profiles :: "registry \<Rightarrow> identity list \<Rightarrow> failure option" where
  "check_profiles reg [] = None"
| "check_profiles reg (d # ds) =
     (case Profile reg (id_Model d) of
        None \<Rightarrow> Some (failf CodeSyntheticModelUnknown PhaseValidate (UnitDetail (ModelUnknown (id_Index d) (id_Model d))))
      | Some _ \<Rightarrow> check_profiles reg ds)"

text \<open>The state of the loop: the units, the synthetic devices, the place of the synthetic unit\<close>

record planning =
  pg_Units :: "plan_unit list"
  pg_Synthetic :: "identity list"
  pg_First :: "nat option"

definition opaque_unit :: "identity \<Rightarrow> model_runtime \<Rightarrow> plan_unit" where
  "opaque_unit d rt = \<lparr>un_Kind = UnitOpaque, un_Image = mr_Image rt, un_CapAdd = mr_CapAdd rt, un_Devices = [d]\<rparr>"

definition plan_device :: "runtime_config \<Rightarrow> identity \<Rightarrow> planning \<Rightarrow> planning" where
  "plan_device cfg d p =
     (case Mapping cfg (id_Model d) of
        Some rt \<Rightarrow> p\<lparr>pg_Units := pg_Units p @ [opaque_unit d rt]\<rparr>
      | None \<Rightarrow>
          (let p = (if pg_First p = None then
                      p\<lparr>pg_First := Some (length (pg_Units p)),
                        pg_Units := pg_Units p @ [\<lparr>un_Kind = UnitSynthetic, un_Image = [], un_CapAdd = [], un_Devices = []\<rparr>]\<rparr>
                    else p)
           in p\<lparr>pg_Synthetic := pg_Synthetic p @ [d]\<rparr>))"

definition BuildPlan :: "registry \<Rightarrow> plan_input \<Rightarrow> failure + plan" where
  "BuildPlan reg inp =
     (case check_profiles reg (in_Devices inp) of
        Some f \<Rightarrow> Inl f
      | None \<Rightarrow>
          (let p = fold (plan_device (in_Runtime inp)) (in_Devices inp) \<lparr>pg_Units = [], pg_Synthetic = [], pg_First = None\<rparr>;
               pl = \<lparr>pl_RunID = in_RunID inp, pl_Network = in_Network inp, pl_InformURL = in_InformURL inp, pl_Units = pg_Units p\<rparr>
           in case pg_First p of
                None \<Rightarrow> Inr pl
              | Some i \<Rightarrow>
                  if in_SyntheticImage inp = [] then
                    Inl (failf CodeSyntheticImageRequired PhaseValidate
                           (UnitDetail (SyntheticImageMissing (length (pg_Synthetic p)))))
                  else
                    Inr (pl\<lparr>pl_Units :=
                      (pl_Units pl)[i := (pl_Units pl ! i)\<lparr>un_Image := in_SyntheticImage inp, un_Devices := pg_Synthetic p\<rparr>]\<rparr>)))"

section \<open>What is read off a plan\<close>

fun images_loop :: "string set \<Rightarrow> plan_unit list \<Rightarrow> string list" where
  "images_loop seen [] = []"
| "images_loop seen (u # us) =
     (if un_Image u \<in> seen then images_loop seen us
      else un_Image u # images_loop (insert (un_Image u) seen) us)"

definition Images :: "plan \<Rightarrow> string list" where
  "Images p = images_loop {} (pl_Units p)"

text \<open>
  The insertion sort the package writes out for identities, for ready devices and for the terms of
  the redactor: the element at each place is swapped down while its key is below its neighbour's.
\<close>

fun swap_down :: "('a \<Rightarrow> 'k :: linorder) \<Rightarrow> 'a list \<Rightarrow> nat \<Rightarrow> 'a list" where
  "swap_down key xs 0 = xs"
| "swap_down key xs (Suc j) =
     (if key (xs ! Suc j) < key (xs ! j) then swap_down key (xs[Suc j := xs ! j, j := xs ! Suc j]) j else xs)"

definition insertion_sort :: "('a \<Rightarrow> 'k :: linorder) \<Rightarrow> 'a list \<Rightarrow> 'a list" where
  "insertion_sort key xs = fold (\<lambda>i ys. swap_down key ys i) [1..<length xs] xs"

definition sortByIndex :: "identity list \<Rightarrow> identity list" where
  "sortByIndex = insertion_sort id_Index"

definition Devices :: "plan \<Rightarrow> identity list" where
  "Devices p = sortByIndex (concat (map un_Devices (pl_Units p)))"

section \<open>The synthetic image\<close>

definition syntheticImageRepo :: string where
  "syntheticImageRepo = ''ghcr.io/jamesbraid/unifi-emu''"

definition ResolveSyntheticImage :: "string \<Rightarrow> string \<Rightarrow> string" where
  "ResolveSyntheticImage flagImage compiledDefault = (if flagImage \<noteq> [] then flagImage else compiledDefault)"

definition trim_v :: "string \<Rightarrow> string" where
  "trim_v s = (case strip_prefix ''v'' s of Some r \<Rightarrow> r | None \<Rightarrow> s)"

text \<open>Three dotted runs of digits, after an optional \<^verbatim>\<open>v\<close>\<close>

definition releaseVersion :: "string \<Rightarrow> bool" where
  "releaseVersion version \<longleftrightarrow>
     (let parts = split_on CHR ''.'' (trim_v version)
      in length parts = 3 \<and> list_all (\<lambda>p. p \<noteq> [] \<and> list_all is_digit p) parts)"

definition ReleaseVersion :: "string \<Rightarrow> string" where
  "ReleaseVersion version = (if \<not> releaseVersion version then [] else trim_v version)"

definition DefaultSyntheticImage :: "string \<Rightarrow> string" where
  "DefaultSyntheticImage version =
     (if ReleaseVersion version = [] then [] else syntheticImageRepo @ '':'' @ ReleaseVersion version)"

end
