(* ===== verification/Identity_Laws.thy ===== *)
theory Identity_Laws
  imports Herder_Identity "HOL-Library.Multiset"
begin

text \<open>
  What decoding a request and allocating its identities guarantee: every failure is a bad request,
  the derived values are valid, the three passes never give a value twice (each pass \<open>extends\<close> the
  values it finds by fresh ones), every entry of the result answers its entry of the request, and
  requests decode strictly.
\<close>

section \<open>Every failure is a bad request\<close>

definition bad_request :: "failure + 'a \<Rightarrow> bool" where
  "bad_request r \<longleftrightarrow> (\<forall>e. r = Inl e \<longrightarrow> fl_Code e = CodeInvalidRequest \<and> fl_Phase e = PhaseValidate)"

lemma bad_request_simps [simp]:
  "bad_request (Inl e) \<longleftrightarrow> fl_Code e = CodeInvalidRequest \<and> fl_Phase e = PhaseValidate"
  "bad_request (Inr x)"
  by (auto simp: bad_request_def)

lemma bad_identity_simps [simp]:
  "fl_Code (bad_identity d) = CodeInvalidRequest" "fl_Phase (bad_identity d) = PhaseValidate"
  by (simp_all add: bad_identity_def failf_def)

lemma bad_request_rbind: "bad_request r \<Longrightarrow> (\<And>x. r = Inr x \<Longrightarrow> bad_request (g x)) \<Longrightarrow> bad_request (rbind r g)"
  by (cases r) simp_all

lemma bad_supply:
  "bad_request (supply_mac d st)" "bad_request (supply_serial d st)" "bad_request (supply_name d st)"
  "bad_request (complete_serial R st)" "bad_request (complete_name R st)"
  by (auto simp: supply_mac_def supply_serial_def supply_name_def complete_serial_def complete_name_def
      canonicalMAC_def checkSerial_def checkName_def Let_def bad_request_def
      split: prod.splits if_splits option.splits)

lemma bad_supply_device: "bad_request (supply_device i d R)"
  by (auto simp: supply_device_def checkModel_def intro!: bad_request_rbind bad_supply split: option.splits)

lemma bad_supply_all: "bad_request (supply_all i ds R)"
  by (induction ds arbitrary: i R)
    (auto intro!: bad_request_rbind bad_supply_device split: prod.splits)

lemma bad_complete_all: "bad_request (complete_all R devs F)"
  by (induction devs arbitrary: F)
    (auto simp: complete_def intro!: bad_request_rbind bad_supply split: prod.splits)

lemma bad_generate: "bad_request (generate n dev R F rnd)"
  by (induction n arbitrary: rnd) (auto split: option.splits)

lemma bad_generate_all: "bad_request (generate_all R devs F rnd)"
  by (induction devs arbitrary: F rnd) (auto intro!: bad_request_rbind bad_generate split: prod.splits)

section \<open>The values the derivations give\<close>


definition label_char :: "char \<Rightarrow> bool" where
  "label_char c \<longleftrightarrow> alnum c \<or> c = CHR ''-''"

lemma dnsLabel_iff: "dnsLabel s \<longleftrightarrow> s \<noteq> [] \<and> alnum (hd s) \<and> alnum (last s) \<and> list_all label_char s"
  by (simp add: dnsLabel_def label_char_def [abs_def])

lemma normalize_loop_chars: "list_all label_char b \<Longrightarrow> list_all label_char (normalize_loop m b d)"
proof (induction m b d rule: normalize_loop.induct)
  case (2 c cs b dash)
  have "alnum (lower_char c)" if "is_upper c"
    using that by (auto simp: alnum_def lower_char_def is_upper_def is_lower_def code_def)
  with 2 show ?case by (auto simp: label_char_def alnum_def)
qed simp

lemma trim_set_props:
  "set (trim_set cs s) \<subseteq> set s" "length (trim_set cs s) \<le> length s"
  "trim_set cs s \<noteq> [] \<Longrightarrow> hd (trim_set cs s) \<notin> set cs \<and> last (trim_set cs s) \<notin> set cs"
proof -
  let ?t = "dropWhile (\<lambda>x. x \<in> set cs) s"
  have t: "trim_set cs s = rev (dropWhile (\<lambda>x. x \<in> set cs) (rev ?t))"
    by (simp add: trim_set_def trim_right_set_def)
  show "set (trim_set cs s) \<subseteq> set s" unfolding t by (auto dest!: set_dropWhileD)
  show "length (trim_set cs s) \<le> length s"
    unfolding t length_rev using length_dropWhile_le [of _ "rev ?t"] length_dropWhile_le [of _ s]
    by (metis le_trans length_rev)
  assume ne: "trim_set cs s \<noteq> []"
  then have l: "last (trim_set cs s) \<notin> set cs"
    unfolding t using hd_dropWhile [of "\<lambda>x. x \<in> set cs" "rev ?t"] by (simp add: last_rev)
  obtain u where u: "?t = trim_set cs s @ u"
    unfolding t using takeWhile_dropWhile_id [of "\<lambda>x. x \<in> set cs" "rev ?t"] by (metis rev_append rev_rev_ident)
  then have "hd ?t = hd (trim_set cs s)" "?t \<noteq> []" using ne by simp_all
  then have "hd (trim_set cs s) \<notin> set cs" using hd_dropWhile [of "\<lambda>x. x \<in> set cs" s] by metis
  with l show "hd (trim_set cs s) \<notin> set cs \<and> last (trim_set cs s) \<notin> set cs" by (intro conjI)
qed

lemma trim_dashes_label:
  assumes "list_all label_char s" "trim_set ''-'' s \<noteq> []"
  shows "dnsLabel (trim_set ''-'' s)"
proof -
  have "list_all label_char (trim_set ''-'' s)" using assms(1) trim_set_props(1) [of "''-''" s] by (auto simp: list_all_iff)
  moreover have "hd (trim_set ''-'' s) \<noteq> CHR ''-''" "last (trim_set ''-'' s) \<noteq> CHR ''-''"
    using trim_set_props(3) [OF assms(2)] by simp_all
  ultimately show ?thesis using assms(2) by (auto simp: dnsLabel_iff label_char_def list_all_iff)
qed

lemma device_label [simp]: "dnsLabel ''device''"
  by code_simp

lemma normalizeModel_label: "dnsLabel (normalizeModel m)"
  using normalize_loop_chars [of "[]" m False] trim_dashes_label by (simp add: normalizeModel_def Let_def)

text \<open>What \<^const>\<open>derivedName\<close> puts between the prefix and the address\<close>

definition model_part :: "string \<Rightarrow> string" where
  "model_part m =
     (let norm = normalizeModel m in
      if length norm > 46 then (let t = trim_set ''-'' (take 46 norm) in if t = [] then ''device'' else t) else norm)"

lemma derivedName_parts: "derivedName m hex = ''emu-'' @ model_part m @ ''-'' @ hex"
  by (simp add: derivedName_def model_part_def nameMax_def Let_def)

lemma model_part_label: "dnsLabel (model_part m) \<and> length (model_part m) \<le> 46"
proof -
  have "list_all label_char (take 46 (normalizeModel m))"
    using normalizeModel_label [of m] set_take_subset [of 46 "normalizeModel m"]
    by (auto simp: dnsLabel_iff list_all_iff)
  moreover have "length (trim_set ''-'' (take 46 (normalizeModel m))) \<le> 46"
    using trim_set_props(2) [of "''-''" "take 46 (normalizeModel m)"] by simp
  ultimately show ?thesis
    using normalizeModel_label [of m] trim_dashes_label by (auto simp: model_part_def Let_def)
qed

lemma hex_lower_alnum: "is_hex_lower c \<Longrightarrow> alnum c"
  by (auto simp: alnum_def is_hex_lower_def is_lower_def)

lemma hex_encode_is_hex: "list_all is_hex_lower (hex_encode v)"
  by (induction v) (simp_all add: hex_encode_def)

lemma length_hex_encode: "length (hex_encode v) = 2 * length v"
  by (induction v) (simp_all add: hex_encode_def hex_byte_def)

lemma derivedName_label:
  assumes "length v = 6"
  shows "dnsLabel (derivedName m (hex_encode v))" "length (derivedName m (hex_encode v)) \<le> nameMax"
proof -
  have ne: "hex_encode v \<noteq> []" using assms length_hex_encode [of v] by auto
  have hex: "list_all alnum (hex_encode v)"
    using hex_encode_is_hex [of v] hex_lower_alnum by (auto simp: list_all_iff)
  then have "alnum (last (hex_encode v))" "list_all label_char (hex_encode v)"
    using ne by (auto simp: list_all_iff label_char_def)
  then show "dnsLabel (derivedName m (hex_encode v))"
    using model_part_label [of m] ne
    by (simp add: derivedName_parts dnsLabel_iff label_char_def) (simp add: alnum_def is_lower_def code_def)
  show "length (derivedName m (hex_encode v)) \<le> nameMax"
    using model_part_label [of m] assms by (simp add: derivedName_parts length_hex_encode nameMax_def)
qed

text \<open>A device address is its own canonical form; every address a pass yields is one.\<close>

definition device_mac :: "string \<Rightarrow> bool" where
  "device_mac m \<longleftrightarrow> canonicalMAC m = Inr m"

lemma mac_string_device:
  assumes "length v = 6" "v ! 0 AND 0x01 = 0" "v ! 0 AND 0x02 \<noteq> 0"
  shows "device_mac (mac_string v)"
  using assms parse_mac_string [of v] by (simp add: device_mac_def canonicalMAC_def)

lemma canonicalMAC_device:
  assumes "canonicalMAC s = Inr m"
  shows "\<exists>v. length v = 6 \<and> m = mac_string v \<and> device_mac m"
  using assms mac_string_device by (auto simp: canonicalMAC_def split: option.splits if_splits)

lemma device_mac_hex:
  assumes "device_mac m"
  shows "\<exists>v. length v = 6 \<and> macHex m = hex_encode v \<and> m \<noteq> []"
proof -
  obtain v where v: "length v = 6" "m = mac_string v"
    using canonicalMAC_device [of m m] assms by (auto simp: device_mac_def)
  moreover have "v \<noteq> []" using v by auto
  then have "length m = 17" using v length_mac_string [of v] by simp
  then have "m \<noteq> []" by auto
  ultimately show ?thesis using remove_colon_mac_string [of v] by (auto simp: macHex_def)
qed

lemma upper_hex_printable: "is_hex_lower c \<Longrightarrow> 0x20 \<le> code (upper_char c) \<and> code (upper_char c) \<le> 0x7e"
  by (auto simp: is_hex_lower_def is_digit_def upper_char_def is_lower_def)

lemma derivedSerial_ok:
  assumes "length v = 6"
  shows "checkSerial (derivedSerial (hex_encode v)) = None" "derivedSerial x \<noteq> []"
proof -
  have "printableASCII (to_upper (hex_encode v))"
    using hex_encode_is_hex [of v] upper_hex_printable by (auto simp: printableASCII_def to_upper_def list_all_iff)
  then show "checkSerial (derivedSerial (hex_encode v)) = None"
    using assms length_hex_encode [of v]
    by (simp add: checkSerial_def derivedSerial_def serialMax_def to_upper_def printableASCII_def code_def)
qed (simp add: derivedSerial_def)

lemma derivedName_ok:
  "length v = 6 \<Longrightarrow> checkName (derivedName m (hex_encode v)) = None" "derivedName m x \<noteq> []"
  using derivedName_label [of v m] by (simp_all add: checkName_def derivedName_parts)

section \<open>No value is given twice\<close>

text \<open>
  The values of a field the entries already have, and what a pass may do to them: it keeps them and
  adds new ones, distinct from each other, from what the caller reserved and from what is claimed.
\<close>

definition given :: "(identity \<Rightarrow> string) \<Rightarrow> identity list \<Rightarrow> string list" where
  "given f devs = filter (\<lambda>v. v \<noteq> []) (map f devs)"

lemma given_simps [simp]:
  "given f [] = []" "given f (d # ds) = (if f d = [] then given f ds else f d # given f ds)"
  by (simp_all add: given_def)

definition extends :: "(identity \<Rightarrow> string) \<Rightarrow> string set \<Rightarrow> identity list \<Rightarrow> string set \<Rightarrow> identity list \<Rightarrow> string set \<Rightarrow> bool" where
  "extends f R devs F devs' F' \<longleftrightarrow>
     (\<exists>new. mset (given f devs') = mset (given f devs) + mset new \<and> distinct new \<and>
        set new \<inter> (R \<union> F) = {} \<and> F \<union> set new \<subseteq> F')"

lemma extends_refl: "extends f R devs F devs F"
  unfolding extends_def by (rule exI [of _ "[]"]) simp

lemma extends_Cons:
  assumes "extends f R [d] F [d'] F1" "extends f R ds F1 ds' F2"
  shows "extends f R (d # ds) F (d' # ds') F2"
proof -
  obtain n1 where 1: "mset (given f [d']) = mset (given f [d]) + mset n1" "distinct n1"
    "set n1 \<inter> (R \<union> F) = {}" "F \<union> set n1 \<subseteq> F1"
    using assms(1) unfolding extends_def by blast
  obtain n2 where 2: "mset (given f ds') = mset (given f ds) + mset n2" "distinct n2"
    "set n2 \<inter> (R \<union> F1) = {}" "F1 \<union> set n2 \<subseteq> F2"
    using assms(2) unfolding extends_def by blast
  have split_head: "mset (given f (d # ds)) = mset (given f [d]) + mset (given f ds)" for d ds by simp
  have "mset (given f (d' # ds')) = mset (given f (d # ds)) + mset (n1 @ n2)"
    unfolding split_head [of d' ds'] split_head [of d ds] 1(1) 2(1) mset_append by (simp only: ac_simps)
  moreover have "set n1 \<inter> set n2 = {}" using 1(4) 2(3) by blast
  then have "distinct (n1 @ n2)" using 1(2) 2(2) by simp
  moreover have "set (n1 @ n2) \<inter> (R \<union> F) = {}" "F \<union> set (n1 @ n2) \<subseteq> F2"
    using 1(3-4) 2(3-4) by (simp_all only: set_append) blast+
  ultimately show ?thesis unfolding extends_def by blast
qed

lemma extends_keep: "f d' = f d \<Longrightarrow> F \<subseteq> F' \<Longrightarrow> extends f R [d] F [d'] F'"
  unfolding extends_def by (rule exI [of _ "[]"]) auto

lemma extends_new:
  "f d = [] \<Longrightarrow> f d' \<noteq> [] \<Longrightarrow> f d' \<notin> R \<Longrightarrow> f d' \<notin> F \<Longrightarrow> insert (f d') F \<subseteq> F' \<Longrightarrow> extends f R [d] F [d'] F'"
  unfolding extends_def by (rule exI [of _ "[f d']"]) auto

text \<open>Two passes from an empty set of claims\<close>

lemma extends_distinct:
  assumes "distinct (given f devs)" "set (given f devs) \<subseteq> R \<union> F" "extends f R devs F devs' F'"
  shows "distinct (given f devs') \<and> set (given f devs') \<subseteq> R \<union> F'"
proof -
  obtain new where n: "mset (given f devs') = mset (given f devs) + mset new" "distinct new"
    "set new \<inter> (R \<union> F) = {}" "F \<union> set new \<subseteq> F'"
    using assms(3) unfolding extends_def by blast
  have m: "mset (given f devs') = mset (given f devs @ new)" using n(1) by simp
  have "set (given f devs) \<inter> set new = {}" using assms(2) n(3) by blast
  then have "distinct (given f devs @ new)" using assms(1) n(2) by simp
  moreover have "distinct (given f devs') \<longleftrightarrow> distinct (given f devs @ new)"
    using m by (rule mset_eq_imp_distinct_iff)
  moreover have "set (given f devs') = set (given f devs) \<union> set new" using mset_eq_setD [OF m] by simp
  ultimately show ?thesis using assms(2) n(4) by blast
qed

section \<open>Pass 1\<close>

lemma addX_iff:
  "addMAC v s = (s', True) \<longleftrightarrow> v \<notin> is_macs s \<and> s' = s\<lparr>is_macs := insert v (is_macs s)\<rparr>"
  "addSerial v s = (s', True) \<longleftrightarrow> v \<notin> is_serials s \<and> s' = s\<lparr>is_serials := insert v (is_serials s)\<rparr>"
  "addName v s = (s', True) \<longleftrightarrow> v \<notin> is_names s \<and> s' = s\<lparr>is_names := insert v (is_names s)\<rparr>"
  by (auto simp: addMAC_def addSerial_def addName_def add_def)

lemma supply_mac_ok:
  assumes "supply_mac d (dev, R) = Inr (dev', R')"
  shows "if rq_MAC d = [] then dev' = dev \<and> R' = R
    else \<exists>m. canonicalMAC (rq_MAC d) = Inr m \<and> m \<notin> is_macs R \<and> dev' = dev\<lparr>id_MAC := m\<rparr> \<and>
      R' = R\<lparr>is_macs := insert m (is_macs R)\<rparr>"
proof (cases "rq_MAC d = []")
  case False
  then obtain m where m: "canonicalMAC (rq_MAC d) = Inr m"
    using assms by (cases "canonicalMAC (rq_MAC d)") (simp_all add: supply_mac_def)
  obtain R1 ok where a: "addMAC m R = (R1, ok)" by (cases "addMAC m R")
  with m False assms have "ok" "dev' = dev\<lparr>id_MAC := m\<rparr>" "R' = R1"
    by (simp_all add: supply_mac_def split: if_splits)
  then show ?thesis using False m a by (simp add: addX_iff)
qed (use assms in \<open>simp add: supply_mac_def\<close>)

lemma supply_serial_ok:
  assumes "supply_serial d (dev, R) = Inr (dev', R')"
  shows "if rq_Serial d = [] then dev' = dev \<and> R' = R
    else checkSerial (rq_Serial d) = None \<and> rq_Serial d \<notin> is_serials R \<and> dev' = dev\<lparr>id_Serial := rq_Serial d\<rparr> \<and>
      R' = R\<lparr>is_serials := insert (rq_Serial d) (is_serials R)\<rparr>"
  using assms by (auto simp: supply_serial_def addX_iff split: prod.splits if_splits option.splits)

lemma supply_name_ok:
  assumes "supply_name d (dev, R) = Inr (dev', R')"
  shows "if rq_Name d = [] then dev' = dev \<and> R' = R
    else checkName (rq_Name d) = None \<and> rq_Name d \<notin> is_names R \<and> dev' = dev\<lparr>id_Name := rq_Name d\<rparr> \<and>
      R' = R\<lparr>is_names := insert (rq_Name d) (is_names R)\<rparr>"
  using assms by (auto simp: supply_name_def addX_iff split: prod.splits if_splits option.splits)

text \<open>What pass 1 leaves of one entry\<close>

definition supplied_as :: "nat \<Rightarrow> request_device \<Rightarrow> identity \<Rightarrow> bool" where
  "supplied_as i d dev \<longleftrightarrow>
     id_Index dev = i \<and> id_Model dev = rq_Model d \<and> checkModel (rq_Model d) = None \<and>
     (if rq_MAC d = [] then id_MAC dev = [] else canonicalMAC (rq_MAC d) = Inr (id_MAC dev)) \<and>
     id_Serial dev = rq_Serial d \<and> (rq_Serial d = [] \<or> checkSerial (rq_Serial d) = None) \<and>
     id_Name dev = rq_Name d \<and> (rq_Name d = [] \<or> checkName (rq_Name d) = None)"

definition claimed_as :: "(identity \<Rightarrow> string) \<Rightarrow> (identity_set \<Rightarrow> string set) \<Rightarrow> identity \<Rightarrow> identity_set \<Rightarrow> identity_set \<Rightarrow> bool" where
  "claimed_as f T dev R R' \<longleftrightarrow>
     (if f dev = [] then T R' = T R else f dev \<notin> T R \<and> T R' = insert (f dev) (T R))"

lemma canonicalMAC_nonempty: "canonicalMAC s = Inr m \<Longrightarrow> m \<noteq> []"
  using canonicalMAC_device [of s m] device_mac_hex [of m] by blast

lemma supply_device_ok:
  assumes "supply_device i d R = Inr (dev, R')"
  shows "supplied_as i d dev \<and> claimed_as id_MAC is_macs dev R R' \<and> claimed_as id_Serial is_serials dev R R' \<and>
    claimed_as id_Name is_names dev R R'"
proof -
  let ?d0 = "\<lparr>id_Index = i, id_Model = rq_Model d, id_MAC = [], id_Serial = [], id_Name = []\<rparr>"
  have m: "checkModel (rq_Model d) = None"
    using assms by (simp add: supply_device_def split: option.splits)
  then obtain d1 R1 d2 R2 where
    s: "supply_mac d (?d0, R) = Inr (d1, R1)" "supply_serial d (d1, R1) = Inr (d2, R2)" "supply_name d (d2, R2) = Inr (dev, R')"
    using assms by (auto simp: supply_device_def rbind_Inr_iff)
  show ?thesis
    using m supply_mac_ok [OF s(1)] supply_serial_ok [OF s(2)] supply_name_ok [OF s(3)] canonicalMAC_nonempty [of "rq_MAC d"]
    by (auto simp: supplied_as_def claimed_as_def split: if_splits)
qed

definition claims_of :: "(identity \<Rightarrow> string) \<Rightarrow> (identity_set \<Rightarrow> string set) \<Rightarrow> identity list \<Rightarrow> identity_set \<Rightarrow> identity_set \<Rightarrow> bool" where
  "claims_of f T devs R R' \<longleftrightarrow>
     distinct (given f devs) \<and> set (given f devs) \<inter> T R = {} \<and> T R' = T R \<union> set (given f devs)"

lemma claimed_as_Cons: "claimed_as f T dev R R1 \<Longrightarrow> claims_of f T devs R1 R2 \<Longrightarrow> claims_of f T (dev # devs) R R2"
  by (auto simp: claimed_as_def claims_of_def split: if_splits)

lemma supply_all_ok:
  assumes "supply_all i ds R = Inr (devs, R')"
  shows "length devs = length ds \<and> (\<forall>j < length ds. supplied_as (i + j) (ds ! j) (devs ! j)) \<and>
    claims_of id_MAC is_macs devs R R' \<and> claims_of id_Serial is_serials devs R R' \<and> claims_of id_Name is_names devs R R'"
  using assms
proof (induction ds arbitrary: i R devs)
  case (Cons d ds)
  then obtain dev R1 devs' where s: "supply_device i d R = Inr (dev, R1)" "supply_all (Suc i) ds R1 = Inr (devs', R')" "devs = dev # devs'"
    by (auto simp: rbind_Inr_iff)
  note hd = supply_device_ok [OF s(1)] and tl = Cons.IH [OF s(2)]
  have "supplied_as (i + j) ((d # ds) ! j) (devs ! j)" if "j < length (d # ds)" for j
    using hd tl that s(3) by (cases j) auto
  then show ?case using hd tl s(3) by (auto intro: claimed_as_Cons)
qed (simp add: claims_of_def)

section \<open>Pass 2\<close>

text \<open>What an entry becomes: the missing fields are derived from its address.\<close>

definition filled :: "identity \<Rightarrow> identity \<Rightarrow> bool" where
  "filled dev dev' \<longleftrightarrow>
     id_Index dev' = id_Index dev \<and> id_Model dev' = id_Model dev \<and> (id_MAC dev \<noteq> [] \<longrightarrow> id_MAC dev' = id_MAC dev) \<and>
     id_Serial dev' = (if id_Serial dev = [] then derivedSerial (macHex (id_MAC dev')) else id_Serial dev) \<and>
     id_Name dev' = (if id_Name dev = [] then derivedName (id_Model dev) (macHex (id_MAC dev')) else id_Name dev)"

definition all_extend :: "identity_set \<Rightarrow> identity list \<Rightarrow> identity_set \<Rightarrow> identity list \<Rightarrow> identity_set \<Rightarrow> bool" where
  "all_extend R devs F devs' F' \<longleftrightarrow>
     extends id_MAC (is_macs R) devs (is_macs F) devs' (is_macs F') \<and>
     extends id_Serial (is_serials R) devs (is_serials F) devs' (is_serials F') \<and>
     extends id_Name (is_names R) devs (is_names F) devs' (is_names F')"

lemma all_extend_refl: "all_extend R devs F devs F"
  by (simp add: all_extend_def extends_refl)

lemma all_extend_Cons:
  "all_extend R [d] F [d'] F1 \<Longrightarrow> all_extend R ds F1 ds' F2 \<Longrightarrow> all_extend R (d # ds) F (d' # ds') F2"
  unfolding all_extend_def by (blast intro: extends_Cons)

lemma complete_serial_ok:
  assumes "complete_serial R (dev, F) = Inr (dev', F')"
  shows "if id_Serial dev \<noteq> [] then dev' = dev \<and> F' = F
    else (\<exists>s. s = derivedSerial (macHex (id_MAC dev)) \<and> s \<notin> is_serials R \<and> s \<notin> is_serials F \<and>
      dev' = dev\<lparr>id_Serial := s\<rparr> \<and> F' = F\<lparr>is_serials := insert s (is_serials F)\<rparr>)"
  using assms by (auto simp: complete_serial_def Let_def addX_iff split: prod.splits if_splits)

lemma complete_name_ok:
  assumes "complete_name R (dev, F) = Inr (dev', F')"
  shows "if id_Name dev \<noteq> [] then dev' = dev \<and> F' = F
    else (\<exists>s. s = derivedName (id_Model dev) (macHex (id_MAC dev)) \<and> s \<notin> is_names R \<and> s \<notin> is_names F \<and>
      dev' = dev\<lparr>id_Name := s\<rparr> \<and> F' = F\<lparr>is_names := insert s (is_names F)\<rparr>)"
  using assms by (auto simp: complete_name_def Let_def addX_iff split: prod.splits if_splits)

lemma complete_ok:
  assumes "complete R dev F = Inr (dev', F')"
  shows "(if id_MAC dev = [] then dev' = dev else filled dev dev') \<and> all_extend R [dev] F [dev'] F'"
proof (cases "id_MAC dev = []")
  case True
  then show ?thesis using assms all_extend_refl by (simp add: complete_def)
next
  case False
  then obtain d1 F1 where s: "complete_serial R (dev, F) = Inr (d1, F1)" "complete_name R (d1, F1) = Inr (dev', F')"
    using assms by (auto simp: complete_def rbind_Inr_iff)
  note c = complete_serial_ok [OF s(1)] complete_name_ok [OF s(2)]
  have "filled dev dev'" using c by (auto simp: filled_def split: if_splits)
  moreover have "extends id_MAC (is_macs R) [dev] (is_macs F) [dev'] (is_macs F')"
    using c by (intro extends_keep) (auto split: if_splits)
  moreover have "extends id_Serial (is_serials R) [dev] (is_serials F) [dev'] (is_serials F')"
  proof (cases "id_Serial dev = []")
    case True
    with c show ?thesis by (intro extends_new) (auto simp: derivedSerial_def split: if_splits)
  next
    case False
    with c show ?thesis by (intro extends_keep) (auto split: if_splits)
  qed
  moreover have "extends id_Name (is_names R) [dev] (is_names F) [dev'] (is_names F')"
  proof (cases "id_Name dev = []")
    case True
    with c show ?thesis by (intro extends_new) (auto simp: derivedName_parts split: if_splits)
  next
    case False
    with c show ?thesis by (intro extends_keep) (auto split: if_splits)
  qed
  ultimately show ?thesis using False by (simp add: all_extend_def)
qed

lemma complete_all_ok:
  assumes "complete_all R devs F = Inr (devs', F')"
  shows "list_all2 (\<lambda>a b. if id_MAC a = [] then b = a else filled a b) devs devs' \<and> all_extend R devs F devs' F'"
  using assms
proof (induction devs arbitrary: F devs')
  case Nil
  then show ?case by (simp add: all_extend_refl)
next
  case (Cons d ds)
  then obtain d' F1 ds' where s: "complete R d F = Inr (d', F1)" "complete_all R ds F1 = Inr (ds', F')" "devs' = d' # ds'"
    by (auto simp: rbind_Inr_iff)
  show ?case using complete_ok [OF s(1)] Cons.IH [OF s(2)] s(3) all_extend_Cons by auto
qed

section \<open>Pass 3\<close>

lemma drawn_bits:
  "(x AND NOT 0x01 OR 0x02) AND 0x01 = (0 :: 8 word)" "(x AND NOT 0x01 OR 0x02) AND 0x02 \<noteq> (0 :: 8 word)"
proof -
  have "(x AND NOT 0x01 OR 0x02) AND 0x02 = (0x02 :: 8 word)" by (rule bit_word_eqI) (auto simp: bit_simps)
  then show "(x AND NOT 0x01 OR 0x02) AND 0x02 \<noteq> (0 :: 8 word)" by simp
  show "(x AND NOT 0x01 OR 0x02) AND 0x01 = (0 :: 8 word)" by (rule bit_word_eqI) (auto simp: bit_simps bit_1_iff)
qed

lemma candidate_ok:
  assumes c: "candidate dev R F raw = Some c" and raw: "length raw = 6" and dev: "id_MAC dev = []"
  shows "filled dev c" "device_mac (id_MAC c)" "id_MAC c \<notin> is_macs R" "id_MAC c \<notin> is_macs F"
    "id_Serial dev = [] \<Longrightarrow> id_Serial c \<notin> is_serials R \<and> id_Serial c \<notin> is_serials F"
    "id_Name dev = [] \<Longrightarrow> id_Name c \<notin> is_names R \<and> id_Name c \<notin> is_names F"
proof -
  let ?raw = "raw[0 := raw ! 0 AND NOT 0x01 OR 0x02]"
  have two: "(raw[0 := raw ! 0 AND NOT 0x01]) [0 := (raw[0 := raw ! 0 AND NOT 0x01]) ! 0 OR 0x02] = ?raw"
    using raw by (cases raw) simp_all
  have free: "mac_string ?raw \<notin> is_macs R \<and> mac_string ?raw \<notin> is_macs F"
    using c unfolding candidate_def Let_def two by (auto split: if_splits)
  let ?h = "macHex (mac_string ?raw)"
  have s: "id_Serial dev = [] \<Longrightarrow> derivedSerial ?h \<notin> is_serials R \<and> derivedSerial ?h \<notin> is_serials F"
    using c free unfolding candidate_def Let_def two by (auto split: if_splits)
  have n: "id_Name dev = [] \<Longrightarrow> derivedName (id_Model dev) ?h \<notin> is_names R \<and> derivedName (id_Model dev) ?h \<notin> is_names F"
    using c free s unfolding candidate_def Let_def two by (auto split: if_splits)
  have eq: "c = dev\<lparr>id_MAC := mac_string ?raw,
      id_Serial := (if id_Serial dev = [] then derivedSerial ?h else id_Serial dev),
      id_Name := (if id_Name dev = [] then derivedName (id_Model dev) ?h else id_Name dev)\<rparr>"
    using c free s n unfolding candidate_def Let_def two by (cases dev) (auto split: if_splits)
  show "filled dev c" "id_MAC c \<notin> is_macs R" "id_MAC c \<notin> is_macs F"
    "id_Serial dev = [] \<Longrightarrow> id_Serial c \<notin> is_serials R \<and> id_Serial c \<notin> is_serials F"
    "id_Name dev = [] \<Longrightarrow> id_Name c \<notin> is_names R \<and> id_Name c \<notin> is_names F"
    using free s n dev by (simp_all add: eq filled_def)
  have "?raw ! 0 = raw ! 0 AND NOT 0x01 OR 0x02" using raw by (cases raw) simp_all
  then show "device_mac (id_MAC c)"
    using mac_string_device [of ?raw] raw drawn_bits by (simp add: eq)
qed

lemma generate_ok:
  assumes "generate n dev R F rnd = Inr (dev', F', rnd')" "id_MAC dev = []"
  shows "filled dev dev' \<and> device_mac (id_MAC dev') \<and> all_extend R [dev] F [dev'] F'"
  using assms
proof (induction n arbitrary: rnd)
  case (Suc n)
  then have len: "length (take 6 rnd) = 6" by (auto split: if_splits)
  show ?case
  proof (cases "candidate dev R F (take 6 rnd)")
    case None
    with Suc show ?thesis by (auto split: if_splits)
  next
    case (Some c)
    note ok = candidate_ok [OF Some len Suc.prems(2)]
    have out: "dev' = c" "F' = fst (addName (id_Name c) (fst (addSerial (id_Serial c) (fst (addMAC (id_MAC c) F)))))"
      using Suc.prems(1) Some by (auto split: if_splits)
    have sets: "is_macs F' = insert (id_MAC c) (is_macs F)" "is_serials F' = insert (id_Serial c) (is_serials F)"
      "is_names F' = insert (id_Name c) (is_names F)"
      by (simp_all add: out mac_claims.claim_takes serial_claims.claim_takes name_claims.claim_takes)
    have "id_MAC c \<noteq> []" using device_mac_hex [OF ok(2)] by blast
    then have "extends id_MAC (is_macs R) [dev] (is_macs F) [c] (is_macs F')"
      using ok(3,4) Suc.prems(2) sets by (intro extends_new) auto
    moreover have "extends id_Serial (is_serials R) [dev] (is_serials F) [c] (is_serials F')"
    proof (cases "id_Serial dev = []")
      case True
      with ok(1,5) sets show ?thesis by (intro extends_new) (auto simp: filled_def derivedSerial_def)
    next
      case False
      with ok(1) sets show ?thesis by (intro extends_keep) (auto simp: filled_def)
    qed
    moreover have "extends id_Name (is_names R) [dev] (is_names F) [c] (is_names F')"
    proof (cases "id_Name dev = []")
      case True
      with ok(1,6) sets show ?thesis by (intro extends_new) (auto simp: filled_def derivedName_parts)
    next
      case False
      with ok(1) sets show ?thesis by (intro extends_keep) (auto simp: filled_def)
    qed
    ultimately show ?thesis using ok(1,2) out(1) by (simp add: all_extend_def)
  qed
qed simp

lemma generate_all_ok:
  assumes "generate_all R devs F rnd = Inr devs'"
  shows "list_all2 (\<lambda>a b. if id_MAC a \<noteq> [] then b = a else filled a b \<and> device_mac (id_MAC b)) devs devs' \<and>
    (\<exists>F'. all_extend R devs F devs' F')"
  using assms
proof (induction devs arbitrary: F rnd devs')
  case Nil
  then show ?case using all_extend_refl by auto
next
  case (Cons d ds)
  show ?case
  proof (cases "id_MAC d = []")
    case False
    then obtain ds' where s: "generate_all R ds F rnd = Inr ds'" "devs' = d # ds'"
      using Cons.prems by (auto simp: rbind_Inr_iff)
    then obtain F' where "all_extend R ds F ds' F'" using Cons.IH [OF s(1)] by blast
    then have "all_extend R (d # ds) F (d # ds') F'" by (rule all_extend_Cons [OF all_extend_refl])
    then show ?thesis using Cons.IH [OF s(1)] s(2) False by auto
  next
    case True
    then obtain d' F1 rnd1 ds' where s: "generate macRetries d R F rnd = Inr (d', F1, rnd1)"
      "generate_all R ds F1 rnd1 = Inr ds'" "devs' = d' # ds'"
      using Cons.prems by (auto simp: rbind_Inr_iff)
    obtain F' where "all_extend R ds F1 ds' F'" using Cons.IH [OF s(2)] by blast
    then have "all_extend R (d # ds) F (d' # ds') F'" using generate_ok [OF s(1) True] all_extend_Cons by blast
    then show ?thesis using generate_ok [OF s(1) True] Cons.IH [OF s(2)] s(3) True by auto
  qed
qed

section \<open>The allocation\<close>

text \<open>The three passes together: every entry filled from what was supplied\<close>

lemma Allocate_passes:
  assumes "Allocate devices rnd = Inr out"
  obtains devs where
    "length devs = length devices" "length out = length devices"
    "\<And>i. i < length devices \<Longrightarrow> supplied_as i (devices ! i) (devs ! i) \<and> filled (devs ! i) (out ! i) \<and> device_mac (id_MAC (out ! i))"
    "distinct (given id_MAC out)" "distinct (given id_Serial out)" "distinct (given id_Name out)"
proof -
  obtain devs R devs2 F2 where s: "supply_all 0 devices newIdentitySet = Inr (devs, R)"
    "complete_all R devs newIdentitySet = Inr (devs2, F2)" "generate_all R devs2 F2 rnd = Inr out"
    using assms by (auto simp: Allocate_def rbind_Inr_iff)
  note p1 = supply_all_ok [OF s(1)] and p2 = complete_all_ok [OF s(2)] and p3 = generate_all_ok [OF s(3)]
  obtain F3 where e3: "all_extend R devs2 F2 out F3" using p3 by blast
  have len: "length devs = length devices" "length devs2 = length devs" "length out = length devs2"
    using p1 p2 p3 by (auto dest: list_all2_lengthD)
  have "supplied_as i (devices ! i) (devs ! i) \<and> filled (devs ! i) (out ! i) \<and> device_mac (id_MAC (out ! i))"
    if i: "i < length devices" for i
  proof -
    have a: "supplied_as i (devices ! i) (devs ! i)" using p1 i by auto
    have b: "if id_MAC (devs ! i) = [] then devs2 ! i = devs ! i else filled (devs ! i) (devs2 ! i)"
      using p2 i len by (auto simp: list_all2_conv_all_nth)
    have c: "if id_MAC (devs2 ! i) \<noteq> [] then out ! i = devs2 ! i else filled (devs2 ! i) (out ! i) \<and> device_mac (id_MAC (out ! i))"
      using p3 i len by (auto simp: list_all2_conv_all_nth)
    show ?thesis
    proof (cases "id_MAC (devs ! i) = []")
      case True
      then show ?thesis using a b c by simp
    next
      case False
      then have "device_mac (id_MAC (devs ! i))"
        using a canonicalMAC_device by (auto simp: supplied_as_def split: if_splits)
      moreover have "id_MAC (devs2 ! i) = id_MAC (devs ! i)" using b False by (simp add: filled_def)
      ultimately show ?thesis using a b c False by simp
    qed
  qed
  moreover have dist: "distinct (given f out)"
    if "claims_of f T devs newIdentitySet R" "T newIdentitySet = {}"
      "extends f (T R) devs (T newIdentitySet) devs2 (T F2)" "extends f (T R) devs2 (T F2) out (T F3)" for f T
  proof -
    have "distinct (given f devs)" "set (given f devs) \<subseteq> T R \<union> T newIdentitySet"
      using that(1,2) by (simp_all add: claims_of_def)
    note extends_distinct [OF this that(3)]
    then show ?thesis using extends_distinct [OF _ _ that(4)] by blast
  qed
  have empty: "is_macs newIdentitySet = {}" "is_serials newIdentitySet = {}" "is_names newIdentitySet = {}"
    by (simp_all add: newIdentitySet_def)
  have "distinct (given id_MAC out)" "distinct (given id_Serial out)" "distinct (given id_Name out)"
    using p1 p2 e3 empty unfolding all_extend_def
    by (blast intro: dist [of id_MAC is_macs] dist [of id_Serial is_serials] dist [of id_Name is_names])+
  with calculation show thesis using that [of devs] len by simp
qed

text \<open>What an entry of the result is, read off the passes\<close>

definition resolves :: "nat \<Rightarrow> request_device \<Rightarrow> identity \<Rightarrow> bool" where
  "resolves i d dev \<longleftrightarrow>
     id_Index dev = i \<and> id_Model dev = rq_Model d \<and> checkModel (rq_Model d) = None \<and>
     device_mac (id_MAC dev) \<and> (rq_MAC d \<noteq> [] \<longrightarrow> canonicalMAC (rq_MAC d) = Inr (id_MAC dev)) \<and>
     id_Serial dev = (if rq_Serial d = [] then derivedSerial (macHex (id_MAC dev)) else rq_Serial d) \<and>
     id_Serial dev \<noteq> [] \<and> checkSerial (id_Serial dev) = None \<and>
     id_Name dev = (if rq_Name d = [] then derivedName (rq_Model d) (macHex (id_MAC dev)) else rq_Name d) \<and>
     dnsLabel (id_Name dev) \<and> length (id_Name dev) \<le> nameMax"

lemma checkName_iff: "checkName n = None \<longleftrightarrow> length n \<le> nameMax \<and> dnsLabel n"
  by (simp add: checkName_def)

lemma filled_resolves:
  assumes s: "supplied_as i d dev" and f: "filled dev dev'" and m: "device_mac (id_MAC dev')"
  shows "resolves i d dev'"
proof -
  obtain v where v: "length v = 6" "macHex (id_MAC dev') = hex_encode v" using device_mac_hex [OF m] by blast
  have "rq_MAC d \<noteq> [] \<longrightarrow> canonicalMAC (rq_MAC d) = Inr (id_MAC dev')"
    using s f canonicalMAC_nonempty [of "rq_MAC d" "id_MAC dev"] by (auto simp: supplied_as_def filled_def)
  moreover have "id_Serial dev' \<noteq> [] \<and> checkSerial (id_Serial dev') = None"
    using s f derivedSerial_ok [OF v(1)] v(2) by (auto simp: supplied_as_def filled_def)
  moreover have "checkName (id_Name dev') = None"
    using s f derivedName_ok(1) [OF v(1)] v(2) by (auto simp: supplied_as_def filled_def)
  ultimately show ?thesis using s f m by (auto simp: resolves_def supplied_as_def filled_def checkName_iff)
qed

lemma resolves_given:
  assumes "length out = length devices" "\<And>i. i < length devices \<Longrightarrow> resolves i (devices ! i) (out ! i)"
  shows "given id_MAC out = map id_MAC out" "given id_Serial out = map id_Serial out" "given id_Name out = map id_Name out"
proof -
  have "id_MAC o' \<noteq> [] \<and> id_Serial o' \<noteq> [] \<and> id_Name o' \<noteq> []" if o': "o' \<in> set out" for o'
  proof -
    obtain i where "i < length devices" "o' = out ! i" using o' assms(1) by (auto simp: in_set_conv_nth)
    then show ?thesis
      using assms(2) [of i] device_mac_hex [of "id_MAC o'"] by (auto simp: resolves_def dnsLabel_def)
  qed
  then show "given id_MAC out = map id_MAC out" "given id_Serial out = map id_Serial out" "given id_Name out = map id_Name out"
    by (auto simp: given_def filter_id_conv)
qed

lemma Allocate_all:
  assumes "Allocate devices rnd = Inr out"
  shows "length out = length devices" "i < length devices \<Longrightarrow> resolves i (devices ! i) (out ! i)"
    "distinct (map id_MAC out)" "distinct (map id_Serial out)" "distinct (map id_Name out)"
proof -
  have "length out = length devices \<and> (\<forall>i < length devices. resolves i (devices ! i) (out ! i)) \<and>
    distinct (map id_MAC out) \<and> distinct (map id_Serial out) \<and> distinct (map id_Name out)"
    using assms
  proof (rule Allocate_passes)
    fix devs
    assume len: "length out = length devices"
      and p: "\<And>i. i < length devices \<Longrightarrow> supplied_as i (devices ! i) (devs ! i) \<and> filled (devs ! i) (out ! i) \<and> device_mac (id_MAC (out ! i))"
      and d: "distinct (given id_MAC out)" "distinct (given id_Serial out)" "distinct (given id_Name out)"
    have r: "\<And>i. i < length devices \<Longrightarrow> resolves i (devices ! i) (out ! i)" using p filled_resolves by blast
    show ?thesis using len r d resolves_given [OF len r] by simp
  qed
  then show "length out = length devices" "i < length devices \<Longrightarrow> resolves i (devices ! i) (out ! i)"
    "distinct (map id_MAC out)" "distinct (map id_Serial out)" "distinct (map id_Name out)" by blast+
qed

text \<open>A request of three: all supplied, only a MAC, and nothing but the model\<close>

definition sample_request :: "request_device list" where
  "sample_request =
     [\<lparr>rq_Model = ''U7PG2'', rq_MAC = ''02-00-5E-00-00-01'', rq_Serial = ''S1'', rq_Name = ''ap''\<rparr>,
      \<lparr>rq_Model = ''USW 24'', rq_MAC = ''0200.5e00.0002'', rq_Serial = [], rq_Name = []\<rparr>,
      \<lparr>rq_Model = ''UGW3'', rq_MAC = [], rq_Serial = [], rq_Name = []\<rparr>]"

definition sample_identities :: "identity list" where
  "sample_identities =
     [\<lparr>id_Index = 0, id_Model = ''U7PG2'', id_MAC = ''02:00:5e:00:00:01'', id_Serial = ''S1'', id_Name = ''ap''\<rparr>,
      \<lparr>id_Index = 1, id_Model = ''USW 24'', id_MAC = ''02:00:5e:00:00:02'', id_Serial = ''EMU02005E000002'', id_Name = ''emu-usw-24-02005e000002''\<rparr>,
      \<lparr>id_Index = 2, id_Model = ''UGW3'', id_MAC = ''02:00:5e:00:00:03'', id_Serial = ''EMU02005E000003'', id_Name = ''emu-ugw3-02005e000003''\<rparr>]"

text \<open>The first draw becomes an address that is taken, so a second one is made.\<close>

lemma sample_allocation:
  "Allocate sample_request [0x01, 0x00, 0x5e, 0x00, 0x00, 0x02, 0x03, 0x00, 0x5e, 0x00, 0x00, 0x03] = Inr sample_identities"
  by code_simp

text \<open>
  C28: an allocation gives no two devices the same MAC, the same serial or the same name, whatever
  the random source delivers and whatever mix of supplied, derived and generated values it makes.
\<close>
theorem allocate_distinct:
  assumes "Allocate devices rnd = Inr out"
  shows "distinct (map id_MAC out) \<and> distinct (map id_Serial out) \<and> distinct (map id_Name out)"
  using Allocate_all(3-5) [OF assms] by blast

theorem allocate_distinct_witness:
  "distinct (map id_MAC sample_identities) \<and> distinct (map id_Serial sample_identities) \<and> distinct (map id_Name sample_identities)"
  by (rule allocate_distinct [OF sample_allocation])

text \<open>
  C29: an allocation answers the request entry by entry: index and order are the request's, a
  supplied serial and name are kept, a supplied MAC is only canonicalized, every MAC is a canonical
  unicast locally administered address, and every serial and name, derived ones included, passes
  the checks a supplied one must pass.
\<close>
theorem allocate_resolves:
  assumes "Allocate devices rnd = Inr out"
  shows "length out = length devices \<and> (\<forall>i < length devices. resolves i (devices ! i) (out ! i))"
  using Allocate_all(1,2) [OF assms] by blast

theorem allocate_resolves_witness:
  "resolves 0 (sample_request ! 0) (sample_identities ! 0) \<and> resolves 2 (sample_request ! 2) (sample_identities ! 2)"
proof -
  have "\<forall>i < length sample_request. resolves i (sample_request ! i) (sample_identities ! i)"
    using allocate_resolves [OF sample_allocation] by (rule conjunct2)
  moreover have "length sample_request = 3" by (simp add: sample_request_def)
  ultimately show ?thesis by simp
qed

lemma bad_decode: "bad_request (DecodeRequest body)"
  by (auto simp: DecodeRequest_def bad_request_def request_failure_def failf_def split: option.splits sum.splits if_splits)

lemma bad_allocate: "bad_request (Allocate devices rnd)"
  unfolding Allocate_def
  by (intro bad_request_rbind bad_supply_all, clarify, intro bad_request_rbind bad_complete_all, clarify, rule bad_generate_all)

text \<open>
  Every failure of the decoding of a request and of its allocation is an invalid request in
  phase validate, the pair the caller reports without looking.
\<close>
theorem bad_requests_are_invalid:
  "bad_request (DecodeRequest body) \<and> bad_request (Allocate devices rnd)"
  using bad_decode bad_allocate by blast

section \<open>Requests decode strictly\<close>

lemma rfold_steps: "rfold g xs r = Inr r' \<Longrightarrow> x \<in> set xs \<Longrightarrow> \<exists>s s'. g x s = Inr s'"
  by (induction xs arbitrary: r) (auto simp: rbind_Inr_iff)

lemma strict_members:
  assumes "dec_struct True fs setf (JObj kvs) r = Inr r'" and "(k, v) \<in> set kvs"
  shows "\<exists>f s s'. pick_field fs (unquote k) = Some f \<and> setf f v s = Inr s'"
proof -
  have "\<exists>s s'. dec_member True fs setf (k, v) s = Inr s'"
    using assms by (intro rfold_steps) (auto simp: dec_struct_def)
  then obtain s s' where s: "dec_member True fs setf (k, v) s = Inr s'" by blast
  then obtain f where "pick_field fs (unquote k) = Some f" "setf f v s = Inr s'"
    by (auto simp: dec_member_def split: option.splits)
  then show ?thesis by blast
qed

lemma dec_elems_each: "dec_elems g z vs cur = Inr xs \<Longrightarrow> v \<in> set vs \<Longrightarrow> \<exists>s s'. g s v = Inr s'"
  by (induction vs arbitrary: cur xs) (auto simp: rbind_Inr_iff)

definition device_json :: "request_device \<Rightarrow> json" where
  "device_json d = JObj [(''model'', jstr (rq_Model d)), (''mac'', jstr (rq_MAC d)), (''serial'', jstr (rq_Serial d)), (''name'', jstr (rq_Name d))]"

definition request_json :: "request \<Rightarrow> json" where
  "request_json r = JObj [(''version'', jint (req_Version r)), (''devices'', JArr (map device_json (req_Devices r)))]"

definition utf8_device :: "request_device \<Rightarrow> bool" where
  "utf8_device d \<longleftrightarrow> valid_utf8 (rq_Model d) \<and> valid_utf8 (rq_MAC d) \<and> valid_utf8 (rq_Serial d) \<and> valid_utf8 (rq_Name d)"

lemma plain_version [simp]: "plain_key ''version''"
  by (simp add: plain_key_def is_lower_def code_def)

lemma device_json_ok: "json_ok (device_json d) \<and> json_depth (device_json d) \<le> 1"
  using struct_json [of 0 "[(''model'', jstr (rq_Model d)), (''mac'', jstr (rq_MAC d)), (''serial'', jstr (rq_Serial d)), (''name'', jstr (rq_Name d))]"]
  by (simp add: device_json_def)

lemma request_json_parses: "json_parse (json_text (request_json r)) = Some (request_json r)"
proof -
  have "json_ok (JArr (map device_json (req_Devices r))) \<and> json_depth (JArr (map device_json (req_Devices r))) \<le> 2"
    using array_json [of "map device_json (req_Devices r)" 1] device_json_ok by auto
  then show ?thesis
    using unmarshal_written_struct [of 2 "[(''version'', jint (req_Version r)), (''devices'', JArr (map device_json (req_Devices r)))]"]
    by (simp add: request_json_def max_nesting_depth_def)
qed

lemma keys_unquote: "unquote ''model'' = ''model''" "unquote ''mac'' = ''mac''" "unquote ''serial'' = ''serial''"
  "unquote ''name'' = ''name''" "unquote ''version'' = ''version''" "unquote ''devices'' = ''devices''"
  by (simp_all add: unquote_plain_key)

lemma device_json_decodes:
  assumes "utf8_device d"
  shows "dec_request_device d0 (device_json d) = Inr d"
  using assms
  by (cases d) (simp add: dec_request_device_def dec_struct_def device_json_def dec_member_def keys_unquote pick_field_def
      set_device_field_def dec_string_def jstr_def utf8_device_def)

lemma devices_decode:
  "\<forall>d \<in> set ds. utf8_device d \<Longrightarrow> dec_elems dec_request_device zero_request_device (map device_json ds) cur = Inr ds"
  by (induction ds arbitrary: cur) (simp_all add: device_json_decodes)

text \<open>
  C30: a request written out, with every string in UTF-8, decodes to itself if it names version 1
  and at least one device, and is refused otherwise.
\<close>
theorem request_roundtrip:
  assumes "\<forall>d \<in> set (req_Devices r). utf8_device d" and "- (2 ^ 63) \<le> req_Version r" "req_Version r < 2 ^ 63"
  shows "DecodeRequest (json_text (request_json r)) =
    (if req_Version r \<noteq> 1 then Inl (request_failure (RequestVersion (req_Version r)))
     else if req_Devices r = [] then Inl (request_failure RequestNoDevices) else Inr r)"
proof -
  have "dec_struct True [''version'', ''devices''] set_request_field (request_json r) \<lparr>req_Version = 0, req_Devices = []\<rparr> = Inr r"
    using assms devices_decode [of "req_Devices r"] atoi_itoa [of "req_Version r"]
    by (cases r) (simp add: in_int64_def dec_struct_def request_json_def dec_member_def keys_unquote pick_field_def set_request_field_def
        dec_int_def jint_def dec_list_def)
  moreover have "\<not> list_all is_ws (json_text (request_json r))"
    by (simp add: request_json_def json_text_def is_ws_def code_def)
  ultimately show ?thesis
    using request_json_parses [of r] by (simp add: DecodeRequest_def requestVersion_def)
qed


theorem request_roundtrip_witness:
  "DecodeRequest (json_text (request_json \<lparr>req_Version = 1, req_Devices = sample_request\<rparr>)) =
     Inr \<lparr>req_Version = 1, req_Devices = sample_request\<rparr>"
proof -
  have "\<forall>d \<in> set sample_request. utf8_device d"
    by (auto simp: sample_request_def utf8_device_def code_def intro!: valid_utf8_ascii)
  then show ?thesis
    using request_roundtrip [of "\<lparr>req_Version = 1, req_Devices = sample_request\<rparr>"] by (simp add: sample_request_def)
qed

text \<open>
  A request that decodes is an object every member of which names a field of the request, and
  so does every member of every object in its list of devices: a device that carries an address, or
  any other member the protocol does not have, is refused.
\<close>
theorem request_members_known:
  assumes "DecodeRequest body = Inr req"
  shows "\<exists>kvs. json_parse body = Some (JObj kvs) \<and>
    (\<forall>(k, v) \<in> set kvs. pick_field [''version'', ''devices''] (unquote k) \<noteq> None \<and>
       (\<forall>vs ms k' v'. pick_field [''version'', ''devices''] (unquote k) = Some ''devices'' \<longrightarrow> v = JArr vs \<longrightarrow>
          JObj ms \<in> set vs \<longrightarrow> (k', v') \<in> set ms \<longrightarrow>
          pick_field [''model'', ''mac'', ''serial'', ''name''] (unquote k') \<noteq> None))"
proof -
  obtain v where v: "json_parse body = Some v"
    "dec_struct True [''version'', ''devices''] set_request_field v \<lparr>req_Version = 0, req_Devices = []\<rparr> = Inr req"
    "req_Version req = 1"
    using assms by (auto simp: DecodeRequest_def requestVersion_def split: if_splits option.splits sum.splits)
  then obtain kvs where o: "v = JObj kvs" by (auto simp: dec_struct_def split: json.splits)
  have "pick_field [''version'', ''devices''] (unquote k) \<noteq> None \<and>
       (\<forall>vs ms k' v'. pick_field [''version'', ''devices''] (unquote k) = Some ''devices'' \<longrightarrow> w = JArr vs \<longrightarrow>
          JObj ms \<in> set vs \<longrightarrow> (k', v') \<in> set ms \<longrightarrow>
          pick_field [''model'', ''mac'', ''serial'', ''name''] (unquote k') \<noteq> None)"
    if kw: "(k, w) \<in> set kvs" for k w
  proof (intro conjI allI impI)
    obtain f s s' where f: "pick_field [''version'', ''devices''] (unquote k) = Some f" "set_request_field f w s = Inr s'"
      using strict_members [OF v(2) [unfolded o] kw] by blast
    then show "pick_field [''version'', ''devices''] (unquote k) \<noteq> None" by simp
    fix vs ms k' v'
    assume d: "pick_field [''version'', ''devices''] (unquote k) = Some ''devices''" "w = JArr vs"
      "JObj ms \<in> set vs" "(k', v') \<in> set ms"
    then obtain xs where x: "dec_elems dec_request_device zero_request_device vs (req_Devices s) = Inr xs"
      using f by (auto simp: set_request_field_def dec_list_def rbind_Inr_iff)
    from dec_elems_each [OF x d(3)] obtain t t' where "dec_request_device t (JObj ms) = Inr t'" by (elim exE)
    then show "pick_field [''model'', ''mac'', ''serial'', ''name''] (unquote k') \<noteq> None"
      using strict_members [of "[''model'', ''mac'', ''serial'', ''name'']" set_device_field ms t t', OF _ d(4)]
      by (auto simp: dec_request_device_def)
  qed
  then show ?thesis using v(1) o by blast
qed

definition sample_body :: string where
  "sample_body = ''{\"version\":1,\"devices\":[{\"model\":\"U\"}]}''"

theorem request_members_known_witness:
  "(\<exists>kvs. json_parse sample_body = Some (JObj kvs)) \<and>
   DecodeRequest ''{\"version\":1,\"devices\":[{\"model\":\"U\",\"ip\":\"::1\"}]}'' = Inl (request_failure RequestDocument)"
proof
  have "DecodeRequest sample_body = Inr \<lparr>req_Version = 1, req_Devices = [\<lparr>rq_Model = ''U'', rq_MAC = [], rq_Serial = [], rq_Name = []\<rparr>]\<rparr>"
    by code_simp
  from request_members_known [OF this] show "\<exists>kvs. json_parse sample_body = Some (JObj kvs)" by blast
  show "DecodeRequest ''{\"version\":1,\"devices\":[{\"model\":\"U\",\"ip\":\"::1\"}]}'' = Inl (request_failure RequestDocument)"
    by code_simp
qed

end
