(* ===== verification/Plan_Laws.thy ===== *)
theory Plan_Laws
  imports Herder_Plan Identity_Laws
begin

text \<open>
  What a launch plan guarantees: the written-out insertion sort is the stable sort of the library,
  every device runs in exactly one unit, the topology is the fixed one (one synthetic batch, one
  container per mapped device, in request order), and no image floats.
\<close>

section \<open>The insertion sort is a stable sort\<close>

definition place :: "('a \<Rightarrow> 'k :: linorder) \<Rightarrow> 'a \<Rightarrow> 'a list \<Rightarrow> 'a list" where
  "place key a xs = takeWhile (\<lambda>x. key x \<le> key a) xs @ a # dropWhile (\<lambda>x. key x \<le> key a) xs"

lemma while_snoc:
  "\<not> P b \<Longrightarrow> takeWhile P (xs @ [b]) = takeWhile P xs"
  "\<not> P b \<Longrightarrow> dropWhile P (xs @ [b]) = dropWhile P xs @ [b]"
  by (induction xs) auto

lemma place_snoc:
  assumes "sorted (map key (xs @ [b]))"
  shows "place key a (xs @ [b]) = (if key a < key b then place key a xs @ [b] else xs @ [b, a])"
proof (cases "key a < key b")
  case True
  then have nb: "\<not> key b \<le> key a" by simp
  have "takeWhile (\<lambda>x. key x \<le> key a) (xs @ [b]) = takeWhile (\<lambda>x. key x \<le> key a) xs"
    "dropWhile (\<lambda>x. key x \<le> key a) (xs @ [b]) = dropWhile (\<lambda>x. key x \<le> key a) xs @ [b]"
    using nb by (simp_all add: while_snoc)
  then show ?thesis using True by (simp add: place_def)
next
  case False
  then have "\<forall>x \<in> set (xs @ [b]). key x \<le> key a" using assms by (auto simp: sorted_append)
  then have "takeWhile (\<lambda>x. key x \<le> key a) (xs @ [b]) = xs @ [b]" "dropWhile (\<lambda>x. key x \<le> key a) (xs @ [b]) = []"
    by (auto simp: takeWhile_eq_all_conv dropWhile_eq_Nil_conv)
  then show ?thesis using False by (simp add: place_def)
qed

lemma swap_down_place:
  "sorted (map key xs) \<Longrightarrow> swap_down key (xs @ a # ys) (length xs) = place key a xs @ ys"
proof (induction xs arbitrary: a ys rule: rev_induct)
  case Nil
  show ?case by (simp add: place_def)
next
  case (snoc b xs)
  have s: "sorted (map key xs)" using snoc.prems by (simp add: sorted_append)
  show ?case
  proof (cases "key a < key b")
    case True
    have at: "(xs @ b # a # ys) ! Suc (length xs) = a" "(xs @ b # a # ys) ! length xs = b"
      by (simp_all add: nth_append)
    have "(xs @ b # a # ys)[Suc (length xs) := b, length xs := a] = xs @ a # b # ys"
      by (simp add: list_update_append)
    then have "swap_down key (xs @ b # a # ys) (Suc (length xs)) = swap_down key (xs @ a # b # ys) (length xs)"
      using True at by simp
    then show ?thesis using snoc.IH [OF s, of a "b # ys"] place_snoc [OF snoc.prems, of a] True by simp
  next
    case False
    have at: "(xs @ b # a # ys) ! Suc (length xs) = a" "(xs @ b # a # ys) ! length xs = b"
      by (simp_all add: nth_append)
    then have "swap_down key (xs @ b # a # ys) (Suc (length xs)) = xs @ b # a # ys" using False by simp
    then show ?thesis using place_snoc [OF snoc.prems, of a] False by simp
  qed
qed

lemma place_stable:
  assumes "sorted (map key xs)"
  shows "sorted (map key (place key a xs))" "mset (place key a xs) = add_mset a (mset xs)"
    "filter (\<lambda>x. key x = k) (place key a xs) = filter (\<lambda>x. key x = k) (xs @ [a])"
proof -
  let ?t = "takeWhile (\<lambda>x. key x \<le> key a) xs" and ?d = "dropWhile (\<lambda>x. key x \<le> key a) xs"
  have td: "?t @ ?d = xs" by simp
  have s: "sorted (map key (?t @ ?d))" using assms by (simp only: td)
  have t: "\<forall>x \<in> set ?t. key x \<le> key a" by (auto dest: set_takeWhileD)
  have d: "\<forall>x \<in> set ?d. key a < key x"
  proof (cases ?d)
    case (Cons y zs)
    then have "key a < key y" using hd_dropWhile [of "\<lambda>x. key x \<le> key a" xs] by auto
    moreover have "\<forall>x \<in> set zs. key y \<le> key x" using s Cons by (simp add: sorted_append)
    ultimately show ?thesis using Cons by auto
  next
    case Nil
    show ?thesis unfolding Nil by simp
  qed
  show "sorted (map key (place key a xs))"
  proof -
    have "sorted (map key ?t)" "sorted (map key ?d)" using s by (simp_all only: map_append sorted_append)
    moreover have "key x \<le> key y" if "x \<in> set ?t" "y \<in> set (a # ?d)" for x y
      using that t d by (metis less_imp_le order_trans set_ConsD)
    ultimately show ?thesis
      using d by (simp add: place_def sorted_append less_imp_le del: takeWhile_dropWhile_id)
  qed
  show "mset (place key a xs) = add_mset a (mset xs)"
  proof -
    have "mset ?t + mset ?d = mset xs" by (simp only: mset_append [symmetric] td)
    then show ?thesis by (simp add: place_def)
  qed
  have "key a = k \<Longrightarrow> filter (\<lambda>x. key x = k) ?d = []" using d by (auto simp: filter_empty_conv)
  then have "filter (\<lambda>x. key x = k) (place key a xs) = filter (\<lambda>x. key x = k) ?t @ filter (\<lambda>x. key x = k) ?d @ filter (\<lambda>x. key x = k) [a]"
    by (auto simp: place_def)
  also have "\<dots> = filter (\<lambda>x. key x = k) (?t @ ?d) @ filter (\<lambda>x. key x = k) [a]" by (simp del: takeWhile_dropWhile_id)
  finally show "filter (\<lambda>x. key x = k) (place key a xs) = filter (\<lambda>x. key x = k) (xs @ [a])" by (simp only: td filter_append)
qed

lemma sort_key_snoc: "sort_key key (xs @ [a]) = place key a (sort_key key xs)"
proof (rule properties_for_sort_key)
  show "mset (place key a (sort_key key xs)) = mset (xs @ [a])" by (simp add: place_stable)
  show "sorted (map key (place key a (sort_key key xs)))" by (simp add: place_stable)
  fix k
  have "filter (\<lambda>x. key x = key k) (place key a (sort_key key xs)) = filter (\<lambda>x. key x = key k) (sort_key key xs @ [a])"
    by (rule place_stable) simp
  also have "\<dots> = filter (\<lambda>x. key x = key k) (xs @ [a])" by (simp add: sort_key_stable)
  finally show "filter (\<lambda>x. key k = key x) (place key a (sort_key key xs)) = filter (\<lambda>x. key k = key x) (xs @ [a])"
    by (simp only: eq_commute [of "key k"])
qed

lemma insertion_prefix:
  "i \<le> length xs \<Longrightarrow> fold (\<lambda>i ys. swap_down key ys i) [0..<i] xs = sort_key key (take i xs) @ drop i xs"
proof (induction i)
  case (Suc i)
  then have i: "i < length xs" by simp
  have "fold (\<lambda>i ys. swap_down key ys i) [0..<Suc i] xs = swap_down key (sort_key key (take i xs) @ drop i xs) i"
    using Suc by simp
  also have "drop i xs = xs ! i # drop (Suc i) xs" using i by (simp add: Cons_nth_drop_Suc)
  also have "swap_down key (sort_key key (take i xs) @ xs ! i # drop (Suc i) xs) i =
      place key (xs ! i) (sort_key key (take i xs)) @ drop (Suc i) xs"
    using swap_down_place [of key "sort_key key (take i xs)" "xs ! i" "drop (Suc i) xs"] i by simp
  finally show ?case using i by (simp add: sort_key_snoc take_Suc_conv_app_nth)
qed simp

lemma insertion_sort_sort_key: "insertion_sort key xs = sort_key key xs"
proof (cases "xs = []")
  case False
  then have "[0..<length xs] = 0 # [1..<length xs]" by (simp add: upt_conv_Cons)
  then have "insertion_sort key xs = fold (\<lambda>i ys. swap_down key ys i) [0..<length xs] xs"
    by (simp add: insertion_sort_def)
  then show ?thesis using insertion_prefix [of "length xs" xs key] by simp
qed (simp add: insertion_sort_def)

section \<open>The topology\<close>

definition mapped :: "runtime_config \<Rightarrow> identity \<Rightarrow> bool" where
  "mapped cfg d \<longleftrightarrow> Mapping cfg (id_Model d) \<noteq> None"

lemma while_all:
  "list_all P xs \<Longrightarrow> takeWhile P xs = xs" "list_all P xs \<Longrightarrow> dropWhile P xs = []"
  by (induction xs) auto

lemma while_all_append:
  "list_all P xs \<Longrightarrow> takeWhile P (xs @ ys) = xs @ takeWhile P ys"
  "list_all P xs \<Longrightarrow> dropWhile P (xs @ ys) = dropWhile P ys"
  by (induction xs) auto

lemma while_some:
  "\<not> list_all P xs \<Longrightarrow> takeWhile P (xs @ ys) = takeWhile P xs"
  "\<not> list_all P xs \<Longrightarrow> dropWhile P (xs @ ys) = dropWhile P xs @ ys"
  "\<not> list_all P xs \<Longrightarrow> dropWhile P xs \<noteq> []"
  by (induction xs) auto

definition opaque_of :: "runtime_config \<Rightarrow> identity \<Rightarrow> plan_unit" where
  "opaque_of cfg d = opaque_unit d (the (Mapping cfg (id_Model d)))"

definition synthetic_unit :: "string \<Rightarrow> identity list \<Rightarrow> plan_unit" where
  "synthetic_unit img ds = \<lparr>un_Kind = UnitSynthetic, un_Image = img, un_CapAdd = [], un_Devices = ds\<rparr>"

text \<open>
  A unit for every mapped device, in request order, and one unit \<open>u\<close> at the place of the first
  device that is not mapped.
\<close>

definition shape :: "runtime_config \<Rightarrow> plan_unit \<Rightarrow> identity list \<Rightarrow> plan_unit list" where
  "shape cfg u ds =
     map (opaque_of cfg) (takeWhile (mapped cfg) ds) @
     (if dropWhile (mapped cfg) ds = [] then []
      else u # map (opaque_of cfg) (filter (mapped cfg) (dropWhile (mapped cfg) ds)))"

definition topology :: "runtime_config \<Rightarrow> string \<Rightarrow> identity list \<Rightarrow> plan_unit list" where
  "topology cfg img ds = shape cfg (synthetic_unit img (filter (\<lambda>d. \<not> mapped cfg d) ds)) ds"

lemma shape_snoc:
  "shape cfg u (ds @ [d]) =
     (if mapped cfg d then shape cfg u ds @ [opaque_of cfg d]
      else if list_all (mapped cfg) ds then shape cfg u ds @ [u] else shape cfg u ds)"
proof (cases "list_all (mapped cfg) ds")
  case True
  then show ?thesis by (simp add: shape_def while_all while_all_append)
next
  case False
  then show ?thesis by (simp add: shape_def while_some del: dropWhile_eq_Nil_conv)
qed

lemma planning_shape:
  "fold (plan_device cfg) ds \<lparr>pg_Units = [], pg_Synthetic = [], pg_First = None\<rparr> =
     \<lparr>pg_Units = shape cfg (synthetic_unit [] []) ds, pg_Synthetic = filter (\<lambda>d. \<not> mapped cfg d) ds,
      pg_First = (if list_all (mapped cfg) ds then None else Some (length (takeWhile (mapped cfg) ds)))\<rparr>"
proof (induction ds rule: rev_induct)
  case (snoc d ds)
  show ?case
  proof (cases "mapped cfg d")
    case True
    then obtain rt where rt: "Mapping cfg (id_Model d) = Some rt" by (auto simp: mapped_def)
    then show ?thesis
      using snoc True by (cases "list_all (mapped cfg) ds") (simp_all add: plan_device_def shape_snoc opaque_of_def while_some)
  next
    case False
    then have none: "Mapping cfg (id_Model d) = None" by (simp add: mapped_def)
    show ?thesis
    proof (cases "list_all (mapped cfg) ds")
      case True
      then have "length (shape cfg (synthetic_unit [] []) ds) = length ds" by (simp add: shape_def while_all)
      then show ?thesis
        using snoc none False True by (simp add: plan_device_def shape_snoc synthetic_unit_def Let_def while_all_append)
    next
      case other: False
      then show ?thesis using snoc none False by (simp add: plan_device_def shape_snoc Let_def while_some)
    qed
  qed
qed (simp add: shape_def)

lemma shape_update:
  assumes "\<not> list_all (mapped cfg) ds"
  shows "(shape cfg u ds) ! length (takeWhile (mapped cfg) ds) = u"
    "(shape cfg u ds)[length (takeWhile (mapped cfg) ds) := w] = shape cfg w ds"
  using while_some(3) [OF assms] by (simp_all add: shape_def nth_append list_update_append del: dropWhile_eq_Nil_conv)

lemma check_profiles_iff: "check_profiles reg ds = None \<longleftrightarrow> (\<forall>d \<in> set ds. Profile reg (id_Model d) \<noteq> None)"
  by (induction ds) (auto split: option.splits)

lemma BuildPlan_topology:
  "BuildPlan reg inp = Inr pl \<longleftrightarrow>
     (\<forall>d \<in> set (in_Devices inp). Profile reg (id_Model d) \<noteq> None) \<and>
     (list_all (mapped (in_Runtime inp)) (in_Devices inp) \<or> in_SyntheticImage inp \<noteq> []) \<and>
     pl = \<lparr>pl_RunID = in_RunID inp, pl_Network = in_Network inp, pl_InformURL = in_InformURL inp,
           pl_Units = topology (in_Runtime inp) (in_SyntheticImage inp) (in_Devices inp)\<rparr>"
proof (cases "list_all (mapped (in_Runtime inp)) (in_Devices inp)")
  case True
  then have "shape (in_Runtime inp) u (in_Devices inp) = shape (in_Runtime inp) w (in_Devices inp)" for u w
    by (simp add: shape_def while_all)
  then have "topology (in_Runtime inp) (in_SyntheticImage inp) (in_Devices inp) =
      shape (in_Runtime inp) (synthetic_unit [] []) (in_Devices inp)"
    unfolding topology_def by blast
  then show ?thesis
    using True check_profiles_iff [of reg "in_Devices inp"]
    by (auto simp: BuildPlan_def planning_shape Let_def split: option.splits)
next
  case False
  have syn: "synthetic_unit [] []\<lparr>un_Image := in_SyntheticImage inp, un_Devices := ds\<rparr> = synthetic_unit (in_SyntheticImage inp) ds" for ds
    by (simp add: synthetic_unit_def)
  then show ?thesis
    using False check_profiles_iff [of reg "in_Devices inp"]
    by (auto simp: BuildPlan_def planning_shape Let_def shape_update topology_def syn split: option.splits)
qed

section \<open>Every device once\<close>

lemma topology_devices: "mset (concat (map un_Devices (topology cfg img ds))) = mset ds"
proof -
  let ?rest = "dropWhile (mapped cfg) ds" and ?pre = "takeWhile (mapped cfg) ds"
  have one: "concat (map un_Devices (map (opaque_of cfg) xs)) = xs" for xs
    by (induction xs) (simp_all add: opaque_of_def opaque_unit_def)
  have split_ds: "?pre @ ?rest = ds" by simp
  have "filter (\<lambda>d. \<not> mapped cfg d) (?pre @ ?rest) = filter (\<lambda>d. \<not> mapped cfg d) ?rest"
    by (simp add: filter_empty_conv del: takeWhile_dropWhile_id) (auto dest: set_takeWhileD)
  then have u: "filter (\<lambda>d. \<not> mapped cfg d) ds = filter (\<lambda>d. \<not> mapped cfg d) ?rest" by (simp only: split_ds)
  have "mset ds = mset ?pre + mset ?rest" by (simp only: mset_append [symmetric] split_ds)
  moreover have "mset ?rest = mset (filter (\<lambda>d. \<not> mapped cfg d) ?rest) + mset (filter (mapped cfg) ?rest)"
    using multiset_partition [of "mset ?rest" "mapped cfg"] by (simp add: add.commute)
  ultimately show ?thesis
    by (cases "?rest = []") (simp_all only: topology_def shape_def u map_append concat_append one mset_append
        if_True if_False append_Nil2 list.map concat.simps synthetic_unit_def plan_unit.simps mset.simps filter.simps; simp)+
qed

definition well_formed_unit :: "runtime_config \<Rightarrow> string \<Rightarrow> plan_unit \<Rightarrow> bool" where
  "well_formed_unit cfg img u \<longleftrightarrow>
     (case un_Kind u of
        UnitOpaque \<Rightarrow> \<exists>d rt. un_Devices u = [d] \<and> Mapping cfg (id_Model d) = Some rt \<and> un_Image u = mr_Image rt \<and> un_CapAdd u = mr_CapAdd rt
      | UnitSynthetic \<Rightarrow> un_Devices u \<noteq> [] \<and> (\<forall>d \<in> set (un_Devices u). Mapping cfg (id_Model d) = None) \<and> un_Image u = img \<and> un_CapAdd u = [])"

lemma topology_units:
  assumes "u \<in> set (topology cfg img ds)"
  shows "well_formed_unit cfg img u"
proof -
  let ?rest = "dropWhile (mapped cfg) ds"
  have "u \<in> opaque_of cfg ` set (takeWhile (mapped cfg) ds) \<or>
      ?rest \<noteq> [] \<and> (u = synthetic_unit img (filter (\<lambda>d. \<not> mapped cfg d) ds) \<or> u \<in> opaque_of cfg ` set (filter (mapped cfg) ?rest))"
    using assms by (auto simp: topology_def shape_def simp del: dropWhile_eq_Nil_conv split: if_splits)
  then consider d where "mapped cfg d" "u = opaque_of cfg d"
    | "?rest \<noteq> []" "u = synthetic_unit img (filter (\<lambda>d. \<not> mapped cfg d) ds)"
    by (auto dest: set_takeWhileD simp del: dropWhile_eq_Nil_conv)
  then show ?thesis
  proof cases
    case 1
    then show ?thesis by (auto simp: well_formed_unit_def opaque_of_def opaque_unit_def mapped_def)
  next
    case 2
    then have "filter (\<lambda>d. \<not> mapped cfg d) ds \<noteq> []" by (auto simp: filter_empty_conv)
    then show ?thesis using 2(2) by (auto simp: well_formed_unit_def synthetic_unit_def mapped_def)
  qed
qed

lemma batch_has_devices:
  assumes "u \<in> set (topology cfg img ds)" "un_Kind u = UnitSynthetic"
  shows "\<not> list_all (mapped cfg) ds"
proof
  assume "list_all (mapped cfg) ds"
  then have "u \<in> opaque_of cfg ` set ds" using assms(1) by (simp add: topology_def shape_def while_all)
  then show False using assms(2) by (auto simp: opaque_of_def opaque_unit_def)
qed

lemma topology_one_batch: "length (filter (\<lambda>u. un_Kind u = UnitSynthetic) (topology cfg img ds)) \<le> 1"
proof -
  have "filter (\<lambda>u. un_Kind u = UnitSynthetic) (map (opaque_of cfg) xs) = []" for xs
    by (simp add: filter_empty_conv opaque_of_def opaque_unit_def)
  then show ?thesis by (simp add: topology_def shape_def synthetic_unit_def)
qed

text \<open>An increasing request is what any of its rearrangements sorts to.\<close>

lemma sort_back:
  assumes "mset xs = mset ds" and "sorted_wrt (<) (map id_Index ds)"
  shows "sortByIndex xs = ds"
proof -
  have "sorted (map id_Index ds)" "distinct (map id_Index ds)"
    using assms(2) strict_sorted_iff by blast+
  then show ?thesis
    unfolding sortByIndex_def insertion_sort_sort_key
    using assms(1) by (intro sort_key_inj_key_eq) (auto simp: distinct_map dest: mset_eq_setD)
qed

text \<open>
  C35: a plan is built exactly if every model has a synthetic profile and the synthetic image is
  known where one is needed, and then it is the fixed topology: a unit of its own for each mapped
  device and one batch, at the place of the first unmapped device, for all the others.
\<close>
theorem build_plan_is_topology:
  "BuildPlan reg inp = Inr pl \<longleftrightarrow>
     (\<forall>d \<in> set (in_Devices inp). Profile reg (id_Model d) \<noteq> None) \<and>
     (list_all (mapped (in_Runtime inp)) (in_Devices inp) \<or> in_SyntheticImage inp \<noteq> []) \<and>
     pl = \<lparr>pl_RunID = in_RunID inp, pl_Network = in_Network inp, pl_InformURL = in_InformURL inp,
           pl_Units = topology (in_Runtime inp) (in_SyntheticImage inp) (in_Devices inp)\<rparr>"
  by (rule BuildPlan_topology)

text \<open>
  A plan runs every device of the request in exactly one unit, and reads them back in request
  order; a unit is the synthetic batch of unmapped devices, of which there is at most one, or one
  mapped device in the image and with the capabilities its mapping names.
\<close>
theorem plan_covers_request:
  assumes "BuildPlan reg inp = Inr pl" and "sorted_wrt (<) (map id_Index (in_Devices inp))"
  shows "mset (concat (map un_Devices (pl_Units pl))) = mset (in_Devices inp) \<and> Devices pl = in_Devices inp \<and>
    length (filter (\<lambda>u. un_Kind u = UnitSynthetic) (pl_Units pl)) \<le> 1 \<and>
    (\<forall>u \<in> set (pl_Units pl). well_formed_unit (in_Runtime inp) (in_SyntheticImage inp) u)"
proof -
  have u: "pl_Units pl = topology (in_Runtime inp) (in_SyntheticImage inp) (in_Devices inp)"
    using assms(1) by (simp add: BuildPlan_topology)
  have m: "mset (concat (map un_Devices (pl_Units pl))) = mset (in_Devices inp)"
    unfolding u by (rule topology_devices)
  have "Devices pl = in_Devices inp" unfolding Devices_def by (rule sort_back [OF m assms(2)])
  then show ?thesis using m topology_one_batch topology_units by (simp add: u)
qed

text \<open>The insertion sort the package writes out is the stable sort by the same key.\<close>
theorem sort_by_index_is_stable_sort: "sortByIndex ids = sort_key id_Index ids"
  by (simp add: sortByIndex_def insertion_sort_sort_key)

definition sample_input :: plan_input where
  "sample_input =
     \<lparr>in_RunID = ''ab12'', in_Network = ''net'', in_InformURL = ''http://10.0.0.2:8080/inform'',
      in_Devices = sample_identities, in_Runtime = sample_runtime, in_SyntheticImage = ''img:1''\<rparr>"

definition sample_registry :: registry where
  "sample_registry = (\<lambda>m. if m \<in> {''U7PG2'', ''USW 24'', ''UGW3''} then Some zero_profile else None)"

definition sample_plan :: plan where
  "sample_plan =
     \<lparr>pl_RunID = ''ab12'', pl_Network = ''net'', pl_InformURL = ''http://10.0.0.2:8080/inform'',
      pl_Units = [\<lparr>un_Kind = UnitOpaque, un_Image = ''r/a@sha256:'' @ replicate 64 CHR ''0'', un_CapAdd = [''KILL''], un_Devices = [sample_identities ! 0]\<rparr>,
                  \<lparr>un_Kind = UnitSynthetic, un_Image = ''img:1'', un_CapAdd = [], un_Devices = tl sample_identities\<rparr>]\<rparr>"

lemma sample_plan_built: "BuildPlan sample_registry sample_input = Inr sample_plan"
  by code_simp

lemma sample_increasing: "sorted_wrt (<) (map id_Index (in_Devices sample_input))"
  by code_simp

theorem build_plan_is_topology_witness:
  "pl_Units sample_plan = topology sample_runtime ''img:1'' sample_identities"
  using arg_cong [OF conjunct2 [OF conjunct2 [OF iffD1 [OF build_plan_is_topology sample_plan_built]]], of pl_Units]
  by (simp add: sample_input_def)

theorem plan_covers_request_witness: "Devices sample_plan = sample_identities"
  using plan_covers_request [OF sample_plan_built sample_increasing] by (simp add: sample_input_def)

section \<open>Images\<close>

lemma images_loop_set: "distinct (images_loop seen us) \<and> set (images_loop seen us) = un_Image ` set us - seen"
  by (induction us arbitrary: seen) auto

text \<open>The parts of a dotted text put together again\<close>

lemma join_with_Cons: "ws \<noteq> [] \<Longrightarrow> join_with sep (w # ws) = w @ sep @ join_with sep ws"
  by (cases ws) simp_all

lemma join_split: "join_with [c] (split_on c s) = s"
proof (induction s)
  case (Cons x xs)
  show ?case
  proof (cases "x = c")
    case True
    then show ?thesis using Cons by (simp add: join_with_Cons)
  next
    case False
    obtain w ws where s: "split_on c xs = w # ws" by (cases "split_on c xs") auto
    then show ?thesis using Cons False by (cases ws) simp_all
  qed
qed simp

text \<open>A release: three runs of digits\<close>

definition release :: "string \<Rightarrow> bool" where
  "release r \<longleftrightarrow> (\<exists>a b c. r = a @ ''.'' @ b @ ''.'' @ c \<and> (\<forall>p \<in> {a, b, c}. p \<noteq> [] \<and> list_all is_digit p))"

lemma ReleaseVersion_release:
  assumes "ReleaseVersion version \<noteq> []"
  shows "release (ReleaseVersion version)" "version = ReleaseVersion version \<or> version = CHR ''v'' # ReleaseVersion version"
proof -
  have r: "releaseVersion version" "ReleaseVersion version = trim_v version"
    using assms by (auto simp: ReleaseVersion_def split: if_splits)
  obtain a b c where p: "split_on CHR ''.'' (trim_v version) = [a, b, c]"
    using r(1) by (auto simp: releaseVersion_def Let_def length_Suc_conv numeral_3_eq_3)
  then have "trim_v version = a @ ''.'' @ b @ ''.'' @ c" using join_split [of "CHR ''.''" "trim_v version"] by simp
  then show "release (ReleaseVersion version)"
    using r p by (auto simp: release_def releaseVersion_def Let_def)
  show "version = ReleaseVersion version \<or> version = CHR ''v'' # ReleaseVersion version"
    using strip_prefix_Some [of "''v''" version "trim_v version"] unfolding r(2)
    by (auto simp: trim_v_def split: option.splits)
qed

text \<open>
  The synthetic batch runs the image the caller selected, or, with none selected, the public
  image of exactly the release the herder was built from; a herder built from a working tree has no
  default, and a plan that would need one is refused.
\<close>
theorem synthetic_image_never_floats:
  assumes "BuildPlan reg inp = Inr pl"
    and "in_SyntheticImage inp = ResolveSyntheticImage flag (DefaultSyntheticImage version)"
    and "u \<in> set (pl_Units pl)" "un_Kind u = UnitSynthetic"
  shows "if flag \<noteq> [] then un_Image u = flag
    else \<exists>r. release r \<and> (version = r \<or> version = CHR ''v'' # r) \<and> un_Image u = syntheticImageRepo @ '':'' @ r"
proof -
  have u: "well_formed_unit (in_Runtime inp) (in_SyntheticImage inp) u"
    using assms(1,3) topology_units by (auto simp: BuildPlan_topology)
  then have img: "un_Image u = in_SyntheticImage inp" using assms(4) by (simp add: well_formed_unit_def)
  have "\<not> list_all (mapped (in_Runtime inp)) (in_Devices inp)"
    using batch_has_devices [OF _ assms(4)] assms(1,3) by (auto simp: BuildPlan_topology)
  then have ne: "in_SyntheticImage inp \<noteq> []" using assms(1) by (simp add: BuildPlan_topology)
  show ?thesis
  proof (cases "flag = []")
    case True
    then have "ReleaseVersion version \<noteq> []" using ne assms(2) by (auto simp: ResolveSyntheticImage_def DefaultSyntheticImage_def)
    from ReleaseVersion_release [OF this] this show ?thesis
      using True img assms(2) by (auto simp: ResolveSyntheticImage_def DefaultSyntheticImage_def)
  next
    case False
    then show ?thesis using img assms(2) by (simp add: ResolveSyntheticImage_def)
  qed
qed


definition release_input :: plan_input where
  "release_input = sample_input\<lparr>in_SyntheticImage := ''ghcr.io/jamesbraid/unifi-emu:1.2.3''\<rparr>"

definition release_batch :: plan_unit where
  "release_batch = synthetic_unit ''ghcr.io/jamesbraid/unifi-emu:1.2.3'' (tl sample_identities)"

lemma release_plan_built:
  "BuildPlan sample_registry release_input =
     Inr (sample_plan\<lparr>pl_Units := [pl_Units sample_plan ! 0, release_batch]\<rparr>)"
  by code_simp

theorem synthetic_image_never_floats_witness:
  "\<exists>r. release r \<and> (''v1.2.3'' = r \<or> ''v1.2.3'' = CHR ''v'' # r) \<and> un_Image release_batch = syntheticImageRepo @ '':'' @ r"
proof -
  have "in_SyntheticImage release_input = ResolveSyntheticImage [] (DefaultSyntheticImage ''v1.2.3'')" by code_simp
  from synthetic_image_never_floats [OF release_plan_built this, of release_batch]
  show ?thesis by (simp add: release_batch_def synthetic_unit_def)
qed

end
