(* ===== verification/Herder_Logs.thy ===== *)
theory Herder_Logs
  imports Herder_Runtime Plan_Laws "HOL-Library.Sublist"
begin

text \<open>
  Diagnostics (the redactor of \<^verbatim>\<open>internal/herder/images.go\<close> and \<^verbatim>\<open>logs.go\<close>): every configured image
  reference and its registry host is replaced before a text reaches stderr, and device output is
  copied line by line under the public indices of its unit.
\<close>

section \<open>The redactor\<close>

text \<open>\<^verbatim>\<open>strings.ReplaceAll\<close> for a nonempty text to replace\<close>

lemma shorter_rest: "old \<noteq> [] \<Longrightarrow> strip_prefix old s = Some rest \<Longrightarrow> length rest < length s"
  by (auto simp: strip_prefix_Some)

function replace_all :: "string \<Rightarrow> string \<Rightarrow> string \<Rightarrow> string" where
  "replace_all old new s =
     (case s of
        [] \<Rightarrow> []
      | c # cs \<Rightarrow>
          (case (if old = [] then None else strip_prefix old s) of
             Some rest \<Rightarrow> new @ replace_all old new rest
           | None \<Rightarrow> c # replace_all old new cs))"
  by auto

termination
  by (relation "measure (\<lambda>(_, _, s). length s)") (auto dest: shorter_rest split: if_splits)

declare replace_all.simps [simp del]

lemma replace_all_Nil: "replace_all old new [] = []"
  by (simp add: replace_all.simps)

lemma replace_all_Cons:
  "replace_all old new (c # cs) =
     (case (if old = [] then None else strip_prefix old (c # cs)) of
        Some rest \<Rightarrow> new @ replace_all old new rest
      | None \<Rightarrow> c # replace_all old new cs)"
  by (subst replace_all.simps) simp

definition redactedRuntime :: string where
  "redactedRuntime = ''[opaque-runtime]''"

definition registryHost :: "string \<Rightarrow> string" where
  "registryHost ref =
     (case cut_at CHR ''/'' ref of
        (host, _, ok) \<Rightarrow> if \<not> ok \<or> \<not> list_ex (\<lambda>c. c = CHR ''.'' \<or> c = CHR '':'') host then [] else host)"

fun add_terms :: "string list \<Rightarrow> string list \<Rightarrow> string list" where
  "add_terms [] terms = terms"
| "add_terms (t # ts) terms =
     (if t = [] \<or> t \<in> set terms then add_terms ts terms else add_terms ts (terms @ [t]))"

text \<open>The terms in the order of the range over the models, then longest first\<close>

definition newRedactor :: "(runtime_map \<Rightarrow> runtime_map) \<Rightarrow> runtime_config \<Rightarrow> string list" where
  "newRedactor rng cfg =
     insertion_sort (\<lambda>t. - int (length t))
       (fold (\<lambda>(_, rt). add_terms [mr_Image rt, registryHost (mr_Image rt)]) (rng (rc_Models cfg)) [])"

definition redact :: "string list \<Rightarrow> string \<Rightarrow> string" where
  "redact terms s = fold (\<lambda>term s. replace_all term redactedRuntime s) terms s"

section \<open>The log sink\<close>

definition log_line :: "string list \<Rightarrow> string \<Rightarrow> string \<Rightarrow> string" where
  "log_line terms pfx line = ''['' @ pfx @ ''] '' @ redact terms line @ [CHR 0x0A]"

text \<open>\<^verbatim>\<open>ReadBytes\<close> at newlines: the lines with their newline, and a last partial one if there is any\<close>

fun read_lines :: "string \<Rightarrow> string list" where
  "read_lines [] = []"
| "read_lines (c # s) =
     (if c = CHR 0x0A then [c] # read_lines s
      else (case read_lines s of [] \<Rightarrow> [[c]] | l # ls \<Rightarrow> (c # l) # ls))"

definition drop_last :: "char \<Rightarrow> string \<Rightarrow> string" where
  "drop_last c line = (if line \<noteq> [] \<and> last line = c then butlast line else line)"

definition stream :: "string list \<Rightarrow> string \<Rightarrow> string \<Rightarrow> string list" where
  "stream terms pfx src =
     map (\<lambda>line. log_line terms pfx (drop_last CHR 0x0D (drop_last CHR 0x0A line))) (read_lines src)"

text \<open>\<open>body\<close> is the opened log stream, or the text of the error that opening it gave.\<close>

definition follow :: "string list \<Rightarrow> string \<Rightarrow> string + string \<Rightarrow> string list" where
  "follow terms pfx body =
     (case body of
        Inl err \<Rightarrow> [log_line terms pfx (''log stream unavailable: '' @ redact terms err)]
      | Inr src \<Rightarrow> stream terms pfx src)"

section \<open>Nothing configured survives\<close>

text \<open>The pieces of a text between the replaced occurrences\<close>

function pieces :: "string \<Rightarrow> string \<Rightarrow> string list" where
  "pieces old s =
     (case s of
        [] \<Rightarrow> [[]]
      | c # cs \<Rightarrow>
          (case (if old = [] then None else strip_prefix old s) of
             Some rest \<Rightarrow> [] # pieces old rest
           | None \<Rightarrow> (case pieces old cs of [] \<Rightarrow> [[c]] | w # ws \<Rightarrow> (c # w) # ws)))"
  by auto

termination
  by (relation "measure (\<lambda>(_, s). length s)") (auto dest: shorter_rest split: if_splits)

declare pieces.simps [simp del]

lemma pieces_Nil: "pieces old [] = [[]]"
  by (simp add: pieces.simps)

lemma pieces_Cons:
  "pieces old (c # cs) =
     (case (if old = [] then None else strip_prefix old (c # cs)) of
        Some rest \<Rightarrow> [] # pieces old rest
      | None \<Rightarrow> (case pieces old cs of [] \<Rightarrow> [[c]] | w # ws \<Rightarrow> (c # w) # ws))"
  by (subst pieces.simps) simp

lemma pieces_ne: "pieces old s \<noteq> []"
  by (cases s) (auto simp: pieces_Nil pieces_Cons split: option.splits list.splits)

lemma replace_all_pieces: "replace_all old new s = join_with new (pieces old s)"
proof (induction s rule: length_induct)
  case (1 s)
  show ?case
  proof (cases s)
    case (Cons c cs)
    show ?thesis
    proof (cases "if old = [] then None else strip_prefix old s")
      case None
      obtain w ws where w: "pieces old cs = w # ws" using pieces_ne [of old cs] by (cases "pieces old cs") auto
      have ih: "replace_all old new cs = join_with new (pieces old cs)" using 1 Cons by simp
      show ?thesis
        unfolding Cons replace_all_Cons pieces_Cons None [unfolded Cons] option.case ih w by (cases ws) simp_all
    next
      case (Some rest)
      then have "length rest < length s" using shorter_rest by (auto split: if_splits)
      then have ih: "replace_all old new rest = join_with new (pieces old rest)" using 1 by simp
      show ?thesis
        unfolding Cons replace_all_Cons pieces_Cons Some [unfolded Cons] option.case ih
        by (simp add: join_with_Cons pieces_ne)
    qed
  qed (simp add: replace_all_Nil pieces_Nil)
qed

lemma join_pieces:
  assumes "old \<noteq> []"
  shows "join_with old (pieces old s) = s"
proof (induction s rule: length_induct)
  case (1 s)
  show ?case
  proof (cases s)
    case (Cons c cs)
    show ?thesis
    proof (cases "strip_prefix old s")
      case None
      obtain w ws where w: "pieces old cs = w # ws" using pieces_ne [of old cs] by (cases "pieces old cs") auto
      have ih: "join_with old (w # ws) = cs" using 1 Cons w by fastforce
      have "pieces old s = (c # w) # ws" using None Cons assms w by (simp add: pieces_Cons)
      moreover have "join_with old ((c # w) # ws) = c # join_with old (w # ws)" by (cases ws) simp_all
      ultimately show ?thesis using ih Cons by simp
    next
      case (Some rest)
      then have "join_with old (pieces old rest) = rest" using 1 shorter_rest [OF assms] by blast
      moreover have s: "old @ rest = s" using Some by (simp add: strip_prefix_Some)
      moreover have "pieces old s = [] # pieces old rest" using Some Cons assms by (simp add: pieces_Cons)
      ultimately show ?thesis by (simp only: join_with_Cons pieces_ne append_Nil not_False_eq_True)
    qed
  qed (simp add: pieces_Nil)
qed

lemma pieces_free:
  assumes "old \<noteq> []" "w \<in> set (pieces old s)"
  shows "\<not> sublist old w"
  using assms(2)
proof (induction s arbitrary: w rule: length_induct)
  case (1 s)
  show ?case
  proof (cases s)
    case Nil
    then show ?thesis using 1 assms(1) by (simp add: pieces_Nil)
  next
    case (Cons c cs)
    show ?thesis
    proof (cases "strip_prefix old s")
      case None
      obtain v vs where v: "pieces old cs = v # vs" using pieces_ne [of old cs] by (cases "pieces old cs") auto
      have "join_with old (pieces old cs) = cs" by (rule join_pieces [OF assms(1)])
      then have "prefix v cs" using v by (cases vs) auto
      then have "\<not> prefix old (c # v)"
        using None Cons by (auto simp: prefix_def) (metis option.distinct(1) strip_prefix_Some append_Cons append_assoc)
      moreover have "\<not> sublist old u" if "u \<in> set (v # vs)" for u using 1 that v Cons by auto
      ultimately show ?thesis
        using 1(2) None Cons assms(1) v by (auto simp: pieces_Cons sublist_Cons_right)
    next
      case (Some rest)
      then have "length rest < length s" using assms(1) by (auto simp: strip_prefix_Some)
      then show ?thesis using 1 Some Cons assms(1) by (auto simp: pieces_Cons)
    qed
  qed
qed

text \<open>A term that the replacement text cannot be part of\<close>

definition plain_term :: "string \<Rightarrow> bool" where
  "plain_term t \<longleftrightarrow> t \<noteq> [] \<and> CHR ''['' \<notin> set t \<and> CHR '']'' \<notin> set t \<and> \<not> sublist t ''opaque-runtime''"

lemma prefix_without: "c \<notin> set t \<Longrightarrow> prefix t (c # ys) \<Longrightarrow> t = []"
  by (cases t) auto

lemma sublist_across:
  assumes "c \<notin> set t" "sublist t (xs @ c # ys)"
  shows "sublist t xs \<or> sublist t ys"
proof -
  consider "sublist t xs" | "sublist t (c # ys)" | t1 t2 where "t = t1 @ t2" "suffix t1 xs" "prefix t2 (c # ys)"
    using assms(2) unfolding sublist_append by blast
  then show ?thesis
  proof cases
    case 2
    then show ?thesis using assms(1) prefix_without [of c t ys] by (auto simp: sublist_Cons_right)
  next
    case 3
    then have "t2 = []" using assms(1) prefix_without [of c t2 ys] by auto
    then show ?thesis using 3 suffix_imp_sublist by auto
  qed blast
qed

lemma sublist_join:
  assumes "plain_term t" "ws \<noteq> []" "sublist t (join_with redactedRuntime ws)"
  shows "\<exists>w \<in> set ws. sublist t w"
  using assms(2,3)
proof (induction ws)
  case (Cons w ws)
  show ?case
  proof (cases "ws = []")
    case True
    then show ?thesis using Cons by simp
  next
    case False
    then have "sublist t (w @ CHR ''['' # (''opaque-runtime'' @ CHR '']'' # join_with redactedRuntime ws))"
      using Cons.prems by (simp add: join_with_Cons redactedRuntime_def)
    then have "sublist t w \<or> sublist t ''opaque-runtime'' \<or> sublist t (join_with redactedRuntime ws)"
      using assms(1) sublist_across unfolding plain_term_def by metis
    then show ?thesis using assms(1) Cons.IH [OF False] by (auto simp: plain_term_def)
  qed
qed simp

lemma replace_hides:
  assumes "plain_term old"
  shows "\<not> sublist old (replace_all old redactedRuntime s)"
proof
  assume "sublist old (replace_all old redactedRuntime s)"
  then obtain w where "w \<in> set (pieces old s)" "sublist old w"
    using sublist_join [OF assms pieces_ne] by (auto simp: replace_all_pieces)
  then show False using pieces_free assms by (auto simp: plain_term_def)
qed

lemma piece_of: "old \<noteq> [] \<Longrightarrow> w \<in> set ws \<Longrightarrow> sublist w (join_with old ws)"
proof (induction ws)
  case (Cons v ws)
  then show ?case by (cases "ws = []") (auto simp: join_with_Cons sublist_append)
qed simp

lemma replace_keeps_hidden:
  assumes "plain_term t" "old \<noteq> []" "\<not> sublist t s"
  shows "\<not> sublist t (replace_all old redactedRuntime s)"
proof
  assume "sublist t (replace_all old redactedRuntime s)"
  then obtain w where "w \<in> set (pieces old s)" "sublist t w"
    using sublist_join [OF assms(1) pieces_ne] by (auto simp: replace_all_pieces)
  then have "sublist t (join_with old (pieces old s))" using piece_of [OF assms(2)] sublist_order.order.trans by blast
  then show False using assms(3) join_pieces [OF assms(2)] by simp
qed

lemma redact_keeps_hidden:
  "plain_term t \<Longrightarrow> \<forall>old \<in> set terms. old \<noteq> [] \<Longrightarrow> \<not> sublist t s \<Longrightarrow> \<not> sublist t (redact terms s)"
  by (induction terms arbitrary: s) (simp_all add: redact_def replace_keeps_hidden)

lemma redact_hides:
  assumes "\<forall>old \<in> set terms. old \<noteq> []" "t \<in> set terms" "plain_term t"
  shows "\<not> sublist t (redact terms s)"
  using assms(1,2)
proof (induction terms arbitrary: s)
  case (Cons old terms)
  show ?case
  proof (cases "t = old")
    case True
    then have "\<not> sublist t (replace_all old redactedRuntime s)" using replace_hides assms(3) by blast
    from redact_keeps_hidden [OF assms(3) _ this, of terms] show ?thesis using Cons.prems by (simp add: redact_def)
  next
    case False
    then show ?thesis using Cons by (simp add: redact_def)
  qed
qed simp

lemma add_terms_set: "set (add_terms ts terms) = set terms \<union> (set ts - {[]})"
  by (induction ts arbitrary: terms) auto

lemma collected_terms:
  "set (fold (\<lambda>(_, rt). add_terms [mr_Image rt, registryHost (mr_Image rt)]) ms terms) =
     set terms \<union> ((\<Union>(_, rt) \<in> set ms. {mr_Image rt, registryHost (mr_Image rt)}) - {[]})"
proof (induction ms arbitrary: terms)
  case (Cons m ms)
  obtain k rt where m: "m = (k, rt)" by (cases m)
  have "set (fold (\<lambda>(_, rt). add_terms [mr_Image rt, registryHost (mr_Image rt)]) (m # ms) terms) =
      set (add_terms [mr_Image rt, registryHost (mr_Image rt)] terms) \<union> ((\<Union>(_, rt) \<in> set ms. {mr_Image rt, registryHost (mr_Image rt)}) - {[]})"
    unfolding m fold.simps o_apply case_prod_conv by (rule Cons.IH)
  then show ?case by (simp only: add_terms_set m list.set UN_insert case_prod_conv Un_Diff Un_assoc)
qed simp

lemma newRedactor_terms:
  assumes "\<And>m. set (rng m) = set m"
  shows "set (newRedactor rng cfg) = (\<Union>(_, rt) \<in> set (rc_Models cfg). {mr_Image rt, registryHost (mr_Image rt)}) - {[]}"
  unfolding newRedactor_def insertion_sort_sort_key set_sort collected_terms assms list.set Un_empty_left by (rule refl)

text \<open>
  C39: no diagnostic shows what a runner configured: whatever the text, neither a configured image
  reference nor its registry host is left in what the redactor makes of it, nor in the text of any
  line of device output. (A term with a bracket, or one that is part of the replacement text, is
  not covered.)
\<close>
theorem diagnostics_hide_runtime:
  assumes "\<And>m. set (rng m) = set m" and "Mapping cfg model = Some rt"
    and "t \<in> {mr_Image rt, registryHost (mr_Image rt)}" and "plain_term t"
  shows "\<not> sublist t (redact (newRedactor rng cfg) s) \<and>
    (\<forall>l \<in> set (follow (newRedactor rng cfg) pfx body).
       \<exists>text. l = ''['' @ pfx @ ''] '' @ text @ [CHR 0x0A] \<and> \<not> sublist t text)"
proof -
  let ?terms = "newRedactor rng cfg"
  have "t \<noteq> []" using assms(4) by (simp add: plain_term_def)
  then have "t \<in> set ?terms"
    using assms(3) Mapping_in [OF assms(2)] unfolding newRedactor_terms [of rng, OF assms(1)] by fastforce
  moreover have "\<forall>old \<in> set ?terms. old \<noteq> []" unfolding newRedactor_terms [of rng, OF assms(1)] by blast
  ultimately have hides: "\<not> sublist t (redact ?terms z)" for z using redact_hides assms(4) by blast
  have "\<exists>text. l = ''['' @ pfx @ ''] '' @ text @ [CHR 0x0A] \<and> \<not> sublist t text"
    if "l \<in> set (follow ?terms pfx body)" for l
  proof -
    have "\<exists>z. l = log_line ?terms pfx z"
      using that by (cases body) (auto simp: follow_def stream_def)
    then obtain z where "l = log_line ?terms pfx z" by (elim exE)
    then show ?thesis using hides [of z] by (intro exI [of _ "redact ?terms z"]) (simp add: log_line_def)
  qed
  then show ?thesis using hides by blast
qed

theorem diagnostics_hide_runtime_witness:
  "\<not> sublist ''r/a@sha256:0'' (redact (newRedactor (\<lambda>m. m) \<lparr>rc_Version = 1, rc_Models = [(''U'', \<lparr>mr_Image = ''r/a@sha256:0'', mr_CapAdd = []\<rparr>)]\<rparr>) ''pull r/a@sha256:0'')"
proof -
  have "plain_term ''r/a@sha256:0''" unfolding plain_term_def by code_simp
  then show ?thesis
    using diagnostics_hide_runtime [of "\<lambda>m. m" "\<lparr>rc_Version = 1, rc_Models = [(''U'', \<lparr>mr_Image = ''r/a@sha256:0'', mr_CapAdd = []\<rparr>)]\<rparr>" "''U''"
        "\<lparr>mr_Image = ''r/a@sha256:0'', mr_CapAdd = []\<rparr>" "''r/a@sha256:0''"]
    by (simp add: Mapping_def)
qed

end
