(* ===== verification/Go_Duration.thy ===== *)
theory Go_Duration
  imports Go_Strings
begin

text \<open>
  \<^verbatim>\<open>time.ParseDuration\<close>: a duration in nanoseconds from a text such as \<^verbatim>\<open>1h15m30.5s\<close>. The fraction of
  a unit goes through 64-bit floating point there, which the model follows as exact fractions
  rounded to 53 bits.
\<close>

section \<open>Floating point\<close>

fun bit_length :: "nat \<Rightarrow> nat" where
  "bit_length n = (if n = 0 then 0 else Suc (bit_length (n div 2)))"

declare bit_length.simps [simp del]

definition round_half_even :: "nat \<Rightarrow> nat \<Rightarrow> nat" where
  "round_half_even a b =
     (let q = a div b; r = a mod b in if 2 * r < b \<or> (2 * r = b \<and> even q) then q else Suc q)"

text \<open>The double nearest to a positive fraction, as a fraction: 53 bits of mantissa\<close>

definition round_double :: "nat \<times> nat \<Rightarrow> nat \<times> nat" where
  "round_double x =
     (case x of (a, b) \<Rightarrow>
        if a = 0 then (0, 1)
        else
          (let scale = (\<lambda>e. if e \<ge> 0 then (a * 2 ^ nat e, b) else (a, b * 2 ^ nat (- e)));
               e0 = 53 - (int (bit_length a) - int (bit_length b));
               e = (case scale e0 of (a', b') \<Rightarrow> if 2 ^ 53 \<le> a' div b' then e0 - 1 else e0)
           in (case scale e of (a', b') \<Rightarrow>
                 if e \<ge> 0 then (round_half_even a' b', 2 ^ nat e) else (round_half_even a' b' * 2 ^ nat (- e), 1))))"

definition mul_fraction :: "nat \<times> nat \<Rightarrow> nat \<times> nat \<Rightarrow> nat \<times> nat" where
  "mul_fraction x y = (fst x * fst y, snd x * snd y)"

text \<open>\<^verbatim>\<open>uint64(float64(f) * (float64(unit) / scale))\<close>\<close>

definition fraction_of_unit :: "nat \<Rightarrow> nat \<Rightarrow> nat \<Rightarrow> nat" where
  "fraction_of_unit f unit scale =
     (case round_double (mul_fraction (round_double (f, 1)) (round_double (unit, scale))) of (a, b) \<Rightarrow> a div b)"

section \<open>Reading the parts\<close>

text \<open>\<^verbatim>\<open>leadingInt\<close>, an overflow being an error, and \<^verbatim>\<open>leadingFraction\<close>, which drops digits then\<close>

fun leading_int :: "nat \<Rightarrow> string \<Rightarrow> (nat \<times> string) option" where
  "leading_int x [] = Some (x, [])"
| "leading_int x (c # s) =
     (if \<not> is_digit c then Some (x, c # s)
      else if 2 ^ 63 div 10 < x then None
      else if 2 ^ 63 < x * 10 + digit_val c then None
      else leading_int (x * 10 + digit_val c) s)"

fun leading_fraction :: "nat \<Rightarrow> nat \<Rightarrow> bool \<Rightarrow> string \<Rightarrow> nat \<times> nat \<times> string" where
  "leading_fraction x scale over [] = (x, scale, [])"
| "leading_fraction x scale over (c # s) =
     (if \<not> is_digit c then (x, scale, c # s)
      else if over then leading_fraction x scale True s
      else if (2 ^ 63 - 1) div 10 < x then leading_fraction x scale True s
      else if 2 ^ 63 < x * 10 + digit_val c then leading_fraction x scale True s
      else leading_fraction (x * 10 + digit_val c) (scale * 10) False s)"

text \<open>The micro sign and the Greek letter in UTF-8\<close>

definition duration_unit :: "string \<Rightarrow> nat option" where
  "duration_unit u =
     (if u = ''ns'' then Some 1
      else if u = ''us'' \<or> u = [char_of (0xC2::nat), char_of (0xB5::nat), CHR ''s''] \<or>
              u = [char_of (0xCE::nat), char_of (0xBC::nat), CHR ''s''] then Some (10 ^ 3)
      else if u = ''ms'' then Some (10 ^ 6)
      else if u = ''s'' then Some (10 ^ 9)
      else if u = ''m'' then Some (60 * 10 ^ 9)
      else if u = ''h'' then Some (3600 * 10 ^ 9)
      else None)"

text \<open>One number with its unit: the nanoseconds and the rest\<close>

definition unit_char :: "char \<Rightarrow> bool" where
  "unit_char c \<longleftrightarrow> c \<noteq> CHR ''.'' \<and> \<not> is_digit c"

definition duration_part :: "string \<Rightarrow> (nat \<times> string) option" where
  "duration_part s =
     (if s = [] \<or> (hd s \<noteq> CHR ''.'' \<and> \<not> is_digit (hd s)) then None
      else
        (case leading_int 0 s of
           None \<Rightarrow> None
         | Some (v, s1) \<Rightarrow>
             (let pre = length s1 \<noteq> length s;
                  point = (s1 \<noteq> [] \<and> hd s1 = CHR ''.'');
                  frac = (if point then leading_fraction 0 1 False (tl s1) else (0, 1, s1));
                  post = (point \<and> length (snd (snd frac)) \<noteq> length (tl s1))
              in case frac of
                   (f, scale, s2) \<Rightarrow>
                     if \<not> pre \<and> \<not> post then None
                     else
                       (case duration_unit (takeWhile unit_char s2) of
                          None \<Rightarrow> None
                        | Some unit \<Rightarrow>
                            if 2 ^ 63 div unit < v then None
                            else
                              (let ns = v * unit + (if f > 0 then fraction_of_unit f unit scale else 0) in
                               if 2 ^ 63 < ns then None else Some (ns, dropWhile unit_char s2))))))"

lemma leading_int_length: "leading_int x s = Some (v, r) \<Longrightarrow> length r \<le> length s"
  by (induction x s rule: leading_int.induct) (auto split: if_splits)

lemma leading_fraction_length: "leading_fraction x sc over s = (f, sc', r) \<Longrightarrow> length r \<le> length s"
  by (induction x sc over s rule: leading_fraction.induct) (auto split: if_splits)

lemma duration_unit_some: "duration_unit u = Some n \<Longrightarrow> u \<noteq> []"
  by (auto simp: duration_unit_def)

lemma unit_consumes: "takeWhile p s \<noteq> [] \<Longrightarrow> length (dropWhile p s) < length s"
  by (cases s) (auto simp: length_dropWhile_le le_imp_less_Suc split: if_splits)

lemma duration_part_length:
  assumes "duration_part s = Some (ns, r)"
  shows "length r < length s"
proof -
  obtain v s1 f sc s2 where parts: "leading_int 0 s = Some (v, s1)"
      "(if s1 \<noteq> [] \<and> hd s1 = CHR ''.'' then leading_fraction 0 1 False (tl s1) else (0, 1, s1)) = (f, sc, s2)"
      "duration_unit (takeWhile unit_char s2) \<noteq> None" "r = dropWhile unit_char s2"
    using assms unfolding duration_part_def Let_def by (fastforce split: if_splits option.splits prod.splits)
  have "length s2 \<le> length s1"
    using parts(2) leading_fraction_length [of 0 1 False "tl s1" f sc s2] by (auto split: if_splits)
  then show ?thesis
    using leading_int_length [OF parts(1)] unit_consumes [of unit_char s2] parts(3,4) duration_unit_some by fastforce
qed

section \<open>The duration\<close>

text \<open>The sum is kept in 64 bits; two parts of the largest size wrap it to zero, as in Go.\<close>

function duration_parts :: "nat \<Rightarrow> string \<Rightarrow> nat option" where
  "duration_parts d s =
     (if s = [] then Some d
      else
        (case duration_part s of
           None \<Rightarrow> None
         | Some (ns, r) \<Rightarrow>
             if 2 ^ 63 < (d + ns) mod 2 ^ 64 then None else duration_parts ((d + ns) mod 2 ^ 64) r))"
  by pat_completeness auto
termination
  by (relation "measure (\<lambda>(_, s). length s)") (auto dest: duration_part_length)

declare duration_parts.simps [simp del]

definition parse_duration :: "string \<Rightarrow> int option" where
  "parse_duration orig =
     (let neg = (orig \<noteq> [] \<and> hd orig = CHR ''-'');
          s = (if orig \<noteq> [] \<and> hd orig \<in> {CHR ''-'', CHR ''+''} then tl orig else orig)
      in if s = ''0'' then Some 0
         else if s = [] then None
         else
           (case duration_parts 0 s of
              None \<Rightarrow> None
            | Some d \<Rightarrow>
                if neg then Some (- int d)
                else if 2 ^ 63 - 1 < d then None
                else Some (int d)))"

end
