(* ===== verification/Go_Flag.thy ===== *)
theory Go_Flag
  imports Go_Duration
begin

text \<open>
  \<^verbatim>\<open>flag.FlagSet\<close>: the flags of a command with their values, the flags given on the command line, and
  the arguments after them.
\<close>

datatype flag_value = FString string | FBool bool | FDuration int

datatype flag_error =
    ErrHelp
  | BadFlagSyntax string
  | FlagNotDefined string
  | FlagNeedsArgument string
  | InvalidFlagValue string string

record flag_set =
  fg_Formal :: "(string \<times> flag_value) list"
  fg_Actual :: "string list"
  fg_Args :: "string list"

text \<open>\<^verbatim>\<open>Value.Set\<close>\<close>

fun flag_text :: "flag_value \<Rightarrow> string \<Rightarrow> flag_value option" where
  "flag_text (FString _) v = Some (FString v)"
| "flag_text (FBool _) v = map_option FBool (parse_bool v)"
| "flag_text (FDuration _) v = map_option FDuration (parse_duration v)"

definition is_bool_flag :: "flag_value \<Rightarrow> bool" where
  "is_bool_flag v \<longleftrightarrow> (case v of FBool _ \<Rightarrow> True | _ \<Rightarrow> False)"

definition set_flag :: "string \<Rightarrow> flag_value \<Rightarrow> flag_set \<Rightarrow> flag_set" where
  "set_flag name v fs =
     fs\<lparr>fg_Formal := map (\<lambda>(n, old). (n, if n = name then v else old)) (fg_Formal fs),
        fg_Actual := (if name \<in> set (fg_Actual fs) then fg_Actual fs else fg_Actual fs @ [name])\<rparr>"

text \<open>The name of an argument that is a flag, and its value if it carries one\<close>

definition split_flag :: "string \<Rightarrow> string \<times> string option" where
  "split_flag name =
     (case cut_at CHR ''='' (tl name) of
        (rest, v, ok) \<Rightarrow> (hd name # rest, if ok then Some v else None))"

fun parse_args :: "string list \<Rightarrow> flag_set \<Rightarrow> flag_error + flag_set" where
  "parse_args [] fs = Inr (fs\<lparr>fg_Args := []\<rparr>)"
| "parse_args (s # args) fs =
     (if length s < 2 \<or> hd s \<noteq> CHR ''-'' then Inr (fs\<lparr>fg_Args := s # args\<rparr>)
      else if s = ''--'' then Inr (fs\<lparr>fg_Args := args\<rparr>)
      else
        (let name = (if hd (tl s) = CHR ''-'' then drop 2 s else tl s) in
         if name = [] \<or> hd name = CHR ''-'' \<or> hd name = CHR ''='' then Inl (BadFlagSyntax s)
         else
           (case split_flag name of
              (name, val) \<Rightarrow>
                (case map_of (fg_Formal fs) name of
                   None \<Rightarrow> Inl (if name = ''help'' \<or> name = ''h'' then ErrHelp else FlagNotDefined name)
                 | Some old \<Rightarrow>
                     (case (if is_bool_flag old \<and> val = None then Some ''true'' else val) of
                        Some v \<Rightarrow>
                          (case flag_text old v of
                             None \<Rightarrow> Inl (InvalidFlagValue v name)
                           | Some new \<Rightarrow> parse_args args (set_flag name new fs))
                      | None \<Rightarrow>
                          (case args of
                             [] \<Rightarrow> Inl (FlagNeedsArgument name)
                           | v # args' \<Rightarrow>
                               (case flag_text old v of
                                  None \<Rightarrow> Inl (InvalidFlagValue v name)
                                | Some new \<Rightarrow> parse_args args' (set_flag name new fs))))))))"

declare parse_args.simps(2) [simp del]

definition string_flag :: "flag_set \<Rightarrow> string \<Rightarrow> string" where
  "string_flag fs name = (case map_of (fg_Formal fs) name of Some (FString v) \<Rightarrow> v | _ \<Rightarrow> [])"

definition bool_flag :: "flag_set \<Rightarrow> string \<Rightarrow> bool" where
  "bool_flag fs name = (case map_of (fg_Formal fs) name of Some (FBool v) \<Rightarrow> v | _ \<Rightarrow> False)"

definition duration_flag :: "flag_set \<Rightarrow> string \<Rightarrow> int" where
  "duration_flag fs name = (case map_of (fg_Formal fs) name of Some (FDuration v) \<Rightarrow> v | _ \<Rightarrow> 0)"

text \<open>What setting and parsing leave alone: the names of the flags and the kinds of their values\<close>

fun same_kind :: "flag_value \<Rightarrow> flag_value \<Rightarrow> bool" where
  "same_kind (FString _) v \<longleftrightarrow> (case v of FString _ \<Rightarrow> True | _ \<Rightarrow> False)"
| "same_kind (FBool _) v \<longleftrightarrow> (case v of FBool _ \<Rightarrow> True | _ \<Rightarrow> False)"
| "same_kind (FDuration _) v \<longleftrightarrow> (case v of FDuration _ \<Rightarrow> True | _ \<Rightarrow> False)"

end
