(* ===== verification/Herder_Docker.thy ===== *)
theory Herder_Docker
  imports Herder_Plan
begin

text \<open>
  The Docker-facing half of a run (\<^verbatim>\<open>internal/herder/images.go\<close>, \<^verbatim>\<open>containers.go\<close>,
  \<^verbatim>\<open>readiness.go\<close>, \<^verbatim>\<open>backend.go\<close>, \<^verbatim>\<open>reaper.go\<close>): the checks on images, the request a unit is
  created with, the reduced view of an inspected container and the two verdicts on it, and the
  redaction of diagnostics. What the daemon answers is an argument of each operation.
\<close>

section \<open>Errors\<close>

text \<open>
  A Go error, as far as the package looks at it: the first \<^verbatim>\<open>*Failure\<close> in its chain, and which of the
  two context errors is in the chain. \<^verbatim>\<open>wrapf\<close> puts a failure in front of a chain.
\<close>

record go_error =
  ge_Failure :: "failure option"
  ge_Canceled :: bool
  ge_Deadline :: bool

definition failure_error :: "failure \<Rightarrow> go_error" where
  "failure_error f = \<lparr>ge_Failure = Some f, ge_Canceled = False, ge_Deadline = False\<rparr>"

definition wrapf :: "go_error \<Rightarrow> code \<Rightarrow> phase \<Rightarrow> detail \<Rightarrow> go_error" where
  "wrapf e c p d = e\<lparr>ge_Failure := Some (failf c p d)\<rparr>"

definition asFailure :: "go_error \<Rightarrow> failure option" where
  "asFailure e = ge_Failure e"

definition docker_error :: "code \<Rightarrow> phase \<Rightarrow> docker_detail \<Rightarrow> go_error" where
  "docker_error c p d = failure_error (failf c p (DockerDetail d))"

definition docker_wrap :: "go_error \<Rightarrow> code \<Rightarrow> phase \<Rightarrow> docker_detail \<Rightarrow> go_error" where
  "docker_wrap e c p d = wrapf e c p (DockerDetail d)"

section \<open>The daemon\<close>

record server_version =
  sv_APIVersion :: string
  sv_Os :: string
  sv_Components :: "string list"

definition minAPIVersion :: string where
  "minAPIVersion = ''1.44''"

text \<open>\<open>ge\<close> is the version comparison of the Moby client.\<close>

definition checkDockerVersion :: "(string \<Rightarrow> string \<Rightarrow> bool) \<Rightarrow> server_version \<Rightarrow> go_error option" where
  "checkDockerVersion ge v =
     (if \<not> ge (sv_APIVersion v) minAPIVersion
      then Some (docker_error CodeDockerVersionUnsupported PhaseValidate (APIVersion (sv_APIVersion v)))
      else None)"

definition CheckDocker :: "(string \<Rightarrow> string \<Rightarrow> bool) \<Rightarrow> go_error + server_version \<Rightarrow> go_error option" where
  "CheckDocker ge reply =
     (case reply of
        Inl e \<Rightarrow> Some (docker_wrap e CodeDockerUnavailable PhaseValidate ServerVersion)
      | Inr v \<Rightarrow> checkDockerVersion ge v)"

definition CheckNetwork :: "go_error option \<Rightarrow> string \<Rightarrow> go_error option" where
  "CheckNetwork reply name =
     map_option (\<lambda>e. docker_wrap e CodeNetworkNotFound PhaseValidate (NetworkInspect name)) reply"

definition CheckCapabilities :: "go_error + server_version \<Rightarrow> plan \<Rightarrow> go_error option" where
  "CheckCapabilities reply pl =
     (if (\<Sum>u\<leftarrow>pl_Units pl. length (un_CapAdd u)) = 0 then None
      else
        (case reply of
           Inl e \<Rightarrow> Some (docker_wrap e CodeDockerUnavailable PhaseValidate ServerVersion)
         | Inr v \<Rightarrow>
             if sv_Os v \<noteq> ''linux'' then Some (docker_error CodeCapabilityUnsupported PhaseValidate (DaemonOS (sv_Os v)))
             else None))"

definition checkReaper :: "bool \<Rightarrow> go_error option" where
  "checkReaper ryukDisabled =
     (if ryukDisabled then Some (docker_error CodeReaperDisabled PhaseValidate ReaperOff) else None)"

section \<open>Images\<close>

record image_config =
  ic_Healthcheck :: "string list option"
  ic_ExposedPorts :: nat

record image_info =
  im_Config :: "image_config option"
  im_Os :: string
  im_Architecture :: string

definition declares_healthcheck :: "image_info \<Rightarrow> bool" where
  "declares_healthcheck got \<longleftrightarrow>
     (case im_Config got of
        None \<Rightarrow> False
      | Some c \<Rightarrow>
          (case ic_Healthcheck c of
             None \<Rightarrow> False
           | Some test \<Rightarrow> length test \<noteq> 0 \<and> test ! 0 \<noteq> ''NONE''))"

definition checkImage :: "plan_unit \<Rightarrow> image_info \<Rightarrow> bool \<Rightarrow> go_error option" where
  "checkImage u got trustHealthcheck =
     (if trustHealthcheck \<and> \<not> declares_healthcheck got
      then Some (docker_error CodeImageInvalid PhasePull (NoHealthcheck (un_Image u)))
      else if (case im_Config got of None \<Rightarrow> False | Some c \<Rightarrow> ic_ExposedPorts c > 0)
      then Some (docker_error CodeImageInvalid PhasePull (ExposesPorts (un_Image u)))
      else if un_Kind u = UnitOpaque \<and> (im_Os got \<noteq> ''linux'' \<or> im_Architecture got \<noteq> ''amd64'')
      then Some (docker_error CodeImageInvalid PhasePull (WrongPlatform (un_Image u) (im_Os got) (im_Architecture got)))
      else None)"

text \<open>\<open>reply\<close> is the outcome of the pull itself, \<open>present\<close> whether the inspection after it finds the image.\<close>

definition pull :: "go_error option \<Rightarrow> bool \<Rightarrow> string \<Rightarrow> go_error option" where
  "pull reply present ref =
     (case reply of
        None \<Rightarrow> None
      | Some e \<Rightarrow>
          if ge_Deadline e \<or> ge_Canceled e then Some (docker_wrap e CodeStartupTimeout PhasePull (PullFailed ref))
          else if \<not> present then Some (docker_wrap e CodeImagePullFailed PhasePull (PullFailed ref))
          else None)"

definition isPodman :: "server_version \<Rightarrow> bool" where
  "isPodman v \<longleftrightarrow> list_ex (\<lambda>c. contains ''podman'' (to_lower c)) (sv_Components v)"

fun pull_all :: "(string \<Rightarrow> go_error option) \<Rightarrow> (string \<Rightarrow> bool) \<Rightarrow> string list \<Rightarrow> go_error option" where
  "pull_all pulls present [] = None"
| "pull_all pulls present (ref # refs) =
     (case pull (pulls ref) (present ref) ref of Some e \<Rightarrow> Some e | None \<Rightarrow> pull_all pulls present refs)"

fun inspect_all :: "(string \<Rightarrow> go_error + image_info) \<Rightarrow> bool \<Rightarrow> plan_unit list \<Rightarrow> go_error option" where
  "inspect_all inspect trust [] = None"
| "inspect_all inspect trust (u # us) =
     (case inspect (un_Image u) of
        Inl e \<Rightarrow> Some (docker_wrap e CodeImageInvalid PhasePull (ImageInspect (un_Image u)))
      | Inr got \<Rightarrow>
          (case checkImage u got trust of Some e \<Rightarrow> Some e | None \<Rightarrow> inspect_all inspect trust us))"

text \<open>A failed version query leaves the zero reply, which is not Podman's.\<close>

definition PullAndInspect ::
  "(string \<Rightarrow> go_error option) \<Rightarrow> (string \<Rightarrow> bool) \<Rightarrow> go_error + server_version \<Rightarrow> (string \<Rightarrow> go_error + image_info) \<Rightarrow>
   plan \<Rightarrow> go_error option"
where
  "PullAndInspect pulls present version inspect pl =
     (case pull_all pulls present (Images pl) of
        Some e \<Rightarrow> Some e
      | None \<Rightarrow>
          (let trust = (case version of Inl _ \<Rightarrow> True | Inr v \<Rightarrow> \<not> isPodman v)
           in inspect_all inspect trust (pl_Units pl)))"

section \<open>Container requests\<close>

definition labelHerder :: string where "labelHerder = ''io.unifi-emu.herder''"
definition labelRun :: string where "labelRun = ''io.unifi-emu.herder.run''"
definition labelDevices :: string where "labelDevices = ''io.unifi-emu.herder.devices''"
definition envInformURL :: string where "envInformURL = ''UNIFI_EMU_INFORM_URL''"
definition envDevicesJSON :: string where "envDevicesJSON = ''UNIFI_EMU_DEVICES_JSON''"

definition device_payload :: "identity \<Rightarrow> json" where
  "device_payload d =
     JObj [(''model'', jstr (id_Model d)), (''mac'', jstr (id_MAC d)), (''serial'', jstr (id_Serial d)), (''name'', jstr (id_Name d))]"

record host_config =
  hc_RestartPolicy :: string
  hc_Privileged :: bool
  hc_PublishAllPorts :: bool
  hc_PortBindings :: "string list"
  hc_Binds :: "string list"
  hc_Mounts :: "string list"
  hc_CapDrop :: "string list"
  hc_CapAdd :: "string list"

record container_request =
  cr_Image :: string
  cr_Env :: "(string \<times> string) list"
  cr_Networks :: "string list"
  cr_Labels :: "(string \<times> string) list"
  cr_HostConfigModifier :: "host_config \<Rightarrow> host_config"
  cr_EndpointSettingsModifier :: "(string \<times> bytes) list \<Rightarrow> (string \<times> bytes) list"

text \<open>An endpoint setting is known by the MAC it carries; \<^verbatim>\<open>RestartPolicyDisabled\<close> is the text \<^verbatim>\<open>no\<close>.\<close>

definition buildContainerRequest :: "plan \<Rightarrow> plan_unit \<Rightarrow> container_request" where
  "buildContainerRequest pl u =
     \<lparr>cr_Image = un_Image u,
      cr_Env = [(envInformURL, pl_InformURL pl), (envDevicesJSON, json_text (JArr (map device_payload (un_Devices u))))],
      cr_Networks = [pl_Network pl],
      cr_Labels = [(labelHerder, ''true''), (labelRun, pl_RunID pl), (labelDevices, DeviceIndices u)],
      cr_HostConfigModifier =
        (\<lambda>cfg. cfg\<lparr>hc_RestartPolicy := ''no'', hc_Privileged := False, hc_PublishAllPorts := False, hc_PortBindings := [],
                   hc_Binds := [], hc_Mounts := [], hc_CapDrop := [''ALL''], hc_CapAdd := un_CapAdd u\<rparr>),
      cr_EndpointSettingsModifier =
        (\<lambda>endpoints.
           if EndpointMAC u = [] then endpoints
           else (case parse_mac (EndpointMAC u) of
                   None \<Rightarrow> endpoints
                 | Some hw \<Rightarrow> map (\<lambda>(name, _). (name, hw)) endpoints))\<rparr>"

section \<open>Container state\<close>

record endpoint =
  ep_IPv4 :: string
  ep_MAC :: string

record container_state =
  cs_Running :: bool
  cs_Health :: string
  cs_ExitCode :: int
  cs_RestartCount :: int
  cs_StartedAt :: string
  cs_Networks :: "(string \<times> endpoint) list"
  cs_HostPortBindings :: nat

text \<open>The parts of the inspect response that are read\<close>

record docker_state =
  ds_Running :: bool
  ds_ExitCode :: int
  ds_StartedAt :: string
  ds_Health :: "string option"

record docker_endpoint =
  de_IPAddress :: "bytes option"
  de_MacAddress :: string

record network_settings =
  ns_Networks :: "(string \<times> docker_endpoint option) list"
  ns_Ports :: "nat list"

record inspect_response =
  ir_RestartCount :: int
  ir_State :: "docker_state option"
  ir_NetworkSettings :: "network_settings option"

text \<open>The address as text if it is an IPv4 address (four bytes), else the empty text\<close>

definition endpoint_of :: "docker_endpoint \<Rightarrow> endpoint" where
  "endpoint_of e =
     \<lparr>ep_IPv4 = (case de_IPAddress e of
                   Some ip \<Rightarrow> if length ip = 4 then v4_string ip else []
                 | None \<Rightarrow> []),
      ep_MAC = de_MacAddress e\<rparr>"

definition reduce_state :: "inspect_response \<Rightarrow> container_state" where
  "reduce_state got =
     (let s0 = \<lparr>cs_Running = False, cs_Health = [], cs_ExitCode = 0, cs_RestartCount = ir_RestartCount got,
                cs_StartedAt = [], cs_Networks = [], cs_HostPortBindings = 0\<rparr>;
          s1 = (case ir_State got of
                  None \<Rightarrow> s0
                | Some d \<Rightarrow> s0\<lparr>cs_Running := ds_Running d, cs_ExitCode := ds_ExitCode d, cs_StartedAt := ds_StartedAt d,
                               cs_Health := (case ds_Health d of None \<Rightarrow> [] | Some h \<Rightarrow> h)\<rparr>)
      in (case ir_NetworkSettings got of
            None \<Rightarrow> s1
          | Some n \<Rightarrow>
              s1\<lparr>cs_Networks := List.map_filter (\<lambda>(name, e). map_option (\<lambda>e. (name, endpoint_of e)) e) (ns_Networks n),
                 cs_HostPortBindings := sum_list (ns_Ports n)\<rparr>))"

definition Inspect :: "go_error + inspect_response \<Rightarrow> go_error + container_state" where
  "Inspect reply =
     (case reply of
        Inl e \<Rightarrow> Inl (docker_wrap e CodeDockerUnavailable PhaseRuntime InspectFailed)
      | Inr got \<Rightarrow> Inr (reduce_state got))"

section \<open>Launching and counting containers\<close>

definition NewDockerBackend :: "go_error option \<Rightarrow> go_error option" where
  "NewDockerBackend reply = map_option (\<lambda>e. docker_wrap e CodeDockerUnavailable PhaseValidate Connect) reply"

text \<open>The filters of a listing: the label or the status, and what it must be\<close>

type_synonym filters = "(string \<times> string) list"

definition run_filters :: "string \<Rightarrow> filters" where
  "run_filters runID = [(''label'', labelRun @ ''='' @ runID)]"

definition unit_filters :: "string \<Rightarrow> plan_unit \<Rightarrow> filters" where
  "unit_filters runID u =
     run_filters runID @ [(''label'', labelDevices @ ''='' @ DeviceIndices u), (''status'', ''created'')]"

text \<open>The containers force-removed for a unit whose creation gave no handle\<close>

definition removeUnitContainers :: "(filters \<Rightarrow> go_error + string list) \<Rightarrow> string \<Rightarrow> plan_unit \<Rightarrow> string list" where
  "removeUnitContainers listing runID u =
     (case listing (unit_filters runID u) of Inl _ \<Rightarrow> [] | Inr ids \<Rightarrow> ids)"

text \<open>
  The handle and the error of a creation and the error of the start after it give the handle and the
  error of the launch, and the containers removed on the way.
\<close>

definition Launch ::
  "(filters \<Rightarrow> go_error + string list) \<Rightarrow> plan \<Rightarrow> plan_unit \<Rightarrow> string option \<times> go_error option \<Rightarrow> go_error option \<Rightarrow>
   string option \<times> go_error option \<times> string list"
where
  "Launch listing pl u created started =
     (case created of
        (inst, Some e) \<Rightarrow>
          (inst, Some (docker_wrap e CodeContainerStartFailed PhaseStart (CreateFailed (DeviceIndices u))),
           if inst = None then removeUnitContainers listing (pl_RunID pl) u else [])
      | (inst, None) \<Rightarrow>
          (case started of
             Some e \<Rightarrow> (inst, Some (docker_wrap e CodeContainerStartFailed PhaseStart (StartFailed (DeviceIndices u))), [])
           | None \<Rightarrow> (inst, None, [])))"

definition WaitHealthy :: "go_error option \<Rightarrow> go_error option" where
  "WaitHealthy reply = map_option (\<lambda>e. docker_wrap e CodeDeviceUnhealthy PhaseHealth HealthWait) reply"

definition Remaining :: "(filters \<Rightarrow> go_error + string list) \<Rightarrow> string \<Rightarrow> go_error + nat" where
  "Remaining listing runID =
     (case listing (run_filters runID) of
        Inl e \<Rightarrow> Inl (docker_wrap e CodeDockerUnavailable PhaseCleanup ListFailed)
      | Inr ids \<Rightarrow> Inr (length ids))"

section \<open>Verdicts\<close>

definition sameMAC :: "string \<Rightarrow> string \<Rightarrow> bool" where
  "sameMAC got want \<longleftrightarrow> equal_fold got want"

definition start_failure :: "code \<Rightarrow> unit_detail \<Rightarrow> failure" where
  "start_failure c d = failf c PhaseStart (UnitDetail d)"

definition checkAttachment :: "plan \<Rightarrow> plan_unit \<Rightarrow> container_state \<Rightarrow> failure + string" where
  "checkAttachment pl u state =
     (if length (cs_Networks state) \<noteq> 1
      then Inl (start_failure CodeContainerStartFailed (AttachedTo (DeviceIndices u) (length (cs_Networks state))))
      else
        (case map_of (cs_Networks state) (pl_Network pl) of
           None \<Rightarrow> Inl (start_failure CodeContainerStartFailed (NotAttached (DeviceIndices u)))
         | Some ep \<Rightarrow>
             if cs_HostPortBindings state > 0
             then Inl (start_failure CodeContainerStartFailed (PortBindings (DeviceIndices u) (int (cs_HostPortBindings state))))
             else if EndpointMAC u \<noteq> [] \<and> \<not> sameMAC (ep_MAC ep) (EndpointMAC u)
             then Inl (start_failure CodeEndpointMACMismatch (EndpointMACWrong (DeviceIndices u) (ep_MAC ep) (EndpointMAC u)))
             else if ep_IPv4 ep = []
             then Inl (start_failure CodeContainerStartFailed (NoAddress (DeviceIndices u)))
             else Inr (ep_IPv4 ep)))"

definition runtime_failure :: "code \<Rightarrow> unit_detail \<Rightarrow> failure" where
  "runtime_failure c d = failf c PhaseRuntime (UnitDetail d)"

definition checkRuntimeState :: "plan \<Rightarrow> plan_unit \<Rightarrow> container_state \<Rightarrow> container_state \<Rightarrow> failure option" where
  "checkRuntimeState pl u baseline state =
     (if \<not> cs_Running state then Some (runtime_failure CodeDeviceExited (Exited (DeviceIndices u) (cs_ExitCode state)))
      else if cs_Health state = ''unhealthy'' then Some (runtime_failure CodeDeviceUnhealthy (Unhealthy (DeviceIndices u)))
      else if cs_RestartCount state \<noteq> cs_RestartCount baseline \<or> cs_StartedAt state \<noteq> cs_StartedAt baseline
      then Some (runtime_failure CodeDeviceRestarted (Restarted (DeviceIndices u)))
      else if length (cs_Networks state) \<noteq> 1
      then Some (runtime_failure CodeNetworkDetached (Detached (DeviceIndices u) (length (cs_Networks state))))
      else if map_of (cs_Networks state) (pl_Network pl) = None
      then Some (runtime_failure CodeNetworkDetached (LostNetwork (DeviceIndices u)))
      else None)"

end
