(* ===== verification/Go_URL.thy ===== *)
theory Go_URL
  imports Go_Net
begin

text \<open>
  \<^verbatim>\<open>url.Parse\<close> and \<^verbatim>\<open>net.SplitHostPort\<close>, as far as the inform URL check reads them: the scheme,
  whether there is user information, the host, the query, the path and the fragment; \<^const>\<open>None\<close>
  where they return an error. The module is built with Go 1.25.
\<close>

record url =
  url_Scheme :: string
  url_User :: bool
  url_Host :: string
  url_RawQuery :: string
  url_Path :: string
  url_Fragment :: string

datatype encoding = EncodePath | EncodeHost | EncodeZone | EncodeUserPassword | EncodeFragment

section \<open>Escapes\<close>

definition is_letter :: "char \<Rightarrow> bool" where
  "is_letter c \<longleftrightarrow> is_lower c \<or> is_upper c"

text \<open>\<^verbatim>\<open>shouldEscape(c, encodeHost)\<close>, the same for a zone\<close>

definition host_char :: "char \<Rightarrow> bool" where
  "host_char c \<longleftrightarrow> is_letter c \<or> is_digit c \<or> c \<in> set ''!$&()*+,;=:[]<>-_.~'' \<or> code c = 34 \<or> code c = 39"

definition escape_ok :: "encoding \<Rightarrow> char \<Rightarrow> char \<Rightarrow> bool" where
  "escape_ok mode a b \<longleftrightarrow>
     (case (hex_val a, hex_val b) of
        (Some x, Some y) \<Rightarrow>
          (if mode = EncodeHost then 8 \<le> x \<or> (a = CHR ''2'' \<and> b = CHR ''5'')
           else if mode = EncodeZone then
             (a = CHR ''2'' \<and> b = CHR ''5'') \<or> x * 16 + y = 32 \<or> host_char (char_of (x * 16 + y))
           else True)
      | _ \<Rightarrow> False)"

definition literal_ok :: "encoding \<Rightarrow> char \<Rightarrow> bool" where
  "literal_ok mode c \<longleftrightarrow> \<not> ((mode = EncodeHost \<or> mode = EncodeZone) \<and> code c < 128 \<and> \<not> host_char c)"

fun unescape :: "encoding \<Rightarrow> string \<Rightarrow> string option" where
  "unescape mode [] = Some []"
| "unescape mode (c # s) =
     (if c = CHR ''%'' then
        (case s of
           a # b # r \<Rightarrow>
             if escape_ok mode a b
             then map_option (\<lambda>t. char_of (the (hex_val a) * 16 + the (hex_val b)) # t) (unescape mode r)
             else None
         | _ \<Rightarrow> None)
      else if literal_ok mode c then map_option ((#) c) (unescape mode s)
      else None)"

section \<open>The parts of a URL\<close>

text \<open>The loop of \<^verbatim>\<open>getScheme\<close>, with what it has passed over\<close>

fun get_scheme :: "string \<Rightarrow> string \<Rightarrow> string \<Rightarrow> (string \<times> string) option" where
  "get_scheme url seen [] = Some ([], url)"
| "get_scheme url seen (c # s) =
     (if is_letter c then get_scheme url (seen @ [c]) s
      else if is_digit c \<or> c \<in> set ''+-.'' then (if seen = [] then Some ([], url) else get_scheme url (seen @ [c]) s)
      else if c = CHR '':'' then (if seen = [] then None else Some (seen, s))
      else Some ([], url))"

definition valid_optional_port :: "string \<Rightarrow> bool" where
  "valid_optional_port port \<longleftrightarrow> (port = [] \<or> hd port = CHR '':'' \<and> list_all is_digit (tl port))"

text \<open>The text up to and after the last occurrence of a character\<close>

fun cut_last :: "char \<Rightarrow> string \<Rightarrow> (string \<times> string) option" where
  "cut_last c [] = None"
| "cut_last c (x # xs) =
     (case cut_last c xs of
        Some (b, a) \<Rightarrow> Some (x # b, a)
      | None \<Rightarrow> if x = c then Some ([], xs) else None)"

fun find_zone :: "string \<Rightarrow> (string \<times> string) option" where
  "find_zone [] = None"
| "find_zone (c # s) =
     (if strip_prefix ''%25'' (c # s) \<noteq> None then Some ([], c # s)
      else map_option (\<lambda>(b, a). (c # b, a)) (find_zone s))"

definition parse_host :: "string \<Rightarrow> string option" where
  "parse_host host =
     (if host \<noteq> [] \<and> hd host = CHR ''['' then
        (case cut_last CHR '']'' host of
           None \<Rightarrow> None
         | Some (b, colonPort) \<Rightarrow>
             if \<not> valid_optional_port colonPort then None
             else
               (case find_zone b of
                  Some (host1, zone) \<Rightarrow>
                    (case (unescape EncodeHost host1, unescape EncodeZone zone, unescape EncodeHost (CHR '']'' # colonPort)) of
                       (Some h1, Some h2, Some h3) \<Rightarrow> Some (h1 @ h2 @ h3)
                     | _ \<Rightarrow> None)
                | None \<Rightarrow> unescape EncodeHost host))
      else
        (case cut_last CHR '':'' host of
           Some (_, port) \<Rightarrow> if list_all is_digit port then unescape EncodeHost host else None
         | None \<Rightarrow> unescape EncodeHost host))"

definition valid_userinfo :: "string \<Rightarrow> bool" where
  "valid_userinfo s \<longleftrightarrow>
     list_all (\<lambda>c. is_letter c \<or> is_digit c \<or> c \<in> set ''-._:~!$&()*+,;=%@'' \<or> code c = 39) s"

definition parse_userinfo :: "string \<Rightarrow> bool" where
  "parse_userinfo info \<longleftrightarrow>
     valid_userinfo info \<and>
     (case cut_at CHR '':'' info of
        (user, pass, _) \<Rightarrow> unescape EncodeUserPassword user \<noteq> None \<and> unescape EncodeUserPassword pass \<noteq> None)"

text \<open>The host and whether there is user information\<close>

definition parse_authority :: "string \<Rightarrow> (string \<times> bool) option" where
  "parse_authority authority =
     (case cut_last CHR ''@'' authority of
        None \<Rightarrow> map_option (\<lambda>host. (host, False)) (parse_host authority)
      | Some (info, rest) \<Rightarrow>
          (case parse_host rest of
             None \<Rightarrow> None
           | Some host \<Rightarrow> if parse_userinfo info then Some (host, True) else None))"

definition empty_url :: url where
  "empty_url = \<lparr>url_Scheme = [], url_User = False, url_Host = [], url_RawQuery = [], url_Path = [], url_Fragment = []\<rparr>"

definition set_path :: "string \<Rightarrow> url \<Rightarrow> url option" where
  "set_path p u = map_option (\<lambda>path. u\<lparr>url_Path := path\<rparr>) (unescape EncodePath p)"

text \<open>\<^verbatim>\<open>parse\<close> of what is before the fragment\<close>

definition parse_rest :: "url \<Rightarrow> string \<Rightarrow> url option" where
  "parse_rest u rest =
     (if \<not> (rest \<noteq> [] \<and> hd rest = CHR ''/'') \<and> url_Scheme u \<noteq> [] then Some u
      else if \<not> (rest \<noteq> [] \<and> hd rest = CHR ''/'') \<and> CHR '':'' \<in> set (fst (cut_at CHR ''/'' rest)) then None
      else if (url_Scheme u \<noteq> [] \<or> strip_prefix ''///'' rest = None) \<and> strip_prefix ''//'' rest \<noteq> None then
        (case cut_at CHR ''/'' (drop 2 rest) of
           (authority, path, ok) \<Rightarrow>
             (case parse_authority authority of
                None \<Rightarrow> None
              | Some (host, user) \<Rightarrow>
                  set_path (if ok then CHR ''/'' # path else []) (u\<lparr>url_User := user, url_Host := host\<rparr>)))
      else set_path rest u)"

definition parse_base :: "string \<Rightarrow> url option" where
  "parse_base raw =
     (if list_ex (\<lambda>c. code c < 32 \<or> code c = 127) raw then None
      else if raw = ''*'' then Some (empty_url\<lparr>url_Path := ''*''\<rparr>)
      else
        (case get_scheme raw [] raw of
           None \<Rightarrow> None
         | Some (scheme, rest) \<Rightarrow>
             (case cut_at CHR ''?'' rest of
                (before, query, _) \<Rightarrow>
                  parse_rest (empty_url\<lparr>url_Scheme := to_lower scheme, url_RawQuery := query\<rparr>) before)))"

text \<open>A lone final question mark leaves an empty query, as the cut does.\<close>

definition url_parse :: "string \<Rightarrow> url option" where
  "url_parse raw =
     (case cut_at CHR ''#'' raw of
        (u, frag, _) \<Rightarrow>
          (case parse_base u of
             None \<Rightarrow> None
           | Some url \<Rightarrow>
               if frag = [] then Some url
               else map_option (\<lambda>f. url\<lparr>url_Fragment := f\<rparr>) (unescape EncodeFragment frag)))"

section \<open>Host and port\<close>

definition split_host_port :: "string \<Rightarrow> (string \<times> string) option" where
  "split_host_port hostport =
     (case cut_last CHR '':'' hostport of
        None \<Rightarrow> None
      | Some (before, port) \<Rightarrow>
          if hd hostport = CHR ''['' then
            (case cut_at CHR '']'' (tl hostport) of
               (host, after, ok) \<Rightarrow>
                 if \<not> ok \<or> Suc (Suc (length host)) \<noteq> length before \<or> CHR ''['' \<in> set (tl hostport) \<or> CHR '']'' \<in> set after
                 then None
                 else Some (host, port))
          else if CHR '':'' \<in> set before \<or> CHR ''['' \<in> set hostport \<or> CHR '']'' \<in> set hostport then None
          else Some (before, port))"

end
