(* ===== verification/Herder_URL.thy ===== *)
theory Herder_URL
  imports Go_URL Herder_Protocol
begin

text \<open>
  The check of the inform URL (\<^verbatim>\<open>internal/herder/informurl.go\<close>): what it guarantees of a URL it
  accepts, the exact form it always accepts, and the spellings beyond that form it also accepts.
\<close>

definition bad_url :: "url_detail \<Rightarrow> failure" where
  "bad_url d = failf CodeInformURLInvalid PhaseValidate (URLDetail d)"

definition is_loopback :: "bytes \<Rightarrow> bool" where
  "is_loopback ip4 \<longleftrightarrow> ip4 ! 0 = 127"

definition is_unspecified :: "bytes \<Rightarrow> bool" where
  "is_unspecified ip4 \<longleftrightarrow> ip4 = [0, 0, 0, 0]"

definition check_host_port :: "string \<Rightarrow> string \<Rightarrow> failure option" where
  "check_host_port host port =
     (case Option.bind (parse_ip host) to4 of
        None \<Rightarrow> Some (bad_url (URLHostNotIPv4 host))
      | Some ip \<Rightarrow>
          if v4_string ip \<noteq> host then Some (bad_url (URLHostNotCanonical host))
          else if is_loopback ip \<or> is_unspecified ip then Some (bad_url (URLHostUnreachable host))
          else
            (case atoi port of
               None \<Rightarrow> Some (bad_url (URLPort port))
             | Some n \<Rightarrow> if n < 1 \<or> n > 65535 then Some (bad_url (URLPort port)) else None))"

definition CheckInformURL :: "string \<Rightarrow> failure option" where
  "CheckInformURL raw =
     (case url_parse raw of
        None \<Rightarrow> Some (bad_url URLUnparsable)
      | Some u \<Rightarrow>
          if url_Scheme u \<noteq> ''http'' then Some (bad_url (URLScheme (url_Scheme u)))
          else if url_User u then Some (bad_url URLUser)
          else if url_RawQuery u \<noteq> [] \<or> url_Fragment u \<noteq> [] then Some (bad_url URLQuery)
          else if url_Path u \<noteq> ''/inform'' then Some (bad_url (URLPath (url_Path u)))
          else
            (case split_host_port (url_Host u) of
               None \<Rightarrow> Some (bad_url URLNoPort)
             | Some (host, port) \<Rightarrow> check_host_port host port))"

section \<open>The exact form is accepted\<close>

lemma cut_last_none: "c \<notin> set s \<Longrightarrow> cut_last c s = None"
  by (induction s) auto

lemma cut_last_found: "c \<notin> set a \<Longrightarrow> cut_last c (b @ c # a) = Some (b, a)"
  by (induction b) (simp_all add: cut_last_none)

text \<open>A host of digits and dots\<close>

definition dotted :: "string \<Rightarrow> bool" where
  "dotted s \<longleftrightarrow> list_all (\<lambda>c. is_digit c \<or> c = CHR ''.'') s"

lemma digit_not: "is_digit c \<Longrightarrow> c \<noteq> CHR ''%'' \<and> c \<noteq> CHR '':'' \<and> c \<noteq> CHR ''['' \<and> c \<noteq> CHR '']'' \<and> c \<noteq> CHR ''@'' \<and>
    c \<noteq> CHR ''/'' \<and> c \<noteq> CHR ''?'' \<and> c \<noteq> CHR ''#'' \<and> 32 \<le> code c \<and> code c \<noteq> 127"
  by (auto simp: is_digit_def code_def)

lemma dot_not: "c = CHR ''.'' \<Longrightarrow> c \<noteq> CHR ''%'' \<and> c \<noteq> CHR '':'' \<and> c \<noteq> CHR ''['' \<and> c \<noteq> CHR '']'' \<and> c \<noteq> CHR ''@'' \<and>
    c \<noteq> CHR ''/'' \<and> c \<noteq> CHR ''?'' \<and> c \<noteq> CHR ''#'' \<and> 32 \<le> code c \<and> code c \<noteq> 127"
  by (simp add: code_def)

lemma colon_not: "c = CHR '':'' \<Longrightarrow> c \<noteq> CHR ''%'' \<and> c \<noteq> CHR ''['' \<and> c \<noteq> CHR '']'' \<and> c \<noteq> CHR ''@'' \<and>
    c \<noteq> CHR ''/'' \<and> c \<noteq> CHR ''?'' \<and> c \<noteq> CHR ''#'' \<and> 32 \<le> code c \<and> code c \<noteq> 127"
  by (simp add: code_def)

lemma dotted_not: "dotted s \<Longrightarrow> c \<in> set s \<Longrightarrow> c \<noteq> CHR ''%'' \<and> c \<noteq> CHR '':'' \<and> c \<noteq> CHR ''['' \<and> c \<noteq> CHR '']'' \<and> c \<noteq> CHR ''@'' \<and>
    c \<noteq> CHR ''/'' \<and> c \<noteq> CHR ''?'' \<and> c \<noteq> CHR ''#'' \<and> 32 \<le> code c \<and> code c \<noteq> 127"
  unfolding dotted_def list_all_iff using digit_not dot_not by blast

lemma v4_string_dotted: "dotted (v4_string ip)"
proof -
  have "dotted (join_with ''.'' ws)" if "\<forall>w \<in> set ws. list_all is_digit w" for ws
    using that by (induction "''.''" ws rule: join_with.induct) (auto simp: dotted_def list_all_iff)
  then show ?thesis by (simp add: v4_string_def)
qed

lemma unescape_plain:
  "\<forall>c \<in> set s. c \<noteq> CHR ''%'' \<and> literal_ok mode c \<Longrightarrow> unescape mode s = Some s"
  by (induction s) auto

lemma host_literal: "is_digit c \<or> c = CHR ''.'' \<or> c = CHR '':'' \<Longrightarrow> literal_ok EncodeHost c"
  by (auto simp: literal_ok_def host_char_def)

lemma parse_dotted_host:
  assumes "dotted h" "h \<noteq> []" "list_all is_digit p"
  shows "parse_authority (h @ CHR '':'' # p) = Some (h @ CHR '':'' # p, False)"
    "split_host_port (h @ CHR '':'' # p) = Some (h, p)"
proof -
  have p: "\<forall>c \<in> set p. is_digit c" using assms(3) by (simp add: list_all_iff)
  have all: "\<forall>c \<in> set (h @ CHR '':'' # p). is_digit c \<or> c = CHR ''.'' \<or> c = CHR '':''"
    using assms(1) p by (auto simp: dotted_def list_all_iff)
  then have "CHR ''@'' \<notin> set (h @ CHR '':'' # p)" using digit_not by fastforce
  moreover have colon: "cut_last CHR '':'' (h @ CHR '':'' # p) = Some (h, p)"
    using p digit_not by (intro cut_last_found) blast
  moreover have "unescape EncodeHost (h @ CHR '':'' # p) = Some (h @ CHR '':'' # p)"
    using all digit_not host_literal by (intro unescape_plain) fastforce
  moreover have hd: "hd (h @ CHR '':'' # p) \<noteq> CHR ''[''"
    using assms(1,2) dotted_not [of h "hd h"] by (cases h) auto
  ultimately show "parse_authority (h @ CHR '':'' # p) = Some (h @ CHR '':'' # p, False)"
    using assms(3) by (simp add: parse_authority_def parse_host_def cut_last_none)
  have "CHR '':'' \<notin> set h" using assms(1) dotted_not by blast
  moreover have "CHR ''['' \<notin> set (h @ CHR '':'' # p) \<and> CHR '']'' \<notin> set (h @ CHR '':'' # p)"
    using all digit_not by fastforce
  ultimately show "split_host_port (h @ CHR '':'' # p) = Some (h, p)"
    using colon hd unfolding split_host_port_def by simp
qed

lemma no_controls: "list_all (\<lambda>c. 32 \<le> code c \<and> code c \<noteq> 127) s \<Longrightarrow> \<not> list_ex (\<lambda>c. code c < 32 \<or> code c = 127) s"
  by (induction s) auto

lemma parse_inform_url:
  assumes "dotted h" "h \<noteq> []" "list_all is_digit p"
  shows "url_parse (''http://'' @ h @ CHR '':'' # p @ ''/inform'') =
    Some \<lparr>url_Scheme = ''http'', url_User = False, url_Host = h @ CHR '':'' # p, url_RawQuery = [],
          url_Path = ''/inform'', url_Fragment = []\<rparr>"
proof -
  let ?a = "h @ CHR '':'' # p" and ?raw = "''http://'' @ h @ CHR '':'' # p @ ''/inform''"
  have all: "\<forall>c \<in> set ?a. is_digit c \<or> c = CHR ''.'' \<or> c = CHR '':''"
    using assms(1,3) by (auto simp: dotted_def list_all_iff)
  have plain: "c \<noteq> CHR ''#'' \<and> c \<noteq> CHR ''?'' \<and> c \<noteq> CHR ''/'' \<and> 32 \<le> code c \<and> code c \<noteq> 127" if "c \<in> set ?a" for c
  proof -
    from all that have "is_digit c \<or> c = CHR ''.'' \<or> c = CHR '':''" ..
    then show ?thesis
    proof (elim disjE)
      assume "is_digit c"
      from digit_not [OF this] show ?thesis by (elim conjE) (intro conjI)
    next
      assume "c = CHR ''.''"
      from dot_not [OF this] show ?thesis by (elim conjE) (intro conjI)
    next
      assume "c = CHR '':''"
      from colon_not [OF this] show ?thesis by (elim conjE) (intro conjI)
    qed
  qed
  have no_special: "c \<notin> set (u @ ?a @ ''/inform'')" if "c \<in> {CHR ''#'', CHR ''?''}" "c \<notin> set u" for c u
  proof -
    have "c \<notin> set ?a" using plain [of c] that(1) by (elim insertE emptyE) (rule notI, drule plain, simp)+
    moreover have "c \<notin> set ''/inform''" using that(1) by (elim insertE emptyE) simp_all
    ultimately show ?thesis using that(2) by (simp only: set_append Un_iff de_Morgan_disj not_False_eq_True simp_thms)
  qed
  have "CHR ''#'' \<notin> set (''http://'' @ ?a @ ''/inform'')" by (rule no_special) simp_all
  then have "CHR ''#'' \<notin> set ?raw" by (simp only: append_assoc append_Cons simp_thms)
  then have frag: "cut_at CHR ''#'' ?raw = (?raw, [], False)" by (rule cut_at_none)
  have "list_all (\<lambda>c. 32 \<le> code c \<and> code c \<noteq> 127) ''http://''" "list_all (\<lambda>c. 32 \<le> code c \<and> code c \<noteq> 127) ''/inform''"
    by code_simp+
  moreover have "list_all (\<lambda>c. 32 \<le> code c \<and> code c \<noteq> 127) ?a" unfolding list_all_iff
    by (rule ballI, drule plain, elim conjE, intro conjI)
  ultimately have "list_all (\<lambda>c. 32 \<le> code c \<and> code c \<noteq> 127) (''http://'' @ ?a @ ''/inform'')"
    by (simp only: list_all_append)
  then have "list_all (\<lambda>c. 32 \<le> code c \<and> code c \<noteq> 127) ?raw" by (simp only: append_assoc append_Cons)
  then have ctl: "\<not> list_ex (\<lambda>c. code c < 32 \<or> code c = 127) ?raw" by (rule no_controls)
  have scheme: "get_scheme ?raw [] ?raw = Some (''http'', ''//'' @ h @ CHR '':'' # p @ ''/inform'')"
    by (simp add: is_letter_def is_lower_def is_upper_def is_digit_def code_def)
  have "CHR ''?'' \<notin> set (''//'' @ ?a @ ''/inform'')" by (rule no_special) simp_all
  then have "CHR ''?'' \<notin> set (''//'' @ h @ CHR '':'' # p @ ''/inform'')" by (simp only: append_assoc append_Cons simp_thms)
  then have query: "cut_at CHR ''?'' (''//'' @ h @ CHR '':'' # p @ ''/inform'') = (''//'' @ h @ CHR '':'' # p @ ''/inform'', [], False)"
    by (rule cut_at_none)
  have "CHR ''/'' \<notin> set ?a" by (rule notI, drule plain) simp
  then have slash: "cut_at CHR ''/'' (?a @ CHR ''/'' # ''inform'') = (?a, ''inform'', True)" by (rule cut_at_found)
  have path: "unescape EncodePath ''/inform'' = Some ''/inform''" by code_simp
  have low: "to_lower ''http'' = ''http''" by code_simp
  have "parse_rest (empty_url\<lparr>url_Scheme := ''http'', url_RawQuery := []\<rparr>) (''//'' @ h @ CHR '':'' # p @ ''/inform'') =
    Some \<lparr>url_Scheme = ''http'', url_User = False, url_Host = ?a, url_RawQuery = [], url_Path = ''/inform'', url_Fragment = []\<rparr>"
    using slash path parse_dotted_host(1) [OF assms] by (simp add: parse_rest_def set_path_def empty_url_def)
  then have "parse_base ?raw =
    Some \<lparr>url_Scheme = ''http'', url_User = False, url_Host = ?a, url_RawQuery = [], url_Path = ''/inform'', url_Fragment = []\<rparr>"
    unfolding parse_base_def scheme query option.case prod.case low using ctl by simp
  then show ?thesis unfolding url_parse_def frag by simp
qed


lemma dotted_parse:
  assumes "length ip = 4"
  shows "parse_ip (v4_string ip) = Some (v4_in_v6 ip)"
proof -
  obtain a b c d where ip: "ip = [a, b, c, d]" using assms by (auto simp: length_Suc_conv numeral_eq_Suc)
  have "v4_string ip = nat_dec (unat a) @ CHR ''.'' # nat_dec (unat b) @ ''.'' @ nat_dec (unat c) @ ''.'' @ nat_dec (unat d)"
    by (simp add: ip v4_string_def)
  moreover have "\<forall>x \<in> set (nat_dec (unat a)). x \<noteq> CHR ''.'' \<and> x \<noteq> CHR '':'' \<and> x \<noteq> CHR ''%''"
    using nat_dec_digits [of "unat a"] digit_not nat_dec_no_dot [of "unat a"] by (auto simp: list_all_iff)
  ultimately have "dropWhile (\<lambda>x. x \<noteq> CHR ''.'' \<and> x \<noteq> CHR '':'' \<and> x \<noteq> CHR ''%'') (v4_string ip) =
      CHR ''.'' # nat_dec (unat b) @ ''.'' @ nat_dec (unat c) @ ''.'' @ nat_dec (unat d)"
    by (simp add: dropWhile_append2)
  then show ?thesis using parse_v4_string [OF assms] by (simp add: parse_ip_def)
qed

text \<open>What acceptance says of host and port\<close>

lemma check_host_port_iff:
  "check_host_port host port = None \<longleftrightarrow>
     (\<exists>ip n. parse_ip host = Some (v4_in_v6 ip) \<and> length ip = 4 \<and> host = v4_string ip \<and> ip ! 0 \<noteq> 127 \<and> ip \<noteq> [0, 0, 0, 0] \<and>
        atoi port = Some n \<and> 1 \<le> n \<and> n \<le> 65535)"
  (is "?l \<longleftrightarrow> ?r")
proof
  assume ?l
  then obtain v ip where ip: "parse_ip host = Some v" "to4 v = Some ip" "host = v4_string ip" "ip ! 0 \<noteq> 127" "ip \<noteq> [0, 0, 0, 0]"
    and n: "\<exists>n. atoi port = Some n \<and> 1 \<le> n \<and> n \<le> 65535"
    by (auto simp: check_host_port_def is_loopback_def is_unspecified_def bind_eq_Some_conv split: option.splits if_splits)
  then have len: "length ip = 4" by (simp add: to4_length)
  have "v = v4_in_v6 ip" using ip(1) dotted_parse [OF len] ip(3) by simp
  then show ?r using ip len n by blast
next
  assume ?r
  then show ?l by (auto simp: check_host_port_def is_loopback_def is_unspecified_def)
qed

lemma inform_url_host_port:
  assumes "dotted h" "h \<noteq> []" "list_all is_digit p"
  shows "CheckInformURL (''http://'' @ h @ CHR '':'' # p @ ''/inform'') = check_host_port h p"
  using parse_inform_url [OF assms] parse_dotted_host(2) [OF assms] by (simp add: CheckInformURL_def)

lemma v4_string_nonempty: "length ip = 4 \<Longrightarrow> v4_string ip \<noteq> []"
  using dotted_parse [of ip] by (auto simp: parse_ip_def)

lemma atoi_nat_dec: "atoi (nat_dec n) = (if n < 2 ^ 63 then Some (int n) else None)"
proof (cases "n < 2 ^ 63")
  case True
  then have "in_int64 (int n)" by (simp add: in_int64_def)
  then show ?thesis using atoi_itoa [of "int n"] True by (simp add: itoa_def)
next
  case False
  obtain c cs where c: "nat_dec n = c # cs" "is_digit c" using nat_dec_Cons by blast
  have v: "list_all is_digit (nat_dec n)" "int (dec_nat (nat_dec n)) = int n" by simp_all
  have "\<not> in_int64 (int n)" using False by (simp add: in_int64_def)
  then show ?thesis
    using False v c is_digit_not_special [OF c(2)] by (simp add: atoi_def)
qed

text \<open>
  Of the URLs of the contract's form, a dotted IPv4 address and a decimal port under
  \<^verbatim>\<open>http\<close> and \<^verbatim>\<open>/inform\<close>, the check accepts exactly those a device container can reach: any address
  that is neither loopback nor unspecified, any port from 1 to 65535.
\<close>
theorem inform_url_accepts_contract:
  assumes "length ip = 4"
  shows "CheckInformURL (''http://'' @ v4_string ip @ CHR '':'' # nat_dec n @ ''/inform'') = None \<longleftrightarrow>
    ip ! 0 \<noteq> 127 \<and> ip \<noteq> [0, 0, 0, 0] \<and> 1 \<le> n \<and> n \<le> 65535"
proof -
  have "CheckInformURL (''http://'' @ v4_string ip @ CHR '':'' # nat_dec n @ ''/inform'') = check_host_port (v4_string ip) (nat_dec n)"
    using v4_string_dotted v4_string_nonempty [OF assms] by (intro inform_url_host_port) simp_all
  moreover have "check_host_port (v4_string ip) (nat_dec n) = None \<longleftrightarrow>
      ip ! 0 \<noteq> 127 \<and> ip \<noteq> [0, 0, 0, 0] \<and> 1 \<le> n \<and> n \<le> 65535"
    using dotted_parse [OF assms] assms
    by (auto simp: check_host_port_def is_loopback_def is_unspecified_def atoi_nat_dec)
  ultimately show ?thesis by simp
qed

theorem inform_url_accepts_contract_witness:
  "CheckInformURL (''http://'' @ v4_string [10, 0, 0, 2] @ CHR '':'' # nat_dec 8080 @ ''/inform'') = None"
  using inform_url_accepts_contract [of "[10, 0, 0, 2]" 8080] by simp

text \<open>
  C40: an accepted URL parses to the scheme \<^verbatim>\<open>http\<close>, no user, no query or fragment, the path
  \<^verbatim>\<open>/inform\<close>, and a host that splits into the canonical text of a reachable IPv4 address and a
  port of value 1 to 65535.
\<close>
theorem inform_url_sound:
  assumes "CheckInformURL raw = None"
  shows "\<exists>u ip port n. url_parse raw = Some u \<and> url_Scheme u = ''http'' \<and> \<not> url_User u \<and> url_RawQuery u = [] \<and>
    url_Fragment u = [] \<and> url_Path u = ''/inform'' \<and> split_host_port (url_Host u) = Some (v4_string ip, port) \<and>
    length ip = 4 \<and> ip ! 0 \<noteq> 127 \<and> ip \<noteq> [0, 0, 0, 0] \<and> atoi port = Some n \<and> 1 \<le> n \<and> n \<le> 65535"
proof -
  obtain u host port where u: "url_parse raw = Some u" "url_Scheme u = ''http''" "\<not> url_User u" "url_RawQuery u = []"
    "url_Fragment u = []" "url_Path u = ''/inform''" "split_host_port (url_Host u) = Some (host, port)"
    "check_host_port host port = None"
    using assms by (auto simp: CheckInformURL_def split: option.splits if_splits)
  then obtain ip n where "length ip = 4" "host = v4_string ip" "ip ! 0 \<noteq> 127" "ip \<noteq> [0, 0, 0, 0]" "atoi port = Some n" "1 \<le> n" "n \<le> 65535"
    unfolding check_host_port_iff by blast
  then show ?thesis using u by blast
qed

text \<open>
  The check is wider than the exact form its comment names: it also accepts an upper-case
  scheme, a percent-encoded path, a port with leading zeros, and a trailing question mark or hash,
  and the devices get the URL as it was spelled.
\<close>
theorem inform_url_spellings:
  "CheckInformURL ''HTTP://10.0.0.2:80/inform'' = None \<and> CheckInformURL ''http://10.0.0.2:80/%69nform'' = None \<and>
   CheckInformURL ''http://10.0.0.2:0080/inform'' = None \<and> CheckInformURL ''http://10.0.0.2:80/inform?'' = None \<and>
   CheckInformURL ''http://10.0.0.2:80/inform#'' = None"
  by code_simp

theorem inform_url_sound_witness:
  "\<exists>u. url_parse ''HTTP://10.0.0.2:80/inform'' = Some u \<and> url_Scheme u = ''http'' \<and> url_Path u = ''/inform''"
proof -
  have "CheckInformURL ''HTTP://10.0.0.2:80/inform'' = None" by code_simp
  from inform_url_sound [OF this] show ?thesis by blast
qed

end
