(* ===== verification/Herder_Run.thy ===== *)
theory Herder_Run
  imports Herder_Docker Herder_URL
begin

text \<open>
  One herder run (\<^verbatim>\<open>internal/herder/run.go\<close>): validation, start, monitoring, and the one cleanup path
  with the terminal event. The daemon, the containers, the clock and the signals are the
  environment: a record with the answer of every operation and, beside each, the state of the
  context the answer is classified under. The goroutines of a start each answer at the place of
  their unit, and the answers are read after all of them have ended.
\<close>

section \<open>Contexts and outcomes\<close>

datatype ctx_error = Canceled | DeadlineExceeded

type_synonym ctx = "ctx_error option"

definition ctx_as_error :: "ctx_error \<Rightarrow> go_error" where
  "ctx_as_error c = \<lparr>ge_Failure = None, ge_Canceled = (c = Canceled), ge_Deadline = (c = DeadlineExceeded)\<rparr>"

definition error_is :: "go_error \<Rightarrow> ctx_error \<Rightarrow> bool" where
  "error_is e c \<longleftrightarrow> (case c of Canceled \<Rightarrow> ge_Canceled e | DeadlineExceeded \<Rightarrow> ge_Deadline e)"

text \<open>What ends a run: \<^verbatim>\<open>errStopped\<close> or a failure\<close>

datatype run_error = ErrStopped | RunFailure failure

definition classify :: "ctx \<Rightarrow> go_error \<Rightarrow> code \<Rightarrow> phase \<Rightarrow> run_error" where
  "classify ctx err fallback ph =
     (case (case ctx of None \<Rightarrow> None | Some cause \<Rightarrow> if error_is err cause then Some cause else None) of
        Some cause \<Rightarrow>
          if cause = DeadlineExceeded then RunFailure (failf CodeStartupTimeout ph (DeadlineExpired ph))
          else ErrStopped
      | None \<Rightarrow>
          (case asFailure err of
             Some f \<Rightarrow> RunFailure f
           | None \<Rightarrow> RunFailure (failf fallback ph OtherError)))"

definition withDevices :: "run_error \<Rightarrow> plan_unit \<Rightarrow> run_error" where
  "withDevices err u =
     (case err of
        ErrStopped \<Rightarrow> ErrStopped
      | RunFailure f \<Rightarrow> RunFailure (if fl_Devices f = [] then f\<lparr>fl_Devices := un_Devices u\<rparr> else f))"

definition classifyUnit :: "ctx \<Rightarrow> go_error \<Rightarrow> code \<Rightarrow> phase \<Rightarrow> plan_unit \<Rightarrow> run_error" where
  "classifyUnit ctx err fallback ph u = withDevices (classify ctx err fallback ph) u"

section \<open>The environment\<close>

type_synonym 'a answer = "ctx \<times> 'a"

type_synonym check = "go_error option answer"

type_synonym container = string

text \<open>
  One turn of the monitor: the context at the head of the loop, the context if \<^verbatim>\<open>select\<close> took its
  branch, and the answers to the inspections.
\<close>

record turn =
  tn_Head :: ctx
  tn_Select :: ctx
  tn_Inspect :: "container \<Rightarrow> (go_error + container_state) answer"

record environment =
  en_Network :: string
  en_InformURL :: string
  en_Request :: "string option"
  en_RuntimeConfigPath :: string
  en_SyntheticImage :: string
  en_RunID :: string
  en_Getenv :: "string \<Rightarrow> string"
  en_Files :: file_system
  en_Range :: "runtime_map \<Rightarrow> runtime_map"
  en_Rand :: bytes
  en_HasBackend :: bool
  en_NewBackend :: check
  en_CheckReaper :: "failure option"
  en_CheckDaemon :: check
  en_CheckNetwork :: check
  en_CheckCapabilities :: "plan \<Rightarrow> check"
  en_Prepare :: "plan \<Rightarrow> check"
  en_Prepared :: ctx
  en_Launch :: "plan_unit \<Rightarrow> container option \<times> check"
  en_Launched :: ctx
  en_WaitHealthy :: "container \<Rightarrow> check"
  en_Healthy :: ctx
  en_InspectStart :: "container \<Rightarrow> (go_error + container_state) answer"
  en_StartDone :: ctx
  en_Turns :: "turn list"
  en_Terminate :: "container \<Rightarrow> go_error option"
  en_Remaining :: "go_error + nat"
  en_StartedOk :: bool
  en_ReadyOk :: bool
  en_TerminalOk :: bool
  en_Signaled :: bool

section \<open>Validation\<close>

text \<open>The steps of \<^verbatim>\<open>validate\<close> in order, each ending the run or handing on\<close>

definition check_answer :: "check \<Rightarrow> code \<Rightarrow> phase \<Rightarrow> run_error + unit" where
  "check_answer a fallback ph =
     (case a of (ctx, None) \<Rightarrow> Inr () | (ctx, Some e) \<Rightarrow> Inl (classify ctx e fallback ph))"

definition check_ctx :: "ctx \<Rightarrow> phase \<Rightarrow> run_error + unit" where
  "check_ctx ctx ph =
     (case ctx of None \<Rightarrow> Inr () | Some c \<Rightarrow> Inl (classify ctx (ctx_as_error c) CodeStartupTimeout ph))"

definition own :: "failure + 'a \<Rightarrow> run_error + 'a" where
  "own r = (case r of Inl f \<Rightarrow> Inl (RunFailure f) | Inr x \<Rightarrow> Inr x)"

definition own_check :: "failure option \<Rightarrow> run_error + unit" where
  "own_check r = (case r of Some f \<Rightarrow> Inl (RunFailure f) | None \<Rightarrow> Inr ())"

definition connect :: "environment \<Rightarrow> run_error + unit" where
  "connect en =
     (if en_HasBackend en then Inr () else check_answer (en_NewBackend en) CodeDockerUnavailable PhaseValidate)"

definition read_request :: "environment \<Rightarrow> failure + request" where
  "read_request en =
     (case en_Request en of
        None \<Rightarrow> Inl (request_failure RequestDocument)
      | Some body \<Rightarrow> DecodeRequest body)"

definition validate_plan :: "registry \<Rightarrow> environment \<Rightarrow> run_error + plan" where
  "validate_plan reg en =
     rbind (own (read_request en)) (\<lambda>req.
     rbind (own (ResolveRuntimeConfig (en_Range en) (en_Files en) (en_RuntimeConfigPath en) (en_Getenv en))) (\<lambda>cfg.
     rbind (own (Allocate (req_Devices req) (en_Rand en))) (\<lambda>devices.
     rbind (own_check (CheckInformURL (en_InformURL en))) (\<lambda>_.
     rbind (own_check (en_CheckReaper en)) (\<lambda>_.
     rbind (check_answer (en_CheckDaemon en) CodeDockerUnavailable PhaseValidate) (\<lambda>_.
     rbind (check_answer (en_CheckNetwork en) CodeNetworkNotFound PhaseValidate) (\<lambda>_.
     own (BuildPlan reg
       \<lparr>in_RunID = en_RunID en, in_Network = en_Network en, in_InformURL = en_InformURL en,
        in_Devices = devices, in_Runtime = cfg, in_SyntheticImage = en_SyntheticImage en\<rparr>))))))))"

definition validate :: "registry \<Rightarrow> environment \<Rightarrow> run_error + plan" where
  "validate reg en =
     rbind (connect en) (\<lambda>_.
     rbind (validate_plan reg en) (\<lambda>pl.
     rbind (check_answer (en_CheckCapabilities en pl) CodeCapabilityUnsupported PhaseValidate) (\<lambda>_.
     rbind (check_answer (en_Prepare en pl) CodeImagePullFailed PhasePull) (\<lambda>_.
     rbind (check_ctx (en_Prepared en) PhasePull) (\<lambda>_. Inr pl)))))"

section \<open>Start\<close>

record live =
  lv_Unit :: plan_unit
  lv_Instance :: container
  lv_Baseline :: container_state
  lv_IP :: string

definition zero_state :: container_state where
  "zero_state = \<lparr>cs_Running = False, cs_Health = [], cs_ExitCode = 0, cs_RestartCount = 0, cs_StartedAt = [],
     cs_Networks = [], cs_HostPortBindings = 0\<rparr>"

definition new_live :: "plan_unit \<Rightarrow> container \<Rightarrow> live" where
  "new_live u inst = \<lparr>lv_Unit = u, lv_Instance = inst, lv_Baseline = zero_state, lv_IP = []\<rparr>"

text \<open>Every container that came up is recorded; the first error in unit order is the one reported.\<close>

definition launched :: "environment \<Rightarrow> plan_unit list \<Rightarrow> live list" where
  "launched en us = List.map_filter (\<lambda>u. map_option (new_live u) (fst (en_Launch en u))) us"

fun first_launch_error :: "environment \<Rightarrow> plan_unit list \<Rightarrow> run_error option" where
  "first_launch_error en [] = None"
| "first_launch_error en (u # us) =
     (case snd (en_Launch en u) of
        (ctx, Some e) \<Rightarrow> Some (classifyUnit ctx e CodeContainerStartFailed PhaseStart u)
      | (ctx, None) \<Rightarrow> first_launch_error en us)"

fun first_health_error :: "environment \<Rightarrow> live list \<Rightarrow> run_error option" where
  "first_health_error en [] = None"
| "first_health_error en (lu # lus) =
     (case en_WaitHealthy en (lv_Instance lu) of
        (ctx, Some e) \<Rightarrow> Some (classifyUnit ctx e CodeDeviceUnhealthy PhaseHealth (lv_Unit lu))
      | (ctx, None) \<Rightarrow> first_health_error en lus)"

text \<open>The inspection of the topology: each unit in turn gets its baseline and address.\<close>

fun inspect_start :: "environment \<Rightarrow> plan \<Rightarrow> live list \<Rightarrow> live list \<times> run_error option" where
  "inspect_start en pl [] = ([], None)"
| "inspect_start en pl (lu # lus) =
     (case en_InspectStart en (lv_Instance lu) of
        (ctx, Inl e) \<Rightarrow> (lu # lus, Some (classifyUnit ctx e CodeDockerUnavailable PhaseStart (lv_Unit lu)))
      | (ctx, Inr state) \<Rightarrow>
          (case checkAttachment pl (lv_Unit lu) state of
             Inl f \<Rightarrow> (lu # lus, Some (withDevices (RunFailure f) (lv_Unit lu)))
           | Inr ip \<Rightarrow>
               (case inspect_start en pl lus of
                  (lus', err) \<Rightarrow> (lu\<lparr>lv_Baseline := state, lv_IP := ip\<rparr> # lus', err))))"

definition left :: "run_error + unit \<Rightarrow> run_error option" where
  "left r = (case r of Inl e \<Rightarrow> Some e | Inr _ \<Rightarrow> None)"

text \<open>The units recorded, and the error if the start failed\<close>

definition start :: "environment \<Rightarrow> plan \<Rightarrow> live list \<times> run_error option" where
  "start en pl =
     (let units = launched en (pl_Units pl) in
      case first_launch_error en (pl_Units pl) of
        Some e \<Rightarrow> (units, Some e)
      | None \<Rightarrow>
      (case left (check_ctx (en_Launched en) PhaseStart) of
        Some e \<Rightarrow> (units, Some e)
      | None \<Rightarrow>
      (case first_health_error en units of
        Some e \<Rightarrow> (units, Some e)
      | None \<Rightarrow>
      (case left (check_ctx (en_Healthy en) PhaseHealth) of
        Some e \<Rightarrow> (units, Some e)
      | None \<Rightarrow>
      (case inspect_start en pl units of
        (units, Some e) \<Rightarrow> (units, Some e)
      | (units, None) \<Rightarrow> (units, left (check_ctx (en_StartDone en) PhaseStart)))))))"

definition readyDevices :: "live list \<Rightarrow> ready_device list" where
  "readyDevices units =
     insertion_sort (\<lambda>d. id_Index (fst d)) (concat (map (\<lambda>lu. map (\<lambda>d. (d, lv_IP lu)) (un_Devices (lv_Unit lu))) units))"

section \<open>Monitoring\<close>

definition dockerFailureLimit :: nat where
  "dockerFailureLimit = 3"

text \<open>One pass over the units: the error that ends the run, or whether a unit was lost, and the count\<close>

fun monitor_pass :: "plan \<Rightarrow> turn \<Rightarrow> live list \<Rightarrow> nat \<Rightarrow> run_error + bool \<times> nat" where
  "monitor_pass pl tn [] consecutive = Inr (False, consecutive)"
| "monitor_pass pl tn (lu # lus) consecutive =
     (case tn_Inspect tn (lv_Instance lu) of
        (ctx, Inl e) \<Rightarrow>
          if Suc consecutive \<ge> dockerFailureLimit
          then Inl (classifyUnit ctx e CodeDockerUnavailable PhaseRuntime (lv_Unit lu))
          else Inr (True, Suc consecutive)
      | (ctx, Inr state) \<Rightarrow>
          (case checkRuntimeState pl (lv_Unit lu) (lv_Baseline lu) state of
             Some f \<Rightarrow> Inl (withDevices (RunFailure f) (lv_Unit lu))
           | None \<Rightarrow> monitor_pass pl tn lus consecutive))"

definition monitor_turn :: "plan \<Rightarrow> live list \<Rightarrow> turn \<Rightarrow> nat \<Rightarrow> run_error + nat" where
  "monitor_turn pl units tn consecutive =
     (case tn_Head tn of
        Some c \<Rightarrow> Inl (classify (Some c) (ctx_as_error c) CodeDockerUnavailable PhaseRuntime)
      | None \<Rightarrow>
      (case tn_Select tn of
        Some c \<Rightarrow> Inl (classify (Some c) (ctx_as_error c) CodeDockerUnavailable PhaseRuntime)
      | None \<Rightarrow>
          rbind (monitor_pass pl tn units consecutive) (\<lambda>(lost, consecutive).
            Inr (if \<not> lost then 0 else consecutive))))"

text \<open>The loop over the turns there are; \<^const>\<open>None\<close> is a monitor still running.\<close>

fun monitor :: "plan \<Rightarrow> live list \<Rightarrow> nat \<Rightarrow> turn list \<Rightarrow> run_error option" where
  "monitor pl units consecutive [] = None"
| "monitor pl units consecutive (tn # tns) =
     (case monitor_turn pl units tn consecutive of
        Inl e \<Rightarrow> Some e
      | Inr consecutive \<Rightarrow> monitor pl units consecutive tns)"

section \<open>Cleanup and the terminal event\<close>

definition has_backend :: "environment \<Rightarrow> bool" where
  "has_backend en \<longleftrightarrow> (case connect en of Inl _ \<Rightarrow> False | Inr _ \<Rightarrow> True)"

text \<open>Whether everything is gone, and whether Docker could not be asked\<close>

definition cleanup :: "environment \<Rightarrow> live list \<Rightarrow> bool \<times> bool" where
  "cleanup en units =
     (if \<not> has_backend en then (True, False)
      else
        (let allGone = list_all (\<lambda>lu. en_Terminate en (lv_Instance lu) = None) units in
         case en_Remaining en of
           Inl e \<Rightarrow> (False, True)
         | Inr remaining \<Rightarrow> if remaining > 0 then (False, False) else (allGone, False)))"

definition ExitOK :: int where "ExitOK = 0"
definition ExitFailure :: int where "ExitFailure = 1"

definition stopReason :: "environment \<Rightarrow> string" where
  "stopReason en = (if en_Signaled en then ''signal'' else ''canceled'')"

definition failure_of :: "run_error \<Rightarrow> failure option" where
  "failure_of err = (case err of ErrStopped \<Rightarrow> None | RunFailure f \<Rightarrow> Some f)"

definition devicesOf :: "failure option \<Rightarrow> identity list" where
  "devicesOf f = (case f of None \<Rightarrow> [] | Some f \<Rightarrow> fl_Devices f)"

definition finish :: "environment \<Rightarrow> live list \<Rightarrow> run_error \<Rightarrow> writer \<Rightarrow> writer \<times> int" where
  "finish en units cause w =
     (let f = failure_of cause in
      case cleanup en units of
        (allGone, dockerLost) \<Rightarrow>
          if \<not> allGone then
            (fst (Failed (en_TerminalOk en)
               \<lparr>ev_RunID = en_RunID en, ev_Phase = PhaseCleanup, ev_Code = CodeCleanupFailed,
                ev_Cause = (case f of Some f \<Rightarrow> Some (fl_Code f)
                            | None \<Rightarrow> if dockerLost then Some CodeDockerUnavailable else None),
                ev_CleanupComplete = False, ev_Devices = devicesOf f\<rparr> w), ExitFailure)
          else
            (case f of
               Some f \<Rightarrow>
                 (fst (Failed (en_TerminalOk en)
                    \<lparr>ev_RunID = en_RunID en, ev_Phase = fl_Phase f, ev_Code = fl_Code f, ev_Cause = None,
                     ev_CleanupComplete = True, ev_Devices = fl_Devices f\<rparr> w), ExitStatus (fl_Code f))
             | None \<Rightarrow>
                 (case Stopped (en_TerminalOk en) (en_RunID en) (stopReason en) w of
                    (w, Some _) \<Rightarrow> (w, ExitFailure)
                  | (w, None) \<Rightarrow> (w, ExitOK))))"

section \<open>The run\<close>

text \<open>The writer at the end, the exit status, and the units that were terminated\<close>

definition execute :: "registry \<Rightarrow> environment \<Rightarrow> (writer \<times> int \<times> live list) option" where
  "execute reg en =
     (case Started (en_StartedOk en) (en_RunID en) NewWriter of
        (w, Some _) \<Rightarrow> Some (w, ExitFailure, [])
      | (w, None) \<Rightarrow>
          (case validate reg en of
             Inl err \<Rightarrow> (case finish en [] err w of (w, status) \<Rightarrow> Some (w, status, []))
           | Inr pl \<Rightarrow>
               (case start en pl of
                  (units, Some err) \<Rightarrow> (case finish en units err w of (w, status) \<Rightarrow> Some (w, status, units))
                | (units, None) \<Rightarrow>
                    (case Ready (en_ReadyOk en) (en_RunID en) (readyDevices units) w of
                       (w, Some _) \<Rightarrow>
                         (case finish en units ErrStopped w of (w, _) \<Rightarrow> Some (w, ExitFailure, units))
                     | (w, None) \<Rightarrow>
                         (case monitor pl units 0 (en_Turns en) of
                            None \<Rightarrow> None
                          | Some err \<Rightarrow>
                              (case finish en units err w of (w, status) \<Rightarrow> Some (w, status, units)))))))"

end
