(* ===== verification/Herder_Cli.thy ===== *)
theory Herder_Cli
  imports Go_Flag Herder_Run
begin

text \<open>
  The command \<^verbatim>\<open>unifi-emu-herder\<close> (\<^verbatim>\<open>cmd/unifi-emu-herder/main.go\<close>): the flags, what the command line
  is refused for, and the run it starts otherwise.
\<close>

section \<open>Build identity\<close>

text \<open>The version to report and the synthetic image to default to\<close>

definition resolveBuild :: "string \<Rightarrow> string \<Rightarrow> string \<Rightarrow> string \<times> string" where
  "resolveBuild ldflagVersion ldflagImage modver =
     (let image = (if ldflagImage = [] then DefaultSyntheticImage modver else ldflagImage);
          release = ReleaseVersion modver;
          version = (if (ldflagVersion = [] \<or> ldflagVersion = ''dev'') \<and> release \<noteq> [] then release else ldflagVersion)
      in (version, image))"

section \<open>Flags\<close>

definition ExitUsage :: int where "ExitUsage = 2"

definition herder_flag_set :: flag_set where
  "herder_flag_set =
     \<lparr>fg_Formal =
        [(''network'', FString []), (''inform-url'', FString []), (''devices'', FString []),
         (''runtime-config'', FString []), (''synthetic-image'', FString []),
         (''startup-timeout'', FDuration (5 * 60 * 10 ^ 9)), (''stop-timeout'', FDuration (30 * 10 ^ 9)),
         (''version'', FBool False)],
      fg_Actual = [], fg_Args = []\<rparr>"

record herder_flags =
  hf_Network :: string
  hf_InformURL :: string
  hf_Devices :: string
  hf_RuntimeConfig :: string
  hf_SyntheticImage :: string
  hf_StartupTimeout :: int
  hf_StopTimeout :: int
  hf_ShowVersion :: bool

text \<open>The flags and the arguments left over\<close>

definition parseFlags :: "string list \<Rightarrow> flag_error + herder_flags \<times> string list" where
  "parseFlags args =
     rbind (parse_args args herder_flag_set) (\<lambda>fs.
       Inr (\<lparr>hf_Network = string_flag fs ''network'', hf_InformURL = string_flag fs ''inform-url'',
             hf_Devices = string_flag fs ''devices'', hf_RuntimeConfig = string_flag fs ''runtime-config'',
             hf_SyntheticImage = string_flag fs ''synthetic-image'',
             hf_StartupTimeout = duration_flag fs ''startup-timeout'', hf_StopTimeout = duration_flag fs ''stop-timeout'',
             hf_ShowVersion = bool_flag fs ''version''\<rparr>, fg_Args fs))"

section \<open>The command\<close>

text \<open>
  The process: \<open>hp_Random\<close> is the four bytes of the run id, \<open>hp_Open\<close> reads a file, and
  \<open>hp_Answers\<close> is what the daemon and the rest answer under the two time limits.
\<close>

record herder_process =
  hp_Args :: "string list"
  hp_Version :: string
  hp_Image :: string
  hp_Random :: "bytes option"
  hp_Stdin :: "string option"
  hp_Open :: "string \<Rightarrow> string option"
  hp_Answers :: "int \<Rightarrow> int \<Rightarrow> environment"

definition NewRunID :: "bytes option \<Rightarrow> string option" where
  "NewRunID random = map_option hex_encode random"

text \<open>One request document, \<^const>\<open>None\<close> if it cannot be read\<close>

definition openRequest :: "herder_process \<Rightarrow> string \<Rightarrow> string option" where
  "openRequest P path = (if path = ''-'' then hp_Stdin P else hp_Open P path)"

definition options :: "herder_process \<Rightarrow> herder_flags \<Rightarrow> string \<Rightarrow> environment" where
  "options P f runID =
     (hp_Answers P (hf_StartupTimeout f) (hf_StopTimeout f))
       \<lparr>en_Network := hf_Network f, en_InformURL := hf_InformURL f, en_Request := openRequest P (hf_Devices f),
        en_RuntimeConfigPath := hf_RuntimeConfig f,
        en_SyntheticImage := ResolveSyntheticImage (hf_SyntheticImage f) (hp_Image P), en_RunID := runID\<rparr>"

datatype usage_error =
    FlagsRefused flag_error
  | UnexpectedArgument string
  | FlagRequired string

datatype herder_result =
    VersionPrinted string
  | UsageError usage_error
  | NoRunID
  | Ran writer "live list"

definition required_flags :: "herder_flags \<Rightarrow> (string \<times> string) list" where
  "required_flags f = [(''network'', hf_Network f), (''inform-url'', hf_InformURL f), (''devices'', hf_Devices f)]"

definition herder_main :: "registry \<Rightarrow> herder_process \<Rightarrow> (herder_result \<times> int) option" where
  "herder_main reg P =
     (case parseFlags (hp_Args P) of
        Inl e \<Rightarrow> Some (UsageError (FlagsRefused e), ExitUsage)
      | Inr (f, args) \<Rightarrow>
          if hf_ShowVersion f then Some (VersionPrinted (hp_Version P), ExitOK)
          else if length args > 0 then Some (UsageError (UnexpectedArgument (hd args)), ExitUsage)
          else
            (case find (\<lambda>(name, v). v = []) (required_flags f) of
               Some (name, _) \<Rightarrow> Some (UsageError (FlagRequired name), ExitUsage)
             | None \<Rightarrow>
                 (case NewRunID (hp_Random P) of
                    None \<Rightarrow> Some (NoRunID, ExitFailure)
                  | Some runID \<Rightarrow>
                      map_option (\<lambda>(w, status, units). (Ran w units, status)) (execute reg (options P f runID)))))"

end
