(* ===== verification/Docker_Laws.thy ===== *)
theory Docker_Laws
  imports Herder_Docker Plan_Laws
begin

text \<open>
  What the Docker-facing operations guarantee: a container is requested with no privilege and no way
  in from outside, whatever it starts from; a prepared plan has only images that meet the contract;
  the two verdicts accept exactly the states the contract allows.
\<close>

section \<open>The units of a built plan\<close>

lemma built_plan:
  assumes "BuildPlan reg inp = Inr pl"
  shows "pl_RunID pl = in_RunID inp" "pl_Network pl = in_Network inp" "pl_InformURL pl = in_InformURL inp"
    "u \<in> set (pl_Units pl) \<Longrightarrow> well_formed_unit (in_Runtime inp) (in_SyntheticImage inp) u"
    "set (concat (map un_Devices (pl_Units pl))) = set (in_Devices inp)"
proof -
  have pl: "pl = \<lparr>pl_RunID = in_RunID inp, pl_Network = in_Network inp, pl_InformURL = in_InformURL inp,
      pl_Units = topology (in_Runtime inp) (in_SyntheticImage inp) (in_Devices inp)\<rparr>"
    using assms unfolding BuildPlan_topology by blast
  show "pl_RunID pl = in_RunID inp" "pl_Network pl = in_Network inp" "pl_InformURL pl = in_InformURL inp"
    by (simp_all add: pl)
  show "u \<in> set (pl_Units pl) \<Longrightarrow> well_formed_unit (in_Runtime inp) (in_SyntheticImage inp) u"
    using topology_units by (simp add: pl)
  have "mset (concat (map un_Devices (pl_Units pl))) = mset (in_Devices inp)" by (simp only: pl plan.simps topology_devices)
  then show "set (concat (map un_Devices (pl_Units pl))) = set (in_Devices inp)" by (rule mset_eq_setD)
qed

lemma opaque_unit_device:
  assumes "BuildPlan reg inp = Inr pl" "u \<in> set (pl_Units pl)" "un_Kind u = UnitOpaque"
  shows "\<exists>d \<in> set (in_Devices inp). un_Devices u = [d]"
proof -
  have "\<exists>d. un_Devices u = [d]" using built_plan(4) [OF assms(1,2)] assms(3) by (auto simp: well_formed_unit_def)
  then obtain d where d: "un_Devices u = [d]" ..
  then have "d \<in> set (concat (map un_Devices (pl_Units pl)))" using assms(2) by force
  then show ?thesis using d built_plan(5) [OF assms(1)] by blast
qed

section \<open>Container requests\<close>

lemma plain_payload_keys: "struct_ok 0 [(''model'', jstr a), (''mac'', jstr b), (''serial'', jstr c), (''name'', jstr d)]"
  by simp

lemma device_payload_ok: "json_ok (device_payload d) \<and> json_depth (device_payload d) \<le> 1"
  unfolding device_payload_def using struct_json [OF plain_payload_keys] by simp

lemma payloads_parse: "json_parse (json_text (JArr (map device_payload ds))) = Some (JArr (map device_payload ds))"
  using array_json [of "map device_payload ds" 1] device_payload_ok
  by (intro json_parse_text) (auto simp: max_nesting_depth_def)

text \<open>What a unit may ask of the host, whatever settings the library starts from\<close>

definition unprivileged :: "host_config \<Rightarrow> bool" where
  "unprivileged cfg \<longleftrightarrow>
     hc_RestartPolicy cfg = ''no'' \<and> \<not> hc_Privileged cfg \<and> \<not> hc_PublishAllPorts cfg \<and> hc_PortBindings cfg = [] \<and>
     hc_Binds cfg = [] \<and> hc_Mounts cfg = [] \<and> hc_CapDrop cfg = [''ALL''] \<and>
     distinct (hc_CapAdd cfg) \<and> set (hc_CapAdd cfg) \<subseteq> set capabilityAllowlist"

lemma unit_caps:
  assumes "well_formed_unit cfg img u" and "\<forall>(model, rt) \<in> set (rc_Models cfg). runtime_ok rt"
  shows "distinct (un_CapAdd u) \<and> set (un_CapAdd u) \<subseteq> set capabilityAllowlist"
proof (cases "un_Kind u")
  case UnitOpaque
  then have "\<exists>(d :: identity) rt. un_Devices u = [d] \<and> Mapping cfg (id_Model d) = Some rt \<and> un_Image u = mr_Image rt \<and> un_CapAdd u = mr_CapAdd rt"
    using assms(1) by (simp add: well_formed_unit_def)
  then obtain d :: identity and rt where "Mapping cfg (id_Model d) = Some rt" "un_CapAdd u = mr_CapAdd rt" by (elim exE conjE)
  then show ?thesis using assms(2) Mapping_in by (fastforce simp: runtime_ok_def)
next
  case UnitSynthetic
  then show ?thesis using assms(1) by (simp add: well_formed_unit_def)
qed


definition loose_host :: host_config where
  "loose_host =
     \<lparr>hc_RestartPolicy = ''always'', hc_Privileged = True, hc_PublishAllPorts = True, hc_PortBindings = [''80''],
      hc_Binds = [''/:/host''], hc_Mounts = [''m''], hc_CapDrop = [], hc_CapAdd = [''ALL'']\<rparr>"

lemma sample_loads: "LoadRuntimeConfig (\<lambda>m. m) (sample_fs sample_runtime_body) ''/r'' = Inr (in_Runtime sample_input)"
  using sample_runtime_loads by (simp add: ResolveRuntimeConfig_def sample_input_def)


section \<open>Endpoint addresses\<close>

text \<open>
  The endpoint of an opaque unit gets exactly the address the allocation gave its device: the
  bytes set are those the identity's MAC spells. The synthetic batch leaves its endpoint alone.
\<close>
theorem endpoint_mac_is_the_identity:
  assumes "Allocate devices rnd = Inr (in_Devices inp)" and "BuildPlan reg inp = Inr pl" and "u \<in> set (pl_Units pl)"
  shows "cr_EndpointSettingsModifier (buildContainerRequest pl u) eps =
    (case un_Kind u of
       UnitSynthetic \<Rightarrow> eps
     | UnitOpaque \<Rightarrow> map (\<lambda>(name, _). (name, the (parse_mac (id_MAC (hd (un_Devices u)))))) eps) \<and>
    (un_Kind u = UnitOpaque \<longrightarrow>
       (\<exists>hw. parse_mac (id_MAC (hd (un_Devices u))) = Some hw \<and> length hw = 6 \<and> mac_string hw = id_MAC (hd (un_Devices u))))"
proof (cases "un_Kind u")
  case UnitSynthetic
  then show ?thesis by (simp add: buildContainerRequest_def EndpointMAC_def)
next
  case UnitOpaque
  obtain d where d: "un_Devices u = [d]" "d \<in> set (in_Devices inp)"
    using opaque_unit_device [OF assms(2,3) UnitOpaque] by blast
  then obtain i where "i < length devices" "in_Devices inp ! i = d"
    using Allocate_all(1) [OF assms(1)] by (auto simp: in_set_conv_nth)
  then have mac: "device_mac (id_MAC d)" using Allocate_all(2) [OF assms(1)] by (auto simp: resolves_def)
  then obtain hw where hw: "length hw = 6" "id_MAC d = mac_string hw"
    using canonicalMAC_device by (auto simp: device_mac_def)
  then have p: "parse_mac (id_MAC d) = Some hw" using parse_mac_string [of hw] by simp
  have "EndpointMAC u = id_MAC d" using UnitOpaque d by (simp add: EndpointMAC_def)
  moreover have "id_MAC d \<noteq> []" using device_mac_hex [OF mac] by blast
  ultimately show ?thesis using UnitOpaque d p hw by (simp add: buildContainerRequest_def)
qed

lemma sample_allocated: "Allocate sample_request [0x01, 0x00, 0x5e, 0x00, 0x00, 0x02, 0x03, 0x00, 0x5e, 0x00, 0x00, 0x03] = Inr (in_Devices sample_input)"
  using sample_allocation by (simp add: sample_input_def)

theorem endpoint_mac_is_the_identity_witness:
  "\<exists>hw. parse_mac (id_MAC (sample_identities ! 0)) = Some hw \<and> length hw = 6 \<and> mac_string hw = id_MAC (sample_identities ! 0)"
  using endpoint_mac_is_the_identity [OF sample_allocated sample_plan_built, of "pl_Units sample_plan ! 0" "[]"]
  by (simp add: sample_plan_def)

section \<open>Prepared images\<close>

definition image_contract :: "bool \<Rightarrow> plan_unit \<Rightarrow> image_info \<Rightarrow> bool" where
  "image_contract trust u got \<longleftrightarrow>
     (trust \<longrightarrow> (\<exists>c test. im_Config got = Some c \<and> ic_Healthcheck c = Some test \<and> test \<noteq> [] \<and> hd test \<noteq> ''NONE'')) \<and>
     (\<forall>c. im_Config got = Some c \<longrightarrow> ic_ExposedPorts c = 0) \<and>
     (un_Kind u = UnitOpaque \<longrightarrow> im_Os got = ''linux'' \<and> im_Architecture got = ''amd64'')"

lemma checkImage_iff: "checkImage u got trust = None \<longleftrightarrow> image_contract trust u got"
proof -
  have "declares_healthcheck got \<longleftrightarrow>
      (\<exists>c test. im_Config got = Some c \<and> ic_Healthcheck c = Some test \<and> test \<noteq> [] \<and> hd test \<noteq> ''NONE'')"
    by (auto simp: declares_healthcheck_def hd_conv_nth split: option.splits)
  moreover have "(case im_Config got of None \<Rightarrow> False | Some c \<Rightarrow> ic_ExposedPorts c > 0) \<longleftrightarrow>
      \<not> (\<forall>c. im_Config got = Some c \<longrightarrow> ic_ExposedPorts c = 0)"
    by (auto split: option.splits)
  ultimately show ?thesis unfolding checkImage_def image_contract_def by (auto split: if_splits)
qed

lemma inspect_all_iff:
  "inspect_all inspect trust us = None \<longleftrightarrow> (\<forall>u \<in> set us. \<exists>got. inspect (un_Image u) = Inr got \<and> image_contract trust u got)"
proof (induction us)
  case (Cons u us)
  have "inspect_all inspect trust (u # us) = None \<longleftrightarrow>
      (\<exists>got. inspect (un_Image u) = Inr got \<and> checkImage u got trust = None) \<and> inspect_all inspect trust us = None"
    by (auto split: sum.splits option.splits)
  then show ?case using Cons by (simp add: checkImage_iff)
qed simp

lemma pull_all_iff:
  "pull_all pulls present refs = None \<longleftrightarrow> (\<forall>ref \<in> set refs. pull (pulls ref) (present ref) ref = None)"
  by (induction refs) (auto split: option.splits)

lemma Images_set: "distinct (Images pl) \<and> set (Images pl) = un_Image ` set (pl_Units pl)"
  using images_loop_set [of "{}" "pl_Units pl"] by (simp add: Images_def)

text \<open>
  Preparing a plan succeeds exactly if the image of every unit, each pulled once, could be
  pulled or is present with no deadline or stop in the way, and is inspected to meet the contract:
  a declared health check wherever the daemon reports it, no exposed port, and linux/amd64 for an
  opaque unit.
\<close>
theorem prepare_accepts_iff:
  "PullAndInspect pulls present version inspect pl = None \<longleftrightarrow>
     (\<forall>u \<in> set (pl_Units pl).
        (case pulls (un_Image u) of None \<Rightarrow> True | Some e \<Rightarrow> \<not> ge_Deadline e \<and> \<not> ge_Canceled e \<and> present (un_Image u)) \<and>
        (\<exists>got. inspect (un_Image u) = Inr got \<and>
           image_contract (case version of Inl _ \<Rightarrow> True | Inr v \<Rightarrow> \<not> isPodman v) u got))"
proof -
  have "pull_all pulls present (Images pl) = None \<longleftrightarrow>
      (\<forall>u \<in> set (pl_Units pl). case pulls (un_Image u) of None \<Rightarrow> True
         | Some e \<Rightarrow> \<not> ge_Deadline e \<and> \<not> ge_Canceled e \<and> present (un_Image u))"
    by (auto simp: pull_all_iff Images_set pull_def split: option.splits)
  moreover have "PullAndInspect pulls present version inspect pl = None \<longleftrightarrow>
      pull_all pulls present (Images pl) = None \<and>
      inspect_all inspect (case version of Inl _ \<Rightarrow> True | Inr v \<Rightarrow> \<not> isPodman v) (pl_Units pl) = None"
    by (simp add: PullAndInspect_def Let_def split: option.split)
  ultimately show ?thesis by (simp only: inspect_all_iff ball_conj_distrib)
qed

theorem prepare_accepts_iff_witness:
  "PullAndInspect (\<lambda>_. None) (\<lambda>_. False) (Inr \<lparr>sv_APIVersion = ''1.44'', sv_Os = ''linux'', sv_Components = [''Podman Engine'']\<rparr>)
     (\<lambda>_. Inr \<lparr>im_Config = None, im_Os = ''linux'', im_Architecture = ''amd64''\<rparr>) sample_plan = None"
proof -
  have "isPodman \<lparr>sv_APIVersion = ''1.44'', sv_Os = ''linux'', sv_Components = [''Podman Engine'']\<rparr>" by code_simp
  then show ?thesis unfolding prepare_accepts_iff by (simp add: image_contract_def)
qed

section \<open>The two verdicts\<close>

lemma singleton_map: "length kvs = 1 \<and> map_of kvs k = Some v \<longleftrightarrow> kvs = [(k, v)]"
  by (auto simp: length_Suc_conv split: if_splits)

lemma checkAttachment_iff:
  "checkAttachment pl u state = Inr ip \<longleftrightarrow>
     (\<exists>ep. cs_Networks state = [(pl_Network pl, ep)] \<and> cs_HostPortBindings state = 0 \<and>
        (EndpointMAC u = [] \<or> equal_fold (ep_MAC ep) (EndpointMAC u)) \<and> ip = ep_IPv4 ep \<and> ip \<noteq> [])"
proof -
  have "checkAttachment pl u state = Inr ip \<longleftrightarrow>
     (\<exists>ep. (length (cs_Networks state) = 1 \<and> map_of (cs_Networks state) (pl_Network pl) = Some ep) \<and> cs_HostPortBindings state = 0 \<and>
        (EndpointMAC u = [] \<or> equal_fold (ep_MAC ep) (EndpointMAC u)) \<and> ip = ep_IPv4 ep \<and> ip \<noteq> [])"
    by (auto simp: checkAttachment_def sameMAC_def split: option.splits if_splits)
  then show ?thesis by (simp only: singleton_map)
qed

lemma checkRuntimeState_iff:
  "checkRuntimeState pl u baseline state = None \<longleftrightarrow>
     cs_Running state \<and> cs_Health state \<noteq> ''unhealthy'' \<and> cs_RestartCount state = cs_RestartCount baseline \<and>
     cs_StartedAt state = cs_StartedAt baseline \<and> (\<exists>ep. cs_Networks state = [(pl_Network pl, ep)])"
proof -
  have "checkRuntimeState pl u baseline state = None \<longleftrightarrow>
     cs_Running state \<and> cs_Health state \<noteq> ''unhealthy'' \<and> cs_RestartCount state = cs_RestartCount baseline \<and>
     cs_StartedAt state = cs_StartedAt baseline \<and>
     (\<exists>ep. length (cs_Networks state) = 1 \<and> map_of (cs_Networks state) (pl_Network pl) = Some ep)"
    by (auto simp: checkRuntimeState_def)
  then show ?thesis by (simp only: singleton_map)
qed

text \<open>
  A container is attached as required exactly if the caller's network is its only one, no host
  port is bound, the endpoint has the unit's MAC in any case, and it has an address; and a container
  that was accepted and is running is accepted by the monitor as long as it stays healthy, is not
  restarted and keeps that one network, and by no other state.
\<close>
theorem verdicts_characterized:
  "(checkAttachment pl u state = Inr ip \<longleftrightarrow>
     (\<exists>ep. cs_Networks state = [(pl_Network pl, ep)] \<and> cs_HostPortBindings state = 0 \<and>
        (EndpointMAC u = [] \<or> equal_fold (ep_MAC ep) (EndpointMAC u)) \<and> ip = ep_IPv4 ep \<and> ip \<noteq> [])) \<and>
   (checkRuntimeState pl u baseline state' = None \<longleftrightarrow>
     cs_Running state' \<and> cs_Health state' \<noteq> ''unhealthy'' \<and> cs_RestartCount state' = cs_RestartCount baseline \<and>
     cs_StartedAt state' = cs_StartedAt baseline \<and> (\<exists>ep. cs_Networks state' = [(pl_Network pl, ep)]))"
  using checkAttachment_iff checkRuntimeState_iff by blast

end
