(* ===== verification/Run_Laws.thy ===== *)
theory Run_Laws
  imports Herder_Run Docker_Laws
begin

text \<open>
  What a herder run guarantees: exactly one terminal event under a backend that keeps to the failure
  matrix, but for a caller's deadline while the fleet is monitored, exit status 0 only for a clean stop
  that left nothing behind, every container that came up terminated, the ready event true to the plan,
  and Docker given up only after three failing passes in a row. Also two paths on which the run does
  not do what it promises.
\<close>

section \<open>Failures within the matrix\<close>

definition allowed :: "failure \<Rightarrow> bool" where
  "allowed f \<longleftrightarrow> AllowsPhase (fl_Code f) (fl_Phase f)"

definition allowed_error :: "go_error \<Rightarrow> bool" where
  "allowed_error e \<longleftrightarrow> (\<forall>f. ge_Failure e = Some f \<longrightarrow> allowed f)"

definition allowed_run :: "run_error \<Rightarrow> bool" where
  "allowed_run r \<longleftrightarrow> (\<forall>f. r = RunFailure f \<longrightarrow> allowed f)"

named_theorems matrix

lemma allowed_run_simps [simp]: "allowed_run ErrStopped" "allowed_run (RunFailure f) \<longleftrightarrow> allowed f"
  by (simp_all add: allowed_run_def)

lemma allowed_failf [simp]: "allowed (failf c p d) \<longleftrightarrow> AllowsPhase c p"
  by (simp add: allowed_def failf_def)

lemma AllowsPhase_cases [matrix]:
  "AllowsPhase CodeStartupTimeout ph \<longleftrightarrow> ph \<notin> {PhaseRuntime, PhaseCleanup}"
  "AllowsPhase CodeDockerUnavailable ph \<longleftrightarrow> ph \<noteq> PhaseCleanup"
  "AllowsPhase CodeInvalidRequest PhaseValidate" "AllowsPhase CodeNetworkNotFound PhaseValidate"
  "AllowsPhase CodeInvalidRuntimeConfig PhaseValidate" "AllowsPhase CodeInformURLInvalid PhaseValidate"
  "AllowsPhase CodeSyntheticModelUnknown PhaseValidate" "AllowsPhase CodeSyntheticImageRequired PhaseValidate"
  "AllowsPhase CodeCapabilityUnsupported PhaseValidate" "AllowsPhase CodeDockerVersionUnsupported PhaseValidate"
  "AllowsPhase CodeReaperDisabled PhaseValidate"
  "AllowsPhase CodeImagePullFailed PhasePull" "AllowsPhase CodeImageInvalid PhasePull"
  "AllowsPhase CodeContainerStartFailed PhaseStart" "AllowsPhase CodeEndpointMACMismatch PhaseStart"
  "AllowsPhase CodeDeviceUnhealthy PhaseHealth" "AllowsPhase CodeDeviceUnhealthy PhaseRuntime"
  "AllowsPhase CodeDeviceExited PhaseRuntime" "AllowsPhase CodeDeviceRestarted PhaseRuntime"
  "AllowsPhase CodeNetworkDetached PhaseRuntime" "AllowsPhase CodeCleanupFailed PhaseCleanup"
  by (cases ph; simp add: AllowsPhase_def; fail) (cases ph; simp add: AllowsPhase_def; fail | simp add: AllowsPhase_def)+

lemma classify_allowed:
  assumes "allowed_error e" "AllowsPhase fallback ph" "ctx = Some DeadlineExceeded \<Longrightarrow> AllowsPhase CodeStartupTimeout ph"
  shows "allowed_run (classify ctx e fallback ph)"
  using assms by (auto simp: classify_def asFailure_def allowed_error_def split: option.splits if_splits)

lemma withDevices_allowed [simp]: "allowed_run (withDevices r u) \<longleftrightarrow> allowed_run r"
  by (cases r) (simp_all add: withDevices_def allowed_def)

lemma classifyUnit_allowed:
  "allowed_error e \<Longrightarrow> AllowsPhase fallback ph \<Longrightarrow> AllowsPhase CodeStartupTimeout ph \<Longrightarrow>
     allowed_run (classifyUnit ctx e fallback ph u)"
  unfolding classifyUnit_def withDevices_allowed by (rule classify_allowed)

lemma ctx_error_allowed [simp]: "allowed_error (ctx_as_error c)"
  by (simp add: allowed_error_def ctx_as_error_def)

definition allowed_answer :: "run_error + 'a \<Rightarrow> bool" where
  "allowed_answer r \<longleftrightarrow> (\<forall>e. r = Inl e \<longrightarrow> allowed_run e)"

lemma allowed_answer_simps [simp]: "allowed_answer (Inr x)" "allowed_answer (Inl e) \<longleftrightarrow> allowed_run e"
  by (simp_all add: allowed_answer_def)

lemma allowed_answer_rbind:
  "allowed_answer r \<Longrightarrow> (\<And>x. r = Inr x \<Longrightarrow> allowed_answer (g x)) \<Longrightarrow> allowed_answer (rbind r g)"
  by (cases r) simp_all

definition allowed_check :: "check \<Rightarrow> bool" where
  "allowed_check a \<longleftrightarrow> (\<forall>e. snd a = Some e \<longrightarrow> allowed_error e)"

lemma check_answer_allowed:
  "allowed_check a \<Longrightarrow> AllowsPhase fallback ph \<Longrightarrow> AllowsPhase CodeStartupTimeout ph \<Longrightarrow> allowed_answer (check_answer a fallback ph)"
  by (cases a) (auto simp: check_answer_def allowed_check_def intro: classify_allowed split: option.splits)

lemma check_ctx_allowed: "AllowsPhase CodeStartupTimeout ph \<Longrightarrow> allowed_answer (check_ctx ctx ph)"
  by (auto simp: check_ctx_def intro: classify_allowed split: option.splits)

lemma own_allowed: "(\<And>f. r = Inl f \<Longrightarrow> allowed f) \<Longrightarrow> allowed_answer (own r)"
  by (cases r) (simp_all add: own_def)

lemma own_check_allowed: "(\<And>f. r = Some f \<Longrightarrow> allowed f) \<Longrightarrow> allowed_answer (own_check r)"
  by (cases r) (simp_all add: own_check_def)

section \<open>The checks of the package itself\<close>

lemma bad_request_allowed: "bad_request r \<Longrightarrow> r = Inl f \<Longrightarrow> allowed f"
  by (auto simp: bad_request_def allowed_def matrix)

lemma bad_runtime_allowed [simp]: "allowed (bad_runtime d)"
  by (simp add: bad_runtime_def matrix)

lemma bad_url_allowed [simp]: "allowed (bad_url d)"
  by (simp add: bad_url_def matrix)

lemma check_image_allowed: "checkImageDigest m i = Some f \<Longrightarrow> allowed f"
  by (auto simp: checkImageDigest_def split: prod.splits if_splits option.splits)

lemma check_caps_allowed: "check_caps m seen cs = Some f \<Longrightarrow> allowed f"
  by (induction cs arbitrary: seen) (auto split: if_splits)

lemma check_model_allowed: "check_model e = Some f \<Longrightarrow> allowed f"
  by (cases e) (auto simp: check_model_def checkCapabilities_def split: option.splits
      dest: check_image_allowed check_caps_allowed)

lemma check_models_allowed: "check_models es = Some f \<Longrightarrow> allowed f"
  by (induction es) (auto split: option.splits dest: check_model_allowed)

lemma decode_runtime_allowed: "decodeRuntimeConfig rng body = Inl f \<Longrightarrow> allowed f"
  by (auto simp: decodeRuntimeConfig_def split: option.splits sum.splits if_splits dest: check_models_allowed)

lemma load_runtime_allowed: "LoadRuntimeConfig rng fs path = Inl f \<Longrightarrow> allowed f"
  by (auto simp: LoadRuntimeConfig_def checkOwner_def split: option.splits sum.splits if_splits dest: decode_runtime_allowed)

lemma resolve_runtime_allowed: "ResolveRuntimeConfig rng fs path getenv = Inl f \<Longrightarrow> allowed f"
  by (auto simp: ResolveRuntimeConfig_def split: sum.splits if_splits stat_error.splits dest: load_runtime_allowed)

lemma check_host_port_allowed: "check_host_port h p = Some f \<Longrightarrow> allowed f"
  by (auto simp: check_host_port_def split: option.splits if_splits)

lemma inform_url_allowed: "CheckInformURL raw = Some f \<Longrightarrow> allowed f"
  by (auto simp: CheckInformURL_def split: option.splits if_splits prod.splits dest: check_host_port_allowed)

lemma check_profiles_allowed: "check_profiles reg ds = Some f \<Longrightarrow> allowed f"
  by (induction ds) (auto simp: matrix split: option.splits)

lemma build_plan_allowed: "BuildPlan reg inp = Inl f \<Longrightarrow> allowed f"
  by (auto simp: BuildPlan_def Let_def matrix split: option.splits if_splits dest: check_profiles_allowed)

lemma attachment_allowed: "checkAttachment pl u s = Inl f \<Longrightarrow> allowed f"
  by (auto simp: checkAttachment_def start_failure_def matrix split: option.splits if_splits)

lemma runtime_state_allowed: "checkRuntimeState pl u b s = Some f \<Longrightarrow> allowed f"
  by (auto simp: checkRuntimeState_def runtime_failure_def matrix split: if_splits)

section \<open>An environment that keeps to the matrix\<close>

text \<open>Whatever failure an answer carries is one its phase allows.\<close>

definition turn_ok :: "turn \<Rightarrow> bool" where
  "turn_ok tn \<longleftrightarrow> (\<forall>i e. snd (tn_Inspect tn i) = Inl e \<longrightarrow> allowed_error e)"

definition honest :: "environment \<Rightarrow> bool" where
  "honest en \<longleftrightarrow>
     allowed_check (en_NewBackend en) \<and> (\<forall>f. en_CheckReaper en = Some f \<longrightarrow> allowed f) \<and>
     allowed_check (en_CheckDaemon en) \<and> allowed_check (en_CheckNetwork en) \<and>
     (\<forall>pl. allowed_check (en_CheckCapabilities en pl) \<and> allowed_check (en_Prepare en pl)) \<and>
     (\<forall>u. allowed_check (snd (en_Launch en u))) \<and> (\<forall>i. allowed_check (en_WaitHealthy en i)) \<and>
     (\<forall>i e. snd (en_InspectStart en i) = Inl e \<longrightarrow> allowed_error e) \<and>
     list_all turn_ok (en_Turns en)"

lemma connect_allowed: "honest en \<Longrightarrow> allowed_answer (connect en)"
  by (auto simp: connect_def honest_def matrix intro: check_answer_allowed)

lemma validate_plan_allowed:
  assumes "honest en"
  shows "allowed_answer (validate_plan reg en)"
  unfolding validate_plan_def
proof (intro allowed_answer_rbind)
  show "allowed_answer (own (read_request en))"
    using bad_request_allowed [OF bad_decode]
    by (intro own_allowed) (auto simp: read_request_def request_failure_def matrix split: option.splits)
  show "allowed_answer (own (ResolveRuntimeConfig (en_Range en) (en_Files en) (en_RuntimeConfigPath en) (en_Getenv en)))"
    by (intro own_allowed) (rule resolve_runtime_allowed)
  fix req
  show "allowed_answer (own (Allocate (req_Devices req) (en_Rand en)))"
    using bad_request_allowed [OF bad_allocate] by (intro own_allowed) blast
  show "allowed_answer (own_check (CheckInformURL (en_InformURL en)))"
    by (intro own_check_allowed) (rule inform_url_allowed)
  show "allowed_answer (own_check (en_CheckReaper en))"
    using assms by (intro own_check_allowed) (simp add: honest_def)
  show "allowed_answer (check_answer (en_CheckDaemon en) CodeDockerUnavailable PhaseValidate)"
    "allowed_answer (check_answer (en_CheckNetwork en) CodeNetworkNotFound PhaseValidate)"
    using assms by (auto simp: honest_def matrix intro: check_answer_allowed)
  fix inp
  show "allowed_answer (own (BuildPlan reg inp))"
    by (intro own_allowed) (rule build_plan_allowed)
qed

lemma validate_allowed:
  assumes "honest en"
  shows "allowed_answer (validate reg en)"
  unfolding validate_def
  using assms
  by (intro allowed_answer_rbind connect_allowed validate_plan_allowed check_answer_allowed check_ctx_allowed)
    (auto simp: honest_def matrix)

lemma first_launch_allowed: "honest en \<Longrightarrow> first_launch_error en us = Some e \<Longrightarrow> allowed_run e"
proof (induction us)
  case (Cons u us)
  obtain i ctx r where l: "en_Launch en u = (i, ctx, r)" by (cases "en_Launch en u") auto
  then have "allowed_check (ctx, r)" using Cons.prems(1) unfolding honest_def by (metis snd_conv)
  then show ?case
    using Cons l by (cases r) (auto simp: classifyUnit_allowed allowed_check_def matrix)
qed simp

lemma first_health_allowed: "honest en \<Longrightarrow> first_health_error en lus = Some e \<Longrightarrow> allowed_run e"
proof (induction lus)
  case (Cons lu lus)
  obtain ctx r where l: "en_WaitHealthy en (lv_Instance lu) = (ctx, r)" by (cases "en_WaitHealthy en (lv_Instance lu)")
  then have "allowed_check (ctx, r)" using Cons.prems(1) unfolding honest_def by metis
  then show ?case
    using Cons l by (cases r) (auto simp: classifyUnit_allowed allowed_check_def matrix)
qed simp

lemma inspect_start_allowed: "honest en \<Longrightarrow> inspect_start en pl lus = (lus', Some e) \<Longrightarrow> allowed_run e"
proof (induction lus arbitrary: lus')
  case (Cons lu lus)
  obtain ctx r where l: "en_InspectStart en (lv_Instance lu) = (ctx, r)" by (cases "en_InspectStart en (lv_Instance lu)")
  show ?case
  proof (cases r)
    case (Inl g)
    then have "allowed_error g" using Cons.prems(1) l unfolding honest_def by (metis snd_conv)
    then show ?thesis using Cons.prems l Inl by (auto simp: classifyUnit_allowed matrix)
  next
    case (Inr s)
    then show ?thesis
      using Cons l by (auto split: sum.splits prod.splits dest: attachment_allowed)
  qed
qed simp

lemma start_allowed: "honest en \<Longrightarrow> start en pl = (units, Some e) \<Longrightarrow> allowed_run e"
  by (auto simp: start_def Let_def left_def allowed_answer_def matrix split: option.splits sum.splits prod.splits
      dest: first_launch_allowed first_health_allowed inspect_start_allowed
        check_ctx_allowed [unfolded allowed_answer_def, rule_format, rotated])

section \<open>One terminal event\<close>

lemma ExitStatus_one [simp]: "ExitStatus c = 1"
  by (cases c) (simp_all add: ExitStatus_def)

text \<open>
  The startup deadline does not reach the monitor, so a deadline seen there is one the caller's context
  came with.
\<close>

definition deadline_in :: "turn \<Rightarrow> bool" where
  "deadline_in tn \<longleftrightarrow> tn_Head tn = Some DeadlineExceeded \<or> tn_Select tn = Some DeadlineExceeded \<or>
     (\<exists>i. fst (tn_Inspect tn i) = Some DeadlineExceeded)"

definition timed_out :: "run_error \<Rightarrow> bool" where
  "timed_out r \<longleftrightarrow> (\<exists>f. r = RunFailure f \<and> fl_Code f = CodeStartupTimeout \<and> fl_Phase f = PhaseRuntime)"

lemma withDevices_timed_out [simp]: "timed_out (withDevices r u) \<longleftrightarrow> timed_out r"
  by (cases r) (simp_all add: withDevices_def timed_out_def)

lemma classify_outcome:
  assumes "allowed_error e"
  shows "allowed_run (classify ctx e CodeDockerUnavailable PhaseRuntime) \<or>
    ctx = Some DeadlineExceeded \<and> timed_out (classify ctx e CodeDockerUnavailable PhaseRuntime)"
proof (cases "ctx = Some DeadlineExceeded \<and> error_is e DeadlineExceeded")
  case True
  then show ?thesis by (simp add: classify_def timed_out_def failf_def)
next
  case False
  then show ?thesis
    using assms by (auto simp: classify_def asFailure_def allowed_error_def matrix split: option.splits if_splits)
qed

lemma monitor_pass_outcome:
  "turn_ok tn \<Longrightarrow> monitor_pass pl tn lus n = Inl e \<Longrightarrow> allowed_run e \<or> deadline_in tn \<and> timed_out e"
proof (induction lus)
  case (Cons lu lus)
  obtain ctx r where l: "tn_Inspect tn (lv_Instance lu) = (ctx, r)" by (cases "tn_Inspect tn (lv_Instance lu)")
  show ?case
  proof (cases r)
    case (Inl g)
    then have "allowed_error g" using Cons.prems(1) l unfolding turn_ok_def by (metis snd_conv)
    moreover have "e = classifyUnit ctx g CodeDockerUnavailable PhaseRuntime (lv_Unit lu)"
      using Cons.prems(2) l Inl by (simp split: if_splits)
    moreover have "ctx = Some DeadlineExceeded \<Longrightarrow> deadline_in tn" using l unfolding deadline_in_def by (metis fst_conv)
    ultimately show ?thesis using classify_outcome [of g ctx] by (auto simp: classifyUnit_def)
  next
    case (Inr s)
    then show ?thesis using Cons l by (auto split: option.splits dest: runtime_state_allowed)
  qed
qed simp

lemma monitor_turn_outcome:
  assumes "turn_ok tn" and "monitor_turn pl units tn n = Inl e"
  shows "allowed_run e \<or> deadline_in tn \<and> timed_out e"
proof (cases "tn_Head tn")
  case (Some c)
  then show ?thesis using assms(2) classify_outcome [OF ctx_error_allowed, of "Some c" c] by (auto simp: monitor_turn_def deadline_in_def)
next
  case head: None
  show ?thesis
  proof (cases "tn_Select tn")
    case (Some c)
    then show ?thesis
      using head assms(2) classify_outcome [OF ctx_error_allowed, of "Some c" c] by (auto simp: monitor_turn_def deadline_in_def)
  next
    case None
    then show ?thesis
      using head assms(2) monitor_pass_outcome [OF assms(1)] by (auto simp: monitor_turn_def rbind_Inl_iff)
  qed
qed

lemma monitor_outcome:
  "list_all turn_ok tns \<Longrightarrow> monitor pl units n tns = Some e \<Longrightarrow> allowed_run e \<or> list_ex deadline_in tns \<and> timed_out e"
  by (induction tns arbitrary: n) (auto split: sum.splits dest: monitor_turn_outcome)

definition open_stream :: "writer \<Rightarrow> bool" where
  "open_stream w \<longleftrightarrow> w_started w \<and> \<not> w_terminal w \<and> \<not> w_broken w"

lemma Failed_writes:
  "open_stream w \<Longrightarrow> AllowsPhase (ev_Code ev) (ev_Phase ev) \<Longrightarrow>
     map fst (w_lines (fst (Failed True ev w))) = map fst (w_lines w) @ [KFailed]"
  by (simp add: writer_defs open_stream_def)

lemma Stopped_writes:
  "open_stream w \<Longrightarrow> \<exists>w'. Stopped True runID reason w = (w', None) \<and> map fst (w_lines w') = map fst (w_lines w) @ [KStopped]"
  by (simp add: writer_defs open_stream_def)

definition ends_with :: "writer \<Rightarrow> writer \<Rightarrow> int \<Rightarrow> bool" where
  "ends_with w w' status \<longleftrightarrow>
     map fst (w_lines w') = map fst (w_lines w) @ [KStopped] \<and> status = 0 \<or>
     map fst (w_lines w') = map fst (w_lines w) @ [KFailed] \<and> status = 1"

lemma finish_ends:
  assumes "open_stream w" "en_TerminalOk en" "allowed_run cause" "finish en units cause w = (w', status)"
  shows "ends_with w w' status"
proof -
  obtain gone lost where c: "cleanup en units = (gone, lost)" by (cases "cleanup en units")
  show ?thesis
  proof (cases gone)
    case False
    then have "ends_with w (fst (finish en units cause w)) (snd (finish en units cause w))"
      using assms(1,2) c by (simp add: finish_def Let_def ends_with_def ExitFailure_def Failed_writes matrix)
    then show ?thesis using assms(4) by simp
  next
    case gone: True
    show ?thesis
    proof (cases cause)
      case ErrStopped
      obtain w2 where "Stopped True (en_RunID en) (stopReason en) w = (w2, None)" "map fst (w_lines w2) = map fst (w_lines w) @ [KStopped]"
        using Stopped_writes [OF assms(1)] by blast
      then show ?thesis
        using assms(2,4) c gone ErrStopped by (simp add: finish_def failure_of_def ends_with_def ExitOK_def)
    next
      case (RunFailure f)
      then have "ends_with w (fst (finish en units cause w)) (snd (finish en units cause w))"
        using assms(1,2,3) c gone by (simp add: finish_def failure_of_def ends_with_def Failed_writes allowed_def)
      then show ?thesis using assms(4) by simp
    qed
  qed
qed

text \<open>The pair is refused by the writer, so the stream ends without a terminal event unless the cleanup fails.\<close>

lemma Failed_refused: "\<not> AllowsPhase (ev_Code ev) (ev_Phase ev) \<Longrightarrow> fst (Failed ok ev w) = w"
  by (simp add: Failed_def split: option.splits)

lemma finish_timed_out:
  assumes "open_stream w" "en_TerminalOk en" "timed_out cause" "finish en units cause w = (w', status)"
  shows "status = 1 \<and> (map fst (w_lines w') = map fst (w_lines w) \<or> map fst (w_lines w') = map fst (w_lines w) @ [KFailed])"
proof -
  obtain f where f: "cause = RunFailure f" "fl_Code f = CodeStartupTimeout" "fl_Phase f = PhaseRuntime"
    using assms(3) by (auto simp: timed_out_def)
  obtain gone lost where c: "cleanup en units = (gone, lost)" by (cases "cleanup en units")
  have "status = snd (finish en units cause w)" "w' = fst (finish en units cause w)" using assms(4) by simp_all
  then show ?thesis
    using assms(1,2) f c
    by (cases gone) (simp_all add: finish_def Let_def failure_of_def ExitFailure_def Failed_writes Failed_refused matrix)
qed

lemma Started_open: "Started True runID NewWriter = (w, r) \<Longrightarrow> r = None \<and> open_stream w \<and> map fst (w_lines w) = [KStarted] \<and> \<not> w_ready w"
  by (auto simp: writer_defs NewWriter_def open_stream_def)

lemma Ready_open:
  "open_stream w \<Longrightarrow> \<not> w_ready w \<Longrightarrow> Ready True runID ds w = (w', r) \<Longrightarrow>
     r = None \<and> open_stream w' \<and> map fst (w_lines w') = map fst (w_lines w) @ [KReady]"
  by (auto simp: writer_defs open_stream_def)

text \<open>
  C31: how a run's control stream ends. If stdout holds and every failure the backend reports is a pair of
  the matrix, a run that ends ends with exactly one terminal event, whatever went wrong and wherever:
  its stream is \<^verbatim>\<open>started\<close>, at most one \<^verbatim>\<open>ready\<close>, then \<^verbatim>\<open>stopped\<close> with exit status 0 or \<^verbatim>\<open>failed\<close>
  with exit status 1. There is one exception: when the caller's context came with a deadline that
  expires while the ready fleet is monitored, the stream may end after \<^verbatim>\<open>ready\<close>, with exit status 1.
\<close>
theorem run_ends_with_one_terminal_event:
  assumes "honest en" and "en_StartedOk en" "en_ReadyOk en" "en_TerminalOk en"
    and "execute reg en = Some (w, status, units)"
  shows "(map fst (w_lines w), status) \<in>
      {([KStarted, KStopped], 0), ([KStarted, KFailed], 1), ([KStarted, KReady, KStopped], 0), ([KStarted, KReady, KFailed], 1)} \<or>
    list_ex deadline_in (en_Turns en) \<and> (map fst (w_lines w), status) = ([KStarted, KReady], 1)"
proof -
  obtain w0 r0 where s0: "Started True (en_RunID en) NewWriter = (w0, r0)"
    by (cases "Started True (en_RunID en) NewWriter")
  note w0 = Started_open [OF s0]
  show ?thesis
  proof (cases "validate reg en")
    case (Inl err)
    then have "allowed_run err" using validate_allowed [OF assms(1)] by (metis allowed_answer_simps(2))
    moreover have "finish en [] err w0 = (w, status)"
      using assms(2,5) s0 w0 Inl by (simp add: execute_def split: prod.splits)
    ultimately have "ends_with w0 w status" using w0 assms(4) finish_ends by blast
    then show ?thesis using w0 by (auto simp: ends_with_def)
  next
    case (Inr pl)
    obtain us e where st: "start en pl = (us, e)" by (cases "start en pl")
    show ?thesis
    proof (cases e)
      case (Some err)
      then have "allowed_run err" using start_allowed [OF assms(1)] st by blast
      moreover have "finish en us err w0 = (w, status)"
        using assms(2,5) s0 w0 Inr st Some by (simp add: execute_def split: prod.splits)
      ultimately have "ends_with w0 w status" using w0 assms(4) finish_ends by blast
      then show ?thesis using w0 by (auto simp: ends_with_def)
    next
      case None
      obtain w1 r1 where s1: "Ready True (en_RunID en) (readyDevices us) w0 = (w1, r1)"
        by (cases "Ready True (en_RunID en) (readyDevices us) w0")
      have w1: "r1 = None" "open_stream w1" "map fst (w_lines w1) = map fst (w_lines w0) @ [KReady]"
        using Ready_open [OF _ _ s1] w0 by blast+
      obtain err where m: "monitor pl us 0 (en_Turns en) = Some err" and f: "finish en us err w1 = (w, status)"
        using assms(2,3,5) s0 w0 Inr st None s1 w1(1) by (auto simp: execute_def split: prod.splits option.splits)
      have "allowed_run err \<or> list_ex deadline_in (en_Turns en) \<and> timed_out err"
        using monitor_outcome [OF _ m] assms(1) by (simp add: honest_def)
      then show ?thesis
      proof (elim disjE conjE)
        assume "allowed_run err"
        then have "ends_with w1 w status" using w1(2) f assms(4) finish_ends by blast
        then show ?thesis using w0 w1(3) by (auto simp: ends_with_def)
      next
        assume d: "list_ex deadline_in (en_Turns en)" "timed_out err"
        then show ?thesis using finish_timed_out [OF w1(2) assms(4) _ f] w0 w1(3) by auto
      qed
    qed
  qed
qed

section \<open>A sample run\<close>

definition quiet :: "'a \<Rightarrow> check" where
  "quiet x = (None, None)"

definition up_state :: container_state where
  "up_state = \<lparr>cs_Running = True, cs_Health = ''healthy'', cs_ExitCode = 0, cs_RestartCount = 0, cs_StartedAt = ''t0'',
     cs_Networks = [(''net'', \<lparr>ep_IPv4 = ''10.0.0.9'', ep_MAC = []\<rparr>)], cs_HostPortBindings = 0\<rparr>"

definition sample_turn :: "ctx \<Rightarrow> turn" where
  "sample_turn c = \<lparr>tn_Head = c, tn_Select = None, tn_Inspect = (\<lambda>_. (None, Inr up_state))\<rparr>"

definition sample_env :: "turn list \<Rightarrow> environment" where
  "sample_env turns =
     \<lparr>en_Network = ''net'', en_InformURL = ''http://10.0.0.2:80/inform'', en_Request = Some sample_body,
      en_RuntimeConfigPath = [], en_SyntheticImage = ''i'', en_RunID = ''r'', en_Getenv = (\<lambda>_. []),
      en_Files = sample_fs [], en_Range = (\<lambda>m. m), en_Rand = [2, 0, 0, 0, 0, 1], en_HasBackend = True,
      en_NewBackend = quiet (), en_CheckReaper = None, en_CheckDaemon = quiet (), en_CheckNetwork = quiet (),
      en_CheckCapabilities = quiet, en_Prepare = quiet, en_Prepared = None,
      en_Launch = (\<lambda>u. (Some ''c1'', quiet u)), en_Launched = None, en_WaitHealthy = quiet, en_Healthy = None,
      en_InspectStart = (\<lambda>_. (None, Inr up_state)), en_StartDone = None, en_Turns = turns,
      en_Terminate = (\<lambda>_. None), en_Remaining = Inr 0, en_StartedOk = True, en_ReadyOk = True, en_TerminalOk = True,
      en_Signaled = True\<rparr>"

definition sample_models :: registry where
  "sample_models = (\<lambda>m. if m = ''U'' then Some zero_profile else None)"

definition outcome :: "(writer \<times> int \<times> live list) option \<Rightarrow> (event_kind list \<times> int \<times> container list) option" where
  "outcome r = map_option (\<lambda>(w, status, units). (map fst (w_lines w), status, map lv_Instance units)) r"

definition sample_device :: identity where
  "sample_device = \<lparr>id_Index = 0, id_Model = ''U'', id_MAC = ''02:00:00:00:00:01'', id_Serial = ''EMU020000000001'',
     id_Name = ''emu-u-020000000001''\<rparr>"

definition one_plan :: plan where
  "one_plan = \<lparr>pl_RunID = ''r'', pl_Network = ''net'', pl_InformURL = ''http://10.0.0.2:80/inform'',
     pl_Units = [synthetic_unit ''i'' [sample_device]]\<rparr>"

definition one_live :: live where
  "one_live = \<lparr>lv_Unit = synthetic_unit ''i'' [sample_device], lv_Instance = ''c1'', lv_Baseline = up_state, lv_IP = ''10.0.0.9''\<rparr>"

lemma sample_decodes: "DecodeRequest sample_body = Inr \<lparr>req_Version = 1, req_Devices = [\<lparr>rq_Model = ''U'', rq_MAC = [], rq_Serial = [], rq_Name = []\<rparr>]\<rparr>"
  by code_simp

lemma sample_allocates: "Allocate [\<lparr>rq_Model = ''U'', rq_MAC = [], rq_Serial = [], rq_Name = []\<rparr>] [2, 0, 0, 0, 0, 1] = Inr [sample_device]"
  by code_simp

lemma sample_url: "CheckInformURL ''http://10.0.0.2:80/inform'' = None"
  by code_simp

lemma sample_plans: "BuildPlan sample_models
    \<lparr>in_RunID = ''r'', in_Network = ''net'', in_InformURL = ''http://10.0.0.2:80/inform'', in_Devices = [sample_device],
     in_Runtime = \<lparr>rc_Version = 0, rc_Models = []\<rparr>, in_SyntheticImage = ''i''\<rparr> = Inr one_plan"
  by code_simp

lemma sample_no_config: "ResolveRuntimeConfig (\<lambda>m. m) (sample_fs []) [] (\<lambda>_. []) = Inr \<lparr>rc_Version = 0, rc_Models = []\<rparr>"
  by code_simp

lemma sample_validates: "validate sample_models (sample_env turns) = Inr one_plan"
  unfolding validate_def validate_plan_def connect_def read_request_def
  by (simp add: sample_env_def quiet_def check_answer_def check_ctx_def own_def own_check_def
      sample_decodes sample_allocates sample_url sample_plans sample_no_config)

lemma sample_starts: "start (sample_env turns) one_plan = ([one_live], None)"
proof -
  have "launched (sample_env turns) (pl_Units one_plan) = [new_live (synthetic_unit ''i'' [sample_device]) ''c1'']"
    by (simp add: launched_def sample_env_def one_plan_def List.map_filter_simps)
  moreover have "checkAttachment one_plan (synthetic_unit ''i'' [sample_device]) up_state = Inr ''10.0.0.9''" by code_simp
  ultimately show ?thesis
    by (simp add: start_def Let_def left_def check_ctx_def one_plan_def sample_env_def quiet_def new_live_def one_live_def)
qed

text \<open>A sample run up to its monitor: ready, then whatever ends it, with nothing left behind\<close>

lemma sample_run_from_ready:
  assumes "monitor one_plan [one_live] 0 turns = Some err"
  shows "outcome (execute sample_models (sample_env turns)) =
    (let w = fst (Ready True ''r'' (readyDevices [one_live]) (fst (Started True ''r'' NewWriter))) in
     case finish (sample_env turns) [one_live] err w of (w, status) \<Rightarrow> Some (map fst (w_lines w), status, [''c1'']))"
proof -
  have "en_Turns (sample_env turns) = turns" "en_StartedOk (sample_env turns)" "en_ReadyOk (sample_env turns)" "en_RunID (sample_env turns) = ''r''"
    by (simp_all add: sample_env_def)
  moreover obtain w0 where w0: "Started True ''r'' NewWriter = (w0, None)" "open_stream w0" "\<not> w_ready w0"
    using Started_open [of "''r''"] by (metis prod.exhaust)
  moreover obtain w1 where "Ready True ''r'' (readyDevices [one_live]) w0 = (w1, None)"
    using Ready_open [OF w0(2,3), of "''r''" "readyDevices [one_live]"] by (metis prod.exhaust)
  ultimately show ?thesis
    using assms by (simp add: execute_def sample_validates sample_starts outcome_def one_live_def split: prod.split)
qed

lemma sample_cleanup: "cleanup (sample_env turns) units = (True, False)"
  by (simp add: cleanup_def has_backend_def connect_def sample_env_def list_all_iff)

lemma sample_fields: "en_TerminalOk (sample_env turns)" "en_RunID (sample_env turns) = ''r''" "stopReason (sample_env turns) = ''signal''"
  by (simp_all add: sample_env_def stopReason_def)

lemma sample_run: "outcome (execute sample_models (sample_env [sample_turn None, sample_turn (Some Canceled)])) =
    Some ([KStarted, KReady, KStopped], 0, [''c1''])"
proof -
  have pass: "checkRuntimeState one_plan (synthetic_unit ''i'' [sample_device]) up_state up_state = None" by code_simp
  have "monitor one_plan [one_live] 0 [sample_turn None, sample_turn (Some Canceled)] = Some ErrStopped"
    by (simp add: monitor_turn_def sample_turn_def one_live_def pass classify_def error_is_def ctx_as_error_def)
  note run = sample_run_from_ready [OF this]
  show ?thesis
    unfolding run by (simp add: Let_def finish_def sample_cleanup failure_of_def ExitOK_def writer_defs NewWriter_def sample_fields)
qed

lemma outcome_Some:
  "outcome r = Some (ks, status, cs) \<Longrightarrow> \<exists>w units. r = Some (w, status, units) \<and> map fst (w_lines w) = ks \<and> map lv_Instance units = cs"
  by (auto simp: outcome_def)

lemma sample_honest: "turn_ok tn \<Longrightarrow> honest (sample_env [sample_turn None, tn])"
  by (simp add: honest_def sample_env_def allowed_check_def quiet_def turn_ok_def sample_turn_def)

theorem run_ends_with_one_terminal_event_witness:
  "\<exists>w status units. execute sample_models (sample_env [sample_turn None, sample_turn (Some Canceled)]) = Some (w, status, units) \<and>
     status \<in> {0, 1} \<and> length (w_lines w) \<in> {2, 3}"
proof -
  let ?en = "sample_env [sample_turn None, sample_turn (Some Canceled)]"
  obtain w units where e: "execute sample_models ?en = Some (w, 0, units)"
    using outcome_Some [OF sample_run] by blast
  have h: "honest ?en" by (rule sample_honest) (simp add: turn_ok_def sample_turn_def)
  have ok: "en_StartedOk ?en" "en_ReadyOk ?en" "en_TerminalOk ?en" by (simp_all add: sample_env_def)
  have calm: "\<not> list_ex deadline_in (en_Turns ?en)" by (simp add: sample_env_def sample_turn_def deadline_in_def)
  from run_ends_with_one_terminal_event [OF h ok e] calm have "map fst (w_lines w) \<in> {[KStarted, KStopped], [KStarted, KReady, KStopped]}" by auto
  then have "length (map fst (w_lines w)) \<in> {2, 3}" by auto
  then show ?thesis using e by auto
qed

section \<open>A clean exit leaves nothing behind\<close>

lemma cleanup_complete:
  "cleanup en units = (True, lost) \<Longrightarrow> has_backend en \<Longrightarrow>
     (\<forall>lu \<in> set units. en_Terminate en (lv_Instance lu) = None) \<and> en_Remaining en = Inr 0"
  by (auto simp: cleanup_def Let_def list_all_iff split: sum.splits if_splits)

lemma finish_zero:
  assumes "finish en units cause w = (w', 0)"
  shows "cause = ErrStopped \<and> fst (cleanup en units) \<and> (\<exists>l. w_lines w' = w_lines w @ [(KStopped, l)])"
proof -
  obtain gone lost where c: "cleanup en units = (gone, lost)" by (cases "cleanup en units")
  have g: gone using assms c by (auto simp: finish_def Let_def ExitFailure_def split: if_splits)
  have e: "cause = ErrStopped"
    using assms c g by (cases cause) (auto simp: finish_def failure_of_def)
  then obtain w2 where s: "Stopped (en_TerminalOk en) (en_RunID en) (stopReason en) w = (w2, None)" "w2 = w'"
    using assms c g by (auto simp: finish_def failure_of_def ExitFailure_def split: prod.splits option.splits)
  then have "\<exists>l. w_lines w' = w_lines w @ [(KStopped, l)]"
    by (auto simp: writer_defs split: if_splits option.splits)
  then show ?thesis using g c e by simp
qed

text \<open>
  C32: exit status 0 is only given for a clean stop: the last line of the stream is \<^verbatim>\<open>stopped\<close>, and,
  if there is a daemon, every container that came up was terminated without error and none of the
  run's containers is left.
\<close>
theorem exit_zero_is_clean:
  assumes "execute reg en = Some (w, 0, units)"
  shows "fst (last (w_lines w)) = KStopped \<and>
    (has_backend en \<longrightarrow> (\<forall>lu \<in> set units. en_Terminate en (lv_Instance lu) = None) \<and> en_Remaining en = Inr 0)"
proof -
  have "\<exists>w1 cause. finish en units cause w1 = (w, 0)"
    using assms by (auto simp: execute_def ExitFailure_def split: prod.splits option.splits sum.splits)
  then obtain w1 cause where f: "finish en units cause w1 = (w, 0)" by blast
  obtain gone lost where c: "cleanup en units = (gone, lost)" by (cases "cleanup en units")
  from finish_zero [OF f] c have "gone" "fst (last (w_lines w)) = KStopped" by auto
  then show ?thesis using cleanup_complete [of en units lost] c by auto
qed

theorem exit_zero_is_clean_witness:
  "\<exists>w units. execute sample_models (sample_env [sample_turn None, sample_turn (Some Canceled)]) = Some (w, 0, units) \<and>
     fst (last (w_lines w)) = KStopped"
proof -
  obtain w units where e: "execute sample_models (sample_env [sample_turn None, sample_turn (Some Canceled)]) = Some (w, 0, units)"
    using outcome_Some [OF sample_run] by blast
  from exit_zero_is_clean [OF e] e show ?thesis by blast
qed

text \<open>
  C33: cleanup failure outranks its cause: when a container could not be terminated, is left behind,
  or Docker cannot be asked, a run that got to write ends in \<^verbatim>\<open>failed\<close> with \<^verbatim>\<open>cleanup_failed\<close>, status 1
  and the cause it displaced, whatever ended it.
\<close>
theorem cleanup_failure_outranks:
  assumes "has_backend en" "open_stream w" "en_TerminalOk en"
    and "(\<exists>lu \<in> set units. en_Terminate en (lv_Instance lu) \<noteq> None) \<or> en_Remaining en \<noteq> Inr 0"
  shows "\<exists>ev. finish en units cause w = (fst (Failed True ev w), 1) \<and>
    map fst (w_lines (fst (Failed True ev w))) = map fst (w_lines w) @ [KFailed] \<and>
    ev_Code ev = CodeCleanupFailed \<and> ev_Phase ev = PhaseCleanup \<and> \<not> ev_CleanupComplete ev \<and>
    (\<forall>f. cause = RunFailure f \<longrightarrow> ev_Cause ev = Some (fl_Code f) \<and> ev_Devices ev = fl_Devices f)"
proof -
  obtain gone lost where c: "cleanup en units = (gone, lost)" by (cases "cleanup en units")
  have "\<not> gone"
    using assms(1,4) c by (auto simp: cleanup_def Let_def list_all_iff split: sum.splits if_splits)
  then show ?thesis
    using assms(2,3) c
    by (intro exI [of _ "\<lparr>ev_RunID = en_RunID en, ev_Phase = PhaseCleanup, ev_Code = CodeCleanupFailed,
          ev_Cause = (case failure_of cause of Some f \<Rightarrow> Some (fl_Code f) | None \<Rightarrow> if lost then Some CodeDockerUnavailable else None),
          ev_CleanupComplete = False, ev_Devices = devicesOf (failure_of cause)\<rparr>"])
      (simp add: finish_def Let_def ExitFailure_def Failed_writes matrix failure_of_def devicesOf_def)
qed

theorem cleanup_failure_outranks_witness:
  "\<exists>ev. finish (sample_env []\<lparr>en_Remaining := Inr 2\<rparr>) [] ErrStopped (fst (Started True ''r'' NewWriter)) =
      (fst (Failed True ev (fst (Started True ''r'' NewWriter))), 1) \<and> ev_Code ev = CodeCleanupFailed"
proof -
  have "has_backend (sample_env []\<lparr>en_Remaining := Inr 2\<rparr>)" by (simp add: has_backend_def connect_def sample_env_def)
  moreover have "open_stream (fst (Started True ''r'' NewWriter))" by (simp add: open_stream_def writer_defs NewWriter_def)
  moreover have "en_TerminalOk (sample_env []\<lparr>en_Remaining := Inr 2\<rparr>)" "en_Remaining (sample_env []\<lparr>en_Remaining := Inr 2\<rparr>) \<noteq> Inr 0"
    by (simp_all add: sample_env_def)
  ultimately show ?thesis
    using cleanup_failure_outranks [of "sample_env []\<lparr>en_Remaining := Inr 2\<rparr>" "fst (Started True ''r'' NewWriter)" "[]" ErrStopped] by blast
qed

section \<open>Every container that came up is terminated\<close>

lemma launched_instances:
  "map lv_Instance (launched en us) = List.map_filter (\<lambda>u. fst (en_Launch en u)) us"
  by (induction us) (auto simp: launched_def List.map_filter_simps new_live_def split: option.splits)

lemma inspect_start_keeps:
  "inspect_start en pl lus = (lus', e) \<Longrightarrow>
     map lv_Instance lus' = map lv_Instance lus \<and> map lv_Unit lus' = map lv_Unit lus"
  by (induction lus arbitrary: lus') (auto split: prod.splits sum.splits)

lemma start_instances:
  assumes "start en pl = (units, e)"
  shows "map lv_Instance units = List.map_filter (\<lambda>u. fst (en_Launch en u)) (pl_Units pl)"
proof -
  have "map lv_Instance units = map lv_Instance (launched en (pl_Units pl))"
    using assms by (auto simp: start_def Let_def split: option.splits prod.splits dest: inspect_start_keeps)
  then show ?thesis by (simp add: launched_instances)
qed

text \<open>
  C34: the units a run terminates are exactly those of its plan whose launch handed back a container,
  also when another unit's launch, the health wait, the inspection or the ready event failed; a run
  that was refused terminates none.
\<close>
theorem every_container_is_terminated:
  assumes "execute reg en = Some (w, status, units)" and "w_lines w \<noteq> []"
  shows "map lv_Instance units =
    (case validate reg en of Inl err \<Rightarrow> [] | Inr pl \<Rightarrow> List.map_filter (\<lambda>u. fst (en_Launch en u)) (pl_Units pl))"
proof (cases "validate reg en")
  case (Inl err)
  then show ?thesis using assms(1) by (auto simp: execute_def split: prod.splits option.splits)
next
  case (Inr pl)
  obtain w0 r0 where s0: "Started (en_StartedOk en) (en_RunID en) NewWriter = (w0, r0)"
    by (cases "Started (en_StartedOk en) (en_RunID en) NewWriter")
  have "r0 = None"
  proof (rule ccontr)
    assume "r0 \<noteq> None"
    then have "w_lines w0 = []" "w = w0"
      using s0 assms(1) by (auto simp: execute_def writer_defs NewWriter_def split: if_splits)
    then show False using assms(2) by simp
  qed
  moreover obtain us e where st: "start en pl = (us, e)" by (cases "start en pl")
  ultimately have "units = us"
    using assms(1) Inr s0 by (auto simp: execute_def split: prod.splits option.splits)
  then show ?thesis using start_instances [OF st] Inr by simp
qed

theorem every_container_is_terminated_witness:
  "\<exists>w units. execute sample_models (sample_env [sample_turn None, sample_turn (Some Canceled)]) = Some (w, 0, units) \<and>
     (case validate sample_models (sample_env [sample_turn None, sample_turn (Some Canceled)]) of
        Inl err \<Rightarrow> []
      | Inr pl \<Rightarrow> List.map_filter (\<lambda>u. fst (en_Launch (sample_env [sample_turn None, sample_turn (Some Canceled)]) u)) (pl_Units pl)) = [''c1'']"
proof -
  obtain w units where e: "execute sample_models (sample_env [sample_turn None, sample_turn (Some Canceled)]) = Some (w, 0, units)"
    "map fst (w_lines w) = [KStarted, KReady, KStopped]" "map lv_Instance units = [''c1'']"
    using outcome_Some [OF sample_run] by (elim exE conjE)
  then have "w_lines w \<noteq> []" by auto
  from every_container_is_terminated [OF e(1) this] e show ?thesis by auto
qed

section \<open>The ready event\<close>

lemma inspect_start_ok:
  "inspect_start en pl lus = (lus', None) \<Longrightarrow>
     list_all2 (\<lambda>lu lu'. lv_Unit lu' = lv_Unit lu \<and>
       (\<exists>ctx state. en_InspectStart en (lv_Instance lu) = (ctx, Inr state) \<and> checkAttachment pl (lv_Unit lu) state = Inr (lv_IP lu'))) lus lus'"
  by (induction lus arbitrary: lus') (auto split: prod.splits sum.splits)

lemma launched_units:
  assumes "\<forall>u \<in> set us. fst (en_Launch en u) \<noteq> None"
  shows "map lv_Unit (launched en us) = us"
  using assms by (induction us) (auto simp: launched_def List.map_filter_simps new_live_def)

lemma first_launch_none: "first_launch_error en us = None \<Longrightarrow> u \<in> set us \<Longrightarrow> snd (snd (en_Launch en u)) = None"
  by (induction us) (auto split: prod.splits option.splits)

lemma start_ok:
  assumes "start en pl = (units, None)"
  shows "first_launch_error en (pl_Units pl) = None \<and>
    inspect_start en pl (launched en (pl_Units pl)) = (units, None)"
  using assms by (auto simp: start_def Let_def left_def split: option.splits prod.splits sum.splits)

lemma readyDevices_sorted: "readyDevices units =
    sort_key (\<lambda>d. id_Index (fst d)) (concat (map (\<lambda>lu. map (\<lambda>d. (d, lv_IP lu)) (un_Devices (lv_Unit lu))) units))"
  by (simp add: readyDevices_def insertion_sort_sort_key)

lemma map_fst_sort_key: "map fst (sort_key (\<lambda>d. f (fst d)) xs) = sort_key f (map fst xs)"
proof (induction xs rule: rev_induct)
  case (snoc x xs)
  have place_fst: "map fst (place (\<lambda>d. f (fst d)) x ys) = place f (fst x) (map fst ys)" for ys
    by (simp add: place_def takeWhile_map dropWhile_map o_def)
  show ?case using snoc by (simp add: sort_key_snoc place_fst)
qed simp

lemma list_all2_right: "list_all2 P xs ys \<Longrightarrow> y \<in> set ys \<Longrightarrow> \<exists>x \<in> set xs. P x y"
  by (induction rule: list_all2_induct) auto

text \<open>
  When a start succeeds and every launch without an error handed back a container, the ready
  event lists exactly the devices of the plan, each once, in request order, each with an address
  that the inspection of its own unit's container showed on the caller's network.
\<close>
theorem ready_reports_the_plan:
  assumes "start en pl = (units, None)"
    and "\<And>u. snd (snd (en_Launch en u)) = None \<Longrightarrow> fst (en_Launch en u) \<noteq> None"
  shows "map fst (readyDevices units) = Devices pl \<and>
    (\<forall>(d, ip) \<in> set (readyDevices units). \<exists>u i ctx state. u \<in> set (pl_Units pl) \<and> d \<in> set (un_Devices u) \<and>
       fst (en_Launch en u) = Some i \<and> en_InspectStart en i = (ctx, Inr state) \<and> checkAttachment pl u state = Inr ip)"
proof -
  let ?us = "launched en (pl_Units pl)"
  note ok = start_ok [OF assms(1)]
  have "\<forall>u \<in> set (pl_Units pl). fst (en_Launch en u) \<noteq> None"
    using assms(2) first_launch_none ok by blast
  then have u: "map lv_Unit ?us = pl_Units pl" by (rule launched_units)
  have "map lv_Unit units = map lv_Unit ?us" using inspect_start_keeps ok by blast
  then have units: "map lv_Unit units = pl_Units pl" by (simp only: u)
  have "concat (map (\<lambda>lu. un_Devices (lv_Unit lu)) units) = concat (map un_Devices (map lv_Unit units))" by (simp add: o_def)
  then have "map fst (concat (map (\<lambda>lu. map (\<lambda>d. (d, lv_IP lu)) (un_Devices (lv_Unit lu))) units)) = concat (map un_Devices (pl_Units pl))"
    unfolding units by (simp add: map_concat o_def)
  then have 1: "map fst (readyDevices units) = Devices pl"
    unfolding readyDevices_sorted map_fst_sort_key by (simp add: Devices_def sortByIndex_def insertion_sort_sort_key)
  have "\<exists>u i ctx state. u \<in> set (pl_Units pl) \<and> d \<in> set (un_Devices u) \<and>
       fst (en_Launch en u) = Some i \<and> en_InspectStart en i = (ctx, Inr state) \<and> checkAttachment pl u state = Inr ip"
    if d: "(d, ip) \<in> set (readyDevices units)" for d ip
  proof -
    obtain lu' where lu': "lu' \<in> set units" "d \<in> set (un_Devices (lv_Unit lu'))" "ip = lv_IP lu'"
      using d by (auto simp: readyDevices_sorted)
    then have "\<exists>lu \<in> set ?us. lv_Unit lu' = lv_Unit lu \<and>
       (\<exists>ctx state. en_InspectStart en (lv_Instance lu) = (ctx, Inr state) \<and> checkAttachment pl (lv_Unit lu) state = Inr (lv_IP lu'))"
      using list_all2_right [OF inspect_start_ok [OF conjunct2 [OF ok]]] by blast
    then obtain lu ctx state where lu: "lu \<in> set ?us" "lv_Unit lu' = lv_Unit lu"
      "en_InspectStart en (lv_Instance lu) = (ctx, Inr state)" "checkAttachment pl (lv_Unit lu) state = Inr (lv_IP lu')"
      by (elim bexE exE conjE)
    have "lv_Unit lu \<in> set (pl_Units pl) \<and> fst (en_Launch en (lv_Unit lu)) = Some (lv_Instance lu)"
      using lu(1) by (auto simp: launched_def new_live_def List.map_filter_def split: option.splits)
    then show ?thesis using lu lu' by auto
  qed
  then show ?thesis using 1 by blast
qed

theorem ready_reports_the_plan_witness:
  "map fst (readyDevices [one_live]) = Devices one_plan"
  using ready_reports_the_plan [OF sample_starts [of "[]"]] by (simp add: sample_env_def)

section \<open>When Docker is given up\<close>

text \<open>A turn in which some unit could not be inspected\<close>

definition lost_turn :: "live list \<Rightarrow> turn \<Rightarrow> bool" where
  "lost_turn units tn \<longleftrightarrow> (\<exists>lu \<in> set units. \<exists>ctx e. tn_Inspect tn (lv_Instance lu) = (ctx, Inl e))"

lemma monitor_pass_lost:
  "monitor_pass pl tn lus n = Inr (lost, m) \<Longrightarrow> (if lost then lost_turn lus tn \<and> m = Suc n \<and> m < dockerFailureLimit else m = n)"
  by (induction lus) (auto simp: lost_turn_def split: prod.splits sum.splits if_splits option.splits)

lemma runtime_state_code: "checkRuntimeState pl u b s = Some f \<Longrightarrow> fl_Code f \<noteq> CodeDockerUnavailable"
  by (auto simp: checkRuntimeState_def runtime_failure_def failf_def split: if_splits)

lemma withDevices_code: "withDevices r u = RunFailure f \<Longrightarrow> \<exists>g. r = RunFailure g \<and> fl_Code g = fl_Code f"
  by (cases r) (auto simp: withDevices_def split: if_splits)

lemma monitor_pass_gives_up:
  "monitor_pass pl tn lus n = Inl (RunFailure f) \<Longrightarrow> fl_Code f = CodeDockerUnavailable \<Longrightarrow>
     lost_turn lus tn \<and> dockerFailureLimit \<le> Suc n"
proof (induction lus)
  case (Cons lu lus)
  obtain ctx r where l: "tn_Inspect tn (lv_Instance lu) = (ctx, r)" by (cases "tn_Inspect tn (lv_Instance lu)")
  show ?case
  proof (cases r)
    case (Inl e)
    then show ?thesis using Cons.prems l by (auto simp: lost_turn_def split: if_splits)
  next
    case (Inr s)
    then show ?thesis
      using Cons l by (auto simp: lost_turn_def split: option.splits dest!: withDevices_code runtime_state_code)
  qed
qed simp

lemma monitor_gives_up:
  assumes "monitor pl units n tns = Some (RunFailure f)" "fl_Code f = CodeDockerUnavailable"
    and "n = length hist" "list_all (lost_turn units) hist" "n < dockerFailureLimit"
  shows "\<exists>pre tail rest. hist @ tns = pre @ tail @ rest \<and> length tail = dockerFailureLimit \<and> list_all (lost_turn units) tail"
  using assms
proof (induction tns arbitrary: n hist)
  case (Cons tn tns)
  show ?case
  proof (cases "monitor_turn pl units tn n")
    case (Inl e)
    then have e: "e = RunFailure f" using Cons.prems(1) by simp
    have "tn_Head tn = None" "tn_Select tn = None"
    proof -
      have "classify (Some c) (ctx_as_error c) CodeDockerUnavailable PhaseRuntime = RunFailure f \<Longrightarrow> False" for c
        using Cons.prems(2) by (cases c) (auto simp: classify_def error_is_def ctx_as_error_def failf_def)
      then show "tn_Head tn = None" "tn_Select tn = None"
        using Inl e by (auto simp: monitor_turn_def split: option.splits)
    qed
    then have "monitor_pass pl tn units n = Inl (RunFailure f)"
      using Inl e by (auto simp: monitor_turn_def rbind_Inl_iff)
    from monitor_pass_gives_up [OF this Cons.prems(2)]
    have "lost_turn units tn" "length (hist @ [tn]) = dockerFailureLimit" using Cons.prems(3,5) by auto
    then show ?thesis using Cons.prems(4)
      by (intro exI [of _ "[]"] exI [of _ "hist @ [tn]"] exI [of _ tns]) simp
  next
    case (Inr m)
    then obtain lost k where p: "monitor_pass pl tn units n = Inr (lost, k)" "m = (if \<not> lost then 0 else k)"
      by (auto simp: monitor_turn_def rbind_Inr_iff split: option.splits)
    have rest: "monitor pl units m tns = Some (RunFailure f)" using Cons.prems(1) Inr by simp
    show ?thesis
    proof (cases lost)
      case True
      then have "lost_turn units tn" "m = Suc n" "m < dockerFailureLimit"
        using monitor_pass_lost [OF p(1)] p(2) by auto
      then have "\<exists>pre tail rest. (hist @ [tn]) @ tns = pre @ tail @ rest \<and> length tail = dockerFailureLimit \<and> list_all (lost_turn units) tail"
        using Cons.prems(2,3,4) by (intro Cons.IH [OF rest]) auto
      then show ?thesis by simp
    next
      case False
      then have "m = 0" using p(2) by simp
      then have "\<exists>pre tail rest. [] @ tns = pre @ tail @ rest \<and> length tail = dockerFailureLimit \<and> list_all (lost_turn units) tail"
        using Cons.prems(2) by (intro Cons.IH [OF rest]) (auto simp: dockerFailureLimit_def)
      then obtain pre tail rest where "tns = pre @ tail @ rest" "length tail = dockerFailureLimit" "list_all (lost_turn units) tail"
        by auto
      then show ?thesis by (intro exI [of _ "hist @ tn # pre"] exI [of _ tail] exI [of _ rest]) simp
    qed
  qed
qed simp

text \<open>
  The monitor reports the Docker API as unavailable only after three turns in a row in each of
  which a container could not be inspected: a briefly busy daemon never ends a run.
\<close>
theorem docker_lost_needs_three_turns:
  assumes "monitor pl units 0 tns = Some (RunFailure f)" and "fl_Code f = CodeDockerUnavailable"
  shows "\<exists>pre tail rest. tns = pre @ tail @ rest \<and> length tail = 3 \<and> list_all (lost_turn units) tail"
  using monitor_gives_up [OF assms, of "[]"] by (auto simp: dockerFailureLimit_def)

definition api_error :: go_error where
  "api_error = \<lparr>ge_Failure = None, ge_Canceled = False, ge_Deadline = False\<rparr>"

definition other_live :: live where
  "other_live = one_live\<lparr>lv_Instance := ''c2''\<rparr>"

text \<open>A turn in which the first container is inspected and the second is not\<close>

definition half_turn :: turn where
  "half_turn = \<lparr>tn_Head = None, tn_Select = None,
     tn_Inspect = (\<lambda>i. (None, if i = ''c1'' then Inr up_state else Inspect (Inl api_error)))\<rparr>"

definition monitor_outcome :: "run_error option \<Rightarrow> (code \<times> phase) option" where
  "monitor_outcome r = (case r of Some (RunFailure f) \<Rightarrow> Some (fl_Code f, fl_Phase f) | _ \<Rightarrow> None)"

lemma half_turns: "monitor_outcome (monitor one_plan [one_live, other_live] 0 [half_turn, half_turn, half_turn]) =
    Some (CodeDockerUnavailable, PhaseRuntime)"
  by code_simp

theorem docker_lost_needs_three_turns_witness:
  "\<exists>pre tail rest. [half_turn, half_turn, half_turn] = pre @ tail @ rest \<and> length tail = 3 \<and> list_all (lost_turn [one_live, other_live]) tail"
proof -
  obtain f where "monitor one_plan [one_live, other_live] 0 [half_turn, half_turn, half_turn] = Some (RunFailure f)"
    "fl_Code f = CodeDockerUnavailable"
    using half_turns by (auto simp: monitor_outcome_def split: option.splits run_error.splits)
  then show ?thesis by (rule docker_lost_needs_three_turns)
qed

text \<open>
  A success does not reset the count of inspect failures, contrary to the comment on the
  limit: inspections that alternate between success and failure, never two failures in a row, end
  the run as \<^verbatim>\<open>docker_unavailable\<close> after the third failing one, because the count is only reset by
  a turn in which every container was inspected.
\<close>
theorem alternating_inspections_give_up_docker:
  "monitor_outcome (monitor one_plan [one_live, other_live] 0 [half_turn, half_turn, half_turn]) =
     Some (CodeDockerUnavailable, PhaseRuntime) \<and>
   (\<exists>ctx. tn_Inspect half_turn (lv_Instance one_live) = (ctx, Inr up_state))"
  using half_turns by (simp add: half_turn_def one_live_def)

section \<open>The Docker backend keeps to the matrix\<close>

lemma docker_errors_allowed [simp]:
  "allowed_error (docker_error c p d) \<longleftrightarrow> AllowsPhase c p" "allowed_error (docker_wrap e c p d) \<longleftrightarrow> AllowsPhase c p"
  by (simp_all add: allowed_error_def docker_error_def docker_wrap_def failure_error_def wrapf_def)

definition allowed_reply :: "go_error option \<Rightarrow> bool" where
  "allowed_reply r \<longleftrightarrow> (case r of None \<Rightarrow> True | Some e \<Rightarrow> allowed_error e)"

lemma allowed_reply_simps [simp]: "allowed_reply None" "allowed_reply (Some e) \<longleftrightarrow> allowed_error e"
  by (simp_all add: allowed_reply_def)

lemma pull_all_allowed: "allowed_reply (pull_all pulls present refs)"
  by (induction refs) (auto simp: pull_def matrix split: option.splits)

lemma checkImage_allowed: "allowed_reply (checkImage u got trust)"
  by (simp add: checkImage_def matrix)

lemma inspect_all_allowed: "allowed_reply (inspect_all inspect trust us)"
proof (induction us)
  case (Cons u us)
  have "allowed_error e" if "checkImage u got trust = Some e" for got e
    using checkImage_allowed [of u got trust] that by simp
  with Cons show ?case by (auto simp: matrix split: sum.splits option.splits)
qed simp

text \<open>
  Whatever the Docker daemon answers, a failure of the Docker backend is one its phase allows,
  so a run on that backend always gets its failed event written.
\<close>
theorem docker_backend_keeps_matrix:
  "allowed_reply (NewDockerBackend reply) \<and> allowed_reply (CheckDocker ge version) \<and>
   allowed_reply (CheckNetwork reply name) \<and> allowed_reply (CheckCapabilities version pl) \<and>
   allowed_reply (checkReaper off) \<and> allowed_reply (PullAndInspect pulls present version inspect pl) \<and>
   allowed_reply (fst (snd (Launch listing pl u created started))) \<and> allowed_reply (WaitHealthy reply) \<and>
   (case Inspect answer of Inl e \<Rightarrow> allowed_error e | Inr state \<Rightarrow> True)"
proof (intro conjI)
  show "allowed_reply (NewDockerBackend reply)" "allowed_reply (CheckNetwork reply name)" "allowed_reply (WaitHealthy reply)"
    by (cases reply; simp add: NewDockerBackend_def CheckNetwork_def WaitHealthy_def matrix)+
  show "allowed_reply (CheckDocker ge version)" "allowed_reply (CheckCapabilities version pl)"
    by (cases version; simp add: CheckDocker_def checkDockerVersion_def CheckCapabilities_def matrix)+
  show "allowed_reply (checkReaper off)" by (simp add: checkReaper_def matrix)
  show "allowed_reply (PullAndInspect pulls present version inspect pl)"
    using pull_all_allowed [of pulls present "Images pl"] inspect_all_allowed
    by (auto simp: PullAndInspect_def Let_def split: option.split)
  show "allowed_reply (fst (snd (Launch listing pl u created started)))"
    by (simp add: Launch_def matrix split: prod.split option.split)
  show "case Inspect answer of Inl e \<Rightarrow> allowed_error e | Inr state \<Rightarrow> True"
    by (cases answer) (simp_all add: Inspect_def matrix)
qed

section \<open>Two paths that go wrong\<close>

text \<open>
  An inspection that fails while the fleet is starting is reported in phase \<^verbatim>\<open>runtime\<close>, though
  no ready event was written: the backend names that phase itself, and the start's own phase is only
  a fallback for errors that name none.
\<close>
theorem inspect_failure_at_start_says_runtime:
  "\<exists>f. snd (inspect_start (en\<lparr>en_InspectStart := (\<lambda>_. (None, Inspect (Inl e)))\<rparr>) pl (lu # lus)) = Some (RunFailure f) \<and>
     fl_Code f = CodeDockerUnavailable \<and> fl_Phase f = PhaseRuntime"
  by (simp add: Inspect_def docker_wrap_def wrapf_def classifyUnit_def classify_def asFailure_def withDevices_def failf_def)

text \<open>
  A deadline of the caller's that expires while the fleet runs ends the run with exit status 1
  and no terminal event: it is classified as a startup timeout in phase \<^verbatim>\<open>runtime\<close>, which the
  writer refuses.
\<close>
theorem deadline_while_running_is_silent:
  "outcome (execute sample_models (sample_env [sample_turn (Some DeadlineExceeded)])) = Some ([KStarted, KReady], 1, [''c1''])"
proof -
  have "monitor one_plan [one_live] 0 [sample_turn (Some DeadlineExceeded)] =
      Some (RunFailure (failf CodeStartupTimeout PhaseRuntime (DeadlineExpired PhaseRuntime)))"
    by (simp add: monitor_turn_def sample_turn_def classify_def error_is_def ctx_as_error_def)
  note run = sample_run_from_ready [OF this]
  have "\<not> AllowsPhase CodeStartupTimeout PhaseRuntime" by (simp add: matrix)
  then show ?thesis
    unfolding run by (simp add: Let_def finish_def sample_cleanup failure_of_def failf_def writer_defs NewWriter_def sample_fields)
qed

end
