(* ===== verification/Herder_Cli_Laws.thy ===== *)
theory Herder_Cli_Laws
  imports Herder_Cli Run_Laws
begin

text \<open>
  What the exit status of \<^verbatim>\<open>unifi-emu-herder\<close> says: which command lines are refused, and what a run
  behind an accepted one reports.
\<close>

section \<open>Exit statuses\<close>

lemma finish_status:
  assumes "finish en units cause w = (w', status)"
  shows "status = 0 \<or> status = 1"
  using assms by (auto simp: finish_def Let_def ExitFailure_def ExitOK_def split: if_splits option.splits prod.splits)

lemma execute_status:
  assumes "execute reg en = Some (w, status, units)"
  shows "status = 1 \<or> (\<exists>w1 cause. finish en units cause w1 = (w, 0) \<and> status = 0)"
  using assms finish_status
  by (fastforce simp: execute_def ExitFailure_def split: prod.splits option.splits sum.splits)

text \<open>The command line is accepted: it parses, and asks for the version or names all there is to name.\<close>

definition accepted :: "string list \<Rightarrow> bool" where
  "accepted args \<longleftrightarrow>
     (\<exists>f rest. parseFlags args = Inr (f, rest) \<and>
        (hf_ShowVersion f \<or> rest = [] \<and> hf_Network f \<noteq> [] \<and> hf_InformURL f \<noteq> [] \<and> hf_Devices f \<noteq> []))"

lemma required_none: "find (\<lambda>(name, v). v = []) (required_flags f) = None \<longleftrightarrow>
    hf_Network f \<noteq> [] \<and> hf_InformURL f \<noteq> [] \<and> hf_Devices f \<noteq> []"
  by (auto simp: required_flags_def)

definition clean_stop :: "environment \<Rightarrow> writer \<Rightarrow> live list \<Rightarrow> bool" where
  "clean_stop en w units \<longleftrightarrow> fst (last (w_lines w)) = KStopped \<and>
     (has_backend en \<longrightarrow> (\<forall>lu \<in> set units. en_Terminate en (lv_Instance lu) = None) \<and> en_Remaining en = Inr 0)"

lemma finish_clean:
  assumes "finish en units cause w1 = (w, 0)"
  shows "clean_stop en w units"
proof -
  obtain gone lost where c: "cleanup en units = (gone, lost)" by (cases "cleanup en units")
  from finish_zero [OF assms] c have "gone" "fst (last (w_lines w)) = KStopped" by auto
  then show ?thesis unfolding clean_stop_def using cleanup_complete [of en units lost] c by auto
qed

text \<open>
  C15: the exit status of the herder says how it ended. Status 2 is given for exactly the command lines
  that are not accepted, and nothing is run then; status 0 means the version was asked for, or the run
  stopped cleanly: its stream ends with \<^verbatim>\<open>stopped\<close> and every container is gone; everything else is
  status 1.
\<close>
theorem herder_exit_statuses:
  assumes "herder_main reg P = Some (res, status)"
  shows "(status = 2 \<longleftrightarrow> \<not> accepted (hp_Args P)) \<and>
    (case res of
       VersionPrinted v \<Rightarrow> status = 0
     | UsageError u \<Rightarrow> status = 2
     | NoRunID \<Rightarrow> status = 1
     | Ran w units \<Rightarrow>
         status = 1 \<or>
         status = 0 \<and> (\<exists>f runID. execute reg (options P f runID) = Some (w, 0, units) \<and> clean_stop (options P f runID) w units))"
proof (cases "parseFlags (hp_Args P)")
  case (Inl e)
  then show ?thesis using assms by (auto simp: herder_main_def accepted_def ExitUsage_def)
next
  case (Inr r)
  obtain f args where r: "r = (f, args)" by (cases r)
  consider (version) "hf_ShowVersion f" | (refused) "\<not> hf_ShowVersion f" "args \<noteq> [] \<or> find (\<lambda>(name, v). v = []) (required_flags f) \<noteq> None"
    | (run) "\<not> hf_ShowVersion f" "args = []" "find (\<lambda>(name, v). v = []) (required_flags f) = None" by blast
  then show ?thesis
  proof cases
    case version
    then show ?thesis using assms Inr r by (auto simp: herder_main_def accepted_def ExitOK_def)
  next
    case refused
    then have "\<not> accepted (hp_Args P)" using Inr r required_none by (auto simp: accepted_def)
    then show ?thesis using assms Inr r refused by (auto simp: herder_main_def ExitUsage_def split: if_splits option.splits)
  next
    case run
    then have acc: "accepted (hp_Args P)" using Inr r required_none by (auto simp: accepted_def)
    show ?thesis
    proof (cases "NewRunID (hp_Random P)")
      case None
      then show ?thesis using assms Inr r run acc by (auto simp: herder_main_def ExitFailure_def)
    next
      case (Some runID)
      then obtain w units where e: "execute reg (options P f runID) = Some (w, status, units)" "res = Ran w units"
        using assms Inr r run by (auto simp: herder_main_def)
      have "status = 1 \<or> status = 0 \<and> clean_stop (options P f runID) w units"
        using execute_status [OF e(1)] finish_clean by blast
      then show ?thesis using e acc by auto
    qed
  qed
qed

definition sample_herder :: herder_process where
  "sample_herder =
     \<lparr>hp_Args = [''--network'', ''net'', ''--devices=-''], hp_Version = ''1.0.0'', hp_Image = [], hp_Random = Some [1, 2, 3, 4],
      hp_Stdin = None, hp_Open = (\<lambda>_. None), hp_Answers = (\<lambda>_ _. sample_env [])\<rparr>"

lemma sample_herder_refused:
  "herder_main sample_models sample_herder = Some (UsageError (FlagRequired ''inform-url''), 2)"
  "herder_main sample_models (sample_herder\<lparr>hp_Args := [''-version'']\<rparr>) = Some (VersionPrinted ''1.0.0'', 0)"
  by code_simp+

theorem herder_exit_statuses_witness:
  "\<not> accepted [''--network'', ''net'', ''--devices=-''] \<and> accepted [''-version'']"
proof -
  have "hp_Args sample_herder = [''--network'', ''net'', ''--devices=-'']" by (simp add: sample_herder_def)
  then show ?thesis
    using herder_exit_statuses [OF sample_herder_refused(1)] herder_exit_statuses [OF sample_herder_refused(2)] by simp
qed

end
