(* ===== verification/Go_Stream.thy ===== *)
theory Go_Stream
  imports Go_Marshal
begin

text \<open>
  \<^verbatim>\<open>json.Decoder\<close>: the first value of a text and what follows it, read one token at a time, and the
  question whether a stream holds more. A word or a number is taken with the letters or number
  characters next to it, which is exact for every document that starts with an object or an array.
\<close>

section \<open>One token\<close>

definition lex_word :: "string \<Rightarrow> (token \<times> string) option" where
  "lex_word s =
     (case strip_prefix ''null'' s of Some r \<Rightarrow> Some (TNull, r)
      | None \<Rightarrow>
        (case strip_prefix ''true'' s of Some r \<Rightarrow> Some (TTrue, r)
         | None \<Rightarrow> (case strip_prefix ''false'' s of Some r \<Rightarrow> Some (TFalse, r) | None \<Rightarrow> None)))"

definition lex1 :: "string \<Rightarrow> (token \<times> string) option" where
  "lex1 s =
     (case s of
        [] \<Rightarrow> None
      | c # t \<Rightarrow>
          (case punct_token c of
             Some tok \<Rightarrow> Some (tok, t)
           | None \<Rightarrow>
               if c = quote_mark then (case lex_str t of None \<Rightarrow> None | Some (b, r) \<Rightarrow> Some (TStr b, r))
               else if num_start c then
                 (if valid_num (c # takeWhile num_char t)
                  then Some (TNum (c # takeWhile num_char t), dropWhile num_char t) else None)
               else lex_word s))"

lemma lex_word_length: "lex_word s = Some (t, r) \<Longrightarrow> length r < length s"
  by (auto simp: lex_word_def strip_prefix_Some split: option.splits)

lemma lex1_length: "lex1 s = Some (t, r) \<Longrightarrow> length r < length s"
  using length_dropWhile_Suc [of num_char]
  by (auto simp: lex1_def split: list.splits option.splits if_splits prod.splits dest: lex_str_length lex_word_length)

section \<open>The first value\<close>

lemma lex1_skip_length: "lex1 (dropWhile is_ws s) = Some (t, r) \<Longrightarrow> length r < length s"
  using lex1_length [of "dropWhile is_ws s" t r] length_dropWhile_le [of is_ws s] by simp

function json_first :: "config \<Rightarrow> string \<Rightarrow> (json \<times> string) option" where
  "json_first c s =
     (case lex1 (dropWhile is_ws s) of
        None \<Rightarrow> None
      | Some (t, r) \<Rightarrow>
          (case json_step c t of
             None \<Rightarrow> None
           | Some c' \<Rightarrow>
               (case c' of
                  ([], MDone v) \<Rightarrow> Some (v, r)
                | _ \<Rightarrow> json_first c' r)))"
  by pat_completeness auto
termination
  by (relation "measure (\<lambda>(_, s). length s)") (auto dest: lex1_skip_length)

declare json_first.simps [simp del]

definition decode_first :: "string \<Rightarrow> (json \<times> string) option" where
  "decode_first s = json_first ([], MVal) s"

text \<open>\<^verbatim>\<open>Decoder.More\<close>: a closing bracket or brace is not more.\<close>

definition stream_more :: "string \<Rightarrow> bool" where
  "stream_more rest =
     (case dropWhile is_ws rest of [] \<Rightarrow> False | c # _ \<Rightarrow> c \<noteq> CHR '']'' \<and> c \<noteq> CHR ''}'')"

section \<open>A document that parses is its own first value\<close>

lemma word_token_lex_word:
  "word_token (takeWhile is_lower s) = Some t \<Longrightarrow> lex_word s = Some (t, dropWhile is_lower s)"
proof -
  assume w: "word_token (takeWhile is_lower s) = Some t"
  have s: "s = takeWhile is_lower s @ dropWhile is_lower s" by simp
  have p: "strip_prefix ''null'' (''true'' @ r) = None" "strip_prefix ''null'' (''false'' @ r) = None"
    "strip_prefix ''true'' (''false'' @ r) = None" for r by simp_all
  have q: "strip_prefix w (w @ r) = Some r" for w r by (simp add: strip_prefix_Some)
  from w consider "takeWhile is_lower s = ''null'' \<and> t = TNull" | "takeWhile is_lower s = ''true'' \<and> t = TTrue"
    | "takeWhile is_lower s = ''false'' \<and> t = TFalse"
    by (auto simp: word_token_def split: if_splits)
  then show ?thesis
  proof cases
    case 1
    then show ?thesis using q [of "''null''"] by (subst s) (simp only: lex_word_def option.case)
  next
    case 2
    then show ?thesis using q [of "''true''"] p by (subst s) (simp only: lex_word_def option.case)
  next
    case 3
    then show ?thesis using q [of "''false''"] p by (subst s) (simp only: lex_word_def option.case)
  qed
qed

lemma lex_first: "lex s = Some (t # ts) \<Longrightarrow> \<exists>r. lex1 (dropWhile is_ws s) = Some (t, r) \<and> lex r = Some ts"
proof (induction s)
  case (Cons c s)
  show ?case
  proof (cases "is_ws c")
    case True
    then show ?thesis using Cons by (simp add: lex.simps(2))
  next
    case False
    have w: "takeWhile is_lower (c # s) = c # takeWhile is_lower s" "dropWhile is_lower (c # s) = dropWhile is_lower s"
      if "is_lower c" using that by simp_all
    show ?thesis using Cons.prems False word_token_lex_word [of "c # s"] w
      by (auto simp: lex.simps(2) lex1_def split: option.splits if_splits prod.splits)
  qed
qed simp

lemma lex_Nil: "lex s = Some [] \<Longrightarrow> list_all is_ws s"
  by (induction s) (auto simp: lex.simps(2) split: option.splits if_splits prod.splits)

definition finished :: "config \<Rightarrow> bool" where
  "finished c \<longleftrightarrow> (\<exists>v. c = ([], MDone v))"

lemma finished_stuck: "json_run ([], MDone v) ts = Some c \<Longrightarrow> ts = []"
  by (cases ts) simp_all

lemma json_first_run:
  assumes "lex s = Some ts" "json_run c ts = Some ([], MDone v)" "\<not> finished c"
  shows "\<exists>r. json_first c s = Some (v, r) \<and> list_all is_ws r"
  using assms
proof (induction ts arbitrary: s c)
  case Nil
  then show ?case by (simp add: finished_def)
next
  case (Cons t ts)
  obtain r where r: "lex1 (dropWhile is_ws s) = Some (t, r)" "lex r = Some ts" using lex_first [OF Cons.prems(1)] by blast
  obtain c' where c': "json_step c t = Some c'" "json_run c' ts = Some ([], MDone v)"
    using Cons.prems(2) by (auto simp: bind_eq_Some_conv)
  show ?case
  proof (cases "finished c'")
    case True
    then obtain w where "c' = ([], MDone w)" by (auto simp: finished_def)
    then have "ts = []" using c'(2) finished_stuck by blast
    then have "w = v" using c'(2) \<open>c' = _\<close> by simp
    from this \<open>ts = []\<close> show ?thesis using r c' \<open>c' = _\<close> lex_Nil by (subst json_first.simps) simp
  next
    case False
    then have "json_first c s = json_first c' r"
      using r c' by (subst json_first.simps) (auto simp: finished_def split: prod.splits list.splits mode.splits)
    then show ?thesis using Cons.IH [OF r(2) c'(2) False] by simp
  qed
qed

lemma decode_first_parse:
  assumes "json_parse s = Some v"
  shows "\<exists>r. decode_first s = Some (v, r) \<and> list_all is_ws r"
proof -
  obtain ts where "lex s = Some ts" "json_run ([], MVal) ts = Some ([], MDone v)"
    using assms by (auto simp: json_parse_def split: option.splits prod.splits list.splits mode.splits)
  then show ?thesis unfolding decode_first_def by (rule json_first_run) (simp add: finished_def)
qed

lemma no_more: "list_all is_ws r \<Longrightarrow> \<not> stream_more r"
  by (simp add: stream_more_def list_all_iff flip: dropWhile_eq_Nil_conv)

end
