(* ===== verification/Inform_Crypto.thy ===== *)
theory Inform_Crypto
  imports Go_Strings
begin

text \<open>
  The encryption of inform packets (\<^verbatim>\<open>inform/crypto.go\<close>): the key, CBC with PKCS#7 padding,
  and GCM. The chaining and the padding are modelled; the AES block function, GCM, zlib and snappy
  are the fields of a record of primitives that every definition takes as an argument, with their
  documented laws gathered in \<open>primitives_ok\<close>.
\<close>

record primitives =
  aes_encrypt :: "bytes \<Rightarrow> bytes \<Rightarrow> bytes"
  aes_decrypt :: "bytes \<Rightarrow> bytes \<Rightarrow> bytes"
  gcm_seal :: "bytes \<Rightarrow> bytes \<Rightarrow> bytes \<Rightarrow> bytes \<Rightarrow> bytes"
  gcm_open :: "bytes \<Rightarrow> bytes \<Rightarrow> bytes \<Rightarrow> bytes \<Rightarrow> bytes option"
  zlib_deflate :: "bytes \<Rightarrow> bytes"
  zlib_inflate :: "bytes \<Rightarrow> bytes option"
  snappy_decode :: "bytes \<Rightarrow> bytes option"

definition primitives_ok :: "primitives \<Rightarrow> bool" where
  "primitives_ok P \<longleftrightarrow>
     (\<forall>k b. length k = 16 \<and> length b = 16 \<longrightarrow>
        length (aes_encrypt P k b) = 16 \<and> aes_decrypt P k (aes_encrypt P k b) = b) \<and>
     (\<forall>k iv aad p. length k = 16 \<and> length iv = 16 \<longrightarrow>
        length (gcm_seal P k iv aad p) = length p + 16 \<and>
        gcm_open P k iv aad (gcm_seal P k iv aad p) = Some p) \<and>
     (\<forall>p. zlib_inflate P (zlib_deflate P p) = Some p)"

datatype inform_error =
    AuthKeyHex
  | AuthKeyLength nat
  | AESKeySize nat
  | NotBlockAligned
  | BadPadding
  | GCMAuthFailed
  | PacketTooShort nat
  | BadMagic bytes
  | PayloadLengthExceeds nat nat
  | GcmError inform_error
  | CbcError inform_error
  | SnappyError
  | ZlibError

definition DefaultKey :: string where
  "DefaultKey = ''ba86f2bbe107c7c57eb5f2690775c712''"

definition ParseKey :: "string \<Rightarrow> inform_error + bytes" where
  "ParseKey hexKey =
     (case hex_decode hexKey of
        None \<Rightarrow> Inl AuthKeyHex
      | Some b \<Rightarrow> if length b \<noteq> 16 then Inl (AuthKeyLength (length b)) else Inr b)"

definition BlockSize :: nat where
  "BlockSize = 16"

text \<open>\<^verbatim>\<open>aes.NewCipher\<close> accepts keys of 16, 24 or 32 bytes.\<close>

definition newCipher :: "bytes \<Rightarrow> inform_error + bytes" where
  "newCipher key =
     (if length key \<in> {16, 24, 32} then Inr key else Inl (AESKeySize (length key)))"

section \<open>CBC\<close>

definition xor_bytes :: "bytes \<Rightarrow> bytes \<Rightarrow> bytes" where
  "xor_bytes = map2 (XOR)"

text \<open>\<^verbatim>\<open>CryptBlocks\<close> of the CBC encrypter and decrypter\<close>

function cbc_encrypt :: "(bytes \<Rightarrow> bytes) \<Rightarrow> bytes \<Rightarrow> bytes \<Rightarrow> bytes" where
  "cbc_encrypt E iv p =
     (if length p < BlockSize then []
      else let c = E (xor_bytes (take BlockSize p) iv) in c @ cbc_encrypt E c (drop BlockSize p))"
  by pat_completeness auto
termination
  by (relation "measure (\<lambda>(E, iv, p). length p)") (auto simp: BlockSize_def)

function cbc_decrypt :: "(bytes \<Rightarrow> bytes) \<Rightarrow> bytes \<Rightarrow> bytes \<Rightarrow> bytes" where
  "cbc_decrypt D iv c =
     (if length c < BlockSize then []
      else xor_bytes (D (take BlockSize c)) iv @ cbc_decrypt D (take BlockSize c) (drop BlockSize c))"
  by pat_completeness auto
termination
  by (relation "measure (\<lambda>(D, iv, c). length c)") (auto simp: BlockSize_def)

declare cbc_encrypt.simps [simp del] cbc_decrypt.simps [simp del]

definition encryptCBC :: "primitives \<Rightarrow> bytes \<Rightarrow> bytes \<Rightarrow> bytes \<Rightarrow> inform_error + bytes" where
  "encryptCBC P key iv plain =
     rbind (newCipher key) (\<lambda>k.
       let pad = BlockSize - length plain mod BlockSize;
           padded = plain @ replicate pad (word_of_nat pad)
       in Inr (cbc_encrypt (aes_encrypt P k) iv padded))"

definition decryptCBC :: "primitives \<Rightarrow> bytes \<Rightarrow> bytes \<Rightarrow> bytes \<Rightarrow> inform_error + bytes" where
  "decryptCBC P key iv ct =
     rbind (newCipher key) (\<lambda>k.
       if length ct = 0 \<or> length ct mod BlockSize \<noteq> 0 then Inl NotBlockAligned
       else
         (let out = cbc_decrypt (aes_decrypt P k) iv ct;
              pad = unat (last out) in
          if pad = 0 \<or> pad > BlockSize \<or> pad > length out then Inl BadPadding
          else if \<exists>b \<in> set (drop (length out - pad) out). unat b \<noteq> pad then Inl BadPadding
          else Inr (take (length out - pad) out)))"

section \<open>GCM\<close>

definition newGCM :: "bytes \<Rightarrow> inform_error + bytes" where
  "newGCM key = newCipher key"

definition encryptGCM :: "primitives \<Rightarrow> bytes \<Rightarrow> bytes \<Rightarrow> bytes \<Rightarrow> bytes \<Rightarrow> inform_error + bytes" where
  "encryptGCM P key iv aad plain = rbind (newGCM key) (\<lambda>k. Inr (gcm_seal P k iv aad plain))"

definition decryptGCM :: "primitives \<Rightarrow> bytes \<Rightarrow> bytes \<Rightarrow> bytes \<Rightarrow> bytes \<Rightarrow> inform_error + bytes" where
  "decryptGCM P key iv aad ct =
     rbind (newGCM key) (\<lambda>k. case gcm_open P k iv aad ct of
        None \<Rightarrow> Inl GCMAuthFailed | Some p \<Rightarrow> Inr p)"

section \<open>Lemmas\<close>

lemma ParseKey_length: "ParseKey s = Inr k \<Longrightarrow> length k = 16 \<and> length s = 32"
  by (auto simp: ParseKey_def dest: length_hex_decode split: option.splits if_splits)

lemma ParseKey_encode: "length k = 16 \<Longrightarrow> ParseKey (hex_encode k) = Inr k"
  by (simp add: ParseKey_def)

lemma newCipher_16 [simp]: "length k = 16 \<Longrightarrow> newCipher k = Inr k"
  by (simp add: newCipher_def)

lemma length_xor_bytes [simp]: "length (xor_bytes a b) = min (length a) (length b)"
  by (simp add: xor_bytes_def)

lemma xor_bytes_cancel: "length a = length b \<Longrightarrow> xor_bytes (xor_bytes a b) b = a"
  by (induction a b rule: list_induct2) (simp_all add: xor_bytes_def xor.assoc)

lemma cbc_encrypt_done: "length p < BlockSize \<Longrightarrow> cbc_encrypt E iv p = []"
  by (subst cbc_encrypt.simps) simp

lemma cbc_encrypt_step:
  "BlockSize \<le> length p \<Longrightarrow> cbc_encrypt E iv p =
     (let c = E (xor_bytes (take BlockSize p) iv) in c @ cbc_encrypt E c (drop BlockSize p))"
  by (subst cbc_encrypt.simps) (simp add: not_less)

lemma block_induct [consumes 1, case_names short step]:
  assumes "length (p :: 'a list) mod BlockSize = 0"
    and short: "\<And>p. length p < BlockSize \<Longrightarrow> length p mod BlockSize = 0 \<Longrightarrow> Q p"
    and step: "\<And>p. BlockSize \<le> length p \<Longrightarrow> length (drop BlockSize p) mod BlockSize = 0 \<Longrightarrow>
           Q (drop BlockSize p) \<Longrightarrow> Q p"
  shows "Q p"
  using assms(1)
proof (induction p rule: length_induct)
  case (1 p)
  show ?case
  proof (cases "length p < BlockSize")
    case True
    then show ?thesis using "1.prems" by (rule short)
  next
    case False
    then have m: "length (drop BlockSize p) mod BlockSize = 0" using "1.prems" by (simp add: le_mod_geq)
    have l: "length (drop BlockSize p) < length p" using False by (simp add: BlockSize_def)
    have q: "Q (drop BlockSize p)" by (rule "1.IH" [rule_format, OF l m])
    have "BlockSize \<le> length p" using False by simp
    then show ?thesis using m q by (rule step)
  qed
qed

definition block_function :: "(bytes \<Rightarrow> bytes) \<Rightarrow> (bytes \<Rightarrow> bytes) \<Rightarrow> bool" where
  "block_function E D \<longleftrightarrow>
     (\<forall>b. length b = BlockSize \<longrightarrow> length (E b) = BlockSize \<and> D (E b) = b)"

lemma cbc_encrypt_decrypt:
  assumes "block_function E D" and "length p mod BlockSize = 0" and "length iv = BlockSize"
  shows "length (cbc_encrypt E iv p) = length p \<and> cbc_decrypt D iv (cbc_encrypt E iv p) = p"
  using assms(2,3)
proof (induction p arbitrary: iv rule: block_induct)
  case (short p)
  then have "p = []" by simp
  then show ?case by (simp add: cbc_encrypt_done cbc_decrypt.simps BlockSize_def)
next
  case (step p)
  let ?x = "xor_bytes (take BlockSize p) iv"
  let ?c = "E ?x"
  have x: "length ?x = BlockSize" using step.hyps(1) step.prems by simp
  then have c: "length ?c = BlockSize" "D ?c = ?x"
    using assms(1) by (simp_all add: block_function_def)
  have e: "cbc_encrypt E iv p = ?c @ cbc_encrypt E ?c (drop BlockSize p)"
    using cbc_encrypt_step [OF step.hyps(1)] by (simp add: Let_def)
  have d: "cbc_decrypt D iv (?c @ r) = xor_bytes (D ?c) iv @ cbc_decrypt D ?c r" for r
    using c(1) by (subst cbc_decrypt.simps) simp
  have "xor_bytes ?x iv = take BlockSize p"
    using step.hyps(1) step.prems by (intro xor_bytes_cancel) simp
  then show ?case using step.IH [OF c(1)] step.hyps(1) by (simp add: e d c)
qed

lemma aes_block_function:
  "primitives_ok P \<Longrightarrow> length k = 16 \<Longrightarrow> block_function (aes_encrypt P k) (aes_decrypt P k)"
  by (simp add: primitives_ok_def block_function_def BlockSize_def)

lemma padded_length: "(n + (BlockSize - n mod BlockSize)) mod BlockSize = 0"
proof -
  have "n mod BlockSize < BlockSize" by (simp add: BlockSize_def)
  then show ?thesis
    by (metis add_diff_inverse_nat mod_add_left_eq mod_self nat_less_le not_less)
qed

lemma encryptCBC_length:
  assumes "primitives_ok P" and "length k = 16" and "length iv = 16"
  shows "\<exists>c. encryptCBC P k iv plain = Inr c \<and>
     length c = length plain + (16 - length plain mod 16)"
proof -
  let ?pad = "BlockSize - length plain mod BlockSize"
  have "length (plain @ replicate ?pad (word_of_nat ?pad)) mod BlockSize = 0"
    using padded_length [of "length plain"] by simp
  from cbc_encrypt_decrypt [OF aes_block_function [OF assms(1,2)] this, of iv]
  show ?thesis using assms by (simp add: encryptCBC_def Let_def BlockSize_def)
qed

lemma decryptCBC_encryptCBC:
  assumes "primitives_ok P" and "length k = 16" and "length iv = 16"
    and "encryptCBC P k iv plain = Inr c"
  shows "decryptCBC P k iv c = Inr plain"
proof -
  define pad where "pad = BlockSize - length plain mod BlockSize"
  define padded where "padded = plain @ replicate pad (word_of_nat pad :: byte)"
  have pad: "0 < pad" "pad \<le> BlockSize" by (simp_all add: pad_def BlockSize_def)
  have c: "c = cbc_encrypt (aes_encrypt P k) iv padded"
    using assms(2,4) by (simp add: encryptCBC_def Let_def pad_def padded_def)
  have m: "length padded mod BlockSize = 0"
    using padded_length [of "length plain"] by (simp add: padded_def pad_def)
  have dec: "length c = length padded" "cbc_decrypt (aes_decrypt P k) iv c = padded"
    using cbc_encrypt_decrypt [OF aes_block_function [OF assms(1,2)] m, of iv] assms(3)
    by (simp_all add: c BlockSize_def)
  have u: "unat (word_of_nat pad :: byte) = pad" using pad by (simp add: unat_of_nat BlockSize_def)
  have l: "unat (last padded) = pad" using pad u by (simp add: padded_def)
  have len: "length padded = length plain + pad" by (simp add: padded_def)
  have parts: "drop (length plain) padded = replicate pad (word_of_nat pad)" "take (length plain) padded = plain"
    by (simp_all add: padded_def)
  show ?thesis using assms(2) pad dec m l len parts u by (simp add: decryptCBC_def Let_def)
qed

lemma decryptGCM_encryptGCM:
  assumes "primitives_ok P" and "length k = 16" and "length iv = 16"
  shows "\<exists>c. encryptGCM P k iv aad plain = Inr c \<and> length c = length plain + 16 \<and>
     decryptGCM P k iv aad c = Inr plain"
  using assms by (simp add: encryptGCM_def decryptGCM_def newGCM_def primitives_ok_def)

end
