(* ===== verification/Inform_Packet.thy ===== *)
theory Inform_Packet
  imports Inform_Crypto
begin

text \<open>
  The TNBU packet (\<^verbatim>\<open>inform/packet.go\<close>): a 40-byte header and an encrypted, compressed
  payload. The initialisation vector that \<^verbatim>\<open>randomIV\<close> draws is an argument. \<^verbatim>\<open>int\<close> is
  64 bits wide, so the length field never reads as negative.
\<close>

definition flagEncrypted :: u16 where "flagEncrypted = 1"
definition flagZlib :: u16 where "flagZlib = 2"
definition flagSnappy :: u16 where "flagSnappy = 4"
definition flagGCM :: u16 where "flagGCM = 8"

definition packetVersion :: u32 where "packetVersion = 1"
definition payloadVersion :: u32 where "payloadVersion = 1"
definition headerLen :: nat where "headerLen = 40"

definition magic :: bytes where
  "magic = bytes_of ''TNBU''"

record packet =
  pkt_MAC :: bytes
  pkt_Payload :: bytes

definition header :: "bytes \<Rightarrow> u16 \<Rightarrow> bytes \<Rightarrow> nat \<Rightarrow> bytes" where
  "header mac flags iv n =
     magic @ put_u32 packetVersion @ mac @ put_u16 flags @ iv @ put_u32 payloadVersion
       @ put_u32 (word_of_nat n)"

definition Encode :: "primitives \<Rightarrow> bytes \<Rightarrow> string \<Rightarrow> packet \<Rightarrow> inform_error + bytes" where
  "Encode P iv keyHex p =
     rbind (ParseKey keyHex) (\<lambda>key.
     rbind (encryptCBC P key iv (zlib_deflate P (pkt_Payload p))) (\<lambda>body.
       Inr (header (pkt_MAC p) (flagEncrypted OR flagZlib) iv (length body) @ body)))"

definition EncodeGCM :: "primitives \<Rightarrow> bytes \<Rightarrow> string \<Rightarrow> packet \<Rightarrow> inform_error + bytes" where
  "EncodeGCM P iv keyHex p =
     rbind (ParseKey keyHex) (\<lambda>key.
       let plain = zlib_deflate P (pkt_Payload p);
           head = header (pkt_MAC p) (flagEncrypted OR flagZlib OR flagGCM) iv (length plain + 16)
       in rbind (encryptGCM P key iv head plain) (\<lambda>body. Inr (head @ body)))"

text \<open>The two switches of \<^verbatim>\<open>Decode\<close>: decryption, then decompression.\<close>

definition decrypt_body :: "primitives \<Rightarrow> u16 \<Rightarrow> bytes \<Rightarrow> bytes \<Rightarrow> bytes \<Rightarrow> bytes \<Rightarrow> inform_error + bytes" where
  "decrypt_body P flags key iv aad body =
     (if flags AND flagEncrypted = 0 then Inr body
      else if flags AND flagGCM \<noteq> 0 then
        (case decryptGCM P key iv aad body of Inl e \<Rightarrow> Inl (GcmError e) | Inr p \<Rightarrow> Inr p)
      else (case decryptCBC P key iv body of Inl e \<Rightarrow> Inl (CbcError e) | Inr p \<Rightarrow> Inr p))"

definition decompress :: "primitives \<Rightarrow> u16 \<Rightarrow> bytes \<Rightarrow> inform_error + bytes" where
  "decompress P flags plain =
     (if flags AND flagSnappy \<noteq> 0 then
        (case snappy_decode P plain of None \<Rightarrow> Inl SnappyError | Some p \<Rightarrow> Inr p)
      else if flags AND flagZlib \<noteq> 0 then
        (case zlib_inflate P plain of None \<Rightarrow> Inl ZlibError | Some p \<Rightarrow> Inr p)
      else Inr plain)"

definition Decode :: "primitives \<Rightarrow> bytes \<Rightarrow> string \<Rightarrow> inform_error + packet" where
  "Decode P data keyHex =
     (if length data < headerLen then Inl (PacketTooShort (length data))
      else if take 4 data \<noteq> magic then Inl (BadMagic (take 4 data))
      else rbind (ParseKey keyHex) (\<lambda>key.
        let mac = take 6 (drop 8 data);
            flags = get_u16 (drop 14 data);
            iv = take 16 (drop 16 data);
            n = unat (get_u32 (drop 36 data))
        in if n > length data - headerLen then Inl (PayloadLengthExceeds n (length data))
           else
             rbind (decrypt_body P flags key iv (take headerLen data) (take n (drop headerLen data)))
               (\<lambda>plain. rbind (decompress P flags plain)
               (\<lambda>plain. Inr \<lparr>pkt_MAC = mac, pkt_Payload = plain\<rparr>))))"

section \<open>Lemmas\<close>

lemma length_magic [simp]: "length magic = 4"
  by (simp add: magic_def)

lemma length_header [simp]:
  "length mac = 6 \<Longrightarrow> length iv = 16 \<Longrightarrow> length (header mac flags iv n) = headerLen"
  by (simp add: header_def headerLen_def)

text \<open>The fields of a header, read at the offsets the decoder uses\<close>

lemma header_fields:
  assumes "length mac = 6" and "length iv = 16"
    and "d = header mac flags iv n @ rest"
  shows "take 4 d = magic" and "take 6 (drop 8 d) = mac" and "get_u16 (drop 14 d) = flags"
    and "take 16 (drop 16 d) = iv" and "get_u32 (drop 36 d) = word_of_nat n"
    and "take headerLen d = header mac flags iv n" and "drop headerLen d = rest"
  using assms by (simp_all add: header_def headerLen_def)

lemma Decode_header:
  assumes "length mac = 6" and "length iv = 16" and "ParseKey keyHex = Inr key"
    and "n < 2 ^ 32" and "n \<le> length rest"
  shows "Decode P (header mac flags iv n @ rest) keyHex =
     rbind (decrypt_body P flags key iv (header mac flags iv n) (take n rest))
       (\<lambda>plain. rbind (decompress P flags plain)
       (\<lambda>plain. Inr \<lparr>pkt_MAC = mac, pkt_Payload = plain\<rparr>))"
proof -
  have n: "unat (word_of_nat n :: u32) = n" using assms(4) by (simp add: unat_of_nat)
  show ?thesis
    using assms(3,5) header_fields [OF assms(1,2) refl, of flags n rest] length_header [OF assms(1,2), of flags n]
    by (simp add: Decode_def n Let_def del: length_header)
qed

lemma flag_tests:
  "flagEncrypted \<noteq> 0" "flagZlib \<noteq> 0" "flagGCM \<noteq> 0"
  "(flagEncrypted OR flagZlib) AND flagEncrypted \<noteq> 0"
  "(flagEncrypted OR flagZlib) AND flagGCM = 0"
  "(flagEncrypted OR flagZlib) AND flagSnappy = 0"
  "(flagEncrypted OR flagZlib) AND flagZlib \<noteq> 0"
  "(flagEncrypted OR flagZlib OR flagGCM) AND flagEncrypted \<noteq> 0"
  "(flagEncrypted OR flagZlib OR flagGCM) AND flagGCM \<noteq> 0"
  "(flagEncrypted OR flagZlib OR flagGCM) AND flagSnappy = 0"
  "(flagEncrypted OR flagZlib OR flagGCM) AND flagZlib \<noteq> 0"
  by (simp_all add: flagEncrypted_def flagZlib_def flagGCM_def flagSnappy_def)

lemma inflate_deflate: "primitives_ok P \<Longrightarrow> zlib_inflate P (zlib_deflate P p) = Some p"
  by (simp add: primitives_ok_def)

lemma Decode_Encode:
  assumes P: "primitives_ok P" and mac: "length (pkt_MAC p) = 6" and iv: "length iv = 16"
    and small: "length (zlib_deflate P (pkt_Payload p)) < 2 ^ 32 - 16"
    and enc: "Encode P iv keyHex p = Inr out"
  shows "Decode P (out @ junk) keyHex = Inr p"
proof -
  let ?plain = "zlib_deflate P (pkt_Payload p)"
  obtain key body where key: "ParseKey keyHex = Inr key"
    and body: "encryptCBC P key iv ?plain = Inr body"
    and out: "out = header (pkt_MAC p) (flagEncrypted OR flagZlib) iv (length body) @ body"
    using enc by (auto simp: Encode_def go_result)
  have k: "length key = 16" using ParseKey_length [OF key] by simp
  have "length body < 2 ^ 32"
    using encryptCBC_length [OF P k iv, of ?plain] body small by auto
  then have "Decode P (out @ junk) keyHex =
      rbind (decrypt_body P (flagEncrypted OR flagZlib) key iv
               (header (pkt_MAC p) (flagEncrypted OR flagZlib) iv (length body)) body)
       (\<lambda>plain. rbind (decompress P (flagEncrypted OR flagZlib) plain)
       (\<lambda>plain. Inr \<lparr>pkt_MAC = pkt_MAC p, pkt_Payload = plain\<rparr>))"
    using Decode_header [OF mac iv key, of "length body" "body @ junk"] by (simp add: out)
  also have "\<dots> = Inr p"
    using decryptCBC_encryptCBC [OF P k iv body] inflate_deflate [OF P]
    by (simp add: decrypt_body_def decompress_def flag_tests)
  finally show ?thesis .
qed

lemma Decode_EncodeGCM:
  assumes P: "primitives_ok P" and mac: "length (pkt_MAC p) = 6" and iv: "length iv = 16"
    and small: "length (zlib_deflate P (pkt_Payload p)) < 2 ^ 32 - 16"
    and enc: "EncodeGCM P iv keyHex p = Inr out"
  shows "Decode P (out @ junk) keyHex = Inr p"
proof -
  let ?plain = "zlib_deflate P (pkt_Payload p)"
  let ?flags = "flagEncrypted OR flagZlib OR flagGCM"
  let ?head = "header (pkt_MAC p) ?flags iv (length ?plain + 16)"
  obtain key body where key: "ParseKey keyHex = Inr key"
    and body: "encryptGCM P key iv ?head ?plain = Inr body" and out: "out = ?head @ body"
    using enc by (auto simp: EncodeGCM_def Let_def go_result)
  have k: "length key = 16" using ParseKey_length [OF key] by simp
  have gcm: "length body = length ?plain + 16" "decryptGCM P key iv ?head body = Inr ?plain"
    using decryptGCM_encryptGCM [OF P k iv, of ?head ?plain] body by auto
  have "Decode P (out @ junk) keyHex =
      rbind (decrypt_body P ?flags key iv ?head body)
       (\<lambda>plain. rbind (decompress P ?flags plain)
       (\<lambda>plain. Inr \<lparr>pkt_MAC = pkt_MAC p, pkt_Payload = plain\<rparr>))"
    using Decode_header [OF mac iv key, of "length ?plain + 16" "body @ junk"] small gcm(1)
    by (simp add: out)
  also have "\<dots> = Inr p"
    using gcm(2) inflate_deflate [OF P] by (simp add: decrypt_body_def decompress_def flag_tests)
  finally show ?thesis .
qed

lemma Encode_succeeds:
  assumes "primitives_ok P" and "ParseKey keyHex = Inr key" and "length iv = 16"
  shows "\<exists>out. Encode P iv keyHex p = Inr out" and "\<exists>out. EncodeGCM P iv keyHex p = Inr out"
proof -
  have k: "length key = 16" using ParseKey_length [OF assms(2)] by simp
  show "\<exists>out. Encode P iv keyHex p = Inr out"
    using encryptCBC_length [OF assms(1) k assms(3), of "zlib_deflate P (pkt_Payload p)"] assms(2)
    by (auto simp: Encode_def)
  let ?plain = "zlib_deflate P (pkt_Payload p)"
  obtain c where "encryptGCM P key iv (header (pkt_MAC p) (flagEncrypted OR flagZlib OR flagGCM) iv
      (length ?plain + 16)) ?plain = Inr c"
    using decryptGCM_encryptGCM [OF assms(1) k assms(3)] by blast
  then show "\<exists>out. EncodeGCM P iv keyHex p = Inr out"
    using assms(2) by (simp add: EncodeGCM_def Let_def)
qed

end
