(* ===== verification/Inform_Session.thy ===== *)
theory Inform_Session
  imports Inform_Tables Inform_Packet
begin

text \<open>
  The device-side inform protocol state machine (\<^verbatim>\<open>inform/session.go\<close>): the session, the
  payload it reports, and \<^verbatim>\<open>Apply\<close>, which advances it by one controller reply. Times and
  durations are nanoseconds. The session's clock readings are arguments, as in the source; uptimes
  are below $2^{23}$ seconds, where the detour of \<^verbatim>\<open>Duration.Seconds\<close> through floating point
  does not change the whole seconds.
\<close>

section \<open>State\<close>

record session =
  s_desc :: descriptor
  s_macHeader :: bytes
  s_key :: string
  s_cfgversion :: string
  s_adopted :: bool
  s_useAESGCM :: bool
  s_informURL :: string
  s_setstate :: gomap
  s_bootTime :: int

definition NewSession :: "descriptor \<Rightarrow> string \<Rightarrow> int \<Rightarrow> session" where
  "NewSession desc informURL now =
     \<lparr>s_desc = desc, s_macHeader = macHeader (desc_MAC desc), s_key = DefaultKey,
      s_cfgversion = ''0'', s_adopted = False, s_useAESGCM = False, s_informURL = informURL,
      s_setstate = [], s_bootTime = now\<rparr>"

definition AuthKey :: "session \<Rightarrow> string" where "AuthKey s = s_key s"
definition InformURL :: "session \<Rightarrow> string" where "InformURL s = s_informURL s"
definition Adopted :: "session \<Rightarrow> bool" where "Adopted s = s_adopted s"
definition UseAESGCM :: "session \<Rightarrow> bool" where "UseAESGCM s = s_useAESGCM s"

section \<open>The payload\<close>

definition nanos :: int where "nanos = 10 ^ 9"

text \<open>\<^verbatim>\<open>int64(now.Sub(bootTime).Seconds())\<close>\<close>

definition trunc_seconds :: "int \<Rightarrow> int" where
  "trunc_seconds d = sgn d * (\<bar>d\<bar> div nanos)"

abbreviation jobj :: "gomap \<Rightarrow> json" where "jobj \<equiv> json_object"
abbreviation jrows :: "gomap list \<Rightarrow> json" where "jrows ms \<equiv> JArr (map json_object ms)"
abbreviation mput :: "string \<Rightarrow> json \<Rightarrow> gomap \<Rightarrow> gomap" where "mput \<equiv> AList.update"

definition base_payload :: "session \<Rightarrow> int \<Rightarrow> gomap" where
  "base_payload s now =
     [(''mac'', jstr (desc_MAC (s_desc s))), (''serial'', jstr (desc_Serial (s_desc s))),
      (''model'', jstr (desc_Model (s_desc s))),
      (''model_display'', jstr (desc_ModelDisplay (s_desc s))),
      (''version'', jstr (desc_Version (s_desc s))), (''ip'', jstr (desc_IP (s_desc s))),
      (''hostname'', jstr (desc_Hostname (s_desc s))), (''inform_url'', jstr (s_informURL s)),
      (''uptime'', jint (trunc_seconds (now - s_bootTime s))), (''time'', jint (now div nanos)),
      (''cfgversion'', jstr (s_cfgversion s)), (''x_authkey'', jstr (s_key s)),
      (''default'', JBool (\<not> s_adopted s)), (''_default_key'', JBool (\<not> s_adopted s)),
      (''state'', jint 1), (''fw_caps'', jint (desc_FWCaps (s_desc s))),
      (''isolated'', JBool False), (''locating'', JBool False), (''selfrun_beacon'', JBool True)]"

definition udapi_payload :: "descriptor \<Rightarrow> gomap \<Rightarrow> gomap" where
  "udapi_payload desc m =
     (if desc_UDAPIVersion desc \<noteq> [] then
        mput ''udapi_caps'' (jint (desc_UDAPICaps desc))
          (mput ''udapi_version'' (jobj [(''version'', jstr (desc_UDAPIVersion desc))]) m)
      else m)"

definition adopted_payload :: "descriptor \<Rightarrow> int \<Rightarrow> gomap \<Rightarrow> gomap" where
  "adopted_payload desc uptime m =
     (let m = mput ''state'' (jint 4) m;
          m = mput ''bootrom_version'' (jstr ''unknown'') m;
          m = mput ''sys_stats'' (jobj [(''cpu'', JNum ''1.5''), (''mem_total'', jint 134217728),
                (''mem_used'', jint 67108864), (''mem_buffer'', jint 16777216)]) m
      in if desc_Type desc = ''ugw'' \<or> desc_Type desc = ''uxg'' then
           mput ''uplink'' (jobj [(''name'', jstr ''eth0''), (''num_port'', jint 1),
               (''ip'', jstr (desc_IP desc)), (''mac'', jstr (desc_MAC desc)),
               (''type'', jstr ''wire''), (''up'', JBool True), (''speed'', jint 1000),
               (''max_speed'', jint 1000), (''full_duplex'', JBool True),
               (''rx_bytes'', jint 0), (''tx_bytes'', jint 0)])
           (mput ''netmask'' (jstr ''255.255.255.0'')
           (mput ''config_network_wan'' (jobj [(''type'', jstr ''dhcp'')])
           (mput ''system-stats'' (jobj [(''cpu'', jstr ''1.5''), (''mem'', jstr ''50.0''),
               (''uptime'', jstr (itoa uptime))]) m)))
         else if desc_Type desc = ''usw'' then
           mput ''ethernet_table'' (jrows (ethernetTable desc))
           (mput ''port_table'' (jrows (portTable desc)) m)
         else if desc_Type desc = ''uap'' then
           mput ''port_table'' (jrows (portTable desc))
           (mput ''ethernet_table'' (jrows (ethernetTable desc))
           (mput ''vap_table'' (jrows (vapTable desc))
           (mput ''radio_table_stats'' (jrows (radioTableStats desc))
           (mput ''radio_table'' (jrows (radioTable desc)) m))))
         else m)"

text \<open>The members of the payload, and its text: the stored configuration overlays the rest.\<close>

definition payload_map :: "session \<Rightarrow> int \<Rightarrow> gomap" where
  "payload_map s now =
     (let m = udapi_payload (s_desc s) (base_payload s now);
          m = (if s_adopted s
               then adopted_payload (s_desc s) (trunc_seconds (now - s_bootTime s)) m else m)
      in fold (\<lambda>(k, v). mput k (compact v)) (s_setstate s) m)"

definition BuildPayload :: "session \<Rightarrow> int \<Rightarrow> string" where
  "BuildPayload s now = json_text (json_object (payload_map s now))"

definition EncodeInform :: "primitives \<Rightarrow> bytes \<Rightarrow> session \<Rightarrow> int \<Rightarrow> inform_error + bytes" where
  "EncodeInform P iv s now =
     (let pkt = \<lparr>pkt_MAC = s_macHeader s, pkt_Payload = bytes_of (BuildPayload s now)\<rparr>
      in if s_useAESGCM s then EncodeGCM P iv (s_key s) pkt else Encode P iv (s_key s) pkt)"

section \<open>Replies\<close>

record informResponse =
  r_Type :: string
  r_Cmd :: string
  r_Key :: string
  r_URI :: string
  r_Interval :: int
  r_MgmtCfg :: string
  r_Cfgversion :: string
  r_Version :: string

definition empty_response :: informResponse where
  "empty_response = \<lparr>r_Type = [], r_Cmd = [], r_Key = [], r_URI = [], r_Interval = 0,
     r_MgmtCfg = [], r_Cfgversion = [], r_Version = []\<rparr>"

definition response_fields :: "string list" where
  "response_fields = [''_type'', ''cmd'', ''key'', ''uri'', ''interval'', ''mgmt_cfg'',
     ''cfgversion'', ''version'']"

definition set_response_field :: "string \<Rightarrow> json \<Rightarrow> informResponse \<Rightarrow> json_error + informResponse" where
  "set_response_field f v r =
     (if f = ''_type'' then rbind (dec_string f (r_Type r) v) (\<lambda>x. Inr (r\<lparr>r_Type := x\<rparr>))
      else if f = ''cmd'' then rbind (dec_string f (r_Cmd r) v) (\<lambda>x. Inr (r\<lparr>r_Cmd := x\<rparr>))
      else if f = ''key'' then rbind (dec_string f (r_Key r) v) (\<lambda>x. Inr (r\<lparr>r_Key := x\<rparr>))
      else if f = ''uri'' then rbind (dec_string f (r_URI r) v) (\<lambda>x. Inr (r\<lparr>r_URI := x\<rparr>))
      else if f = ''interval'' then rbind (dec_int f (r_Interval r) v) (\<lambda>x. Inr (r\<lparr>r_Interval := x\<rparr>))
      else if f = ''mgmt_cfg'' then rbind (dec_string f (r_MgmtCfg r) v) (\<lambda>x. Inr (r\<lparr>r_MgmtCfg := x\<rparr>))
      else if f = ''cfgversion'' then rbind (dec_string f (r_Cfgversion r) v) (\<lambda>x. Inr (r\<lparr>r_Cfgversion := x\<rparr>))
      else rbind (dec_string f (r_Version r) v) (\<lambda>x. Inr (r\<lparr>r_Version := x\<rparr>)))"

definition decode_response :: "string \<Rightarrow> json_error + informResponse" where
  "decode_response body = unmarshal_struct response_fields set_response_field body empty_response"

text \<open>An effect carries the text or interval of its kind.\<close>

datatype effect =
    AdoptingViaSetAdopt string
  | AdoptingViaMgmtCfg
  | FactoryReset
  | Rebooted
  | Upgraded string
  | Interval int
  | MgmtCfg string
  | UnknownCmd string
  | UnknownType string
  | DecodeError json_error

text \<open>\<^verbatim>\<open>time.Duration(n) * time.Second\<close> wraps at 64 bits.\<close>

definition wrap64 :: "int \<Rightarrow> int" where
  "wrap64 i = (i + 2 ^ 63) mod 2 ^ 64 - 2 ^ 63"

definition applyCmd :: "int \<Rightarrow> informResponse \<Rightarrow> session \<Rightarrow> session \<times> effect list" where
  "applyCmd now r s =
     (if r_Cmd r = ''set-adopt'' \<or> r_Cmd r = ''adopt'' then
        (let s = (if r_Key r \<noteq> [] then s\<lparr>s_key := r_Key r\<rparr> else s);
             s = (if r_URI r \<noteq> [] then s\<lparr>s_informURL := r_URI r\<rparr> else s)
         in (s\<lparr>s_adopted := True\<rparr>, [AdoptingViaSetAdopt (r_URI r)]))
      else if r_Cmd r = ''setdefault'' then
        (s\<lparr>s_adopted := False, s_key := DefaultKey, s_cfgversion := ''0'', s_useAESGCM := False,
           s_setstate := []\<rparr>, [FactoryReset])
      else if r_Cmd r = ''reboot'' then (s\<lparr>s_bootTime := now\<rparr>, [Rebooted])
      else (s, [UnknownCmd (r_Cmd r)]))"

text \<open>The three settings the loop over the lines collects: cfgversion, authkey, use_aes_gcm.\<close>

record mgmt =
  m_cfgversion :: string
  m_authkey :: string
  m_useAESGCM :: string

definition mgmt_line :: "string \<Rightarrow> mgmt \<Rightarrow> mgmt" where
  "mgmt_line line m =
     (case cut_at CHR ''='' (trim_space line) of
        (k, v, ok) \<Rightarrow>
          if \<not> ok then m
          else if k = ''cfgversion'' then m\<lparr>m_cfgversion := v\<rparr>
          else if k = ''authkey'' then m\<lparr>m_authkey := v\<rparr>
          else if k = ''use_aes_gcm'' then m\<lparr>m_useAESGCM := v\<rparr>
          else m)"

definition parse_mgmt :: "string \<Rightarrow> mgmt" where
  "parse_mgmt cfg =
     fold mgmt_line (split_on CHR 0x0A cfg) \<lparr>m_cfgversion = [], m_authkey = [], m_useAESGCM = []\<rparr>"

definition applySetparam :: "informResponse \<Rightarrow> session \<Rightarrow> session \<times> effect list" where
  "applySetparam r s =
     (let m = parse_mgmt (r_MgmtCfg r);
          s1 = (if m_cfgversion m \<noteq> [] then s\<lparr>s_cfgversion := m_cfgversion m\<rparr> else s);
          rotate = m_authkey m \<noteq> [] \<and> m_authkey m \<noteq> DefaultKey \<and> s_key s1 = DefaultKey;
          s2 = (if rotate then s1\<lparr>s_key := m_authkey m, s_adopted := True\<rparr> else s1);
          s3 = (if m_useAESGCM m \<noteq> [] then
                  (case parse_bool (m_useAESGCM m) of
                     Some enabled \<Rightarrow> s2\<lparr>s_useAESGCM := enabled\<rparr> | None \<Rightarrow> s2)
                else s2)
      in (s3, MgmtCfg (r_MgmtCfg r) # (if rotate then [AdoptingViaMgmtCfg] else [])))"

definition setstate_keys :: "string list" where
  "setstate_keys = [''radio_table'', ''vap_table'', ''port_table'', ''port_overrides'']"

definition copy_key :: "gomap \<Rightarrow> string \<Rightarrow> gomap \<Rightarrow> gomap" where
  "copy_key raw k m = (case map_of raw k of Some v \<Rightarrow> mput k v m | None \<Rightarrow> m)"

definition applySetstate :: "string \<Rightarrow> string \<Rightarrow> session \<Rightarrow> session \<times> effect list" where
  "applySetstate body cfgversion s =
     (case unmarshal_raw_map body of
        Inl e \<Rightarrow> (s, [DecodeError e])
      | Inr raw \<Rightarrow>
          (let s = (if cfgversion \<noteq> [] then s\<lparr>s_cfgversion := cfgversion\<rparr> else s)
           in (s\<lparr>s_setstate := fold (copy_key raw) setstate_keys (s_setstate s)\<rparr>, [])))"

definition apply_response :: "int \<Rightarrow> string \<Rightarrow> informResponse \<Rightarrow> session \<Rightarrow> session \<times> effect list" where
  "apply_response now body r s =
     (if r_Type r = ''cmd'' then applyCmd now r s
      else if r_Type r = ''setparam'' then applySetparam r s
      else if r_Type r = ''setstate'' then applySetstate body (r_Cfgversion r) s
      else if r_Type r = ''noop'' then
        (s, if r_Interval r > 0 then [Interval (wrap64 (r_Interval r * nanos))] else [])
      else if r_Type r = ''upgrade'' then
        (let s = (if r_Version r \<noteq> [] then s\<lparr>s_desc := (s_desc s)\<lparr>desc_Version := r_Version r\<rparr>\<rparr> else s)
         in (s\<lparr>s_bootTime := now\<rparr>, [Upgraded (r_Version r)]))
      else (s, [UnknownType (r_Type r)]))"

definition Apply :: "int \<Rightarrow> string \<Rightarrow> session \<Rightarrow> session \<times> effect list" where
  "Apply now body s =
     (case decode_response body of
        Inl e \<Rightarrow> (s, [DecodeError e])
      | Inr r \<Rightarrow> apply_response now body r s)"

section \<open>What one reply can do\<close>

text \<open>The decoded reply, when it is one.\<close>

lemma Apply_cases:
  obtains e where "decode_response body = Inl e" "Apply now body s = (s, [DecodeError e])"
  | r where "decode_response body = Inr r" "Apply now body s = apply_response now body r s"
  by (cases "decode_response body") (auto simp: Apply_def)

definition adopts :: "effect \<Rightarrow> bool" where
  "adopts e = (case e of AdoptingViaSetAdopt _ \<Rightarrow> True | AdoptingViaMgmtCfg \<Rightarrow> True | _ \<Rightarrow> False)"

definition resets :: "effect \<Rightarrow> bool" where
  "resets e = (e = FactoryReset)"

lemma adopts_simps [simp]:
  "adopts (AdoptingViaSetAdopt u)" "adopts AdoptingViaMgmtCfg" "\<not> adopts FactoryReset"
  "\<not> adopts Rebooted" "\<not> adopts (Upgraded v)" "\<not> adopts (Interval i)" "\<not> adopts (MgmtCfg c)"
  "\<not> adopts (UnknownCmd c)" "\<not> adopts (UnknownType t)" "\<not> adopts (DecodeError e)"
  by (simp_all add: adopts_def)

lemma resets_simps [simp]: "resets e \<longleftrightarrow> e = FactoryReset"
  by (simp add: resets_def)

lemma applyCmd_effects:
  assumes "applyCmd now r s = (s', es)"
  shows "(\<exists>u. es = [AdoptingViaSetAdopt u]) \<and> s_adopted s' \<or>
         es = [FactoryReset] \<and> \<not> s_adopted s' \<or>
         (es = [Rebooted] \<or> (\<exists>c. es = [UnknownCmd c])) \<and> s_adopted s' = s_adopted s"
  using assms by (auto simp: applyCmd_def Let_def split: if_splits)

lemma applySetparam_effects:
  assumes "applySetparam r s = (s', es)"
  shows "es = [MgmtCfg (r_MgmtCfg r), AdoptingViaMgmtCfg] \<and> s_adopted s' \<or>
         es = [MgmtCfg (r_MgmtCfg r)] \<and> s_adopted s' = s_adopted s"
  using assms by (auto simp: applySetparam_def Let_def split: if_splits option.splits)

lemma applySetstate_effects:
  assumes "applySetstate body c s = (s', es)"
  shows "s_adopted s' = s_adopted s \<and> s_key s' = s_key s \<and> (es = [] \<or> (\<exists>e. es = [DecodeError e]))"
  using assms by (auto simp: applySetstate_def Let_def split: if_splits sum.splits)

text \<open>
  Every reply has one of three outcomes for the adoption flag: an adopting effect, after which the
  session is adopted; a reset, after which it is not; neither, and the flag keeps its value.
\<close>

lemma apply_response_effects:
  assumes "apply_response now body r s = (s', es)"
  shows "(\<exists>e \<in> set es. adopts e) \<and> (\<forall>e \<in> set es. \<not> resets e) \<and> s_adopted s' \<or>
         (\<exists>e \<in> set es. resets e) \<and> (\<forall>e \<in> set es. \<not> adopts e) \<and> \<not> s_adopted s' \<or>
         (\<forall>e \<in> set es. \<not> adopts e \<and> \<not> resets e) \<and> s_adopted s' = s_adopted s"
proof -
  consider "r_Type r = ''cmd''" | "r_Type r = ''setparam''" | "r_Type r = ''setstate''"
    | "r_Type r \<notin> {''cmd'', ''setparam'', ''setstate''}" by blast
  then show ?thesis
  proof cases
    case 1
    then show ?thesis using assms applyCmd_effects [of now r s s' es] by (auto simp: apply_response_def)
  next
    case 2
    then show ?thesis using assms applySetparam_effects [of r s s' es] by (auto simp: apply_response_def)
  next
    case 3
    then show ?thesis
      using assms applySetstate_effects [of body "r_Cfgversion r" s s' es] by (auto simp: apply_response_def)
  next
    case 4
    then show ?thesis using assms by (auto simp: apply_response_def Let_def split: if_splits)
  qed
qed

lemma Apply_effects:
  assumes "Apply now body s = (s', es)"
  shows "(\<exists>e \<in> set es. adopts e) \<and> (\<forall>e \<in> set es. \<not> resets e) \<and> s_adopted s' \<or>
         (\<exists>e \<in> set es. resets e) \<and> (\<forall>e \<in> set es. \<not> adopts e) \<and> \<not> s_adopted s' \<or>
         (\<forall>e \<in> set es. \<not> adopts e \<and> \<not> resets e) \<and> s_adopted s' = s_adopted s"
proof (cases rule: Apply_cases [of body now s])
  case (1 e)
  then show ?thesis using assms by simp
next
  case (2 r)
  then show ?thesis using assms apply_response_effects by simp
qed

section \<open>The interface a runtime drives the session through\<close>

text \<open>
  A runtime sees the effects of each reply, never the reply. What it relies on is that the effects
  tell the adoption flag's whole history: then a runtime that folds them into a state of its own
  stays in step with the session.
\<close>

locale adoption_session =
  fixes advance :: "int \<Rightarrow> string \<Rightarrow> 's \<Rightarrow> 's \<times> 'e list"
    and is_adopted :: "'s \<Rightarrow> bool"
    and adopting :: "'e \<Rightarrow> bool"
    and resetting :: "'e \<Rightarrow> bool"
  assumes adopting_adopted: "advance now body s = (s', es) \<Longrightarrow> e \<in> set es \<Longrightarrow> adopting e \<Longrightarrow> is_adopted s'"
    and resetting_unadopted: "advance now body s = (s', es) \<Longrightarrow> e \<in> set es \<Longrightarrow> resetting e \<Longrightarrow> \<not> is_adopted s'"
    and quiet: "advance now body s = (s', es) \<Longrightarrow> \<forall>e \<in> set es. \<not> adopting e \<and> \<not> resetting e \<Longrightarrow>
        is_adopted s' = is_adopted s"
begin

lemma never_both:
  "advance now body s = (s', es) \<Longrightarrow> e \<in> set es \<Longrightarrow> f \<in> set es \<Longrightarrow> adopting e \<Longrightarrow> \<not> resetting f"
  using adopting_adopted resetting_unadopted by blast

lemma adopted_iff:
  assumes "advance now body s = (s', es)"
  shows "is_adopted s' \<longleftrightarrow>
     (\<exists>e \<in> set es. adopting e) \<or> is_adopted s \<and> \<not> (\<exists>e \<in> set es. resetting e)"
  using assms adopting_adopted resetting_unadopted quiet by metis

lemma flag_fold:
  assumes "advance now body s = (s', es)"
    and "\<And>e st. e \<in> set es \<Longrightarrow> adopting e \<Longrightarrow> P (note e st)"
    and "\<And>e st. e \<in> set es \<Longrightarrow> resetting e \<Longrightarrow> \<not> P (note e st)"
    and "\<And>e st. e \<in> set es \<Longrightarrow> \<not> adopting e \<Longrightarrow> \<not> resetting e \<Longrightarrow> P (note e st) = P st"
    and "P st = is_adopted s"
  shows "P (fold note es st) = is_adopted s'"
proof -
  have fold: "P (fold note xs st) = ((\<exists>e \<in> set xs. adopting e) \<or> P st \<and> \<not> (\<exists>e \<in> set xs. resetting e))"
    if "set xs \<subseteq> set es" for xs st
    using that
  proof (induction xs arbitrary: st)
    case (Cons x xs)
    have x: "x \<in> set es" using Cons.prems by simp
    have "\<forall>e \<in> set xs. adopting e \<longrightarrow> \<not> resetting x" "\<forall>e \<in> set xs. resetting e \<longrightarrow> \<not> adopting x"
      using Cons.prems never_both [OF assms(1)] x by auto
    moreover have "P (note x st) = (adopting x \<or> P st \<and> \<not> resetting x)"
      using assms(2-4) [OF x] by blast
    moreover have "P (fold note (x # xs) st) =
        ((\<exists>e \<in> set xs. adopting e) \<or> P (note x st) \<and> \<not> (\<exists>e \<in> set xs. resetting e))"
      using Cons by simp
    ultimately show ?case by auto
  qed simp
  show ?thesis using fold [of es st] adopted_iff [OF assms(1)] assms(5) by simp
qed

end

interpretation inform_session: adoption_session Apply s_adopted adopts resets
proof unfold_locales
  fix now body s s' es e
  assume a: "Apply now body s = (s', es)" "e \<in> set es"
  show "s_adopted s'" if "adopts e" using Apply_effects [OF a(1)] a(2) that by auto
  show "\<not> s_adopted s'" if "resets e" using Apply_effects [OF a(1)] a(2) that by auto
next
  fix now body s s' es
  assume "Apply now body s = (s', es)" "\<forall>e \<in> set es. \<not> adopts e \<and> \<not> resets e"
  then show "s_adopted s' = s_adopted s" using Apply_effects by blast
qed

end
