(* ===== verification/Session_Laws.thy ===== *)
theory Session_Laws
  imports Inform_Session
begin

text \<open>
  What holds of every session a controller can produce: the reachable sessions, their invariant,
  the key-rotation rule, what a factory reset restores, and what the payload tells the controller.
\<close>

section \<open>Reachable sessions\<close>

inductive session_reach :: "descriptor \<Rightarrow> string \<Rightarrow> session \<Rightarrow> bool" for desc url where
  start: "session_reach desc url (NewSession desc url now)"
| reply: "session_reach desc url s \<Longrightarrow> Apply now body s = (s', es) \<Longrightarrow> session_reach desc url s'"

text \<open>The replies of a controller, in order.\<close>

definition session_run :: "(int \<times> string) list \<Rightarrow> session \<Rightarrow> session" where
  "session_run rs s = fold (\<lambda>(now, body) s. fst (Apply now body s)) rs s"

lemma session_run_simps [simp]:
  "session_run [] s = s"
  "session_run ((now, body) # rs) s = session_run rs (fst (Apply now body s))"
  by (simp_all add: session_run_def)

lemma session_run_reach: "session_reach desc url s \<Longrightarrow> session_reach desc url (session_run rs s)"
proof (induction rs arbitrary: s)
  case (Cons r rs)
  obtain now body where r: "r = (now, body)" by (cases r)
  have "session_reach desc url (fst (Apply now body s))"
    by (rule session_reach.reply [OF Cons.prems, of now body]) (rule prod.collapse [symmetric])
  then show ?case using Cons.IH r by simp
qed simp

section \<open>What a stored document is\<close>

lemma rfold_member_values:
  assumes "json_ok (JObj kvs)" and "(k, v) \<in> set kvs"
  shows "json_ok v" and "json_depth v < json_depth (JObj kvs)"
proof -
  show "json_ok v" using assms by (auto simp: list_all_iff)
  have "json_depth v \<le> foldr max (map (\<lambda>(k, v). json_depth v) kvs) 0"
    using assms(2) by (intro foldr_max_ge) force
  then show "json_depth v < json_depth (JObj kvs)" by simp
qed

lemma gomap_ok_fold_update:
  "gomap_ok n m \<Longrightarrow> (\<forall>(k, v) \<in> set kvs. json_ok v \<and> json_depth v \<le> n) \<Longrightarrow>
   gomap_ok n (fold (\<lambda>(k, v). AList.update (f k) v) kvs m)"
  by (induction kvs arbitrary: m) (auto simp: gomap_ok_update)

lemma unmarshal_raw_map_ok:
  assumes "unmarshal_raw_map body = Inr m"
  shows "gomap_ok (max_nesting_depth - 1) m"
proof -
  obtain v where v: "json_parse body = Some v" using assms by (auto simp: unmarshal_raw_map_def split: option.splits)
  show ?thesis
  proof (cases v)
    case (JObj kvs)
    have "json_ok w \<and> json_depth w \<le> max_nesting_depth - 1" if "(k, w) \<in> set kvs" for k w
      using rfold_member_values [of kvs k w] json_parse_sound [OF v] that JObj by simp
    then have "gomap_ok (max_nesting_depth - 1) (fold (\<lambda>(k, v). AList.update (unquote k) v) kvs [])"
      by (intro gomap_ok_fold_update) auto
    then show ?thesis using assms v JObj by (simp add: unmarshal_raw_map_def)
  qed (use assms v in \<open>auto simp: unmarshal_raw_map_def\<close>)
qed

lemma gomap_ok_map_of: "gomap_ok n m \<Longrightarrow> map_of m k = Some v \<Longrightarrow> json_ok v \<and> json_depth v \<le> n"
  by (auto simp: gomap_ok_def dest: map_of_SomeD)

definition stored_ok :: "gomap \<Rightarrow> bool" where
  "stored_ok m \<longleftrightarrow> fst ` set m \<subseteq> set setstate_keys \<and> distinct (map fst m) \<and>
     gomap_ok (max_nesting_depth - 1) m"

lemma stored_ok_Nil [simp]: "stored_ok []"
  by (simp add: stored_ok_def)

lemma stored_ok_copy:
  assumes "stored_ok m" and "gomap_ok (max_nesting_depth - 1) raw" and "set ks \<subseteq> set setstate_keys"
  shows "stored_ok (fold (copy_key raw) ks m)"
  using assms
proof (induction ks arbitrary: m)
  case (Cons k ks)
  have "stored_ok (copy_key raw k m)"
  proof (cases "map_of raw k")
    case (Some v)
    have "gomap_ok (max_nesting_depth - 1) (mput k v m)"
      using Cons.prems gomap_ok_map_of [OF _ Some] by (auto simp: stored_ok_def gomap_ok_update)
    moreover have "fst ` set (mput k v m) = insert k (fst ` set m)"
      using dom_update [of k v m] by simp
    ultimately show ?thesis
      using Cons.prems Some by (auto simp: copy_key_def stored_ok_def distinct_update)
  qed (use Cons.prems in \<open>simp add: copy_key_def\<close>)
  then show ?case using Cons by simp
qed simp

section \<open>The invariant\<close>

definition session_ok :: "descriptor \<Rightarrow> session \<Rightarrow> bool" where
  "session_ok desc s \<longleftrightarrow>
     (\<not> s_adopted s \<longrightarrow> s_key s = DefaultKey) \<and> s_key s \<noteq> [] \<and>
     s_macHeader s = macHeader (desc_MAC desc) \<and>
     s_desc s = desc\<lparr>desc_Version := desc_Version (s_desc s)\<rparr> \<and>
     stored_ok (s_setstate s)"

lemma DefaultKey_nonempty [simp]: "DefaultKey \<noteq> []"
  by (simp add: DefaultKey_def)

lemma applyCmd_ok: "session_ok desc s \<Longrightarrow> session_ok desc (fst (applyCmd now r s))"
  by (simp add: applyCmd_def session_ok_def Let_def)

lemma applySetparam_ok: "session_ok desc s \<Longrightarrow> session_ok desc (fst (applySetparam r s))"
  by (cases "s_adopted s") (simp_all add: applySetparam_def session_ok_def Let_def split: option.splits)

lemma applySetstate_ok:
  assumes "session_ok desc s"
  shows "session_ok desc (fst (applySetstate body c s))"
proof (cases "unmarshal_raw_map body")
  case (Inr raw)
  have "stored_ok (fold (copy_key raw) setstate_keys (s_setstate s))"
    using assms unmarshal_raw_map_ok [OF Inr] by (intro stored_ok_copy) (auto simp: session_ok_def)
  then show ?thesis using assms Inr by (simp add: applySetstate_def session_ok_def)
qed (use assms in \<open>simp add: applySetstate_def\<close>)

lemma descriptor_version_cong: "d = desc\<lparr>desc_Version := x\<rparr> \<Longrightarrow> d\<lparr>desc_Version := y\<rparr> = desc\<lparr>desc_Version := y\<rparr>"
  by simp

lemma apply_response_ok:
  assumes "session_ok desc s"
  shows "session_ok desc (fst (apply_response now body r s))"
proof -
  consider "r_Type r = ''cmd''" | "r_Type r = ''setparam''" | "r_Type r = ''setstate''"
    | "r_Type r \<notin> {''cmd'', ''setparam'', ''setstate''}" by blast
  then show ?thesis
  proof cases
    case 1
    then show ?thesis using assms applyCmd_ok by (simp add: apply_response_def)
  next
    case 2
    then show ?thesis using assms applySetparam_ok by (simp add: apply_response_def)
  next
    case 3
    then show ?thesis using assms applySetstate_ok by (simp add: apply_response_def)
  next
    case 4
    have "s_desc s = desc\<lparr>desc_Version := desc_Version (s_desc s)\<rparr>" using assms by (simp add: session_ok_def)
    from descriptor_version_cong [OF this] show ?thesis
      using assms 4 by (simp add: apply_response_def session_ok_def Let_def)
  qed
qed

lemma Apply_ok: "session_ok desc s \<Longrightarrow> session_ok desc (fst (Apply now body s))"
  by (cases rule: Apply_cases [of body now s]) (simp_all add: apply_response_ok)

lemma NewSession_ok: "session_ok desc (NewSession desc url now)"
  by (simp add: session_ok_def NewSession_def)

lemma reach_ok: "session_reach desc url s \<Longrightarrow> session_ok desc s"
proof (induction rule: session_reach.induct)
  case (start now)
  then show ?case by (rule NewSession_ok)
next
  case (reply s now body s' es)
  then show ?case using Apply_ok [of desc s now body] by simp
qed

section \<open>The payload is a document\<close>

lemma map_of_mput: "map_of (mput k v m) x = (if x = k then Some v else map_of m x)"
  by (simp add: update_conv')

lemma distinct_mput: "distinct (map fst m) \<Longrightarrow> distinct (map fst (mput k v m))"
  by (rule distinct_update)

lemma keys_mput: "fst ` set (mput k v m) = insert k (fst ` set m)"
  using dom_update [of k v m] by simp

lemma gomap_ok_obj: "gomap_ok n m \<Longrightarrow> json_ok (jobj m) \<and> json_depth (jobj m) \<le> Suc n"
  using json_ok_object json_depth_object by blast

lemma json_rows:
  assumes "\<forall>m \<in> set ms. gomap_ok n m"
  shows "json_ok (jrows ms) \<and> json_depth (jrows ms) \<le> Suc (Suc n)"
proof -
  have "foldr max (map json_depth (map jobj ms)) 0 \<le> Suc n"
    using assms by (intro foldr_max_le) (auto simp: json_depth_object)
  then show ?thesis using assms by (auto simp: list_all_iff json_ok_object)
qed

lemma table_rows_ok:
  "\<forall>m \<in> set (portTable d). gomap_ok 1 m" "\<forall>m \<in> set (ethernetTable d). gomap_ok 1 m"
  "\<forall>m \<in> set (radioTable d). gomap_ok 1 m" "\<forall>m \<in> set (radioTableStats d). gomap_ok 1 m"
  by (auto simp: portTable_def port_row_def ethernetTable_def radioTable_def radio_row_def
      radioTableStats_def radio_stats_row_def)

lemma vap_row_ok: "gomap_ok 1 (vap_row mac idx r ssid)"
  by (simp add: vap_row_def)

lemma vap_ssids_ok: "\<forall>m \<in> set (vap_ssids mac r ssids idx). gomap_ok 1 m"
  by (induction ssids arbitrary: idx) (auto simp: vap_row_ok [simplified])

lemma vap_radios_ok: "\<forall>m \<in> set (vap_radios mac ssids rs idx). gomap_ok 1 m"
  using vap_ssids_ok by (induction rs arbitrary: idx) auto

lemmas tables_ok = table_rows_ok [THEN json_rows] vap_radios_ok [THEN json_rows, folded vapTable_def]

text \<open>What every step of the construction keeps\<close>

definition payload_ok :: "nat \<Rightarrow> gomap \<Rightarrow> bool" where
  "payload_ok n m \<longleftrightarrow> gomap_ok n m \<and> distinct (map fst m)"

lemma payload_ok_mput: "payload_ok n m \<Longrightarrow> json_ok v \<Longrightarrow> json_depth v \<le> n \<Longrightarrow> payload_ok n (mput k v m)"
  by (simp add: payload_ok_def gomap_ok_update distinct_mput)

lemma base_payload_ok: "payload_ok 3 (base_payload s now)"
  by (simp add: base_payload_def payload_ok_def)

lemma payload_ok_obj: "payload_ok 3 m \<Longrightarrow> gomap_ok 1 v \<Longrightarrow> payload_ok 3 (mput k (jobj v) m)"
  using gomap_ok_obj [of 1 v] by (intro payload_ok_mput) auto

lemma payload_ok_rows: "payload_ok 3 m \<Longrightarrow> \<forall>r \<in> set rs. gomap_ok 1 r \<Longrightarrow> payload_ok 3 (mput k (jrows rs) m)"
  using json_rows [of rs 1] by (intro payload_ok_mput) auto

lemma payload_ok_scalar:
  "payload_ok 3 m \<Longrightarrow> payload_ok 3 (mput k (jstr x) m)"
  "payload_ok 3 m \<Longrightarrow> payload_ok 3 (mput k (jint i) m)"
  by (simp_all add: payload_ok_mput)

lemma udapi_payload_ok: "payload_ok 3 m \<Longrightarrow> payload_ok 3 (udapi_payload d m)"
  by (simp add: udapi_payload_def payload_ok_scalar payload_ok_obj)

lemma valid_num_cpu: "valid_num ''1.5''"
  by (simp add: valid_num_def num_body_def num_frac_def num_exp_def is_digit_def code_def)

lemma adopted_payload_ok: "payload_ok 3 m \<Longrightarrow> payload_ok 3 (adopted_payload d u m)"
  by (simp add: adopted_payload_def Let_def payload_ok_scalar payload_ok_obj payload_ok_rows
      table_rows_ok [simplified] vap_radios_ok [simplified] vapTable_def valid_num_cpu)

definition overlay :: "gomap \<Rightarrow> gomap \<Rightarrow> gomap" where
  "overlay st m = fold (\<lambda>(k, v). mput k (compact v)) st m"

lemma overlay_ok:
  "payload_ok n m \<Longrightarrow> gomap_ok n st \<Longrightarrow> payload_ok n (overlay st m)"
  unfolding overlay_def
  by (induction st arbitrary: m) (auto simp: payload_ok_mput json_ok_compact)

lemma map_of_overlay:
  "distinct (map fst st) \<Longrightarrow> map_of (overlay st m) k =
     (case map_of st k of Some v \<Rightarrow> Some (compact v) | None \<Rightarrow> map_of m k)"
  unfolding overlay_def
proof (induction st arbitrary: m)
  case (Cons kv st)
  obtain a b where kv: "kv = (a, b)" by (cases kv)
  have "map_of st a = None" using Cons.prems kv by (simp add: map_of_eq_None_iff)
  then show ?case using Cons kv by (cases "k = a") (simp_all add: map_of_mput split: option.split)
qed simp

definition session_payload :: "session \<Rightarrow> int \<Rightarrow> gomap" where
  "session_payload s now =
     (let m = udapi_payload (s_desc s) (base_payload s now)
      in if s_adopted s then adopted_payload (s_desc s) (trunc_seconds (now - s_bootTime s)) m else m)"

lemma payload_map_overlay: "payload_map s now = overlay (s_setstate s) (session_payload s now)"
  by (simp add: payload_map_def overlay_def session_payload_def Let_def)

lemma payload_ok_mono: "payload_ok n m \<Longrightarrow> n \<le> k \<Longrightarrow> payload_ok k m"
  by (auto simp: payload_ok_def intro: gomap_ok_mono)

lemma max_nesting_depth_minus: "max_nesting_depth - 1 = 9999"
  by (simp add: max_nesting_depth_def)

lemma payload_map_ok:
  assumes "stored_ok (s_setstate s)"
  shows "payload_ok (max_nesting_depth - 1) (payload_map s now)"
proof -
  have "payload_ok 3 (session_payload s now)"
    by (simp add: session_payload_def Let_def udapi_payload_ok adopted_payload_ok base_payload_ok)
  then have "payload_ok (max_nesting_depth - 1) (session_payload s now)"
    by (rule payload_ok_mono) (simp add: max_nesting_depth_def)
  then show ?thesis using assms by (simp add: payload_map_overlay overlay_ok stored_ok_def)
qed

section \<open>What the controller reads\<close>

definition ascii_keys :: "gomap \<Rightarrow> bool" where
  "ascii_keys m \<longleftrightarrow> (\<forall>k \<in> fst ` set m. list_all (\<lambda>c. code c < 128) k)"

lemma ascii_keys_mput: "ascii_keys m \<Longrightarrow> list_all (\<lambda>c. code c < 128) k \<Longrightarrow> ascii_keys (mput k v m)"
  by (simp add: ascii_keys_def keys_mput)

lemma ascii_setstate_keys: "k \<in> set setstate_keys \<Longrightarrow> list_all (\<lambda>c. code c < 128) k"
  by (auto simp: setstate_keys_def code_def)

lemma session_payload_ascii: "ascii_keys (session_payload s now)"
proof -
  have "ascii_keys (base_payload s now)" by (simp add: ascii_keys_def base_payload_def code_def)
  then show ?thesis
    by (simp add: session_payload_def udapi_payload_def adopted_payload_def Let_def ascii_keys_mput code_def)
qed

lemma overlay_ascii: "ascii_keys m \<Longrightarrow> fst ` set st \<subseteq> set setstate_keys \<Longrightarrow> ascii_keys (overlay st m)"
  unfolding overlay_def
  by (induction st arbitrary: m) (auto simp: ascii_keys_mput ascii_setstate_keys)

lemma payload_read_back:
  assumes "stored_ok (s_setstate s)"
  shows "\<exists>m. unmarshal_raw_map (BuildPayload s now) = Inr m \<and> map_of m = map_of (payload_map s now)"
proof -
  have ok: "payload_ok (max_nesting_depth - 1) (payload_map s now)" by (rule payload_map_ok [OF assms])
  have "ascii_keys (payload_map s now)"
    unfolding payload_map_overlay
    using assms by (intro overlay_ascii session_payload_ascii) (simp add: stored_ok_def)
  then have "valid_utf8 k" if "k \<in> fst ` set (payload_map s now)" for k
    using that by (auto simp: ascii_keys_def intro: valid_utf8_ascii)
  then show ?thesis
    unfolding BuildPayload_def using ok
    by (intro unmarshal_written_object [where n = "max_nesting_depth - 1"])
      (auto simp: payload_ok_def max_nesting_depth_def)
qed

lemma payload_own_member:
  assumes "stored_ok (s_setstate s)" and "k \<notin> set setstate_keys"
  shows "map_of (payload_map s now) k = map_of (session_payload s now) k"
proof -
  have "map_of (s_setstate s) k = None" using assms by (auto simp: stored_ok_def map_of_eq_None_iff)
  then show ?thesis using assms(1) by (simp add: payload_map_overlay map_of_overlay stored_ok_def)
qed

text \<open>The members that identify the device and tell its adoption state\<close>

definition adopted_keys :: "string list" where
  "adopted_keys = [''state'', ''bootrom_version'', ''sys_stats'', ''uplink'', ''netmask'',
     ''config_network_wan'', ''system-stats'', ''ethernet_table'', ''port_table'', ''vap_table'',
     ''radio_table_stats'', ''radio_table'']"

lemma map_of_mput_other: "x \<noteq> k \<Longrightarrow> map_of (mput k v m) x = map_of m x"
  by (simp add: map_of_mput)

lemma adopted_payload_other:
  "k \<notin> set adopted_keys \<Longrightarrow> map_of (adopted_payload d u m) k = map_of m k"
  by (simp add: adopted_payload_def Let_def map_of_mput_other adopted_keys_def)

lemma adopted_payload_state: "map_of (adopted_payload d u m) ''state'' = Some (jint 4)"
  by (simp add: adopted_payload_def Let_def map_of_mput)

lemma udapi_payload_other:
  "k \<notin> {''udapi_caps'', ''udapi_version''} \<Longrightarrow> map_of (udapi_payload d m) k = map_of m k"
  by (simp add: udapi_payload_def map_of_mput_other)

lemma session_payload_base:
  "k \<notin> set adopted_keys \<Longrightarrow> k \<notin> {''udapi_caps'', ''udapi_version''} \<Longrightarrow>
   map_of (session_payload s now) k = map_of (base_payload s now) k"
  by (simp add: session_payload_def Let_def adopted_payload_other udapi_payload_other)

lemma session_payload_udapi:
  "k \<in> {''udapi_caps'', ''udapi_version''} \<Longrightarrow>
   map_of (session_payload s now) k = map_of (udapi_payload (s_desc s) (base_payload s now)) k"
  by (auto simp: session_payload_def Let_def adopted_payload_other adopted_keys_def)

lemma session_payload_state:
  "map_of (session_payload s now) ''state'' = Some (jint (if s_adopted s then 4 else 1))"
  by (simp add: session_payload_def Let_def adopted_payload_state udapi_payload_other base_payload_def)

lemma base_payload_members:
  "map_of (base_payload s now) ''mac'' = Some (jstr (desc_MAC (s_desc s)))"
  "map_of (base_payload s now) ''serial'' = Some (jstr (desc_Serial (s_desc s)))"
  "map_of (base_payload s now) ''inform_url'' = Some (jstr (s_informURL s))"
  "map_of (base_payload s now) ''cfgversion'' = Some (jstr (s_cfgversion s))"
  "map_of (base_payload s now) ''x_authkey'' = Some (jstr (s_key s))"
  "map_of (base_payload s now) ''default'' = Some (JBool (\<not> s_adopted s))"
  "map_of (base_payload s now) ''_default_key'' = Some (JBool (\<not> s_adopted s))"
  "map_of (base_payload s now) ''udapi_caps'' = None"
  "map_of (base_payload s now) ''udapi_version'' = None"
  by (simp_all add: base_payload_def)

lemma udapi_payload_members:
  "map_of (udapi_payload d m) ''udapi_caps'' =
     (if desc_UDAPIVersion d = [] then map_of m ''udapi_caps'' else Some (jint (desc_UDAPICaps d)))"
  "map_of (udapi_payload d m) ''udapi_version'' =
     (if desc_UDAPIVersion d = [] then map_of m ''udapi_version''
      else Some (jobj [(''version'', jstr (desc_UDAPIVersion d))]))"
  by (simp_all add: udapi_payload_def map_of_mput)

lemmas session_payload_members =
  session_payload_base [of "''mac''", simplified adopted_keys_def, simplified]
  session_payload_base [of "''serial''", simplified adopted_keys_def, simplified]
  session_payload_base [of "''inform_url''", simplified adopted_keys_def, simplified]
  session_payload_base [of "''cfgversion''", simplified adopted_keys_def, simplified]
  session_payload_base [of "''x_authkey''", simplified adopted_keys_def, simplified]
  session_payload_base [of "''default''", simplified adopted_keys_def, simplified]
  session_payload_base [of "''_default_key''", simplified adopted_keys_def, simplified]
  session_payload_udapi [of "''udapi_caps''", simplified]
  session_payload_udapi [of "''udapi_version''", simplified]
  session_payload_state base_payload_members udapi_payload_members

text \<open>Copying keeps the keys of the setstate tables from the last reply that carried them.\<close>

lemma map_of_copy_keys:
  "map_of (fold (copy_key raw) ks m) k =
     (if k \<in> set ks \<and> map_of raw k \<noteq> None then map_of raw k else map_of m k)"
  by (induction ks arbitrary: m) (auto simp: copy_key_def map_of_mput split: option.splits)

section \<open>Concrete data for the witnesses\<close>

definition sample_desc :: descriptor where
  "sample_desc = \<lparr>desc_MAC = ''00:27:22:e0:00:01'', desc_Serial = ''002722E00001'', desc_Model = ''U7PRO'',
     desc_ModelDisplay = ''U7 Pro'', desc_Version = ''8.0.1'', desc_IP = ''10.0.0.5'',
     desc_Hostname = ''UBNT'', desc_Type = ''uap'', desc_FWCaps = 3, desc_UDAPIVersion = [],
     desc_UDAPICaps = 0, desc_Ports = [], desc_Radios = [], desc_SSIDs = []\<rparr>"

definition sample_new :: session where
  "sample_new = NewSession sample_desc ''http://10.0.0.1:8080/inform'' 0"

definition sample_adopt :: string where
  "sample_adopt = ''{\"_type\":\"cmd\",\"cmd\":\"set-adopt\",\"key\":\"00112233445566778899aabbccddeeff\"}''"

definition sample_rotate :: string where
  "sample_rotate = ''{\"_type\":\"setparam\",\"mgmt_cfg\":\"authkey=ffffffffffffffffffffffffffffffff\"}''"

definition sample_reset :: string where
  "sample_reset = ''{\"_type\":\"cmd\",\"cmd\":\"setdefault\"}''"

lemma decode_samples:
  "decode_response sample_adopt =
     Inr (empty_response\<lparr>r_Type := ''cmd'', r_Cmd := ''set-adopt'', r_Key := ''00112233445566778899aabbccddeeff''\<rparr>)"
  "decode_response sample_rotate =
     Inr (empty_response\<lparr>r_Type := ''setparam'', r_MgmtCfg := ''authkey=ffffffffffffffffffffffffffffffff''\<rparr>)"
  "decode_response sample_reset = Inr (empty_response\<lparr>r_Type := ''cmd'', r_Cmd := ''setdefault''\<rparr>)"
  by code_simp+

definition sample_adopted :: session where
  "sample_adopted = fst (Apply 1 sample_adopt sample_new)"

lemma sample_adopted_reach: "session_reach sample_desc ''http://10.0.0.1:8080/inform'' sample_adopted"
  unfolding sample_adopted_def sample_new_def
  by (rule session_reach.reply [OF session_reach.start]) (rule prod.collapse [symmetric])

lemma sample_adopted_simps:
  "s_key sample_adopted = ''00112233445566778899aabbccddeeff''" "s_adopted sample_adopted"
  by (simp_all add: sample_adopted_def sample_new_def Apply_def decode_samples apply_response_def
      applyCmd_def empty_response_def)

section \<open>Properties\<close>

text \<open>A command reply, which may set the key outright; every other reply is bound by the rotation rule.\<close>

definition rekeys :: "string \<Rightarrow> bool" where
  "rekeys body =
     (case decode_response body of
        Inl e \<Rightarrow> False
      | Inr r \<Rightarrow> r_Type r = ''cmd'' \<and> r_Cmd r \<in> {''set-adopt'', ''adopt'', ''setdefault''})"

lemma applySetparam_real_key:
  "s_key s \<noteq> DefaultKey \<Longrightarrow> s_key (fst (applySetparam r s)) = s_key s \<and>
     s_adopted (fst (applySetparam r s)) = s_adopted s"
  by (simp add: applySetparam_def Let_def split: option.splits)

lemma applySetstate_real_key:
  "s_key (fst (applySetstate body c s)) = s_key s \<and> s_adopted (fst (applySetstate body c s)) = s_adopted s"
  by (cases "applySetstate body c s") (auto dest: applySetstate_effects)

lemma Apply_real_key:
  assumes "s_key s \<noteq> DefaultKey" and "\<not> rekeys body"
  shows "s_key (fst (Apply now body s)) = s_key s \<and> s_adopted (fst (Apply now body s)) = s_adopted s"
proof (cases rule: Apply_cases [of body now s])
  case (2 r)
  then have "\<not> (r_Type r = ''cmd'' \<and> r_Cmd r \<in> {''set-adopt'', ''adopt'', ''setdefault''})"
    using assms(2) by (simp add: rekeys_def)
  then have "s_key (fst (applyCmd now r s)) = s_key s \<and> s_adopted (fst (applyCmd now r s)) = s_adopted s"
    if "r_Type r = ''cmd''" using that by (simp add: applyCmd_def)
  then show ?thesis
    using 2 applySetparam_real_key [OF assms(1)] applySetstate_real_key
    by (simp add: apply_response_def Let_def)
qed simp

lemma session_run_real_key:
  "s_key s \<noteq> DefaultKey \<Longrightarrow> \<forall>(now, body) \<in> set rs. \<not> rekeys body \<Longrightarrow>
   s_key (session_run rs s) = s_key s \<and> s_adopted (session_run rs s) = s_adopted s"
proof (induction rs arbitrary: s)
  case (Cons x rs)
  obtain now body where x: "x = (now, body)" by (cases x)
  have "s_key (fst (Apply now body s)) = s_key s \<and> s_adopted (fst (Apply now body s)) = s_adopted s"
    using Cons.prems x by (intro Apply_real_key) auto
  then show ?case using Cons x by simp
qed simp

text \<open>
  C3: the key-rotation rule of \<^verbatim>\<open>Apply\<close>. Once a session holds a key that is not the default
  one, no sequence of replies other than set-adopt, adopt and setdefault commands changes its key or
  its adoption: the authkey of a later mgmt_cfg is ignored (the stuck-adopt-loop bug).
\<close>

theorem real_key_is_kept:
  assumes "AuthKey s \<noteq> DefaultKey" and "\<forall>(now, body) \<in> set rs. \<not> rekeys body"
  shows "AuthKey (session_run rs s) = AuthKey s \<and> Adopted (session_run rs s) = Adopted s"
  using session_run_real_key assms by (simp add: AuthKey_def Adopted_def)

theorem real_key_is_kept_witness:
  "AuthKey (session_run [(2, sample_rotate), (3, sample_rotate)] sample_adopted) =
     ''00112233445566778899aabbccddeeff'' \<and>
   Adopted (session_run [(2, sample_rotate), (3, sample_rotate)] sample_adopted)"
  using real_key_is_kept [of sample_adopted "[(2, sample_rotate), (3, sample_rotate)]"]
  by (simp add: AuthKey_def Adopted_def sample_adopted_simps DefaultKey_def rekeys_def decode_samples
      empty_response_def)

text \<open>
  C4: every session a controller can produce, by any replies, holds the default key exactly as long
  as it has not been adopted with another, never an empty key; its packet header and its identity but
  for the firmware version are those it started with, and it stores nothing but the four tables a
  setstate may provision.
\<close>

theorem reachable_session_ok:
  assumes "session_reach desc url s"
  shows "session_ok desc s"
  using assms by (rule reach_ok)

theorem reachable_session_ok_witness:
  "session_ok sample_desc sample_adopted \<and> s_adopted sample_adopted"
  using reachable_session_ok [OF sample_adopted_reach] sample_adopted_simps by simp

text \<open>
  C7: a setdefault command is a full factory reset: it leaves the session of any reachable state
  as \<^verbatim>\<open>NewSession\<close> makes it for the device's identity, with the inform URL and the boot
  time kept.
\<close>

theorem factory_reset_is_new_session:
  assumes "session_reach desc url s" and "decode_response body = Inr r"
    and "r_Type r = ''cmd''" and "r_Cmd r = ''setdefault''"
  shows "Apply now body s = (NewSession (s_desc s) (InformURL s) (s_bootTime s), [FactoryReset])"
proof -
  have "session_ok desc s" using assms(1) by (rule reach_ok)
  then have "s_macHeader s = macHeader (desc_MAC desc)" "s_desc s = desc\<lparr>desc_Version := desc_Version (s_desc s)\<rparr>"
    by (simp_all add: session_ok_def)
  then have "s_macHeader s = macHeader (desc_MAC (s_desc s))"
    by (metis descriptor.select_convs(1) descriptor.surjective descriptor.update_convs(5))
  then show ?thesis
    using assms(2-4)
    by (simp add: Apply_def apply_response_def applyCmd_def NewSession_def InformURL_def)
qed

theorem factory_reset_is_new_session_witness:
  "Apply 9 sample_reset sample_adopted =
     (NewSession (s_desc sample_adopted) (InformURL sample_adopted) (s_bootTime sample_adopted), [FactoryReset])"
  by (rule factory_reset_is_new_session [OF sample_adopted_reach decode_samples(3)])
    (simp_all add: empty_response_def)

text \<open>
  C6: what the controller reads of a reachable session. The payload is a JSON object that decodes to
  the session's own MAC address, key, inform URL and configuration version; whatever was provisioned,
  it calls the device default exactly while it is not adopted, with state 1 before and 4 after, and
  reports the UDAPI version and capabilities together or not at all.
\<close>

theorem payload_reports_session:
  assumes "session_reach desc url s"
  shows "\<exists>m. unmarshal_raw_map (BuildPayload s now) = Inr m \<and>
     map_of m ''mac'' = Some (jstr (desc_MAC desc)) \<and>
     map_of m ''serial'' = Some (jstr (desc_Serial desc)) \<and>
     map_of m ''x_authkey'' = Some (jstr (AuthKey s)) \<and>
     map_of m ''inform_url'' = Some (jstr (InformURL s)) \<and>
     map_of m ''cfgversion'' = Some (jstr (s_cfgversion s)) \<and>
     map_of m ''default'' = Some (JBool (\<not> Adopted s)) \<and>
     map_of m ''_default_key'' = Some (JBool (\<not> Adopted s)) \<and>
     map_of m ''state'' = Some (jint (if Adopted s then 4 else 1)) \<and>
     map_of m ''udapi_caps'' =
       (if desc_UDAPIVersion desc = [] then None else Some (jint (desc_UDAPICaps desc))) \<and>
     map_of m ''udapi_version'' =
       (if desc_UDAPIVersion desc = [] then None
        else Some (jobj [(''version'', jstr (desc_UDAPIVersion desc))]))"
proof -
  have ok: "session_ok desc s" using assms by (rule reach_ok)
  then have st: "stored_ok (s_setstate s)" and
    d: "s_desc s = desc\<lparr>desc_Version := desc_Version (s_desc s)\<rparr>" by (simp_all add: session_ok_def)
  have same: "desc_MAC (s_desc s) = desc_MAC desc" "desc_Serial (s_desc s) = desc_Serial desc"
    "desc_UDAPIVersion (s_desc s) = desc_UDAPIVersion desc" "desc_UDAPICaps (s_desc s) = desc_UDAPICaps desc"
    by (subst d, simp)+
  obtain m where m: "unmarshal_raw_map (BuildPayload s now) = Inr m"
      "map_of m = map_of (payload_map s now)"
    using payload_read_back [OF st] by blast
  have own: "map_of m k = map_of (session_payload s now) k" if "k \<notin> set setstate_keys" for k
    using m(2) payload_own_member [OF st that] by simp
  show ?thesis
    by (rule exI [of _ m])
      (simp add: m(1) own setstate_keys_def session_payload_members same AuthKey_def InformURL_def Adopted_def)
qed

theorem payload_reports_session_witness:
  "\<exists>m. unmarshal_raw_map (BuildPayload sample_adopted 5) = Inr m \<and>
     map_of m ''default'' = Some (JBool False) \<and>
     map_of m ''x_authkey'' = Some (jstr ''00112233445566778899aabbccddeeff'')"
  using payload_reports_session [OF sample_adopted_reach, of 5]
  by (auto simp: Adopted_def AuthKey_def sample_adopted_simps)

text \<open>
  A provisioned table is echoed. After a setstate reply that carries one of the four tables, the
  payload of the session reports that table as the controller sent it, in compact form, over the
  table the device would build itself.
\<close>

theorem setstate_is_echoed:
  assumes "session_reach desc url s" and "decode_response body = Inr r" and "r_Type r = ''setstate''"
    and "unmarshal_raw_map body = Inr raw" and "k \<in> set setstate_keys" and "map_of raw k = Some v"
  shows "\<exists>m. unmarshal_raw_map (BuildPayload (fst (Apply now body s)) later) = Inr m \<and>
     map_of m k = Some (compact v)"
proof -
  let ?s = "fst (Apply now body s)"
  have "session_ok desc ?s" using Apply_ok [OF reach_ok [OF assms(1)]] .
  then have st: "stored_ok (s_setstate ?s)" by (simp add: session_ok_def)
  have "s_setstate ?s = fold (copy_key raw) setstate_keys (s_setstate s)"
    using assms(2-4) by (simp add: Apply_def apply_response_def applySetstate_def)
  then have "map_of (s_setstate ?s) k = Some v" using assms(5,6) by (simp add: map_of_copy_keys)
  then have "map_of (payload_map ?s later) k = Some (compact v)"
    using st by (simp add: payload_map_overlay map_of_overlay stored_ok_def)
  then show ?thesis using payload_read_back [OF st, of later] by auto
qed

definition sample_setstate :: string where
  "sample_setstate = ''{\"_type\":\"setstate\",\"vap_table\": [ ] }''"

theorem setstate_is_echoed_witness:
  "\<exists>m. unmarshal_raw_map (BuildPayload (fst (Apply 7 sample_setstate sample_adopted)) 8) = Inr m \<and>
     map_of m ''vap_table'' = Some (JArr [])"
proof -
  have r: "decode_response sample_setstate = Inr (empty_response\<lparr>r_Type := ''setstate''\<rparr>)"
    "unmarshal_raw_map sample_setstate = Inr [(''_type'', JStr ''setstate''), (''vap_table'', JArr [])]"
    by code_simp+
  show ?thesis
    using setstate_is_echoed [OF sample_adopted_reach r(1) _ r(2), of "''vap_table''" "JArr []" 7 8]
    by (simp add: setstate_keys_def empty_response_def)
qed

section \<open>The mgmt_cfg text\<close>

text \<open>The settings a controller writes, one per line, and the value the last line for a key gives.\<close>

definition setting_ok :: "string \<times> string \<Rightarrow> bool" where
  "setting_ok kv \<longleftrightarrow> fst kv \<noteq> [] \<and> CHR ''='' \<notin> set (fst kv) \<and> (\<forall>c \<in> set (fst kv @ snd kv). graphic c)"

definition setting_line :: "string \<times> string \<Rightarrow> string" where
  "setting_line kv = fst kv @ CHR ''='' # snd kv"

definition last_setting :: "(string \<times> string) list \<Rightarrow> string \<Rightarrow> string" where
  "last_setting kvs k = (case map_of (rev kvs) k of Some v \<Rightarrow> v | None \<Rightarrow> [])"

lemma graphic_equals: "graphic CHR ''=''"
  by (simp add: graphic_def code_def)

lemma not_graphic_newline: "\<not> graphic CHR 0x0A"
  by (simp add: graphic_def code_def)

lemma setting_line_graphic: "setting_ok kv \<Longrightarrow> c \<in> set (setting_line kv) \<Longrightarrow> graphic c"
  by (auto simp: setting_ok_def setting_line_def graphic_equals)

lemma cut_setting_line:
  assumes "setting_ok kv"
  shows "cut_at CHR ''='' (trim_space (setting_line kv)) = (fst kv, snd kv, True)"
proof -
  have "setting_line kv \<noteq> []" by (simp add: setting_line_def)
  then have "trim_space (setting_line kv) = setting_line kv"
    using setting_line_graphic [OF assms] by (intro trim_space_graphic) auto
  then show ?thesis using assms by (simp add: setting_line_def cut_at_found setting_ok_def)
qed

lemma split_settings:
  assumes "kvs \<noteq> []" and "\<forall>kv \<in> set kvs. setting_ok kv"
  shows "split_on CHR 0x0A (join_with [CHR 0x0A] (map setting_line kvs)) = map setting_line kvs"
  using assms not_graphic_newline setting_line_graphic by (intro split_join) auto

lemma fold_mgmt_lines:
  assumes "\<forall>kv \<in> set kvs. setting_ok kv"
  shows "fold mgmt_line (map setting_line kvs) m =
     \<lparr>m_cfgversion = (case map_of (rev kvs) ''cfgversion'' of Some v \<Rightarrow> v | None \<Rightarrow> m_cfgversion m),
      m_authkey = (case map_of (rev kvs) ''authkey'' of Some v \<Rightarrow> v | None \<Rightarrow> m_authkey m),
      m_useAESGCM = (case map_of (rev kvs) ''use_aes_gcm'' of Some v \<Rightarrow> v | None \<Rightarrow> m_useAESGCM m)\<rparr>"
  using assms
proof (induction kvs rule: rev_induct)
  case (snoc kv kvs)
  have "mgmt_line (setting_line kv) m' =
      (if fst kv = ''cfgversion'' then m'\<lparr>m_cfgversion := snd kv\<rparr>
       else if fst kv = ''authkey'' then m'\<lparr>m_authkey := snd kv\<rparr>
       else if fst kv = ''use_aes_gcm'' then m'\<lparr>m_useAESGCM := snd kv\<rparr> else m')" for m'
    using snoc.prems cut_setting_line by (simp add: mgmt_line_def)
  then show ?case using snoc by (cases kv) simp
qed simp

lemma parse_mgmt_settings:
  assumes "kvs \<noteq> []" and "\<forall>kv \<in> set kvs. setting_ok kv"
  shows "parse_mgmt (join_with [CHR 0x0A] (map setting_line kvs)) =
     \<lparr>m_cfgversion = last_setting kvs ''cfgversion'', m_authkey = last_setting kvs ''authkey'',
      m_useAESGCM = last_setting kvs ''use_aes_gcm''\<rparr>"
  using assms by (simp add: parse_mgmt_def split_settings fold_mgmt_lines last_setting_def cong: option.case_cong)

text \<open>
  Adoption through mgmt_cfg. When the settings are written one per line, the last line of a key
  counts; an authkey other than the default makes a session that still holds the default key adopted
  with that key, a session with a key of its own keeps it, and the configuration version follows.
\<close>

theorem mgmt_cfg_adopts:
  assumes "decode_response body = Inr r" and "r_Type r = ''setparam''"
    and "r_MgmtCfg r = join_with [CHR 0x0A] (map setting_line kvs)"
    and "kvs \<noteq> []" and "\<forall>kv \<in> set kvs. setting_ok kv"
    and "last_setting kvs ''authkey'' \<notin> {[], DefaultKey}"
    and "last_setting kvs ''cfgversion'' \<noteq> []"
  shows "AuthKey (fst (Apply now body s)) =
       (if AuthKey s = DefaultKey then last_setting kvs ''authkey'' else AuthKey s) \<and>
     Adopted (fst (Apply now body s)) = (Adopted s \<or> AuthKey s = DefaultKey) \<and>
     s_cfgversion (fst (Apply now body s)) = last_setting kvs ''cfgversion''"
  using assms parse_mgmt_settings [OF assms(4,5)]
  by (simp add: Apply_def apply_response_def applySetparam_def Let_def AuthKey_def Adopted_def
      split: option.splits)

definition sample_mgmt :: string where
  "sample_mgmt = ''{\"_type\":\"setparam\",\"mgmt_cfg\":\"cfgversion=7f'' @ backslash # ''nauthkey=00ff\"}''"

theorem mgmt_cfg_adopts_witness:
  "AuthKey (fst (Apply 4 sample_mgmt sample_new)) = ''00ff'' \<and> Adopted (fst (Apply 4 sample_mgmt sample_new))"
proof -
  have d: "decode_response sample_mgmt = Inr (empty_response\<lparr>r_Type := ''setparam'',
      r_MgmtCfg := join_with [CHR 0x0A] (map setting_line [(''cfgversion'', ''7f''), (''authkey'', ''00ff'')])\<rparr>)"
    by code_simp
  have "AuthKey (fst (Apply 4 sample_mgmt sample_new)) =
      (if AuthKey sample_new = DefaultKey then last_setting [(''cfgversion'', ''7f''), (''authkey'', ''00ff'')] ''authkey''
       else AuthKey sample_new) \<and>
      Adopted (fst (Apply 4 sample_mgmt sample_new)) = (Adopted sample_new \<or> AuthKey sample_new = DefaultKey) \<and>
      s_cfgversion (fst (Apply 4 sample_mgmt sample_new)) = last_setting [(''cfgversion'', ''7f''), (''authkey'', ''00ff'')] ''cfgversion''"
    by (rule mgmt_cfg_adopts [OF d])
      (simp_all add: empty_response_def setting_ok_def last_setting_def DefaultKey_def graphic_def code_def)
  then show ?thesis by (simp add: sample_new_def NewSession_def AuthKey_def last_setting_def)
qed

section \<open>The inform interval\<close>

lemma wrap64_id: "in_int64 i \<Longrightarrow> wrap64 i = i"
  by (simp add: wrap64_def in_int64_def)

text \<open>
  A noop reply retunes the inform interval. Up to 9223372036 seconds, the most a
  \<^verbatim>\<open>time.Duration\<close> holds, the interval reported is the one the controller asked for;
  a reply that asks for none, or a negative one, changes nothing.
\<close>

theorem noop_interval:
  assumes "decode_response body = Inr r" and "r_Type r = ''noop''" and "r_Interval r \<le> 9223372036"
  shows "Apply now body s = (s, if 0 < r_Interval r then [Interval (r_Interval r * nanos)] else [])"
proof -
  have "in_int64 (r_Interval r * nanos)" if "0 < r_Interval r"
    using assms(3) that by (simp add: in_int64_def nanos_def)
  then show ?thesis using assms by (simp add: Apply_def apply_response_def wrap64_id)
qed

definition sample_noop :: string where
  "sample_noop = ''{\"_type\":\"noop\",\"interval\":5}''"

theorem noop_interval_witness: "Apply 4 sample_noop sample_adopted = (sample_adopted, [Interval 5000000000])"
proof -
  have "decode_response sample_noop = Inr (empty_response\<lparr>r_Type := ''noop'', r_Interval := 5\<rparr>)"
    by code_simp
  from noop_interval [OF this, of 4 sample_adopted] show ?thesis by (simp add: empty_response_def nanos_def)
qed

definition sample_far_noop :: string where
  "sample_far_noop = ''{\"_type\":\"noop\",\"interval\":9223372037}''"

text \<open>
  One second more wraps around. A noop reply that asks for 9223372037 seconds is accepted, and
  the product with \<^verbatim>\<open>time.Second\<close> overflows: the interval reported is negative, on any
  session.
\<close>

theorem noop_interval_overflows:
  "Apply now sample_far_noop s = (s, [Interval (- 9223372036709551616)])"
proof -
  have "decode_response sample_far_noop = Inr (empty_response\<lparr>r_Type := ''noop'', r_Interval := 9223372037\<rparr>)"
  proof -
    have parse: "json_parse sample_far_noop =
        Some (JObj [(''_type'', JStr ''noop''), (''interval'', JNum ''9223372037'')])"
      by code_simp
    have atoi: "atoi ''9223372037'' = Some 9223372037"
      by (simp add: atoi_def dec_nat_def digit_val_def is_digit_def code_def in_int64_def)
    have names: "unquote ''_type'' = ''_type''" "unquote ''interval'' = ''interval''" "unquote ''noop'' = ''noop''"
      by code_simp+
    show ?thesis
      by (simp add: decode_response_def unmarshal_struct_def parse dec_struct_def dec_member_def names
          pick_field_def response_fields_def set_response_field_def dec_string_def dec_int_def atoi
          empty_response_def)
  qed
  then show ?thesis
    by (simp add: Apply_def apply_response_def empty_response_def wrap64_def nanos_def)
qed

section \<open>The packet a session sends\<close>

lemma EncodeInform_decodes:
  assumes P: "primitives_ok P" and s: "length (s_macHeader s) = 6" and key: "ParseKey (s_key s) = Inr key"
    and iv: "length iv = 16" and small: "length (zlib_deflate P (bytes_of (BuildPayload s now))) < 2 ^ 32 - 16"
  shows "\<exists>enc. EncodeInform P iv s now = Inr enc \<and>
     Decode P (enc @ junk) (s_key s) = Inr \<lparr>pkt_MAC = s_macHeader s, pkt_Payload = bytes_of (BuildPayload s now)\<rparr>"
proof -
  let ?pkt = "\<lparr>pkt_MAC = s_macHeader s, pkt_Payload = bytes_of (BuildPayload s now)\<rparr>"
  obtain a b where enc: "Encode P iv (s_key s) ?pkt = Inr a" "EncodeGCM P iv (s_key s) ?pkt = Inr b"
    using Encode_succeeds [OF P key iv] by blast
  have "Decode P (a @ junk) (s_key s) = Inr ?pkt"
    by (rule Decode_Encode [OF P _ iv _ enc(1)]) (use s small in simp_all)
  moreover have "Decode P (b @ junk) (s_key s) = Inr ?pkt"
    by (rule Decode_EncodeGCM [OF P _ iv _ enc(2)]) (use s small in simp_all)
  ultimately show ?thesis using enc by (simp add: EncodeInform_def Let_def)
qed

text \<open>
  C5: a session and its controller understand each other. Whatever mode has been negotiated, CBC or
  GCM, the packet of a reachable session whose key is a key decodes, with the key the session holds,
  to the device's address and to exactly the payload built, whatever follows it in the buffer.
\<close>

theorem inform_packet_decodes:
  assumes "primitives_ok P" and "session_reach desc url s" and "ParseKey (AuthKey s) = Inr key"
    and "length iv = 16" and "length (zlib_deflate P (bytes_of (BuildPayload s now))) < 2 ^ 32 - 16"
  shows "\<exists>enc. EncodeInform P iv s now = Inr enc \<and>
     Decode P (enc @ junk) (AuthKey s) =
       Inr \<lparr>pkt_MAC = macHeader (desc_MAC desc), pkt_Payload = bytes_of (BuildPayload s now)\<rparr>"
proof -
  have "s_macHeader s = macHeader (desc_MAC desc)" using reach_ok [OF assms(2)] by (simp add: session_ok_def)
  then show ?thesis
    using EncodeInform_decodes [OF assms(1) _ _ assms(4,5)] assms(3) by (simp add: AuthKey_def)
qed

text \<open>Primitives that satisfy the laws, for the witness: a cipher that adds the key.\<close>

definition toy_primitives :: primitives where
  "toy_primitives = \<lparr>aes_encrypt = (\<lambda>k b. map2 (+) b k), aes_decrypt = (\<lambda>k b. map2 (-) b k),
     gcm_seal = (\<lambda>k iv aad p. p @ replicate 16 0),
     gcm_open = (\<lambda>k iv aad c. if 16 \<le> length c then Some (take (length c - 16) c) else None),
     zlib_deflate = (\<lambda>p. p), zlib_inflate = Some, snappy_decode = (\<lambda>_. None)\<rparr>"

lemma map2_add_sub: "length b = length k \<Longrightarrow> map2 (-) (map2 (+) b k) k = (b :: bytes)"
  by (induction b k rule: list_induct2) simp_all

lemma toy_primitives_ok: "primitives_ok toy_primitives"
  by (simp add: primitives_ok_def toy_primitives_def map2_add_sub)

lemma length_nat_dec_small: "n < 10 \<Longrightarrow> length (nat_dec n) = 1"
  by (simp add: nat_dec.simps)

lemma length_sample_new: "length (BuildPayload sample_new 5) < 4000"
proof -
  have "payload_map sample_new 5 = base_payload sample_new 5"
    by (simp add: payload_map_def sample_new_def NewSession_def udapi_payload_def sample_desc_def)
  then have "length (BuildPayload sample_new 5) \<le>
      2 + (\<Sum>(k, v)\<leftarrow>base_payload sample_new 5. 4 + 6 * length k + length (json_text v))"
    unfolding BuildPayload_def using length_json_object [of "base_payload sample_new 5"] by simp
  also have "\<dots> < 4000"
    using length_json_scalars(1) [of "desc_MAC sample_desc"] length_json_scalars(1) [of "desc_Serial sample_desc"]
      length_json_scalars(1) [of "desc_Model sample_desc"] length_json_scalars(1) [of "desc_ModelDisplay sample_desc"]
      length_json_scalars(1) [of "desc_Version sample_desc"] length_json_scalars(1) [of "desc_IP sample_desc"]
      length_json_scalars(1) [of "desc_Hostname sample_desc"] length_json_scalars(1) [of "s_informURL sample_new"]
      length_json_scalars(1) [of "''0''"] length_json_scalars(1) [of DefaultKey]
      length_json_scalars(2) [of True] length_json_scalars(2) [of False]
    by (simp add: base_payload_def sample_new_def NewSession_def sample_desc_def length_json_scalars(3)
        trunc_seconds_def nanos_def itoa_def length_nat_dec_small DefaultKey_def)
  finally show ?thesis .
qed

theorem inform_packet_decodes_witness:
  "\<exists>enc. EncodeInform toy_primitives (replicate 16 7) sample_new 5 = Inr enc \<and>
     Decode toy_primitives (enc @ [1, 2]) (AuthKey sample_new) =
       Inr \<lparr>pkt_MAC = macHeader (desc_MAC sample_desc), pkt_Payload = bytes_of (BuildPayload sample_new 5)\<rparr>"
proof (rule inform_packet_decodes [OF toy_primitives_ok])
  show "session_reach sample_desc ''http://10.0.0.1:8080/inform'' sample_new"
    unfolding sample_new_def by (rule session_reach.start)
  have "ParseKey DefaultKey =
      Inr [0xba, 0x86, 0xf2, 0xbb, 0xe1, 0x07, 0xc7, 0xc5, 0x7e, 0xb5, 0xf2, 0x69, 0x07, 0x75, 0xc7, 0x12]"
    by code_simp
  then show "ParseKey (AuthKey sample_new) =
      Inr [0xba, 0x86, 0xf2, 0xbb, 0xe1, 0x07, 0xc7, 0xc5, 0x7e, 0xb5, 0xf2, 0x69, 0x07, 0x75, 0xc7, 0x12]"
    by (simp add: AuthKey_def sample_new_def NewSession_def)
  have "length (BuildPayload sample_new 5) < 4000"
    by (rule length_sample_new)
  then show "length (zlib_deflate toy_primitives (bytes_of (BuildPayload sample_new 5))) < 2 ^ 32 - 16"
    by (simp add: toy_primitives_def)
qed simp

end
