(* ===== verification/Emu_Device.thy ===== *)
theory Emu_Device
  imports Emu_Registry Session_Laws
begin

text \<open>
  One emulated device (\<^verbatim>\<open>device.go\<close>, \<^verbatim>\<open>loop.go\<close>, \<^verbatim>\<open>descriptor.go\<close>): the session
  and the runtime around it. Each section the code runs under the device's lock is one function of
  the device; what it logs is returned, in order. The HTTP exchange is an argument: what became of
  the request that was posted.
\<close>

section \<open>State\<close>

datatype device_state = StatePending | StateAdopting | StateConnected

text \<open>The constants are numbered in the order of adoption.\<close>

fun state_rank :: "device_state \<Rightarrow> nat" where
  "state_rank StatePending = 0"
| "state_rank StateAdopting = 1"
| "state_rank StateConnected = 2"

lemma state_rank_inject: "state_rank a = state_rank b \<longleftrightarrow> a = b"
  by (cases a; cases b) simp_all

instantiation device_state :: linorder
begin

definition less_eq_device_state :: "device_state \<Rightarrow> device_state \<Rightarrow> bool" where
  "less_eq_device_state a b \<longleftrightarrow> state_rank a \<le> state_rank b"

definition less_device_state :: "device_state \<Rightarrow> device_state \<Rightarrow> bool" where
  "less_device_state a b \<longleftrightarrow> state_rank a < state_rank b"

instance
  by standard (auto simp: less_eq_device_state_def less_device_state_def state_rank_inject)

end

fun device_state_string :: "device_state \<Rightarrow> string" where
  "device_state_string StatePending = ''PENDING''"
| "device_state_string StateAdopting = ''ADOPTING''"
| "device_state_string StateConnected = ''CONNECTED''"

record device_spec =
  sp_MAC :: string
  sp_Serial :: string
  sp_Type :: string
  sp_Model :: string
  sp_ModelDisplay :: string
  sp_Version :: string
  sp_Name :: string
  sp_IP :: string
  sp_Ports :: int
  sp_SSIDs :: "string list"
  sp_FWCaps :: "int option"

record device =
  d_spec :: device_spec
  d_session :: session
  d_state :: device_state
  d_interval :: int
  d_lastStatus :: int
  d_statusRun :: int
  d_lastStatusLog :: int
  d_lastMgmt :: string

datatype emu_error =
    UnknownModel string
  | BadMAC string
  | BadMACLength string nat
  | TypeMismatch string string string
  | AddAfterStart
  | DuplicateMAC string
  | AlreadyStarted
  | NoDevices
  | BadInterval int

section \<open>The descriptor (descriptor.go)\<close>

definition resolveSerial :: "device_spec \<Rightarrow> string" where
  "resolveSerial spec =
     (if sp_Serial spec \<noteq> [] then sp_Serial spec
      else to_upper (remove_char CHR '':'' (sp_MAC spec)))"

definition resolveFWCaps :: "device_spec \<Rightarrow> model_profile \<Rightarrow> int" where
  "resolveFWCaps spec profile =
     (case sp_FWCaps spec of
        Some n \<Rightarrow> n
      | None \<Rightarrow> if pf_FWCaps profile \<noteq> 0 then pf_FWCaps profile else PlaceholderFWCaps)"

definition synth_port :: "nat \<Rightarrow> port" where
  "synth_port i =
     \<lparr>port_IfName = ''eth'' @ nat_dec (i - 1), port_Name = ''Port '' @ nat_dec i,
      port_PortIdx = int i, port_Media = ''GE'', port_PoECaps = 0, port_IsUplink = (i = 1)\<rparr>"

definition resolvePorts :: "device_spec \<Rightarrow> model_profile \<Rightarrow> port list" where
  "resolvePorts spec profile =
     (if sp_Ports spec \<le> 0 then pf_Ports profile
      else map synth_port [1 ..< Suc (nat (sp_Ports spec))])"

definition buildDescriptor :: "device_spec \<Rightarrow> model_profile \<Rightarrow> descriptor" where
  "buildDescriptor spec profile =
     \<lparr>desc_MAC = sp_MAC spec, desc_Serial = resolveSerial spec, desc_Model = sp_Model spec,
      desc_ModelDisplay = sp_ModelDisplay spec, desc_Version = sp_Version spec, desc_IP = sp_IP spec,
      desc_Hostname = sp_Name spec, desc_Type = pf_Type profile,
      desc_FWCaps = resolveFWCaps spec profile, desc_UDAPIVersion = pf_UDAPIVersion profile,
      desc_UDAPICaps = pf_UDAPICaps profile, desc_Ports = resolvePorts spec profile,
      desc_Radios = pf_Radios profile, desc_SSIDs = sp_SSIDs spec\<rparr>"

section \<open>A new device\<close>

definition newDevice :: "registry \<Rightarrow> int \<Rightarrow> device_spec \<Rightarrow> string \<Rightarrow> emu_error + device" where
  "newDevice reg now spec informURL =
     (case reg (sp_Model spec) of
        None \<Rightarrow> Inl (UnknownModel (sp_Model spec))
      | Some profile \<Rightarrow>
        (case parse_mac (sp_MAC spec) of
           None \<Rightarrow> Inl (BadMAC (sp_MAC spec))
         | Some hw \<Rightarrow>
           if length hw \<noteq> 6 then Inl (BadMACLength (sp_MAC spec) (length hw))
           else if sp_Type spec \<noteq> [] \<and> sp_Type spec \<noteq> pf_Type profile
             then Inl (TypeMismatch (sp_Type spec) (sp_Model spec) (pf_Type profile))
           else
             (let spec = (if sp_Type spec = [] then spec\<lparr>sp_Type := pf_Type profile\<rparr> else spec);
                  spec = (if sp_ModelDisplay spec = []
                          then spec\<lparr>sp_ModelDisplay := pf_ModelDisplay profile\<rparr> else spec);
                  spec = (if sp_Version spec = [] then spec\<lparr>sp_Version := pf_Version profile\<rparr> else spec);
                  spec = (if sp_Name spec = [] then spec\<lparr>sp_Name := ''UBNT''\<rparr> else spec)
              in Inr \<lparr>d_spec = spec,
                   d_session = NewSession (buildDescriptor spec profile) informURL now,
                   d_state = StatePending, d_interval = 10 * nanos, d_lastStatus = 0,
                   d_statusRun = 0, d_lastStatusLog = 0, d_lastMgmt = []\<rparr>)))"

section \<open>Applying a reply\<close>

datatype device_log =
    LogSetAdopt string
  | LogMgmtAdopt
  | LogFactoryReset
  | LogReboot
  | LogUpgrade string
  | LogUpgradeNoTarget
  | LogMgmt string
  | LogUnknownCmd string
  | LogUnknownType string
  | LogDecodeError json_error
  | LogStill int int int
  | LogNothingQueued int
  | LogFirstStatus int
  | LogStatusAfter int int int
  | LogEncode inform_error
  | LogBuildRequest
  | LogPost string
  | LogReadBody
  | LogBadStatus int bytes
  | LogDecode inform_error
  | LogConnected

text \<open>The body of the loop over the effects\<close>

definition note_effect :: "effect \<Rightarrow> device \<times> device_log list \<Rightarrow> device \<times> device_log list" where
  "note_effect e dl =
     (case dl of (d, logs) \<Rightarrow>
        (case e of
           AdoptingViaSetAdopt url \<Rightarrow> (d\<lparr>d_state := StateAdopting\<rparr>, logs @ [LogSetAdopt url])
         | AdoptingViaMgmtCfg \<Rightarrow> (d\<lparr>d_state := StateAdopting\<rparr>, logs @ [LogMgmtAdopt])
         | FactoryReset \<Rightarrow> (d\<lparr>d_state := StatePending\<rparr>, logs @ [LogFactoryReset])
         | Rebooted \<Rightarrow> (d, logs @ [LogReboot])
         | Upgraded v \<Rightarrow> (d, logs @ [if v \<noteq> [] then LogUpgrade v else LogUpgradeNoTarget])
         | Interval i \<Rightarrow> (d\<lparr>d_interval := i\<rparr>, logs)
         | MgmtCfg t \<Rightarrow>
             (if t \<noteq> d_lastMgmt d then (d\<lparr>d_lastMgmt := t\<rparr>, logs @ [LogMgmt t]) else (d, logs))
         | UnknownCmd c \<Rightarrow> (d, logs @ [LogUnknownCmd c])
         | UnknownType t \<Rightarrow> (d, logs @ [LogUnknownType t])
         | DecodeError err \<Rightarrow> (d, logs @ [LogDecodeError err])))"

definition applyResponse :: "int \<Rightarrow> string \<Rightarrow> device \<Rightarrow> device \<times> device_log list" where
  "applyResponse now body d =
     (case Apply now body (d_session d) of
        (s, es) \<Rightarrow> fold note_effect es (d\<lparr>d_session := s\<rparr>, []))"

section \<open>The inform loop (loop.go)\<close>

definition informStatusHeartbeat :: int where
  "informStatusHeartbeat = 60 * nanos"

definition StatusOK :: int where "StatusOK = 200"
definition StatusNotFound :: int where "StatusNotFound = 404"

definition noteStatus :: "int \<Rightarrow> int \<Rightarrow> device \<Rightarrow> device \<times> device_log list" where
  "noteStatus now status d =
     (let prev = d_lastStatus d; run = d_statusRun d in
      if status = prev then
        (let d = d\<lparr>d_statusRun := run + 1\<rparr>; since = now - d_lastStatusLog d in
         if since < informStatusHeartbeat then (d, [])
         else (d\<lparr>d_lastStatusLog := now\<rparr>, [LogStill status (run + 1) since]))
      else
        (d\<lparr>d_lastStatus := status, d_statusRun := 1, d_lastStatusLog := now\<rparr>,
         [if status = StatusNotFound then LogNothingQueued status
          else if prev = 0 then LogFirstStatus status
          else LogStatusAfter status run prev]))"

text \<open>What became of the request: \<^verbatim>\<open>NewRequest\<close>, \<^verbatim>\<open>Do\<close> and \<^verbatim>\<open>ReadAll\<close>\<close>

datatype exchange =
    BadRequest
  | PostFailed bool
  | ReadFailed
  | Reply int bytes

text \<open>The clock readings of one inform: before encoding, in \<^verbatim>\<open>noteStatus\<close>, in \<^verbatim>\<open>Apply\<close>.\<close>

type_synonym readings = "int \<times> int \<times> int"

definition informOnce ::
  "primitives \<Rightarrow> bytes \<Rightarrow> readings \<Rightarrow> (string \<Rightarrow> bytes \<Rightarrow> exchange) \<Rightarrow> device \<Rightarrow> device \<times> device_log list"
where
  "informOnce P iv clock post d =
     (case clock of (t_encode, t_status, t_apply) \<Rightarrow>
      (let url = InformURL (d_session d); key = AuthKey (d_session d) in
       case EncodeInform P iv (d_session d) t_encode of
         Inl e \<Rightarrow> (d, [LogEncode e])
       | Inr enc \<Rightarrow>
         (case post url enc of
            BadRequest \<Rightarrow> (d, [LogBuildRequest])
          | PostFailed cancelled \<Rightarrow> (d, if cancelled then [] else [LogPost url])
          | ReadFailed \<Rightarrow> (d, [LogReadBody])
          | Reply status body \<Rightarrow>
            (case noteStatus t_status status d of
               (d, logs) \<Rightarrow>
                 if status = StatusNotFound then (d, logs)
                 else if status \<noteq> StatusOK then (d, logs @ [LogBadStatus status body])
                 else if length body = 0 then (d, logs)
                 else
                   (case Decode P body key of
                      Inl e \<Rightarrow> (d, logs @ [LogDecode e])
                    | Inr dec \<Rightarrow>
                      (let wasAdopting = (d_state d = StateAdopting) in
                       case applyResponse t_apply (string_of (pkt_Payload dec)) d of
                         (d, applied) \<Rightarrow>
                           if wasAdopting \<and> Adopted (d_session d) \<and> d_state d = StateAdopting
                           then (d\<lparr>d_state := StateConnected\<rparr>, logs @ applied @ [LogConnected])
                           else (d, logs @ applied)))))))"

section \<open>Lemmas\<close>

text \<open>The state an effect leaves, apart from the rest of the device\<close>

definition effect_state :: "effect \<Rightarrow> device_state \<Rightarrow> device_state" where
  "effect_state e st =
     (if adopts e then StateAdopting else if resets e then StatePending else st)"

lemma note_effect_state: "d_state (fst (note_effect e dl)) = effect_state e (d_state (fst dl))"
  by (cases dl; cases e) (simp_all add: note_effect_def effect_state_def)

lemma note_effect_session: "d_session (fst (note_effect e dl)) = d_session (fst dl) \<and> d_spec (fst (note_effect e dl)) = d_spec (fst dl)"
  by (cases dl; cases e) (simp_all add: note_effect_def)

lemma fold_note_state: "d_state (fst (fold note_effect es dl)) = fold effect_state es (d_state (fst dl))"
  by (induction es arbitrary: dl) (simp_all add: note_effect_state)

lemma fold_note_session:
  "d_session (fst (fold note_effect es dl)) = d_session (fst dl) \<and> d_spec (fst (fold note_effect es dl)) = d_spec (fst dl)"
  by (induction es arbitrary: dl) (simp_all add: note_effect_session)

lemma applyResponse_session:
  "d_session (fst (applyResponse now body d)) = fst (Apply now body (d_session d)) \<and>
   d_spec (fst (applyResponse now body d)) = d_spec d"
  by (simp add: applyResponse_def fold_note_session split: prod.split)

lemma applyResponse_state:
  "d_state (fst (applyResponse now body d)) = fold effect_state (snd (Apply now body (d_session d))) (d_state d)"
  by (simp add: applyResponse_def fold_note_state split: prod.split)

text \<open>The device's view stays in step with the session: the interface's fold lemma, twice.\<close>

lemma applyResponse_in_step:
  assumes "d_state d = StatePending \<longleftrightarrow> \<not> s_adopted (d_session d)"
  shows "d_state (fst (applyResponse now body d)) = StatePending \<longleftrightarrow>
     \<not> s_adopted (d_session (fst (applyResponse now body d)))"
proof -
  obtain s es where a: "Apply now body (d_session d) = (s, es)" by fastforce
  have "(fold effect_state es (d_state d) \<noteq> StatePending) = s_adopted s"
    by (rule inform_session.flag_fold [OF a]) (use assms in \<open>auto simp: effect_state_def\<close>)
  then show ?thesis using a by (auto simp: applyResponse_state applyResponse_session)
qed

lemma noteStatus_frame:
  "d_session (fst (noteStatus now st d)) = d_session d" "d_state (fst (noteStatus now st d)) = d_state d"
  "d_spec (fst (noteStatus now st d)) = d_spec d" "d_interval (fst (noteStatus now st d)) = d_interval d"
  by (simp_all add: noteStatus_def Let_def)

end
