(* ===== verification/Device_Laws.thy ===== *)
theory Device_Laws
  imports Emu_Device
begin

text \<open>
  What holds of every device the emulator can run: its state and its session agree, no stage of the
  adoption is skipped, CONNECTED stands for a finished handshake, and what the status log counts.
\<close>

section \<open>What one inform can do\<close>

text \<open>The exchange that makes the device apply a reply\<close>

definition answered :: "primitives \<Rightarrow> bytes \<Rightarrow> readings \<Rightarrow> (string \<Rightarrow> bytes \<Rightarrow> exchange) \<Rightarrow> device \<Rightarrow> packet option" where
  "answered P iv clock post d =
     (case EncodeInform P iv (d_session d) (fst clock) of
        Inl _ \<Rightarrow> None
      | Inr enc \<Rightarrow>
        (case post (InformURL (d_session d)) enc of
           Reply status body \<Rightarrow>
             if status = StatusOK \<and> body \<noteq> [] then
               (case Decode P body (AuthKey (d_session d)) of Inl _ \<Rightarrow> None | Inr p \<Rightarrow> Some p)
             else None
         | _ \<Rightarrow> None))"

lemma informOnce_unanswered:
  assumes "answered P iv clock post d = None"
  shows "fst (informOnce P iv clock post d) = d \<or>
     (\<exists>t st. fst (informOnce P iv clock post d) = fst (noteStatus t st d))"
proof (cases "EncodeInform P iv (d_session d) (fst clock)")
  case (Inl e)
  then show ?thesis by (cases clock) (simp add: informOnce_def)
next
  case (Inr enc)
  obtain t1 t2 t3 where c: "clock = (t1, t2, t3)" by (cases clock)
  show ?thesis
  proof (cases "post (InformURL (d_session d)) enc")
    case (Reply status body)
    obtain d1 l where n: "noteStatus t2 status d = (d1, l)" by fastforce
    have "fst (informOnce P iv clock post d) = d1"
    proof (cases "status = StatusOK \<and> body \<noteq> []")
      case True
      then obtain e where "Decode P body (AuthKey (d_session d)) = Inl e"
        using assms Inr Reply by (auto simp: answered_def split: sum.splits)
      then show ?thesis using True Inr Reply c n by (simp add: informOnce_def StatusOK_def StatusNotFound_def)
    next
      case False
      then show ?thesis using Inr Reply c n by (auto simp: informOnce_def Let_def)
    qed
    then show ?thesis using n by (metis fst_conv)
  qed (use Inr c in \<open>simp_all add: informOnce_def\<close>)
qed

lemma informOnce_answered:
  assumes "answered P iv (t1, t2, t3) post d = Some p"
  shows "fst (informOnce P iv (t1, t2, t3) post d) =
     (let d1 = fst (noteStatus t2 StatusOK d);
          d2 = fst (applyResponse t3 (string_of (pkt_Payload p)) d1)
      in if d_state d = StateAdopting \<and> Adopted (d_session d2) \<and> d_state d2 = StateAdopting
         then d2\<lparr>d_state := StateConnected\<rparr> else d2)"
proof -
  obtain enc body where e: "EncodeInform P iv (d_session d) t1 = Inr enc"
      "post (InformURL (d_session d)) enc = Reply StatusOK body" "body \<noteq> []"
      "Decode P body (AuthKey (d_session d)) = Inr p"
    using assms by (auto simp: answered_def split: sum.splits exchange.splits if_splits)
  obtain d1 l1 where n: "noteStatus t2 StatusOK d = (d1, l1)" by fastforce
  obtain d2 l2 where a: "applyResponse t3 (string_of (pkt_Payload p)) d1 = (d2, l2)" by fastforce
  have "d_state d1 = d_state d" using noteStatus_frame(2) [of t2 StatusOK d] n by simp
  then show ?thesis using e n a by (simp add: informOnce_def Let_def StatusOK_def StatusNotFound_def)
qed

lemma informOnce_cases [consumes 0, case_names idle applied]:
  obtains (idle) "d_session (fst (informOnce P iv clock post d)) = d_session d"
      "d_state (fst (informOnce P iv clock post d)) = d_state d"
      "d_spec (fst (informOnce P iv clock post d)) = d_spec d" "answered P iv clock post d = None"
  | (applied) p d1 d2 where "answered P iv clock post d = Some p"
      "d_session d1 = d_session d" "d_state d1 = d_state d" "d_spec d1 = d_spec d"
      "d2 = fst (applyResponse (snd (snd clock)) (string_of (pkt_Payload p)) d1)"
      "fst (informOnce P iv clock post d) =
        (if d_state d = StateAdopting \<and> Adopted (d_session d2) \<and> d_state d2 = StateAdopting
         then d2\<lparr>d_state := StateConnected\<rparr> else d2)"
proof (cases "answered P iv clock post d")
  case None
  from informOnce_unanswered [OF this] show ?thesis
    using idle noteStatus_frame None by metis
next
  case (Some p)
  obtain t1 t2 t3 where c: "clock = (t1, t2, t3)" by (cases clock)
  show ?thesis
    by (rule applied [of p "fst (noteStatus t2 StatusOK d)"
          "fst (applyResponse t3 (string_of (pkt_Payload p)) (fst (noteStatus t2 StatusOK d)))"])
      (use Some c informOnce_answered [of P iv t1 t2 t3 post d p] in \<open>simp_all add: noteStatus_frame Let_def\<close>)
qed

section \<open>Reachable devices\<close>

inductive device_step :: "device \<Rightarrow> device \<Rightarrow> bool" where
  inform: "device_step d (fst (informOnce P iv clock post d))"
| configure: "device_step d (d\<lparr>d_interval := i\<rparr>)"

inductive_cases device_stepE [elim]: "device_step d d'"

inductive device_reach :: "registry \<Rightarrow> device_spec \<Rightarrow> string \<Rightarrow> device \<Rightarrow> bool" for reg spec url where
  new: "newDevice reg now spec url = Inr d \<Longrightarrow> device_reach reg spec url d"
| step: "device_reach reg spec url d \<Longrightarrow> device_step d d' \<Longrightarrow> device_reach reg spec url d'"

lemma newDevice_Inr:
  assumes "newDevice reg now spec url = Inr d"
  shows "\<exists>profile desc. reg (sp_Model spec) = Some profile \<and> d_session d = NewSession desc url now \<and>
     desc = buildDescriptor (d_spec d) profile \<and> d_state d = StatePending \<and>
     sp_MAC (d_spec d) = sp_MAC spec \<and> sp_Model (d_spec d) = sp_Model spec"
  using assms by (auto simp: newDevice_def Let_def split: option.splits if_splits)

definition in_step :: "device \<Rightarrow> bool" where
  "in_step d \<longleftrightarrow> (d_state d = StatePending \<longleftrightarrow> \<not> s_adopted (d_session d))"

lemma in_step_inform:
  assumes "in_step d"
  shows "in_step (fst (informOnce P iv clock post d))"
proof (cases rule: informOnce_cases [of P iv clock post d])
  case idle
  then show ?thesis using assms by (simp add: in_step_def)
next
  case (applied p d1 d2)
  have "in_step d2"
    using applyResponse_in_step [of d1] assms applied(2,3,5) by (simp add: in_step_def)
  then show ?thesis using applied(6) by (auto simp: in_step_def Adopted_def)
qed

lemma reach_in_step: "device_reach reg spec url d \<Longrightarrow> in_step d"
proof (induction rule: device_reach.induct)
  case (new now d)
  then show ?case using newDevice_Inr [OF new] by (auto simp: in_step_def NewSession_def)
next
  case (step d d')
  from step.hyps(2) show ?case
  proof cases
    case (inform P iv clock post)
    then show ?thesis using in_step_inform step.IH by simp
  next
    case (configure i)
    then show ?thesis using step.IH by (simp add: in_step_def)
  qed
qed

text \<open>The session of a reachable device is a reachable session of its descriptor.\<close>

lemma Apply_reach: "session_reach desc url s \<Longrightarrow> session_reach desc url (fst (Apply now body s))"
  by (rule session_reach.reply) (auto simp: prod_eq_iff)

lemma step_session:
  assumes "device_step d d'" and "session_reach desc url (d_session d)"
  shows "session_reach desc url (d_session d')"
  using assms(1)
proof cases
  case (inform P iv clock post)
  show ?thesis
  proof (cases rule: informOnce_cases [of P iv clock post d])
    case idle
    then show ?thesis using assms(2) inform by simp
  next
    case (applied p d1 d2)
    have "session_reach desc url (d_session d2)"
      using applied(2,5) assms(2) by (simp add: applyResponse_session Apply_reach)
    then show ?thesis using inform applied(6) by simp
  qed
next
  case (configure i)
  then show ?thesis using assms(2) by simp
qed

lemma step_spec: "device_step d d' \<Longrightarrow> d_spec d' = d_spec d"
proof (erule device_step.cases)
  fix da P iv clock post
  assume e: "d = da" "d' = fst (informOnce P iv clock post da)"
  show ?thesis
  proof (cases rule: informOnce_cases [of P iv clock post da])
    case idle
    then show ?thesis using e by simp
  next
    case (applied p d1 d2)
    then show ?thesis using e by (simp add: applyResponse_session)
  qed
qed simp

lemma reach_session:
  "device_reach reg spec url d \<Longrightarrow>
   \<exists>profile. reg (sp_Model spec) = Some profile \<and>
     session_reach (buildDescriptor (d_spec d) profile) url (d_session d) \<and>
     sp_MAC (d_spec d) = sp_MAC spec \<and> sp_Model (d_spec d) = sp_Model spec"
proof (induction rule: device_reach.induct)
  case (new now d)
  then show ?case using newDevice_Inr [OF new] session_reach.start by fastforce
next
  case (step d d')
  then show ?case using step_session step_spec by metis
qed

section \<open>Concrete data for the witnesses\<close>

definition sample_registry :: registry where
  "sample_registry = [''BZ2'' \<mapsto> sample_profile]"

definition sample_spec :: device_spec where
  "sample_spec = \<lparr>sp_MAC = ''00:27:22:e0:00:01'', sp_Serial = [], sp_Type = [], sp_Model = ''BZ2'',
     sp_ModelDisplay = [], sp_Version = [], sp_Name = [], sp_IP = ''10.0.0.5'', sp_Ports = 0,
     sp_SSIDs = [], sp_FWCaps = None\<rparr>"

definition sample_device :: device where
  "sample_device = (case newDevice sample_registry 0 sample_spec ''http://10.0.0.1:8080/inform'' of Inr d \<Rightarrow> d)"

lemma sample_mac: "parse_mac ''00:27:22:e0:00:01'' = Some [0, 0x27, 0x22, 0xe0, 0, 1]"
  by code_simp

lemma sample_device_new:
  "newDevice sample_registry 0 sample_spec ''http://10.0.0.1:8080/inform'' = Inr sample_device"
  "d_state sample_device = StatePending" "d_lastStatus sample_device = 0"
  by (simp_all add: sample_device_def newDevice_def sample_registry_def sample_spec_def sample_mac Let_def)

lemma sample_device_reach: "device_reach sample_registry sample_spec ''http://10.0.0.1:8080/inform'' sample_device"
  by (rule device_reach.new [OF sample_device_new(1)])

section \<open>Properties\<close>

text \<open>
  The state the emulator reports for a device never contradicts its session: whatever replies,
  failures and intervals it has been through, a device is PENDING exactly while its session is not
  adopted, and the session is one its descriptor can reach.
\<close>

theorem device_state_agrees:
  assumes "device_reach reg spec url d"
  shows "(d_state d = StatePending \<longleftrightarrow> \<not> Adopted (d_session d)) \<and>
     (\<exists>profile. reg (sp_Model spec) = Some profile \<and>
        session_reach (buildDescriptor (d_spec d) profile) url (d_session d))"
  using reach_in_step [OF assms] reach_session [OF assms] by (auto simp: in_step_def Adopted_def)

text \<open>
  C2: CONNECTED stands for a finished handshake. A device becomes CONNECTED only by an inform it
  sent while ADOPTING, encoded by its adopted session, that was answered with status 200 and a body
  that decodes with the key of that inform.
\<close>

theorem connected_needs_handshake:
  assumes "device_reach reg spec url d" and "d_state d \<noteq> StateConnected"
    and "d_state (fst (informOnce P iv clock post d)) = StateConnected"
  shows "d_state d = StateAdopting \<and> Adopted (d_session d) \<and>
     (\<exists>enc body p. EncodeInform P iv (d_session d) (fst clock) = Inr enc \<and>
        post (InformURL (d_session d)) enc = Reply StatusOK body \<and>
        Decode P body (AuthKey (d_session d)) = Inr p)"
proof (cases rule: informOnce_cases [of P iv clock post d])
  case idle
  then show ?thesis using assms(2,3) by simp
next
  case (applied p d1 d2)
  have keeps: "effect_state e st = StateConnected \<Longrightarrow> st = StateConnected" for e st
    by (auto simp: effect_state_def split: if_splits)
  have "fold effect_state es st \<noteq> StateConnected" if "st \<noteq> StateConnected" for es st
    using that keeps by (induction es arbitrary: st) auto
  then have "d_state d2 \<noteq> StateConnected"
    using assms(2) applied(3,5) by (simp add: applyResponse_state)
  then have ad: "d_state d = StateAdopting" using assms(3) applied(6) by (auto split: if_splits)
  moreover have "Adopted (d_session d)"
    using reach_in_step [OF assms(1)] ad by (simp add: in_step_def Adopted_def)
  ultimately show ?thesis
    using applied(1) by (auto simp: answered_def split: sum.splits exchange.splits if_splits)
qed

text \<open>
  No stage of the adoption is skipped. One inform raises the state of a reachable device by at
  most one stage, from PENDING to ADOPTING or from ADOPTING to CONNECTED, and an inform that is not
  answered by a decodable 200 leaves state and session as they were.
\<close>

theorem one_stage_per_inform:
  assumes "device_reach reg spec url d" and "d' = fst (informOnce P iv clock post d)"
  shows "state_rank (d_state d') \<le> Suc (state_rank (d_state d)) \<and>
     (answered P iv clock post d = None \<longrightarrow> d_state d' = d_state d \<and> d_session d' = d_session d)"
proof (cases rule: informOnce_cases [of P iv clock post d])
  case idle
  then show ?thesis using assms(2) by simp
next
  case (applied p d1 d2)
  have "state_rank (fold effect_state es st) \<le> max 1 (state_rank st)" for es st
  proof (induction es arbitrary: st)
    case (Cons e es)
    show ?case using Cons [of "effect_state e st"] by (auto simp: effect_state_def split: if_splits)
  qed simp
  then have "state_rank (d_state d2) \<le> max 1 (state_rank (d_state d))"
    using applied(3,5) by (simp add: applyResponse_state)
  then show ?thesis using assms(2) applied(1,6) by (cases "d_state d") (auto split: if_splits)
qed

section \<open>The whole adoption\<close>

lemma Decode_nonempty: "Decode P body key = Inr p \<Longrightarrow> body \<noteq> []"
  by (auto simp: Decode_def headerLen_def)

lemma answered_reply:
  assumes "primitives_ok P" and "length iv = 16" and "ParseKey (AuthKey (d_session d)) = Inr key"
    and "length (pkt_MAC q) = 6" and "length iv' = 16"
    and "length (zlib_deflate P (pkt_Payload q)) < 2 ^ 32 - 16"
    and "Encode P iv' (AuthKey (d_session d)) q = Inr out"
  shows "answered P iv clock (\<lambda>_ _. Reply StatusOK out) d = Some q"
proof -
  obtain enc where "EncodeInform P iv (d_session d) (fst clock) = Inr enc"
    using Encode_succeeds [OF assms(1) _ assms(2), of "s_key (d_session d)" key] assms(3)
    unfolding EncodeInform_def Let_def AuthKey_def by metis
  moreover have "Decode P out (AuthKey (d_session d)) = Inr q"
    using Decode_Encode [OF assms(1,4,5,6,7), of "[]"] by simp
  ultimately show ?thesis using Decode_nonempty by (auto simp: answered_def)
qed

lemma pending_default_key:
  assumes "device_reach reg spec url d" and "d_state d = StatePending"
  shows "AuthKey (d_session d) = DefaultKey"
proof -
  obtain desc where "session_reach desc url (d_session d)" using reach_session [OF assms(1)] by blast
  then have "session_ok desc (d_session d)" by (rule reach_ok)
  then show ?thesis using reach_in_step [OF assms(1)] assms(2) by (simp add: in_step_def session_ok_def AuthKey_def)
qed

lemma set_adopt_applies:
  assumes "decode_response body = Inr r" and "r_Type r = ''cmd''" and "r_Cmd r = ''set-adopt''" and "r_Key r = k" and "k \<noteq> []"
  shows "s_key (fst (Apply now body s)) = k" and "s_adopted (fst (Apply now body s))"
    and "snd (Apply now body s) = [AdoptingViaSetAdopt (r_URI r)]"
  using assms by (simp_all add: Apply_def apply_response_def applyCmd_def Let_def)

lemma noop_applies:
  assumes "decode_response body = Inr r" and "r_Type r = ''noop''"
  shows "fst (Apply now body s) = s" and "\<forall>e \<in> set (snd (Apply now body s)). \<not> adopts e \<and> \<not> resets e"
  using assms by (simp_all add: Apply_def apply_response_def)

lemma ParseKey_DefaultKey: "\<exists>key. ParseKey DefaultKey = Inr key"
proof -
  have "ParseKey DefaultKey =
      Inr [0xba, 0x86, 0xf2, 0xbb, 0xe1, 0x07, 0xc7, 0xc5, 0x7e, 0xb5, 0xf2, 0x69, 0x07, 0x75, 0xc7, 0x12]"
    by code_simp
  then show ?thesis by blast
qed

lemma fold_effect_state_quiet:
  "\<forall>e \<in> set es. \<not> adopts e \<and> \<not> resets e \<Longrightarrow> fold effect_state es st = st"
  by (induction es arbitrary: st) (auto simp: effect_state_def)

text \<open>The state and session after an inform that was answered with \<open>q\<close>\<close>

lemma informOnce_reply:
  assumes "answered P iv clock post d = Some q"
  shows "d_session (fst (informOnce P iv clock post d)) =
       fst (Apply (snd (snd clock)) (string_of (pkt_Payload q)) (d_session d))"
    and "d_state (fst (informOnce P iv clock post d)) =
       (let st = fold effect_state (snd (Apply (snd (snd clock)) (string_of (pkt_Payload q)) (d_session d))) (d_state d)
        in if d_state d = StateAdopting \<and> st = StateAdopting \<and>
              s_adopted (fst (Apply (snd (snd clock)) (string_of (pkt_Payload q)) (d_session d)))
           then StateConnected else st)"
proof -
  obtain t1 t2 t3 where c: "clock = (t1, t2, t3)" by (cases clock)
  note i = informOnce_answered [of P iv t1 t2 t3 post d q, OF assms [unfolded c]]
  show "d_session (fst (informOnce P iv clock post d)) =
       fst (Apply (snd (snd clock)) (string_of (pkt_Payload q)) (d_session d))"
    unfolding c by (simp add: i Let_def applyResponse_session noteStatus_frame)
  show "d_state (fst (informOnce P iv clock post d)) =
       (let st = fold effect_state (snd (Apply (snd (snd clock)) (string_of (pkt_Payload q)) (d_session d))) (d_state d)
        in if d_state d = StateAdopting \<and> st = StateAdopting \<and>
              s_adopted (fst (Apply (snd (snd clock)) (string_of (pkt_Payload q)) (d_session d)))
           then StateConnected else st)"
    unfolding c by (auto simp: i Let_def applyResponse_session applyResponse_state noteStatus_frame Adopted_def)
qed

lemma adoption_exchange:
  assumes P: "primitives_ok P" and d: "device_reach reg spec url d" "d_state d = StatePending"
    and iv: "length iv1 = 16" "length iv2 = 16" "length jv1 = 16" "length jv2 = 16"
    and mac: "length mac1 = 6" "length mac2 = 6"
    and r1: "decode_response body1 = Inr r1" "r_Type r1 = ''cmd''" "r_Cmd r1 = ''set-adopt''"
    and k: "ParseKey (r_Key r1) = Inr key"
    and r2: "decode_response body2 = Inr r2" "r_Type r2 = ''noop''"
    and e1: "Encode P jv1 DefaultKey \<lparr>pkt_MAC = mac1, pkt_Payload = bytes_of body1\<rparr> = Inr out1"
    and e2: "Encode P jv2 (r_Key r1) \<lparr>pkt_MAC = mac2, pkt_Payload = bytes_of body2\<rparr> = Inr out2"
    and small: "length (zlib_deflate P (bytes_of body1)) < 2 ^ 32 - 16"
      "length (zlib_deflate P (bytes_of body2)) < 2 ^ 32 - 16"
    and d1: "d1 = fst (informOnce P iv1 clock1 (\<lambda>_ _. Reply StatusOK out1) d)"
    and d2: "d2 = fst (informOnce P iv2 clock2 (\<lambda>_ _. Reply StatusOK out2) d1)"
  shows "d_state d1 = StateAdopting \<and> d_state d2 = StateConnected \<and> AuthKey (d_session d2) = r_Key r1"
proof -
  have dk: "AuthKey (d_session d) = DefaultKey" by (rule pending_default_key [OF d])
  obtain key0 where key0: "ParseKey DefaultKey = Inr key0" using ParseKey_DefaultKey by blast
  have kne: "r_Key r1 \<noteq> []" using ParseKey_length [OF k] by auto
  have a1: "answered P iv1 clock1 (\<lambda>_ _. Reply StatusOK out1) d = Some \<lparr>pkt_MAC = mac1, pkt_Payload = bytes_of body1\<rparr>"
    by (rule answered_reply [OF P iv(1)]) (use dk key0 mac iv small e1 in simp_all)
  note i1 = informOnce_reply [OF a1, folded d1, simplified]
  have s1: "s_key (d_session d1) = r_Key r1" "s_adopted (d_session d1)"
    using i1(1) set_adopt_applies [OF r1 refl kne] by simp_all
  have st1: "d_state d1 = StateAdopting"
    using i1(2) d(2) set_adopt_applies(3) [OF r1 refl kne] by (simp add: Let_def effect_state_def)
  have a2: "answered P iv2 clock2 (\<lambda>_ _. Reply StatusOK out2) d1 = Some \<lparr>pkt_MAC = mac2, pkt_Payload = bytes_of body2\<rparr>"
    by (rule answered_reply [OF P iv(2)]) (use s1 k mac iv small e2 in \<open>simp_all add: AuthKey_def\<close>)
  note i2 = informOnce_reply [OF a2, folded d2, simplified]
  show ?thesis
    using i2 st1 s1 noop_applies [OF r2] fold_effect_state_quiet [OF noop_applies(2) [OF r2]]
    by (simp add: Let_def AuthKey_def)
qed

text \<open>
  C1: adoption completes. A pending device that has its inform answered by a set-adopt command
  under the default key, and the next one by a noop under the key it was given, is ADOPTING after the
  first exchange and CONNECTED after the second, holding the new key.
\<close>

theorem adoption_completes:
  assumes P: "primitives_ok P" and d: "device_reach reg spec url d" "d_state d = StatePending"
    and iv: "length iv1 = 16" "length iv2 = 16" "length jv1 = 16" "length jv2 = 16"
    and mac: "length mac1 = 6" "length mac2 = 6"
    and r1: "decode_response body1 = Inr r1" "r_Type r1 = ''cmd''" "r_Cmd r1 = ''set-adopt''"
    and k: "ParseKey (r_Key r1) = Inr key"
    and r2: "decode_response body2 = Inr r2" "r_Type r2 = ''noop''"
    and e1: "Encode P jv1 DefaultKey \<lparr>pkt_MAC = mac1, pkt_Payload = bytes_of body1\<rparr> = Inr out1"
    and e2: "Encode P jv2 (r_Key r1) \<lparr>pkt_MAC = mac2, pkt_Payload = bytes_of body2\<rparr> = Inr out2"
    and small: "length (zlib_deflate P (bytes_of body1)) < 2 ^ 32 - 16"
      "length (zlib_deflate P (bytes_of body2)) < 2 ^ 32 - 16"
    and d1: "d1 = fst (informOnce P iv1 clock1 (\<lambda>_ _. Reply StatusOK out1) d)"
    and d2: "d2 = fst (informOnce P iv2 clock2 (\<lambda>_ _. Reply StatusOK out2) d1)"
  shows "d_state d1 = StateAdopting \<and> d_state d2 = StateConnected \<and> AuthKey (d_session d2) = r_Key r1"
  by (rule adoption_exchange [OF assms])

section \<open>The status log\<close>

lemma noteStatus_fields:
  "d_lastStatus (fst (noteStatus now st d)) = st"
  "d_statusRun (fst (noteStatus now st d)) = (if st = d_lastStatus d then d_statusRun d + 1 else 1)"
  by (simp_all add: noteStatus_def Let_def)

text \<open>
  The run length the status log reports is exact. After any statuses (none of them 0, the
  value for none yet) a fresh device remembers the last one and the number of informs in a row that
  were answered with it.
\<close>

theorem status_run_counts:
  assumes "d_lastStatus d = 0" and "0 \<notin> snd ` set sts" and "sts \<noteq> []"
    and "d' = fold (\<lambda>(now, st) d. fst (noteStatus now st d)) sts d"
  shows "d_lastStatus d' = snd (last sts) \<and>
     d_statusRun d' = int (length (takeWhile (\<lambda>x. snd x = snd (last sts)) (rev sts)))"
  using assms(2-4)
proof (induction sts arbitrary: d' rule: rev_induct)
  case (snoc x xs)
  obtain now st where x: "x = (now, st)" by (cases x)
  show ?case
  proof (cases "xs = []")
    case True
    then show ?thesis using snoc.prems x assms(1) by (simp add: noteStatus_fields)
  next
    case False
    let ?d = "fold (\<lambda>(now, st) d. fst (noteStatus now st d)) xs d"
    have ih: "d_lastStatus ?d = snd (last xs) \<and>
        d_statusRun ?d = int (length (takeWhile (\<lambda>y. snd y = snd (last xs)) (rev xs)))"
      using snoc False by simp
    have "takeWhile (\<lambda>y. snd y = st) (rev xs) = []" if "st \<noteq> snd (last xs)"
      using that False by (cases xs rule: rev_cases) auto
    then show ?thesis using snoc.prems x ih by (auto simp: noteStatus_fields)
  qed
qed simp

section \<open>Witnesses\<close>

definition sample_noop_reply :: string where
  "sample_noop_reply = ''{\"_type\":\"noop\",\"interval\":5}''"

definition sample_reply :: "string \<Rightarrow> string \<Rightarrow> bytes" where
  "sample_reply key body =
     (case Encode toy_primitives (replicate 16 7) key \<lparr>pkt_MAC = [0, 0x27, 0x22, 0xe0, 0, 1], pkt_Payload = bytes_of body\<rparr> of
        Inr out \<Rightarrow> out | Inl _ \<Rightarrow> [])"

definition sample_key :: string where
  "sample_key = ''00112233445566778899aabbccddeeff''"

lemma ParseKey_sample_key: "\<exists>key. ParseKey sample_key = Inr key"
proof -
  have "ParseKey sample_key = Inr [0, 0x11, 0x22, 0x33, 0x44, 0x55, 0x66, 0x77, 0x88, 0x99, 0xaa, 0xbb, 0xcc, 0xdd, 0xee, 0xff]"
    by code_simp
  then show ?thesis by blast
qed

lemma sample_reply_encode:
  assumes "\<exists>key. ParseKey k = Inr key"
  shows "Encode toy_primitives (replicate 16 7) k \<lparr>pkt_MAC = [0, 0x27, 0x22, 0xe0, 0, 1], pkt_Payload = bytes_of body\<rparr> =
     Inr (sample_reply k body)"
proof -
  obtain key where "ParseKey k = Inr key" using assms by blast
  from Encode_succeeds(1) [OF toy_primitives_ok this length_replicate]
  obtain out where "Encode toy_primitives (replicate 16 7) k
      \<lparr>pkt_MAC = [0, 0x27, 0x22, 0xe0, 0, 1], pkt_Payload = bytes_of body\<rparr> = Inr out" by blast
  then show ?thesis by (simp add: sample_reply_def)
qed

lemma decode_sample_noop_reply:
  "decode_response sample_noop_reply = Inr (empty_response\<lparr>r_Type := ''noop'', r_Interval := 5\<rparr>)"
  by code_simp

lemma sample_small:
  "length (zlib_deflate toy_primitives (bytes_of sample_adopt)) < 2 ^ 32 - 16"
  "length (zlib_deflate toy_primitives (bytes_of sample_noop_reply)) < 2 ^ 32 - 16"
  by (simp_all add: toy_primitives_def sample_adopt_def sample_noop_reply_def)

definition sample_device1 :: device where
  "sample_device1 = fst (informOnce toy_primitives (replicate 16 1) (0, 0, 0)
     (\<lambda>_ _. Reply StatusOK (sample_reply DefaultKey sample_adopt)) sample_device)"

definition sample_device2 :: device where
  "sample_device2 = fst (informOnce toy_primitives (replicate 16 2) (5, 6, 7)
     (\<lambda>_ _. Reply StatusOK (sample_reply sample_key sample_noop_reply)) sample_device1)"

lemma sample_adopt_response:
  "decode_response sample_adopt = Inr (empty_response\<lparr>r_Type := ''cmd'', r_Cmd := ''set-adopt'', r_Key := sample_key\<rparr>)"
  using decode_samples(1) by (simp add: sample_key_def)

lemma sample_device1_reach: "device_reach sample_registry sample_spec ''http://10.0.0.1:8080/inform'' sample_device1"
  unfolding sample_device1_def by (rule device_reach.step [OF sample_device_reach device_step.inform])

theorem adoption_completes_witness:
  "d_state sample_device1 = StateAdopting \<and> d_state sample_device2 = StateConnected \<and>
   AuthKey (d_session sample_device2) = sample_key"
proof -
  obtain key where key: "ParseKey sample_key = Inr key" using ParseKey_sample_key by blast
  have "d_state sample_device1 = StateAdopting \<and> d_state sample_device2 = StateConnected \<and>
      AuthKey (d_session sample_device2) =
        r_Key (empty_response\<lparr>r_Type := ''cmd'', r_Cmd := ''set-adopt'', r_Key := sample_key\<rparr>)"
    by (rule adoption_completes [OF toy_primitives_ok sample_device_reach sample_device_new(2) _ _ _ _ _ _
      sample_adopt_response _ _ _ decode_sample_noop_reply _ sample_reply_encode [OF ParseKey_DefaultKey] _
      sample_small sample_device1_def sample_device2_def,
      where key = key and ?jv2.0 = "replicate 16 7" and ?mac2.0 = "[0, 0x27, 0x22, 0xe0, 0, 1]"])
     (simp_all add: key empty_response_def sample_reply_encode [OF ParseKey_sample_key])
  then show ?thesis by simp
qed

lemma sample_device_states: "d_state sample_device1 = StateAdopting" "d_state sample_device2 = StateConnected"
proof -
  obtain key where key: "ParseKey sample_key = Inr key" using ParseKey_sample_key by blast
  have "d_state sample_device1 = StateAdopting \<and> d_state sample_device2 = StateConnected \<and>
      AuthKey (d_session sample_device2) =
        r_Key (empty_response\<lparr>r_Type := ''cmd'', r_Cmd := ''set-adopt'', r_Key := sample_key\<rparr>)"
    by (rule adoption_exchange [OF toy_primitives_ok sample_device_reach sample_device_new(2) _ _ _ _ _ _
      sample_adopt_response _ _ _ decode_sample_noop_reply _ sample_reply_encode [OF ParseKey_DefaultKey] _
      sample_small sample_device1_def sample_device2_def,
      where key = key and ?jv2.0 = "replicate 16 7" and ?mac2.0 = "[0, 0x27, 0x22, 0xe0, 0, 1]"])
     (simp_all add: key empty_response_def sample_reply_encode [OF ParseKey_sample_key])
  then show "d_state sample_device1 = StateAdopting" "d_state sample_device2 = StateConnected" by simp_all
qed

theorem device_state_agrees_witness:
  "d_state sample_device1 = StateAdopting \<and> Adopted (d_session sample_device1)"
  using device_state_agrees [OF sample_device1_reach] sample_device_states(1) by simp

theorem connected_needs_handshake_witness:
  "d_state sample_device2 = StateConnected \<and> Adopted (d_session sample_device1)"
proof -
  have "d_state (fst (informOnce toy_primitives (replicate 16 2) (5, 6, 7)
     (\<lambda>_ _. Reply StatusOK (sample_reply sample_key sample_noop_reply)) sample_device1)) = StateConnected"
    using sample_device_states(2) by (simp add: sample_device2_def)
  from connected_needs_handshake [OF sample_device1_reach _ this] show ?thesis
    using sample_device_states by simp
qed

theorem one_stage_per_inform_witness:
  "state_rank (d_state sample_device1) \<le> Suc (state_rank (d_state sample_device))"
  using one_stage_per_inform [OF sample_device_reach sample_device1_def] by blast

theorem status_run_counts_witness:
  "d_statusRun (fold (\<lambda>(now, st) d. fst (noteStatus now st d)) [(1, 404), (2, 200), (3, 200)] sample_device) = 2"
  using status_run_counts [OF sample_device_new(3), of "[(1, 404), (2, 200), (3, 200)]" _, OF _ _ refl] by simp

end
