(* ===== verification/Emu_Fleet.thy ===== *)
theory Emu_Fleet
  imports Device_Laws
begin

text \<open>
  The fleet (\<^verbatim>\<open>emu.go\<close>): the devices keyed by normalized MAC, \<^verbatim>\<open>Add\<close>,
  \<^verbatim>\<open>Start\<close>, \<^verbatim>\<open>State\<close>, \<^verbatim>\<open>WaitState\<close> and \<^verbatim>\<open>Stop\<close>, and the goroutines of the
  device loops as a step relation over the fleet.
\<close>

section \<open>State and operations\<close>

text \<open>
  \<^verbatim>\<open>e_cancel\<close> says that the cancel function is set, \<^verbatim>\<open>e_done\<close> that the context of the
  loops is cancelled; \<^verbatim>\<open>e_running\<close> holds the devices whose goroutine has not returned (the
  wait group).
\<close>

record emu =
  e_informURL :: string
  e_interval :: int
  e_devices :: "(string \<times> device) list"
  e_started :: bool
  e_cancel :: bool
  e_done :: bool
  e_running :: "string list"

text \<open>\<^verbatim>\<open>WithInformInterval\<close> is the only option.\<close>

definition New :: "string \<Rightarrow> int list \<Rightarrow> emu" where
  "New informURL opts =
     fold (\<lambda>d e. e\<lparr>e_interval := d\<rparr>) opts
       \<lparr>e_informURL = informURL, e_interval = 10 * nanos, e_devices = [], e_started = False,
        e_cancel = False, e_done = False, e_running = []\<rparr>"

definition normalizeMAC :: "string \<Rightarrow> emu_error + string" where
  "normalizeMAC s =
     (case parse_mac s of
        None \<Rightarrow> Inl (BadMAC s)
      | Some hw \<Rightarrow> if length hw \<noteq> 6 then Inl (BadMACLength s (length hw)) else Inr (mac_string hw))"

text \<open>The loop of \<^verbatim>\<open>Add\<close> keeps what it has added when a spec fails; \<open>now\<close> is the clock.\<close>

fun add_specs :: "registry \<Rightarrow> int \<Rightarrow> device_spec list \<Rightarrow> emu \<Rightarrow> emu \<times> emu_error option" where
  "add_specs reg now [] e = (e, None)"
| "add_specs reg now (spec # specs) e =
     (case normalizeMAC (sp_MAC spec) of
        Inl err \<Rightarrow> (e, Some err)
      | Inr mac \<Rightarrow>
        if map_of (e_devices e) mac \<noteq> None then (e, Some (DuplicateMAC mac))
        else
          (case newDevice reg now (spec\<lparr>sp_MAC := mac\<rparr>) (e_informURL e) of
             Inl err \<Rightarrow> (e, Some err)
           | Inr d \<Rightarrow>
               add_specs reg now specs
                 (e\<lparr>e_devices := (mac, d\<lparr>d_interval := e_interval e\<rparr>) # e_devices e\<rparr>)))"

definition Add :: "registry \<Rightarrow> int \<Rightarrow> device_spec list \<Rightarrow> emu \<Rightarrow> emu \<times> emu_error option" where
  "Add reg now specs e =
     (if e_started e then (e, Some AddAfterStart) else add_specs reg now specs e)"

definition Start :: "emu \<Rightarrow> emu \<times> emu_error option" where
  "Start e =
     (if e_started e then (e, Some AlreadyStarted)
      else if length (e_devices e) = 0 then (e, Some NoDevices)
      else if e_interval e \<le> 0 then (e, Some (BadInterval (e_interval e)))
      else (e\<lparr>e_started := True, e_cancel := True, e_running := map fst (e_devices e)\<rparr>, None))"

definition State :: "emu \<Rightarrow> string \<Rightarrow> device_state option" where
  "State e mac =
     (case normalizeMAC mac of
        Inl _ \<Rightarrow> None
      | Inr norm \<Rightarrow> map_option d_state (map_of (e_devices e) norm))"

text \<open>The first half of \<^verbatim>\<open>Stop\<close>, before it waits for the goroutines\<close>

definition StopRequest :: "emu \<Rightarrow> emu" where
  "StopRequest e = (if e_cancel e then e\<lparr>e_cancel := False, e_done := True\<rparr> else e)"

text \<open>
  \<^verbatim>\<open>WaitState\<close> sees the fleet at its first look, then after each event of its
  \<^verbatim>\<open>select\<close>: a tick, with the fleet as it is then, or the end of its context. Events that run out
  leave it waiting.
\<close>

datatype wait_event = Tick emu | WaitDone

datatype wait_result =
    Reached
  | UnknownDevice string
  | WaitTimeout device_state
  | StillWaiting

fun wait_loop :: "string \<Rightarrow> device_state \<Rightarrow> device_state \<Rightarrow> wait_event list \<Rightarrow> wait_result" where
  "wait_loop mac want got evs =
     (if got = want then Reached
      else (case evs of
              [] \<Rightarrow> StillWaiting
            | WaitDone # _ \<Rightarrow> WaitTimeout got
            | Tick e # evs' \<Rightarrow>
                (case State e mac of
                   None \<Rightarrow> UnknownDevice mac
                 | Some got' \<Rightarrow> wait_loop mac want got' evs')))"

definition WaitState :: "emu \<Rightarrow> string \<Rightarrow> device_state \<Rightarrow> wait_event list \<Rightarrow> wait_result" where
  "WaitState e mac want evs =
     (case State e mac of None \<Rightarrow> UnknownDevice mac | Some got \<Rightarrow> wait_loop mac want got evs)"

declare wait_loop.simps [simp del]

section \<open>The running fleet\<close>

definition update_device :: "string \<Rightarrow> (device \<Rightarrow> device) \<Rightarrow> emu \<Rightarrow> emu" where
  "update_device mac f e =
     e\<lparr>e_devices := map (\<lambda>(m, d). (m, if m = mac then f d else d)) (e_devices e)\<rparr>"

text \<open>
  The steps of the fleet: a call of \<^verbatim>\<open>Add\<close> or \<^verbatim>\<open>Start\<close>, the request half of
  \<^verbatim>\<open>Stop\<close>, the end of the caller's context, one inform of a running loop, and the return of a
  loop, which \<^verbatim>\<open>run\<close> makes only when its context is done.
\<close>

inductive fleet_step :: "registry \<Rightarrow> emu \<Rightarrow> emu \<Rightarrow> bool" for reg where
  add: "fleet_step reg e (fst (Add reg now specs e))"
| start: "fleet_step reg e (fst (Start e))"
| stop: "fleet_step reg e (StopRequest e)"
| cancelled: "e_started e \<Longrightarrow> fleet_step reg e (e\<lparr>e_done := True\<rparr>)"
| inform: "mac \<in> set (e_running e) \<Longrightarrow>
    fleet_step reg e (update_device mac (\<lambda>d. fst (informOnce P iv clock post d)) e)"
| loop_return: "mac \<in> set (e_running e) \<Longrightarrow> e_done e \<Longrightarrow>
    fleet_step reg e (e\<lparr>e_running := removeAll mac (e_running e)\<rparr>)"

inductive_cases fleet_stepE: "fleet_step reg e e'"

inductive fleet_reach :: "registry \<Rightarrow> string \<Rightarrow> emu \<Rightarrow> bool" for reg url where
  new: "fleet_reach reg url (New url opts)"
| step: "fleet_reach reg url e \<Longrightarrow> fleet_step reg e e' \<Longrightarrow> fleet_reach reg url e'"

section \<open>Lemmas\<close>

lemma New_fields:
  "e_informURL (New url opts) = url" "e_devices (New url opts) = []" "e_started (New url opts) = False"
  "e_cancel (New url opts) = False" "e_done (New url opts) = False" "e_running (New url opts) = []"
proof -
  have "e_informURL (fold (\<lambda>d e. e\<lparr>e_interval := d\<rparr>) opts e) = e_informURL e \<and>
      e_devices (fold (\<lambda>d e. e\<lparr>e_interval := d\<rparr>) opts e) = e_devices e \<and>
      e_started (fold (\<lambda>d e. e\<lparr>e_interval := d\<rparr>) opts e) = e_started e \<and>
      e_cancel (fold (\<lambda>d e. e\<lparr>e_interval := d\<rparr>) opts e) = e_cancel e \<and>
      e_done (fold (\<lambda>d e. e\<lparr>e_interval := d\<rparr>) opts e) = e_done e \<and>
      e_running (fold (\<lambda>d e. e\<lparr>e_interval := d\<rparr>) opts e) = e_running e" for e :: emu
    by (induction opts arbitrary: e) simp_all
  then show "e_informURL (New url opts) = url" "e_devices (New url opts) = []" "e_started (New url opts) = False"
    "e_cancel (New url opts) = False" "e_done (New url opts) = False" "e_running (New url opts) = []"
    by (simp_all add: New_def)
qed

lemma normalizeMAC_Inr:
  "normalizeMAC s = Inr m \<longleftrightarrow> (\<exists>hw. parse_mac s = Some hw \<and> length hw = 6 \<and> m = mac_string hw)"
  by (auto simp: normalizeMAC_def split: option.splits if_splits)

lemma normalizeMAC_idem: "normalizeMAC s = Inr m \<Longrightarrow> normalizeMAC m = Inr m"
  by (auto simp: normalizeMAC_Inr parse_mac_string)

text \<open>What the devices of a fleet have in common\<close>

definition device_entry_ok :: "registry \<Rightarrow> string \<Rightarrow> string \<times> device \<Rightarrow> bool" where
  "device_entry_ok reg url md \<longleftrightarrow>
     normalizeMAC (fst md) = Inr (fst md) \<and>
     (\<exists>spec. sp_MAC spec = fst md \<and> device_reach reg spec url (snd md))"

lemma device_entryI:
  "normalizeMAC m = Inr m \<Longrightarrow> sp_MAC spec = m \<Longrightarrow> device_reach reg spec url d \<Longrightarrow> device_entry_ok reg url (m, d)"
  by (auto simp: device_entry_ok_def)

lemma device_entryE:
  assumes "device_entry_ok reg url (m, d)"
  obtains spec where "normalizeMAC m = Inr m" "sp_MAC spec = m" "device_reach reg spec url d"
  using assms by (auto simp: device_entry_ok_def)

definition fleet_ok :: "registry \<Rightarrow> string \<Rightarrow> emu \<Rightarrow> bool" where
  "fleet_ok reg url e \<longleftrightarrow>
     e_informURL e = url \<and> distinct (map fst (e_devices e)) \<and>
     (\<forall>md \<in> set (e_devices e). device_entry_ok reg url md) \<and>
     set (e_running e) \<subseteq> fst ` set (e_devices e) \<and>
     (\<not> e_started e \<longrightarrow> e_running e = [] \<and> \<not> e_cancel e)"

lemma add_specs_ok:
  "fleet_ok reg url e \<Longrightarrow> fleet_ok reg url (fst (add_specs reg now specs e))"
proof (induction specs arbitrary: e)
  case (Cons spec specs)
  show ?case
  proof (cases "normalizeMAC (sp_MAC spec)")
    case (Inr mac)
    note mac = Inr
    show ?thesis
    proof (cases "map_of (e_devices e) mac \<noteq> None \<or> (\<exists>err. newDevice reg now (spec\<lparr>sp_MAC := mac\<rparr>) (e_informURL e) = Inl err)")
      case True
      then show ?thesis using mac Cons.prems by auto
    next
      case False
      then obtain d where d: "newDevice reg now (spec\<lparr>sp_MAC := mac\<rparr>) url = Inr d"
        using Cons.prems by (cases "newDevice reg now (spec\<lparr>sp_MAC := mac\<rparr>) url") (auto simp: fleet_ok_def)
      have "device_reach reg (spec\<lparr>sp_MAC := mac\<rparr>) url (d\<lparr>d_interval := e_interval e\<rparr>)"
        by (rule device_reach.step [OF device_reach.new [OF d] device_step.configure])
      then have "device_entry_ok reg url (mac, d\<lparr>d_interval := e_interval e\<rparr>)"
        using normalizeMAC_idem [OF mac] by (intro device_entryI) simp_all
      then have "fleet_ok reg url (e\<lparr>e_devices := (mac, d\<lparr>d_interval := e_interval e\<rparr>) # e_devices e\<rparr>)"
        using Cons.prems False by (auto simp: fleet_ok_def map_of_eq_None_iff)
      moreover have "e_informURL e = url" using Cons.prems by (simp add: fleet_ok_def)
      ultimately show ?thesis using Cons.IH mac False d by simp
    qed
  qed (use Cons.prems in simp)
qed simp

lemma update_device_fst: "map fst (e_devices (update_device mac f e)) = map fst (e_devices e)"
  by (simp add: update_device_def comp_def case_prod_unfold)

lemma update_device_frame:
  "e_informURL (update_device mac f e) = e_informURL e" "e_running (update_device mac f e) = e_running e"
  "e_started (update_device mac f e) = e_started e" "e_cancel (update_device mac f e) = e_cancel e"
  "e_done (update_device mac f e) = e_done e"
  by (simp_all add: update_device_def)

lemma fleet_ok_inform:
  assumes "fleet_ok reg url e"
  shows "fleet_ok reg url (update_device mac (\<lambda>d. fst (informOnce P iv clock post d)) e)"
proof -
  have "device_entry_ok reg url (m, if m = mac then fst (informOnce P iv clock post d) else d)"
    if "device_entry_ok reg url (m, d)" for m d
    using that
  proof (rule device_entryE)
    fix spec
    assume e: "normalizeMAC m = Inr m" "sp_MAC spec = m" "device_reach reg spec url d"
    have "device_reach reg spec url (fst (informOnce P iv clock post d))"
      by (rule device_reach.step [OF e(3) device_step.inform])
    then have "device_entry_ok reg url (m, fst (informOnce P iv clock post d))"
      by (rule device_entryI [OF e(1,2)])
    then show ?thesis using that by (cases "m = mac") simp_all
  qed
  then have "\<forall>md \<in> set (e_devices (update_device mac (\<lambda>d. fst (informOnce P iv clock post d)) e)). device_entry_ok reg url md"
    using assms by (force simp: update_device_def fleet_ok_def)
  moreover have "fst ` set (e_devices (update_device mac (\<lambda>d. fst (informOnce P iv clock post d)) e)) = fst ` set (e_devices e)"
    using update_device_fst [of mac "\<lambda>d. fst (informOnce P iv clock post d)" e] by (metis set_map)
  ultimately show ?thesis
    using assms update_device_fst [of mac "\<lambda>d. fst (informOnce P iv clock post d)" e]
    unfolding fleet_ok_def update_device_frame by simp
qed

lemma fleet_ok_step: "fleet_step reg e e' \<Longrightarrow> fleet_ok reg url e \<Longrightarrow> fleet_ok reg url e'"
proof (erule fleet_stepE)
  fix now specs
  assume "fleet_ok reg url e" "e' = fst (Add reg now specs e)"
  then show ?thesis using add_specs_ok by (simp add: Add_def)
next
  fix mac P iv clock post
  assume "fleet_ok reg url e" "e' = update_device mac (\<lambda>d. fst (informOnce P iv clock post d)) e"
  then show ?thesis using fleet_ok_inform by simp
qed (auto simp: fleet_ok_def Start_def StopRequest_def)

lemma fleet_reach_ok: "fleet_reach reg url e \<Longrightarrow> fleet_ok reg url e"
proof (induction rule: fleet_reach.induct)
  case (new opts)
  then show ?case by (simp add: fleet_ok_def New_fields)
next
  case (step e e')
  then show ?case using fleet_ok_step by blast
qed

section \<open>Properties\<close>

text \<open>
  C20: however it has been run, a fleet holds at most one device per hardware address: its keys are
  distinct and in normal form, and each device carries its key as its MAC, is in a state its own
  spec can reach, and is PENDING exactly while its session is not adopted.
\<close>

theorem fleet_devices_consistent:
  assumes "fleet_reach reg url e" and "(mac, d) \<in> set (e_devices e)"
  shows "distinct (map fst (e_devices e)) \<and> normalizeMAC mac = Inr mac \<and> sp_MAC (d_spec d) = mac \<and>
     (d_state d = StatePending \<longleftrightarrow> \<not> Adopted (d_session d))"
proof -
  have ok: "fleet_ok reg url e" by (rule fleet_reach_ok [OF assms(1)])
  then have "device_entry_ok reg url (mac, d)" using assms(2) by (simp add: fleet_ok_def)
  then obtain spec where s: "normalizeMAC mac = Inr mac" "sp_MAC spec = mac" "device_reach reg spec url d"
    by (rule device_entryE)
  then show ?thesis
    using ok reach_session [OF s(3)] reach_in_step [OF s(3)] by (auto simp: fleet_ok_def in_step_def Adopted_def)
qed

text \<open>
  An address is one device however it is spelled. If some spelling of an address names a device
  of the fleet, adding a spec whose MAC is another spelling of it fails as a duplicate and changes
  nothing, and every spelling reads the same state.
\<close>

theorem spelling_does_not_matter:
  assumes "normalizeMAC s = Inr mac" and "normalizeMAC t = Inr mac" and "State e s = Some st"
  shows "State e t = Some st \<and>
     (sp_MAC spec = t \<longrightarrow> \<not> e_started e \<longrightarrow>
        Add reg now (spec # specs) e = (e, Some (DuplicateMAC mac)))"
  using assms by (auto simp: State_def Add_def)

lemma add_specs_prefix:
  "\<exists>k ds. k \<le> length specs \<and> length ds = k \<and>
     e_devices (fst (add_specs reg now specs e)) = rev ds @ e_devices e \<and>
     (\<forall>i < k. normalizeMAC (sp_MAC (specs ! i)) = Inr (fst (ds ! i)) \<and>
        d_state (snd (ds ! i)) = StatePending \<and> d_interval (snd (ds ! i)) = e_interval e) \<and>
     (snd (add_specs reg now specs e) = None \<longleftrightarrow> k = length specs)"
proof (induction specs arbitrary: e)
  case (Cons spec specs)
  show ?case
  proof (cases "\<exists>mac d. normalizeMAC (sp_MAC spec) = Inr mac \<and> map_of (e_devices e) mac = None \<and>
      newDevice reg now (spec\<lparr>sp_MAC := mac\<rparr>) (e_informURL e) = Inr d")
    case True
    then obtain mac d where m: "normalizeMAC (sp_MAC spec) = Inr mac" "map_of (e_devices e) mac = None"
        "newDevice reg now (spec\<lparr>sp_MAC := mac\<rparr>) (e_informURL e) = Inr d" by blast
    let ?d = "d\<lparr>d_interval := e_interval e\<rparr>"
    let ?e = "e\<lparr>e_devices := (mac, ?d) # e_devices e\<rparr>"
    have step: "add_specs reg now (spec # specs) e = add_specs reg now specs ?e" using m by simp
    obtain k ds where ih: "k \<le> length specs" "length ds = k"
        "e_devices (fst (add_specs reg now specs ?e)) = rev ds @ e_devices ?e"
        "\<forall>i < k. normalizeMAC (sp_MAC (specs ! i)) = Inr (fst (ds ! i)) \<and>
          d_state (snd (ds ! i)) = StatePending \<and> d_interval (snd (ds ! i)) = e_interval ?e"
        "snd (add_specs reg now specs ?e) = None \<longleftrightarrow> k = length specs"
      using Cons.IH [of ?e] by (elim exE conjE) (rule that)
    have "d_state d = StatePending" using newDevice_Inr [OF m(3)] by auto
    then have "\<forall>i < Suc k. normalizeMAC (sp_MAC ((spec # specs) ! i)) = Inr (fst (((mac, ?d) # ds) ! i)) \<and>
        d_state (snd (((mac, ?d) # ds) ! i)) = StatePending \<and> d_interval (snd (((mac, ?d) # ds) ! i)) = e_interval e"
      using ih(4) m(1) by (auto simp: less_Suc_eq_0_disj)
    then show ?thesis
      unfolding step using ih(1,2,3,5) by (intro exI [of _ "Suc k"] exI [of _ "(mac, ?d) # ds"] conjI) simp_all
  next
    case False
    then have "fst (add_specs reg now (spec # specs) e) = e \<and> snd (add_specs reg now (spec # specs) e) \<noteq> None"
      by (auto split: sum.splits)
    then show ?thesis by (intro exI [of _ 0] exI [of _ "[]"]) simp
  qed
qed simp

text \<open>
  \<^verbatim>\<open>Add\<close> adds its specs in order up to the first it rejects. Whatever the outcome, the
  fleet afterwards is the fleet before with one pending device for each spec of a prefix, under its
  normalized address and with the fleet's interval; there is no error exactly when the prefix is all.
\<close>

theorem add_keeps_a_prefix:
  "e_started e \<and> Add reg now specs e = (e, Some AddAfterStart) \<or>
   \<not> e_started e \<and>
   (\<exists>k ds. k \<le> length specs \<and> length ds = k \<and>
     e_devices (fst (Add reg now specs e)) = rev ds @ e_devices e \<and>
     (\<forall>i < k. normalizeMAC (sp_MAC (specs ! i)) = Inr (fst (ds ! i)) \<and>
        d_state (snd (ds ! i)) = StatePending \<and> d_interval (snd (ds ! i)) = e_interval e) \<and>
     (snd (Add reg now specs e) = None \<longleftrightarrow> k = length specs))"
  using add_specs_prefix by (cases "e_started e") (simp_all add: Add_def)

lemma started_quiet_step:
  assumes "fleet_step reg e e'" and "e_started e" and "e_running e = []"
  shows "e_devices e' = e_devices e \<and> e_started e' \<and> e_running e' = []"
  using assms by (auto elim!: fleet_stepE simp: Add_def Start_def StopRequest_def)

text \<open>
  Once \<^verbatim>\<open>Stop\<close> has returned, which it does when no loop is running, the fleet is final:
  no sequence of steps informs again, adds a device or restarts a loop.
\<close>

theorem stopped_fleet_is_final:
  assumes "(fleet_step reg)\<^sup>*\<^sup>* e e'" and "e_started e" and "e_running e = []"
  shows "e_devices e' = e_devices e \<and> e_running e' = [] \<and> snd (Start e') = Some AlreadyStarted"
proof -
  have "e_devices e' = e_devices e \<and> e_started e' \<and> e_running e' = []"
    using assms(1)
  proof (induction rule: rtranclp_induct)
    case base
    then show ?case using assms by simp
  next
    case (step e1 e2)
    then show ?case using started_quiet_step [of reg e1 e2] by simp
  qed
  then show ?thesis by (simp add: Start_def)
qed

text \<open>Whether the loops of a cancelled fleet can all return, one after the other\<close>

lemma cancelled_drains:
  "e_done e \<Longrightarrow> \<exists>e'. (fleet_step reg)\<^sup>*\<^sup>* e e' \<and> e_running e' = [] \<and> e_devices e' = e_devices e"
proof (induction "length (e_running e)" arbitrary: e rule: less_induct)
  case less
  show ?case
  proof (cases "e_running e")
    case Nil
    then show ?thesis by blast
  next
    case (Cons m ms)
    let ?e = "e\<lparr>e_running := removeAll m (e_running e)\<rparr>"
    have s: "fleet_step reg e ?e" using Cons less.prems by (intro fleet_step.loop_return) auto
    have "length (e_running ?e) < length (e_running e)"
      using Cons length_removeAll_less [of m "e_running e"] by simp
    then obtain e' where "(fleet_step reg)\<^sup>*\<^sup>* ?e e'" "e_running e' = []" "e_devices e' = e_devices ?e"
      using less.hyps [of ?e] less.prems by auto
    then show ?thesis using converse_rtranclp_into_rtranclp [of "fleet_step reg" e ?e e'] s by auto
  qed
qed

text \<open>
  \<^verbatim>\<open>Stop\<close> can always return. After the request of \<^verbatim>\<open>Stop\<close> on a reachable, started
  fleet whose cancel function is set, the loops can return one after the other until none is running,
  with every device left as it is.
\<close>

theorem stop_can_return:
  assumes "e_cancel e"
  shows "\<exists>e'. (fleet_step reg)\<^sup>*\<^sup>* (StopRequest e) e' \<and> e_running e' = [] \<and> e_devices e' = e_devices e"
  using cancelled_drains [of "StopRequest e" reg] assms by (simp add: StopRequest_def)

lemma wait_loop_spec:
  "(wait_loop mac want got evs = Reached \<longrightarrow>
      got = want \<or> (\<exists>e. Tick e \<in> set evs \<and> State e mac = Some want)) \<and>
   (\<forall>st. wait_loop mac want got evs = WaitTimeout st \<longrightarrow> st \<noteq> want \<and> WaitDone \<in> set evs)"
proof (induction evs arbitrary: got)
  case Nil
  then show ?case by (simp add: wait_loop.simps [of mac want got])
next
  case (Cons ev evs)
  show ?case
  proof (cases ev)
    case (Tick e)
    show ?thesis
    proof (cases "State e mac")
      case None
      then show ?thesis using Tick by (simp add: wait_loop.simps [of mac want got])
    next
      case (Some got')
      then show ?thesis using Tick Cons.IH [of got'] by (auto simp: wait_loop.simps [of mac want got])
    qed
  qed (simp add: wait_loop.simps [of mac want got])
qed

text \<open>
  \<^verbatim>\<open>WaitState\<close> is honest. It returns without error only if it saw the device in the state
  it was asked for, and when its context ends the last state it names is another one.
\<close>

theorem wait_state_honest:
  "(WaitState e mac want evs = Reached \<longrightarrow>
      State e mac = Some want \<or> (\<exists>e'. Tick e' \<in> set evs \<and> State e' mac = Some want)) \<and>
   (\<forall>st. WaitState e mac want evs = WaitTimeout st \<longrightarrow> st \<noteq> want \<and> WaitDone \<in> set evs)"
proof (cases "State e mac")
  case (Some got)
  then show ?thesis using wait_loop_spec [of mac want got evs] by (auto simp: WaitState_def simp del: wait_loop.simps)
qed (simp add: WaitState_def)

section \<open>Witnesses\<close>

definition sample_fleet :: emu where
  "sample_fleet = fst (Add sample_registry 0 [sample_spec] (New ''http://10.0.0.1:8080/inform'' []))"

lemma normalize_samples:
  "normalizeMAC ''00:27:22:e0:00:01'' = Inr ''00:27:22:e0:00:01''"
  "normalizeMAC ''00-27-22-E0-00-01'' = Inr ''00:27:22:e0:00:01''"
  by code_simp+

lemma sample_fleet_eq:
  "sample_fleet = \<lparr>e_informURL = ''http://10.0.0.1:8080/inform'', e_interval = 10 * nanos,
     e_devices = [(''00:27:22:e0:00:01'', sample_device\<lparr>d_interval := 10 * nanos\<rparr>)], e_started = False,
     e_cancel = False, e_done = False, e_running = []\<rparr>"
proof -
  have "sample_spec\<lparr>sp_MAC := ''00:27:22:e0:00:01''\<rparr> = sample_spec" by (simp add: sample_spec_def)
  then have "newDevice sample_registry 0 (sample_spec\<lparr>sp_MAC := ''00:27:22:e0:00:01''\<rparr>)
      ''http://10.0.0.1:8080/inform'' = Inr sample_device"
    by (simp only: sample_device_new)
  moreover have "sp_MAC sample_spec = ''00:27:22:e0:00:01''" by (simp add: sample_spec_def)
  ultimately show ?thesis
    by (simp add: sample_fleet_def Add_def New_def normalize_samples)
qed

lemma sample_fleet_devices:
  "e_devices sample_fleet = [(''00:27:22:e0:00:01'', sample_device\<lparr>d_interval := 10 * nanos\<rparr>)]"
  "e_started sample_fleet = False" "e_interval sample_fleet = 10 * nanos"
  by (simp_all add: sample_fleet_eq)

lemma sample_fleet_reach: "fleet_reach sample_registry ''http://10.0.0.1:8080/inform'' sample_fleet"
  unfolding sample_fleet_def by (rule fleet_reach.step [OF fleet_reach.new fleet_step.add])

theorem fleet_devices_consistent_witness:
  "sp_MAC (d_spec (sample_device\<lparr>d_interval := 10 * nanos\<rparr>)) = ''00:27:22:e0:00:01''"
  using fleet_devices_consistent [OF sample_fleet_reach, of "''00:27:22:e0:00:01''" "sample_device\<lparr>d_interval := 10 * nanos\<rparr>"]
  by (simp add: sample_fleet_devices)

theorem spelling_does_not_matter_witness:
  "State sample_fleet ''00-27-22-E0-00-01'' = Some StatePending \<and>
   Add sample_registry 9 [sample_spec\<lparr>sp_MAC := ''00-27-22-E0-00-01''\<rparr>] sample_fleet =
     (sample_fleet, Some (DuplicateMAC ''00:27:22:e0:00:01''))"
proof -
  have "State sample_fleet ''00:27:22:e0:00:01'' = Some StatePending"
    by (simp add: State_def normalize_samples sample_fleet_devices sample_device_new)
  from spelling_does_not_matter [OF normalize_samples this] show ?thesis
    by (simp add: sample_fleet_devices)
qed

definition sample_running :: emu where
  "sample_running = fst (Start sample_fleet)"

definition sample_stopped :: emu where
  "sample_stopped = (StopRequest sample_running)\<lparr>e_running := []\<rparr>"

lemma sample_running_fields: "e_cancel sample_running" "e_started sample_running"
  by (simp_all add: sample_running_def Start_def sample_fleet_devices nanos_def)

theorem stopped_fleet_is_final_witness:
  "e_devices (fst (Add sample_registry 3 [sample_spec] sample_stopped)) = e_devices sample_stopped"
proof -
  have "(fleet_step sample_registry)\<^sup>*\<^sup>* sample_stopped (fst (Add sample_registry 3 [sample_spec] sample_stopped))"
    by (rule r_into_rtranclp) (rule fleet_step.add)
  from stopped_fleet_is_final [OF this] show ?thesis
    using sample_running_fields by (simp add: sample_stopped_def StopRequest_def)
qed

theorem stop_can_return_witness:
  "\<exists>e'. (fleet_step sample_registry)\<^sup>*\<^sup>* (StopRequest sample_running) e' \<and> e_running e' = [] \<and>
     e_devices e' = e_devices sample_running"
  by (rule stop_can_return [OF sample_running_fields(1)])

theorem add_keeps_a_prefix_witness:
  "\<exists>ds. length ds = 1 \<and> e_devices sample_fleet = rev ds \<and> d_state (snd (ds ! 0)) = StatePending"
proof -
  let ?e = "New ''http://10.0.0.1:8080/inform'' []"
  have e: "\<not> e_started ?e" "e_devices ?e = []" by (simp_all add: New_fields)
  have n: "snd (Add sample_registry 0 [sample_spec] ?e) = None"
    using sample_device_new(1) by (simp add: Add_def New_def normalize_samples sample_spec_def)
  obtain k ds where k: "length ds = k" "e_devices sample_fleet = rev ds"
      "\<forall>i < k. d_state (snd (ds ! i)) = StatePending" "k = 1"
    using add_keeps_a_prefix [of ?e sample_registry 0 "[sample_spec]"] e n
    by (auto simp: sample_fleet_def)
  then show ?thesis by (intro exI [of _ ds]) simp
qed

theorem wait_state_honest_witness:
  "WaitState sample_fleet ''00:27:22:e0:00:01'' StateConnected [WaitDone] = WaitTimeout StatePending \<and>
   StatePending \<noteq> StateConnected"
proof -
  have "WaitState sample_fleet ''00:27:22:e0:00:01'' StateConnected [WaitDone] = WaitTimeout StatePending"
    by (simp add: WaitState_def State_def normalize_samples sample_fleet_devices sample_device_new wait_loop.simps)
  with wait_state_honest [of sample_fleet "''00:27:22:e0:00:01''" StateConnected "[WaitDone]"]
  show ?thesis by blast
qed

end
