(* ===== verification/Cli_Devices.thy ===== *)
theory Cli_Devices
  imports Go_Stream Emu_Fleet
begin

text \<open>
  Where the emulator's devices come from (\<^verbatim>\<open>cmd/unifi-emu/devices.go\<close>, \<^verbatim>\<open>containerip.go\<close>): the five
  mutually exclusive fleet sources, the terse models list, the container contract's JSON array, the
  addresses filled in for a fleet and the container's own address. A YAML file is read through a
  third-party package: what its decoder gives for a text is an argument, and so is the file system.
\<close>

section \<open>Sources\<close>

definition singleFlags :: "string list" where
  "singleFlags = [''mac'', ''type'', ''model'', ''model-display'', ''version'', ''name'', ''ip'']"

record fleet_sources =
  fs_devicesFile :: string
  fs_envInline :: string
  fs_devicesJSON :: string
  fs_modelsFlag :: string
  fs_models :: string

definition modelsText :: "fleet_sources \<Rightarrow> string \<times> bool" where
  "modelsText s = (if fs_modelsFlag s \<noteq> [] then (fs_modelsFlag s, True) else (fs_models s, False))"

datatype cli_error =
    AmbiguousSources "string list"
  | CombinedWith string string
  | ReadDevices string
  | ParseDevices string
  | MultipleDocuments string
  | NoDevices string
  | ParseJSON json_error
  | TrailingContent
  | NoJSONDevices
  | EmptyModel string
  | BadCount string
  | NoModelsListed
  | BadMACBase string
  | BadIPBase string
  | ModelNotKnown string
  | TooManyGateways nat
  | LeftSubnet nat
  | ListInterfaces
  | InterfaceAddresses string
  | NoAddressFound

definition zero_spec :: device_spec where
  "zero_spec = \<lparr>sp_MAC = [], sp_Serial = [], sp_Type = [], sp_Model = [], sp_ModelDisplay = [], sp_Version = [],
     sp_Name = [], sp_IP = [], sp_Ports = 0, sp_SSIDs = [], sp_FWCaps = None\<rparr>"

section \<open>The container contract\<close>

record container_device =
  cd_Model :: string
  cd_MAC :: string
  cd_Serial :: string
  cd_Name :: string

definition zero_container :: container_device where
  "zero_container = \<lparr>cd_Model = [], cd_MAC = [], cd_Serial = [], cd_Name = []\<rparr>"

definition set_container_field :: "string \<Rightarrow> json \<Rightarrow> container_device \<Rightarrow> json_error + container_device" where
  "set_container_field f v d =
     (if f = ''model'' then rbind (dec_string f (cd_Model d) v) (\<lambda>x. Inr (d\<lparr>cd_Model := x\<rparr>))
      else if f = ''mac'' then rbind (dec_string f (cd_MAC d) v) (\<lambda>x. Inr (d\<lparr>cd_MAC := x\<rparr>))
      else if f = ''serial'' then rbind (dec_string f (cd_Serial d) v) (\<lambda>x. Inr (d\<lparr>cd_Serial := x\<rparr>))
      else rbind (dec_string f (cd_Name d) v) (\<lambda>x. Inr (d\<lparr>cd_Name := x\<rparr>)))"

definition dec_container :: "container_device \<Rightarrow> json \<Rightarrow> json_error + container_device" where
  "dec_container d v = dec_struct True [''model'', ''mac'', ''serial'', ''name''] set_container_field v d"

definition container_spec :: "container_device \<Rightarrow> device_spec" where
  "container_spec e =
     zero_spec\<lparr>sp_Model := cd_Model e, sp_MAC := cd_MAC e, sp_Serial := cd_Serial e, sp_Name := cd_Name e\<rparr>"

definition parseDevicesJSON :: "string \<Rightarrow> cli_error + device_spec list" where
  "parseDevicesJSON s =
     (case decode_first s of
        None \<Rightarrow> Inl (ParseJSON SyntaxError)
      | Some (v, rest) \<Rightarrow>
          (case dec_list [] dec_container zero_container [] v of
             Inl e \<Rightarrow> Inl (ParseJSON e)
           | Inr entries \<Rightarrow>
               if stream_more rest then Inl TrailingContent
               else if length entries = 0 then Inl NoJSONDevices
               else Inr (map container_spec entries)))"

section \<open>The models list\<close>

definition parse_item :: "string \<Rightarrow> cli_error + device_spec list" where
  "parse_item it =
     (let item = trim_space it in
      if item = [] then Inr []
      else
        (case cut_at CHR '':'' item of
           (model, countText, hasCount) \<Rightarrow>
             (let model = trim_space model in
              if model = [] then Inl (EmptyModel item)
              else if hasCount then
                (case atoi (trim_space countText) of
                   None \<Rightarrow> Inl (BadCount item)
                 | Some n \<Rightarrow>
                     if n \<le> 0 then Inl (BadCount item)
                     else Inr (replicate (nat n) (zero_spec\<lparr>sp_Model := model\<rparr>)))
              else Inr [zero_spec\<lparr>sp_Model := model\<rparr>])))"

definition parseModelsList :: "string \<Rightarrow> cli_error + device_spec list" where
  "parseModelsList s =
     rbind (rmap parse_item (split_on CHR '','' s)) (\<lambda>specs.
       if length (concat specs) = 0 then Inl NoModelsListed else Inr (concat specs))"

section \<open>Device files\<close>

text \<open>One call of the YAML decoder's \<^verbatim>\<open>Decode\<close>\<close>

datatype 'a yaml_document = YamlDocument 'a | YamlEOF | YamlError

text \<open>
  \<open>read\<close> reads a file, \<open>yaml\<close> gives the outcome of the two calls on a text. Neither source set is
  \<^const>\<open>None\<close>, Go's nil slice.
\<close>

definition loadDevices ::
  "(string \<Rightarrow> string option) \<Rightarrow> (string \<Rightarrow> device_spec list yaml_document \<times> unit yaml_document) \<Rightarrow>
   string \<Rightarrow> string \<Rightarrow> cli_error + device_spec list option"
where
  "loadDevices read yaml filePath envInline =
     (let source =
        (if filePath \<noteq> [] then
           (case read filePath of None \<Rightarrow> Inl (ReadDevices filePath) | Some b \<Rightarrow> Inr (Some (filePath, b)))
         else if trim_space envInline \<noteq> [] then Inr (Some (''SIM_DEVICES'', envInline))
         else Inr None)
      in rbind source (\<lambda>found.
        case found of
          None \<Rightarrow> Inr None
        | Some (src, b) \<Rightarrow>
            (case yaml b of
               (first, second) \<Rightarrow>
                 if first = YamlError then Inl (ParseDevices src)
                 else
                   (case second of
                      YamlDocument _ \<Rightarrow> Inl (MultipleDocuments src)
                    | YamlError \<Rightarrow> Inl (ParseDevices src)
                    | YamlEOF \<Rightarrow>
                        (let specs = (case first of YamlDocument ds \<Rightarrow> ds | _ \<Rightarrow> []) in
                         if length specs = 0 then Inl (NoDevices src) else Inr (Some specs))))))"

definition defaultFleet ::
  "(string \<Rightarrow> string option) \<Rightarrow> (string \<Rightarrow> device_spec list yaml_document \<times> unit yaml_document) \<Rightarrow>
   string \<Rightarrow> string list \<Rightarrow> cli_error + device_spec list option"
where
  "defaultFleet read yaml defaultFile given =
     (if defaultFile = [] then Inr None
      else if list_ex (\<lambda>f. f \<in> set given) singleFlags then Inr None
      else loadDevices read yaml defaultFile [])"

section \<open>Choosing the source\<close>

definition active_sources :: "fleet_sources \<Rightarrow> string list" where
  "active_sources src =
     (if fs_devicesFile src \<noteq> [] then [''-devices''] else []) @
     (if trim_space (fs_envInline src) \<noteq> [] then [''SIM_DEVICES''] else []) @
     (if trim_space (fs_devicesJSON src) \<noteq> [] then [''UNIFI_EMU_DEVICES_JSON''] else []) @
     (if trim_space (fs_modelsFlag src) \<noteq> [] then [''-models''] else []) @
     (if trim_space (fs_models src) \<noteq> [] then [''SIM_MODELS''] else [])"

text \<open>The specs, \<^const>\<open>None\<close> in single-device mode, and the single-device flags that lose\<close>

definition fleetSpecs ::
  "(string \<Rightarrow> string option) \<Rightarrow> (string \<Rightarrow> device_spec list yaml_document \<times> unit yaml_document) \<Rightarrow>
   fleet_sources \<Rightarrow> string list \<Rightarrow> cli_error + device_spec list option \<times> string list"
where
  "fleetSpecs read yaml src given =
     (let active = active_sources src in
      if length active > 1 then Inl (AmbiguousSources active)
      else if length active = 0 then Inr (None, [])
      else
        (case modelsText src of
           (txt, modelsFromFlag) \<Rightarrow>
             (let flagSource = (fs_devicesFile src \<noteq> [] \<or> (trim_space txt \<noteq> [] \<and> modelsFromFlag)) in
              case (if flagSource then find (\<lambda>f. f \<in> set given) singleFlags else None) of
                Some f \<Rightarrow> Inl (CombinedWith (active ! 0) f)
              | None \<Rightarrow>
                  rbind (if trim_space txt \<noteq> [] then rbind (parseModelsList txt) (\<lambda>s. Inr (Some s))
                         else if trim_space (fs_devicesJSON src) \<noteq> []
                         then rbind (parseDevicesJSON (fs_devicesJSON src)) (\<lambda>s. Inr (Some s))
                         else loadDevices read yaml (fs_devicesFile src) (fs_envInline src)) (\<lambda>specs.
                  Inr (specs, if flagSource then [] else filter (\<lambda>f. f \<in> set given) singleFlags)))))"

section \<open>Filling in addresses\<close>

text \<open>The base read as a 64-bit integer, whatever its length, and the low 48 bits of the sum\<close>

definition mac_value :: "bytes \<Rightarrow> 64 word" where
  "mac_value base = fold (\<lambda>b v. push_bit 8 v OR ucast b) base 0"

definition nextMAC :: "bytes \<Rightarrow> nat \<Rightarrow> string" where
  "nextMAC base n =
     (let v = mac_value base + word_of_nat n
      in mac_string (map (\<lambda>i. ucast (drop_bit (8 * (5 - i)) v)) [0, 1, 2, 3, 4, 5]))"

definition nextIP :: "bytes \<Rightarrow> nat \<Rightarrow> cli_error + string" where
  "nextIP base n =
     (let last = unat (base ! 3) + n in
      if last > 254 then Inl (LeftSubnet n)
      else Inr (v4_string [base ! 0, base ! 1, base ! 2, word_of_nat last]))"

text \<open>The loop: the place of the spec, the gateways so far, the specs left\<close>

fun expand_specs :: "registry \<Rightarrow> bytes \<Rightarrow> bytes \<Rightarrow> nat \<Rightarrow> nat \<Rightarrow> device_spec list \<Rightarrow> cli_error + device_spec list" where
  "expand_specs reg baseMAC baseIP i gateways [] = Inr []"
| "expand_specs reg baseMAC baseIP i gateways (s # ss) =
     (case Profile reg (sp_Model s) of
        None \<Rightarrow> Inl (ModelNotKnown (sp_Model s))
      | Some profile \<Rightarrow>
          (let gateway = (pf_Type profile = ''ugw'' \<or> pf_Type profile = ''uxg'');
               gateways' = (if gateway then Suc gateways else gateways) in
           if gateway \<and> gateways' > 1 then Inl (TooManyGateways gateways')
           else
             (let s = (if sp_MAC s = [] then s\<lparr>sp_MAC := nextMAC baseMAC (i + 1)\<rparr> else s) in
              rbind (if sp_IP s = [] then rbind (nextIP baseIP i) (\<lambda>ip. Inr (s\<lparr>sp_IP := ip\<rparr>)) else Inr s) (\<lambda>s.
              rbind (expand_specs reg baseMAC baseIP (Suc i) gateways' ss) (\<lambda>out. Inr (s # out))))))"

definition expandFleet :: "registry \<Rightarrow> device_spec list \<Rightarrow> string \<Rightarrow> string \<Rightarrow> cli_error + device_spec list" where
  "expandFleet reg specs macBase ipBase =
     (case parse_mac macBase of
        None \<Rightarrow> Inl (BadMACBase macBase)
      | Some baseMAC \<Rightarrow>
          (case Option.bind (parse_ip ipBase) to4 of
             None \<Rightarrow> Inl (BadIPBase ipBase)
           | Some baseIP \<Rightarrow> expand_specs reg baseMAC baseIP 0 0 specs))"

section \<open>The container's own address (containerip.go)\<close>

datatype net_addr = IPNet bytes | OtherAddr

record net_interface =
  if_Name :: string
  if_Up :: bool
  if_Loopback :: bool
  if_Addrs :: "unit + net_addr list"

definition usable_address :: "net_addr \<Rightarrow> bytes option" where
  "usable_address a =
     (case a of
        OtherAddr \<Rightarrow> None
      | IPNet b \<Rightarrow>
          (case to4 b of
             None \<Rightarrow> None
           | Some ip \<Rightarrow>
               if ip ! 0 = 127 \<or> (ip ! 0 = 169 \<and> ip ! 1 = 254) then None else Some ip))"

fun first_address :: "net_interface list \<Rightarrow> cli_error + string" where
  "first_address [] = Inl NoAddressFound"
| "first_address (iface # ifaces) =
     (if \<not> if_Up iface \<or> if_Loopback iface then first_address ifaces
      else
        (case if_Addrs iface of
           Inl _ \<Rightarrow> Inl (InterfaceAddresses (if_Name iface))
         | Inr addrs \<Rightarrow>
             (case List.map_filter usable_address addrs of
                ip # _ \<Rightarrow> Inr (v4_string ip)
              | [] \<Rightarrow> first_address ifaces)))"

definition containerIPv4 :: "unit + net_interface list \<Rightarrow> cli_error + string" where
  "containerIPv4 interfaces =
     (case interfaces of Inl _ \<Rightarrow> Inl ListInterfaces | Inr ifaces \<Rightarrow> first_address ifaces)"

end
