(* ===== verification/Cli_Laws.thy ===== *)
theory Cli_Laws
  imports Cli_Devices
begin

text \<open>
  The fleet the emulator's command line builds: the addresses filled in are all different, and what
  the models list names is added whole.
\<close>

section \<open>Adding a whole fleet\<close>

definition addable :: "registry \<Rightarrow> device_spec \<Rightarrow> bool" where
  "addable reg s \<longleftrightarrow> normalizeMAC (sp_MAC s) = Inr (sp_MAC s) \<and> Profile reg (sp_Model s) \<noteq> None \<and> sp_Type s = []"

definition added_as :: "registry \<Rightarrow> int \<Rightarrow> emu \<Rightarrow> device_spec \<Rightarrow> string \<times> device \<Rightarrow> bool" where
  "added_as reg now e s md \<longleftrightarrow> fst md = sp_MAC s \<and>
     (\<exists>d. newDevice reg now s (e_informURL e) = Inr d \<and> snd md = d\<lparr>d_interval := e_interval e\<rparr>)"

lemma addable_new: "addable reg s \<Longrightarrow> \<exists>d. newDevice reg now s url = Inr d"
  by (auto simp: addable_def normalizeMAC_Inr Profile_def newDevice_def Let_def)

lemma add_specs_all:
  fixes e :: emu
  assumes "\<forall>s \<in> set specs. addable reg s" "distinct (map sp_MAC specs)"
    and "\<forall>s \<in> set specs. map_of (e_devices e) (sp_MAC s) = None"
  shows "\<exists>ds. list_all2 (added_as reg now e) specs ds \<and>
    add_specs reg now specs e = (e\<lparr>e_devices := rev ds @ e_devices e\<rparr>, None)"
  using assms
proof (induction specs arbitrary: e)
  case (Cons s specs)
  obtain d where d: "newDevice reg now s (e_informURL e) = Inr d" using addable_new Cons.prems(1) by fastforce
  let ?md = "(sp_MAC s, d\<lparr>d_interval := e_interval e\<rparr>)"
  let ?e = "e\<lparr>e_devices := ?md # e_devices e\<rparr>"
  have fresh: "\<forall>t \<in> set specs. map_of (e_devices ?e) (sp_MAC t) = None" using Cons.prems(2,3) by (fastforce simp: image_iff)
  have tail: "\<forall>t \<in> set specs. addable reg t" "distinct (map sp_MAC specs)" using Cons.prems(1,2) by simp_all
  obtain ds where ds: "list_all2 (added_as reg now ?e) specs ds"
      "add_specs reg now specs ?e = (?e\<lparr>e_devices := rev ds @ e_devices ?e\<rparr>, None)"
    using Cons.IH [OF tail fresh] by (elim exE conjE) (rule that)
  have "added_as reg now e s ?md" using d by (simp add: added_as_def)
  moreover have "added_as reg now ?e = added_as reg now e" by (intro ext) (simp add: added_as_def)
  then have "list_all2 (added_as reg now e) specs ds" using ds(1) by (simp only:)
  moreover have "add_specs reg now (s # specs) e = add_specs reg now specs ?e"
    using Cons.prems(1,3) d by (simp add: addable_def)
  ultimately show ?case using ds(2) by (intro exI [of _ "?md # ds"]) simp
qed simp

lemma Add_all:
  assumes "\<forall>s \<in> set specs. addable reg s" "distinct (map sp_MAC specs)"
  shows "\<exists>ds. list_all2 (added_as reg now (New url opts)) specs ds \<and>
    Add reg now specs (New url opts) = (New url opts\<lparr>e_devices := rev ds\<rparr>, None)"
proof -
  have new: "e_devices (New url opts) = []" "\<not> e_started (New url opts)" by (simp_all add: New_fields)
  show ?thesis using add_specs_all [of specs reg "New url opts" now] assms new by (simp add: Add_def)
qed

section \<open>Automatic addresses\<close>

lemma mac_string_inject: "length v = 6 \<Longrightarrow> length w = 6 \<Longrightarrow> mac_string v = mac_string w \<Longrightarrow> v = w"
  by (metis option.inject parse_mac_string)

definition next_bytes :: "bytes \<Rightarrow> nat \<Rightarrow> bytes" where
  "next_bytes base n = map (\<lambda>i. ucast (drop_bit (8 * (5 - i)) (mac_value base + word_of_nat n))) [0, 1, 2, 3, 4, 5]"

lemma nextMAC_bytes: "nextMAC base n = mac_string (next_bytes base n)"
  by (simp only: nextMAC_def Let_def next_bytes_def)

lemma length_next_bytes [simp]: "length (next_bytes base n) = 6"
  by (simp only: next_bytes_def length_map) simp

lemma nextMAC_normal: "normalizeMAC (nextMAC base n) = Inr (nextMAC base n)"
proof -
  have "parse_mac (mac_string (next_bytes base n)) = Some (next_bytes base n)" by (rule parse_mac_string) simp
  then show ?thesis unfolding nextMAC_bytes normalizeMAC_Inr by (intro exI conjI) simp_all
qed

lemma low_bytes:
  fixes v w :: "64 word"
  assumes "\<And>k. k < 6 \<Longrightarrow> (ucast (drop_bit (8 * k) v) :: byte) = ucast (drop_bit (8 * k) w)"
  shows "take_bit 48 v = take_bit 48 w"
proof (rule bit_word_eqI)
  fix n
  assume n: "n < LENGTH(64)"
  show "bit (take_bit 48 v) n = bit (take_bit 48 w) n"
  proof (cases "n < 48")
    case True
    then have "n div 8 < 6" by simp
    from assms [OF this] have "bit (ucast (drop_bit (8 * (n div 8)) v) :: byte) (n mod 8) = bit (ucast (drop_bit (8 * (n div 8)) w) :: byte) (n mod 8)"
      by simp
    then have "bit v n = bit w n" by (simp add: bit_ucast_iff bit_drop_bit_eq)
    then show ?thesis by (simp add: bit_take_bit_iff)
  qed (simp add: bit_take_bit_iff)
qed

lemma low_bits_of_sum:
  fixes x :: "64 word"
  assumes "take_bit 48 (x + word_of_nat m) = take_bit 48 (x + word_of_nat n)" "m < 2 ^ 48" "n < 2 ^ 48"
  shows "m = n"
proof -
  have low: "unat (take_bit 48 (x + word_of_nat k)) = (unat x + k) mod 2 ^ 48" for k
  proof -
    have "unat (take_bit 48 (x + word_of_nat k)) = (unat x + k mod 2 ^ LENGTH(64)) mod 2 ^ LENGTH(64) mod 2 ^ 48"
      unfolding unsigned_take_bit_eq unfolding take_bit_eq_mod unat_word_ariths(1) unat_of_nat ..
    also have "\<dots> = (unat x + k) mod 2 ^ 48" by (simp add: mod_mod_cancel mod_add_right_eq)
    finally show ?thesis .
  qed
  have "(unat x + m) mod 2 ^ 48 = (unat x + n) mod 2 ^ 48" unfolding low [symmetric] assms(1) ..
  then have "m mod 2 ^ 48 = n mod 2 ^ 48" unfolding nat_mod_eq_iff add.assoc by (simp only: add_left_cancel)
  then show ?thesis using assms(2,3) by (simp only: mod_less)
qed

lemma nextMAC_inject:
  assumes "nextMAC base m = nextMAC base n" "m < 2 ^ 48" "n < 2 ^ 48"
  shows "m = n"
proof -
  let ?v = "mac_value base + word_of_nat m" and ?w = "mac_value base + word_of_nat n"
  have l: "next_bytes base m = next_bytes base n"
    using assms(1) by (intro mac_string_inject) (simp_all only: nextMAC_bytes length_next_bytes)
  have "(ucast (drop_bit (8 * k) ?v) :: byte) = ucast (drop_bit (8 * k) ?w)" if k: "k < 6" for k
  proof -
    have "5 - (5 - k) = k" "5 - k \<in> set [0, 1, 2, 3, 4, 5 :: nat]" using k by auto
    moreover have "\<forall>i \<in> set [0, 1, 2, 3, 4, 5 :: nat]. (ucast (drop_bit (8 * (5 - i)) ?v) :: byte) = ucast (drop_bit (8 * (5 - i)) ?w)"
      using l unfolding next_bytes_def map_eq_conv .
    ultimately show ?thesis by metis
  qed
  then have "take_bit 48 ?v = take_bit 48 ?w" by (rule low_bytes)
  then show ?thesis using assms(2,3) by (rule low_bits_of_sum)
qed

section \<open>Expanding a fleet\<close>

definition is_gateway :: "registry \<Rightarrow> device_spec \<Rightarrow> bool" where
  "is_gateway reg s \<longleftrightarrow> (\<exists>p. Profile reg (sp_Model s) = Some p \<and> (pf_Type p = ''ugw'' \<or> pf_Type p = ''uxg''))"

definition fits :: "bytes \<Rightarrow> nat \<Rightarrow> device_spec \<Rightarrow> bool" where
  "fits baseIP i s \<longleftrightarrow> (sp_IP s = [] \<longrightarrow> unat (baseIP ! 3) + i \<le> 254)"

text \<open>What the spec at place \<open>i\<close> becomes: what it leaves open is taken from the bases.\<close>

definition fill :: "bytes \<Rightarrow> bytes \<Rightarrow> nat \<Rightarrow> device_spec \<Rightarrow> device_spec" where
  "fill baseMAC baseIP i s =
     s\<lparr>sp_MAC := (if sp_MAC s = [] then nextMAC baseMAC (Suc i) else sp_MAC s),
       sp_IP := (if sp_IP s = [] then v4_string [baseIP ! 0, baseIP ! 1, baseIP ! 2, word_of_nat (unat (baseIP ! 3) + i)]
                 else sp_IP s)\<rparr>"

lemma fill_fields [simp]:
  "sp_Model (fill m b i s) = sp_Model s" "sp_Type (fill m b i s) = sp_Type s" "sp_Serial (fill m b i s) = sp_Serial s"
  "sp_Name (fill m b i s) = sp_Name s"
  by (simp_all add: fill_def)

lemma expand_step:
  "expand_specs reg baseMAC baseIP i g (s # ss) =
     (if Profile reg (sp_Model s) = None then Inl (ModelNotKnown (sp_Model s))
      else if is_gateway reg s \<and> g \<ge> 1 then Inl (TooManyGateways (Suc g))
      else if \<not> fits baseIP i s then Inl (LeftSubnet i)
      else rbind (expand_specs reg baseMAC baseIP (Suc i) (if is_gateway reg s then Suc g else g) ss)
             (\<lambda>out. Inr (fill baseMAC baseIP i s # out)))"
  by (cases "Profile reg (sp_Model s)"; cases "sp_IP s = []"; cases "sp_MAC s = []")
    (simp_all add: is_gateway_def fits_def fill_def nextIP_def Let_def not_le)

lemma expand_specs_iff:
  assumes "g \<le> 1"
  shows "expand_specs reg baseMAC baseIP i g specs = Inr out \<longleftrightarrow>
    list_all (\<lambda>s. Profile reg (sp_Model s) \<noteq> None) specs \<and> g + length (filter (is_gateway reg) specs) \<le> 1 \<and>
    list_all2 (fits baseIP) [i..<i + length specs] specs \<and>
    out = map2 (fill baseMAC baseIP) [i..<i + length specs] specs"
  using assms
proof (induction specs arbitrary: i g out)
  case Nil
  then show ?case by auto
next
  case (Cons s specs)
  have upt: "[i..<i + length (s # specs)] = i # [Suc i..<Suc i + length specs]"
    using upt_conv_Cons [of i "i + length (s # specs)"] by (simp del: upt_Suc)
  show ?case
  proof (cases "Profile reg (sp_Model s) = None \<or> is_gateway reg s \<and> g \<ge> 1 \<or> \<not> fits baseIP i s")
    case True
    then show ?thesis unfolding expand_step upt by auto
  next
    case False
    let ?g = "if is_gateway reg s then Suc g else g"
    have g: "?g \<le> 1" using False Cons.prems by (cases "is_gateway reg s") auto
    have sum: "g + length (filter (is_gateway reg) (s # specs)) = ?g + length (filter (is_gateway reg) specs)" by simp
    have "expand_specs reg baseMAC baseIP i g (s # specs) = Inr out \<longleftrightarrow>
        (\<exists>rest. expand_specs reg baseMAC baseIP (Suc i) ?g specs = Inr rest \<and> out = fill baseMAC baseIP i s # rest)"
      unfolding expand_step using False by (auto simp: rbind_Inr_iff)
    then show ?thesis unfolding Cons.IH [OF g] upt sum using False by auto
  qed
qed

text \<open>A fleet with nothing else to complain of and a second gateway is refused for it.\<close>

lemma expand_second_gateway:
  assumes "\<forall>s \<in> set specs. Profile reg (sp_Model s) \<noteq> None \<and> sp_IP s \<noteq> []"
    and "g \<le> 1" and "1 < g + length (filter (is_gateway reg) specs)"
  shows "expand_specs reg baseMAC baseIP i g specs = Inl (TooManyGateways 2)"
  using assms
proof (induction specs arbitrary: i g)
  case (Cons s specs)
  have s: "Profile reg (sp_Model s) \<noteq> None" "fits baseIP i s" using Cons.prems(1) by (simp_all add: fits_def)
  show ?case
  proof (cases "is_gateway reg s \<and> g \<ge> 1")
    case True
    then show ?thesis unfolding expand_step using s Cons.prems(2) by auto
  next
    case False
    then have "expand_specs reg baseMAC baseIP (Suc i) (if is_gateway reg s then Suc g else g) specs = Inl (TooManyGateways 2)"
      using Cons.prems by (intro Cons.IH) auto
    then show ?thesis unfolding expand_step using False s by auto
  qed
qed simp

lemma expanded:
  assumes "expandFleet reg specs macBase ipBase = Inr out"
  shows "\<exists>baseMAC baseIP. list_all (\<lambda>s. Profile reg (sp_Model s) \<noteq> None) specs \<and>
      list_all2 (fits baseIP) [0..<length specs] specs \<and> out = map2 (fill baseMAC baseIP) [0..<length specs] specs"
proof -
  obtain baseMAC baseIP where "expand_specs reg baseMAC baseIP 0 0 specs = Inr out"
    using assms by (auto simp: expandFleet_def split: option.splits)
  then show ?thesis using expand_specs_iff [of 0 reg baseMAC baseIP 0 specs out] by auto
qed

text \<open>
  C19: a fleet expands exactly if the bases parse, every model is known, it has at most one gateway
  and every address taken from the base stays in its /24; and then every spec keeps what it gives
  and gets the rest from the bases by its place in the list, so that a restart gives the same fleet.
\<close>
theorem expand_fleet_iff:
  "expandFleet reg specs macBase ipBase = Inr out \<longleftrightarrow>
    (\<exists>baseMAC baseIP. parse_mac macBase = Some baseMAC \<and> Option.bind (parse_ip ipBase) to4 = Some baseIP \<and>
      list_all (\<lambda>s. Profile reg (sp_Model s) \<noteq> None) specs \<and> length (filter (is_gateway reg) specs) \<le> 1 \<and>
      list_all2 (fits baseIP) [0..<length specs] specs \<and>
      out = map2 (fill baseMAC baseIP) [0..<length specs] specs)"
proof -
  have "expand_specs reg baseMAC baseIP 0 0 specs = Inr out \<longleftrightarrow>
      list_all (\<lambda>s. Profile reg (sp_Model s) \<noteq> None) specs \<and> length (filter (is_gateway reg) specs) \<le> 1 \<and>
      list_all2 (fits baseIP) [0..<length specs] specs \<and>
      out = map2 (fill baseMAC baseIP) [0..<length specs] specs" for baseMAC baseIP
    using expand_specs_iff [of 0 reg baseMAC baseIP 0 specs out] by simp
  then show ?thesis unfolding expandFleet_def by (simp split: option.split)
qed

section \<open>The models list\<close>

definition model_spec :: "string \<Rightarrow> device_spec" where
  "model_spec m = zero_spec\<lparr>sp_Model := m\<rparr>"

lemma model_spec_fields [simp]:
  "sp_Model (model_spec m) = m" "sp_MAC (model_spec m) = []" "sp_IP (model_spec m) = []" "sp_Type (model_spec m) = []"
  by (simp_all add: model_spec_def zero_spec_def)

lemma parse_item_specs: "parse_item it = Inr specs \<Longrightarrow> \<exists>ms. specs = map model_spec ms"
proof -
  assume p: "parse_item it = Inr specs"
  have one: "replicate n (zero_spec\<lparr>sp_Model := m\<rparr>) = map model_spec (replicate n m)" for n m
    by (simp add: model_spec_def)
  have "specs = [] \<or> (\<exists>n m. specs = replicate n (zero_spec\<lparr>sp_Model := m\<rparr>))"
    using p by (auto simp: parse_item_def Let_def split: if_splits prod.splits option.splits)
      (metis replicate_0 replicate_Suc)
  then show ?thesis
  proof (elim disjE exE)
    assume "specs = []"
    then show ?thesis by (intro exI [of _ "[]"]) simp
  next
    fix n m
    assume "specs = replicate n (zero_spec\<lparr>sp_Model := m\<rparr>)"
    then show ?thesis using one by blast
  qed
qed

lemma rmap_specs: "rmap parse_item its = Inr specs \<Longrightarrow> \<exists>ms. concat specs = map model_spec ms"
proof (induction its arbitrary: specs)
  case (Cons it its)
  then obtain x xs where s: "specs = x # xs" "parse_item it = Inr x" "rmap parse_item its = Inr xs"
    by (auto simp: rbind_Inr_iff)
  obtain ms where "x = map model_spec ms" using parse_item_specs [OF s(2)] by blast
  moreover obtain ns where "concat xs = map model_spec ns" using Cons.IH [OF s(3)] by blast
  ultimately show ?case using s(1) by (intro exI [of _ "ms @ ns"]) simp
qed simp

lemma models_list_specs:
  assumes "parseModelsList txt = Inr specs"
  shows "\<exists>ms. ms \<noteq> [] \<and> specs = map model_spec ms"
proof -
  obtain x where x: "rmap parse_item (split_on CHR '','' txt) = Inr x" "specs = concat x" "length (concat x) \<noteq> 0"
    using assms by (auto simp: parseModelsList_def rbind_Inr_iff simp del: length_0_conv split: if_splits)
  obtain ms where ms: "concat x = map model_spec ms" using rmap_specs [OF x(1)] by blast
  then have "ms \<noteq> []" using x(3) by auto
  then show ?thesis using ms x(2) by blast
qed

text \<open>An item as the operator writes it: a model and a count\<close>

definition item_text :: "string \<times> nat \<Rightarrow> string" where
  "item_text mn = (case mn of (m, n) \<Rightarrow> m @ CHR '':'' # nat_dec n)"

definition plain_item :: "string \<times> nat \<Rightarrow> bool" where
  "plain_item mn \<longleftrightarrow> (case mn of (m, n) \<Rightarrow>
     m \<noteq> [] \<and> list_all (\<lambda>c. graphic c \<and> c \<noteq> CHR '','' \<and> c \<noteq> CHR '':'') m \<and> 0 < n \<and> n < 2 ^ 63)"

lemma graphic_digit: "is_digit c \<Longrightarrow> graphic c"
  by (simp add: is_digit_def graphic_def code_def)

lemma trim_graphic: "s \<noteq> [] \<Longrightarrow> list_all graphic s \<Longrightarrow> trim_space s = s"
  by (rule trim_space_graphic) (auto simp: list_all_iff)

lemma parse_item_text:
  assumes "plain_item mn"
  shows "parse_item (item_text mn) = Inr (replicate (snd mn) (model_spec (fst mn))) \<and> CHR '','' \<notin> set (item_text mn)"
proof -
  obtain m n where mn: "mn = (m, n)" by (cases mn)
  have p: "m \<noteq> []" "list_all graphic m" "CHR '','' \<notin> set m" "CHR '':'' \<notin> set m" "0 < n" "n < 2 ^ 63"
    using assms by (auto simp: mn plain_item_def list_all_iff)
  have d: "list_all graphic (nat_dec n)" using nat_dec_digits [of n] graphic_digit by (auto simp: list_all_iff)
  have c: "graphic CHR '':''" by (simp add: graphic_def code_def)
  have t: "trim_space (m @ CHR '':'' # nat_dec n) = m @ CHR '':'' # nat_dec n"
    using p d c by (intro trim_graphic) auto
  have a: "atoi (nat_dec n) = Some (int n)"
    using atoi_itoa [of "int n"] p(6) by (simp add: in_int64_def itoa_def)
  have "is_digit CHR '','' = False" by (simp add: is_digit_def code_def)
  then have "CHR '','' \<notin> set (nat_dec n)" using nat_dec_digits [of n] by (auto simp: list_all_iff)
  then show ?thesis
    using p d t a trim_graphic [of m] trim_graphic [of "nat_dec n"] cut_at_found [of "CHR '':''" m "nat_dec n"]
    by (simp add: mn item_text_def parse_item_def model_spec_def)
qed

lemma rmap_items: "\<forall>mn \<in> set items. plain_item mn \<Longrightarrow>
    rmap parse_item (map item_text items) = Inr (map (\<lambda>mn. replicate (snd mn) (model_spec (fst mn))) items)"
  by (induction items) (simp_all add: parse_item_text)

text \<open>
  A models list written as comma-separated items of a model and a count reads back as that many
  units of each model, in order.
\<close>
theorem models_list_roundtrip:
  assumes "items \<noteq> []" and "\<forall>mn \<in> set items. plain_item mn"
  shows "parseModelsList (join_with '','' (map item_text items)) =
    Inr (concat (map (\<lambda>(m, n). replicate n (model_spec m)) items))"
proof -
  have s: "split_on CHR '','' (join_with '','' (map item_text items)) = map item_text items"
    using assms parse_item_text by (intro split_join) auto
  obtain m n rest where i: "items = (m, n) # rest" using assms(1) by (cases items) auto
  then have "0 < n" using assms(2) by (simp add: plain_item_def)
  then show ?thesis unfolding parseModelsList_def s rmap_items [OF assms(2)] by (simp add: i case_prod_unfold)
qed

theorem models_list_roundtrip_witness:
  "parseModelsList ''U7PRO:1,USM8P:2'' = Inr [model_spec ''U7PRO'', model_spec ''USM8P'', model_spec ''USM8P'']"
proof -
  have p: "\<forall>mn \<in> set [(''U7PRO'', 1), (''USM8P'', 2)]. plain_item mn"
    by (simp add: plain_item_def graphic_def code_def)
  have "join_with '','' (map item_text [(''U7PRO'', 1), (''USM8P'', 2)]) = ''U7PRO:1,USM8P:2''" by code_simp
  with models_list_roundtrip [OF _ p] show ?thesis by (simp add: numeral_2_eq_2)
qed

section \<open>A models list boots\<close>

lemma map2_fill_models: "map sp_Model (map2 (fill m b) is specs) = map sp_Model (map snd (zip is specs))"
  by (induction "is" specs rule: list_induct2') simp_all

text \<open>
  A models list that parses and expands is a fleet that boots whole: every unit is added under an
  address of its own, pending, with no error.
\<close>
theorem models_list_boots:
  assumes "parseModelsList txt = Inr specs" and "expandFleet reg specs macBase ipBase = Inr out"
  shows "\<exists>ds. Add reg now out (New url opts) = (New url opts\<lparr>e_devices := rev ds\<rparr>, None) \<and>
    length ds = length specs \<and> ds \<noteq> [] \<and> distinct (map fst ds) \<and>
    map (\<lambda>d. sp_Model (d_spec (snd d))) ds = map sp_Model specs \<and>
    list_all (\<lambda>d. d_state (snd d) = StatePending) ds"
proof -
  obtain ms where ms: "ms \<noteq> []" "specs = map model_spec ms" using models_list_specs [OF assms(1)] by blast
  obtain bm bi where e: "list_all (\<lambda>s. Profile reg (sp_Model s) \<noteq> None) specs" "list_all2 (fits bi) [0..<length specs] specs"
      "out = map2 (fill bm bi) [0..<length specs] specs"
    using expanded [OF assms(2)] by blast
  have nth: "out ! i = fill bm bi i (specs ! i)" if "i < length specs" for i using that e(3) by simp
  have len: "length out = length specs" by (simp add: e(3))
  have mac: "sp_MAC (out ! i) = nextMAC bm (Suc i)" if "i < length specs" for i
    using that nth by (simp add: ms(2) fill_def)
  have small: "i < 255" if "i < length specs" for i
    using that list_all2_nthD2 [OF e(2) that] by (simp add: fits_def ms(2))
  have add: "\<forall>s \<in> set out. addable reg s"
  proof
    fix s assume "s \<in> set out"
    then obtain i where i: "i < length specs" "s = out ! i" using len by (auto simp: in_set_conv_nth)
    then have "Profile reg (sp_Model s) \<noteq> None" using e(1) nth by (simp add: list_all_length)
    then show "addable reg s" using i mac nextMAC_normal nth by (simp add: addable_def ms(2))
  qed
  have "distinct (map sp_MAC out)"
    unfolding distinct_conv_nth
  proof (intro allI impI)
    fix i j assume ij: "i < length (map sp_MAC out)" "j < length (map sp_MAC out)" "i \<noteq> j"
    then have "i < 255" "j < 255" using small len by simp_all
    then show "map sp_MAC out ! i \<noteq> map sp_MAC out ! j" using ij mac len nextMAC_inject [of bm "Suc i" "Suc j"] by auto
  qed
  from Add_all [OF add this, of now url opts] obtain ds where
    ds: "list_all2 (added_as reg now (New url opts)) out ds" "Add reg now out (New url opts) = (New url opts\<lparr>e_devices := rev ds\<rparr>, None)"
    by (elim exE conjE) (rule that)
  have as: "added_as reg now (New url opts) (out ! i) (ds ! i)" if "i < length specs" for i
    using that ds(1) len by (simp add: list_all2_conv_all_nth)
  have ld: "length ds = length specs" using ds(1) len by (simp add: list_all2_lengthD)
  have dev: "fst (ds ! i) = sp_MAC (out ! i) \<and> sp_Model (d_spec (snd (ds ! i))) = sp_Model (specs ! i) \<and> d_state (snd (ds ! i)) = StatePending"
    if "i < length specs" for i
    using as [OF that] newDevice_Inr nth [OF that] by (fastforce simp: added_as_def)
  have "map fst ds = map sp_MAC out" using dev ld len by (intro nth_equalityI) auto
  moreover have "map (\<lambda>d. sp_Model (d_spec (snd d))) ds = map sp_Model specs" using dev ld by (intro nth_equalityI) auto
  moreover have "ds \<noteq> []" using ld ms by auto
  ultimately show ?thesis using ds(2) ld dev \<open>distinct (map sp_MAC out)\<close> by (auto simp: list_all_length)
qed

lemma sample_parses: "parseModelsList ''BZ2:2'' = Inr [model_spec ''BZ2'', model_spec ''BZ2'']"
proof -
  have p: "plain_item (''BZ2'', 2)" by (simp add: plain_item_def graphic_def code_def)
  have i: "''BZ2:2'' = item_text (''BZ2'', 2)" by code_simp
  have s: "split_on CHR '','' (item_text (''BZ2'', 2)) = [item_text (''BZ2'', 2)]"
    using parse_item_text [OF p] by (intro split_on_none) blast
  show ?thesis unfolding i parseModelsList_def s using parse_item_text [OF p] by (simp add: numeral_2_eq_2)
qed

lemma sample_bases:
  "parse_mac ''00:27:22:e0:00:00'' = Some [0, 0x27, 0x22, 0xe0, 0, 0]"
  "Option.bind (parse_ip ''192.168.1.100'') to4 = Some [192, 168, 1, 100]"
  by code_simp+

lemma sample_expands:
  "\<exists>out. expandFleet sample_registry [model_spec ''BZ2'', model_spec ''BZ2''] ''00:27:22:e0:00:00'' ''192.168.1.100'' = Inr out"
proof -
  have "Profile sample_registry ''BZ2'' = Some sample_profile" by (simp add: sample_registry_def Profile_def)
  then show ?thesis
    unfolding expandFleet_def sample_bases option.case
    by (simp add: expand_step fits_def is_gateway_def sample_profile_def del: expand_specs.simps(2))
qed

theorem models_list_boots_witness:
  "\<exists>out ds. expandFleet sample_registry [model_spec ''BZ2'', model_spec ''BZ2''] ''00:27:22:e0:00:00'' ''192.168.1.100'' = Inr out \<and>
     Add sample_registry 0 out (New ''http://10.0.0.1:8080/inform'' []) = (New ''http://10.0.0.1:8080/inform'' []\<lparr>e_devices := rev ds\<rparr>, None) \<and>
     length ds = 2 \<and> distinct (map fst ds)"
proof -
  obtain out where o: "expandFleet sample_registry [model_spec ''BZ2'', model_spec ''BZ2''] ''00:27:22:e0:00:00'' ''192.168.1.100'' = Inr out"
    using sample_expands by blast
  from models_list_boots [OF sample_parses o, of 0 "''http://10.0.0.1:8080/inform''" "[]"] o show ?thesis by auto
qed

section \<open>Two spellings the command line accepts\<close>

lemma trim_one_space: "trim_space '' '' = []"
proof -
  have "map char_of [32 :: nat] \<in> set spaces" by (simp add: spaces_def space_codes_def)
  moreover have "strip_prefix (map char_of [32 :: nat]) '' '' \<noteq> None" by code_simp
  ultimately have "strip_any spaces '' '' \<noteq> None" using strip_any_None_iff [of spaces "'' ''"] by metis
  then obtain r where r: "strip_any spaces '' '' = Some r" by blast
  then obtain p where p: "p \<in> set spaces" "'' '' = p @ r" using strip_any_Some by blast
  have "[] \<notin> set spaces" by (simp add: spaces_def space_codes_def)
  then have "p \<noteq> []" using p(1) by metis
  then have "r = []" using p(2) by (cases p) auto
  then have "trim_left_any spaces '' '' = trim_left_any spaces []" using r by (simp add: trim_left_any.simps [of spaces "'' ''"])
  moreover have "trim_left_any spaces [] = []" using trim_left_any_suffix [of "[]" spaces] by simp
  moreover have "trim_left_any (map rev spaces) [] = []" using trim_left_any_suffix [of "[]" "map rev spaces"] by simp
  ultimately show ?thesis by (simp add: trim_space_def)
qed
text \<open>
  A models flag of white space counts as no source but still hides \<^verbatim>\<open>SIM_MODELS\<close>: the fleet the
  environment names is dropped without a word and the single-device mode is chosen, although the
  comment says that the two texts are never both there.
\<close>

theorem blank_models_flag_hides_models:
  "fleetSpecs read yaml \<lparr>fs_devicesFile = [], fs_envInline = [], fs_devicesJSON = [], fs_modelsFlag = '' '', fs_models = ''U7PRO''\<rparr> given =
     Inr (None, filter (\<lambda>f. f \<in> set given) singleFlags)"
proof -
  have u: "trim_space ''U7PRO'' = ''U7PRO''" by (rule trim_graphic) (simp_all add: graphic_def code_def)
  show ?thesis by (simp add: fleetSpecs_def active_sources_def modelsText_def trim_one_space u loadDevices_def)
qed

text \<open>
  Content after the device array that starts with a closing bracket is not refused: \<^verbatim>\<open>Decoder.More\<close>
  answers whether another element follows, not whether the text has ended.
\<close>

theorem closing_bracket_hides_trailing_content:
  "parseDevicesJSON (''[{\"model\":\"BZ2\"}]'' @ ''] and more'') = Inr [model_spec ''BZ2'']"
  by code_simp

end
