(* ===== verification/Container_Laws.thy ===== *)
theory Container_Laws
  imports Cli_Laws Docker_Laws
begin

text \<open>
  The herder and the emulator together: what a device container is handed is read back exactly, and
  boots the devices the herder allocated, under the container's own address.
\<close>

section \<open>The payload read back\<close>

definition identity_spec :: "identity \<Rightarrow> device_spec" where
  "identity_spec d =
     zero_spec\<lparr>sp_Model := id_Model d, sp_MAC := id_MAC d, sp_Serial := id_Serial d, sp_Name := id_Name d\<rparr>"

definition ascii :: "string \<Rightarrow> bool" where
  "ascii s \<longleftrightarrow> list_all (\<lambda>c. code c < 128) s"

definition ascii_identity :: "identity \<Rightarrow> bool" where
  "ascii_identity d \<longleftrightarrow> ascii (id_Model d) \<and> ascii (id_MAC d) \<and> ascii (id_Serial d) \<and> ascii (id_Name d)"

lemma ascii_utf8: "ascii s \<Longrightarrow> valid_utf8 s"
  by (simp add: ascii_def valid_utf8_ascii)

lemma printable_ascii: "printableASCII s \<Longrightarrow> ascii s"
  by (auto simp: printableASCII_def ascii_def list_all_iff)

lemma label_ascii: "dnsLabel s \<Longrightarrow> ascii s"
proof -
  assume "dnsLabel s"
  then have "list_all (\<lambda>c. alnum c \<or> c = CHR ''-'') s" by (simp add: dnsLabel_def)
  moreover have "code c < 128" if "alnum c \<or> c = CHR ''-''" for c
    using that by (auto simp: alnum_def is_digit_def is_lower_def is_upper_def code_def)
  ultimately show ?thesis by (auto simp: ascii_def list_all_iff)
qed

lemma hex_lower_ascii: "is_hex_lower c \<Longrightarrow> code c < 128"
  by (auto simp: is_hex_lower_def is_digit_def)

lemma mac_ascii: "device_mac m \<Longrightarrow> ascii m"
proof -
  assume "device_mac m"
  then obtain v where "m = mac_string v" using canonicalMAC_device [of m m] by (auto simp: device_mac_def)
  moreover have "code CHR '':'' < 128" by (simp add: code_def)
  then have "code c < 128" if "c = CHR '':'' \<or> is_hex_lower c" for c using that hex_lower_ascii by blast
  ultimately show ?thesis using mac_string_chars [of v] unfolding ascii_def by (auto simp: list_all_iff)
qed

lemma allocated_ascii:
  assumes "Allocate devices rnd = Inr out" and "d \<in> set out"
  shows "ascii_identity d \<and> device_mac (id_MAC d) \<and> id_Serial d \<noteq> [] \<and> id_Name d \<noteq> []"
proof -
  obtain i where i: "i < length devices" "d = out ! i"
    using assms(2) Allocate_all(1) [OF assms(1)] by (auto simp: in_set_conv_nth)
  then have r: "resolves i (devices ! i) d" using Allocate_all(2) [OF assms(1)] by simp
  then have "ascii (id_Model d)" using printable_ascii by (auto simp: resolves_def checkModel_def split: if_splits)
  moreover have "ascii (id_Serial d)" using r printable_ascii by (auto simp: resolves_def checkSerial_def split: if_splits)
  moreover have "device_mac (id_MAC d)" "dnsLabel (id_Name d)" using r unfolding resolves_def by blast+
  moreover have "id_Serial d \<noteq> []" using r unfolding resolves_def by blast
  ultimately show ?thesis using mac_ascii label_ascii unfolding ascii_identity_def dnsLabel_def by blast
qed

lemma container_keys: "unquote ''model'' = ''model''" "unquote ''mac'' = ''mac''" "unquote ''serial'' = ''serial''"
  "unquote ''name'' = ''name''"
  by (simp_all add: unquote_plain_key)

lemma payload_decodes:
  assumes "ascii_identity d"
  shows "dec_container c (device_payload d) =
    Inr \<lparr>cd_Model = id_Model d, cd_MAC = id_MAC d, cd_Serial = id_Serial d, cd_Name = id_Name d\<rparr>"
  using assms ascii_utf8
  by (cases c) (simp add: dec_container_def dec_struct_def device_payload_def dec_member_def container_keys pick_field_def
      set_container_field_def dec_string_def jstr_def ascii_identity_def)

lemma payloads_decode:
  "\<forall>d \<in> set ds. ascii_identity d \<Longrightarrow>
    dec_elems dec_container zero_container (map device_payload ds) cur =
      Inr (map (\<lambda>d. \<lparr>cd_Model = id_Model d, cd_MAC = id_MAC d, cd_Serial = id_Serial d, cd_Name = id_Name d\<rparr>) ds)"
  by (induction ds arbitrary: cur) (simp_all add: payload_decodes)

lemma payload_text:
  assumes "\<forall>d \<in> set ds. ascii_identity d" "ds \<noteq> []"
  shows "parseDevicesJSON (json_text (JArr (map device_payload ds))) = Inr (map identity_spec ds)"
proof -
  obtain r where r: "decode_first (json_text (JArr (map device_payload ds))) = Some (JArr (map device_payload ds), r)" "list_all is_ws r"
    using decode_first_parse [OF payloads_parse] by blast
  show ?thesis
    using assms(2) no_more [OF r(2)]
    by (simp add: parseDevicesJSON_def r(1) dec_list_def payloads_decode [OF assms(1)] container_spec_def identity_spec_def o_def)
qed

lemma unit_identities:
  assumes "Allocate devices rnd = Inr (in_Devices inp)" "BuildPlan reg inp = Inr pl" "u \<in> set (pl_Units pl)"
  shows "un_Devices u \<noteq> []" "\<forall>d \<in> set (un_Devices u). ascii_identity d \<and> device_mac (id_MAC d) \<and> id_Serial d \<noteq> [] \<and> id_Name d \<noteq> [] \<and> Profile reg (id_Model d) \<noteq> None"
    "distinct (map id_MAC (un_Devices u))"
proof -
  have ds: "set (un_Devices u) \<subseteq> set (in_Devices inp)" using built_plan(5) [OF assms(2)] assms(3) by auto
  show "un_Devices u \<noteq> []" using built_plan(4) [OF assms(2,3)] by (auto simp: well_formed_unit_def split: unit_kind.splits)
  have prof: "\<forall>d \<in> set (in_Devices inp). Profile reg (id_Model d) \<noteq> None"
    using assms(2) check_profiles_iff [of reg "in_Devices inp"] by (auto simp: BuildPlan_def split: option.splits)
  then show "\<forall>d \<in> set (un_Devices u). ascii_identity d \<and> device_mac (id_MAC d) \<and> id_Serial d \<noteq> [] \<and> id_Name d \<noteq> [] \<and> Profile reg (id_Model d) \<noteq> None"
    using allocated_ascii [OF assms(1)] ds by blast
  have "pl_Units pl = topology (in_Runtime inp) (in_SyntheticImage inp) (in_Devices inp)"
    using assms(2) by (simp add: BuildPlan_topology)
  then have "mset (concat (map un_Devices (pl_Units pl))) = mset (in_Devices inp)" by (simp only: topology_devices)
  then have "mset (map id_MAC (concat (map un_Devices (pl_Units pl)))) = mset (map id_MAC (in_Devices inp))" by simp
  then have "distinct (map id_MAC (concat (map un_Devices (pl_Units pl))))"
    using Allocate_all(3) [OF assms(1)] mset_eq_imp_distinct_iff by blast
  moreover obtain us vs where "pl_Units pl = us @ u # vs" using split_list [OF assms(3)] by blast
  ultimately show "distinct (map id_MAC (un_Devices u))" by simp
qed

text \<open>
  C16: a device container is told exactly its devices. The text the herder puts in its environment
  reads back, by the emulator's parser, as one spec per device of the unit, in order, with the
  allocated model, MAC, serial and name and nothing else.
\<close>
theorem container_gets_its_devices:
  assumes "Allocate devices rnd = Inr (in_Devices inp)" and "BuildPlan reg inp = Inr pl" and "u \<in> set (pl_Units pl)"
  shows "\<exists>text. map_of (cr_Env (buildContainerRequest pl u)) envDevicesJSON = Some text \<and>
    parseDevicesJSON text = Inr (map identity_spec (un_Devices u))"
proof -
  have "envInformURL \<noteq> envDevicesJSON" by code_simp
  then show ?thesis using payload_text unit_identities [OF assms] by (simp add: buildContainerRequest_def)
qed

theorem container_gets_its_devices_witness:
  "\<exists>text. map_of (cr_Env (buildContainerRequest sample_plan (pl_Units sample_plan ! 1))) envDevicesJSON = Some text \<and>
     parseDevicesJSON text = Inr (map identity_spec (tl sample_identities))"
proof -
  have "pl_Units sample_plan ! 1 \<in> set (pl_Units sample_plan)" by (simp add: sample_plan_def)
  from container_gets_its_devices [OF sample_allocated sample_plan_built this] show ?thesis by (simp add: sample_plan_def)
qed

section \<open>The container's fleet\<close>

text \<open>A session that reports the identity the herder allocated, at the container's address\<close>

definition reports :: "string \<Rightarrow> identity \<Rightarrow> descriptor \<Rightarrow> bool" where
  "reports ip d desc \<longleftrightarrow>
     desc_Model desc = id_Model d \<and> desc_MAC desc = id_MAC d \<and> desc_Serial desc = id_Serial d \<and>
     desc_Hostname desc = id_Name d \<and> desc_IP desc = ip"

definition runs :: "string \<Rightarrow> identity \<Rightarrow> string \<times> device \<Rightarrow> bool" where
  "runs ip d md \<longleftrightarrow> fst md = id_MAC d \<and> d_state (snd md) = StatePending \<and> reports ip d (s_desc (d_session (snd md)))"

definition container_fleet :: "string \<Rightarrow> identity list \<Rightarrow> device_spec list" where
  "container_fleet ip ds = map (\<lambda>d. identity_spec d\<lparr>sp_IP := ip\<rparr>) ds"

lemma spec_fields [simp]:
  "sp_Model (identity_spec d) = id_Model d" "sp_MAC (identity_spec d) = id_MAC d" "sp_Serial (identity_spec d) = id_Serial d"
  "sp_Name (identity_spec d) = id_Name d" "sp_Type (identity_spec d) = []"
  by (simp_all add: identity_spec_def zero_spec_def)

lemma device_mac_normal: "device_mac m \<Longrightarrow> m \<noteq> [] \<and> normalizeMAC m = Inr m"
proof -
  assume m: "device_mac m"
  then obtain v where v: "length v = 6" "m = mac_string v" using canonicalMAC_device [of m m] by (auto simp: device_mac_def)
  then have "parse_mac m = Some v" by (simp add: parse_mac_string)
  then show ?thesis using v device_mac_hex [OF m] by (auto simp: normalizeMAC_Inr)
qed

lemma filled_already: "sp_MAC s \<noteq> [] \<Longrightarrow> sp_IP s \<noteq> [] \<Longrightarrow> fill m b i s = s \<and> fits b i s"
  by (simp add: fill_def fits_def)

lemma fill_all_same:
  assumes "\<forall>s \<in> set specs. sp_MAC s \<noteq> [] \<and> sp_IP s \<noteq> []" and "length is = length specs"
  shows "map2 (fill m b) is specs = specs \<and> list_all2 (fits b) is specs"
  using assms(2,1) by (induction "is" specs rule: list_induct2) (simp_all add: filled_already)

lemma new_reports:
  assumes "newDevice reg now (identity_spec d\<lparr>sp_IP := ip\<rparr>) url = Inr dev" "id_Name d \<noteq> []" "id_Serial d \<noteq> []"
  shows "d_state dev = StatePending \<and> reports ip d (s_desc (d_session dev))"
  using assms
  by (auto simp: newDevice_def Let_def NewSession_def buildDescriptor_def resolveSerial_def reports_def identity_spec_def zero_spec_def
      split: option.splits if_splits)

lemma container_expands:
  assumes "\<forall>d \<in> set ds. device_mac (id_MAC d) \<and> Profile reg (id_Model d) \<noteq> None" "ip \<noteq> []"
    and "length (filter (is_gateway reg) (container_fleet ip ds)) \<le> 1"
    and "parse_mac macBase = Some bm" "Option.bind (parse_ip ipBase) to4 = Some bi"
  shows "expandFleet reg (container_fleet ip ds) macBase ipBase = Inr (container_fleet ip ds)"
proof -
  have open_fields: "\<forall>s \<in> set (container_fleet ip ds). sp_MAC s \<noteq> [] \<and> sp_IP s \<noteq> []"
    using assms(1,2) device_mac_normal by (auto simp: container_fleet_def)
  have "list_all (\<lambda>s. Profile reg (sp_Model s) \<noteq> None) (container_fleet ip ds)"
    using assms(1) by (simp add: container_fleet_def list_all_iff)
  then have "expand_specs reg bm bi 0 0 (container_fleet ip ds) = Inr (container_fleet ip ds)"
    using assms(3) fill_all_same [OF open_fields, of "[0..<length (container_fleet ip ds)]" bm bi]
      expand_specs_iff [of 0 reg bm bi 0 "container_fleet ip ds" "container_fleet ip ds"] by simp
  then show ?thesis using assms(4,5) by (simp add: expandFleet_def)
qed

lemma container_refused:
  assumes "\<forall>d \<in> set ds. Profile reg (id_Model d) \<noteq> None" "ip \<noteq> []"
    and "1 < length (filter (is_gateway reg) (container_fleet ip ds))"
    and "parse_mac macBase = Some bm" "Option.bind (parse_ip ipBase) to4 = Some bi"
  shows "expandFleet reg (container_fleet ip ds) macBase ipBase = Inl (TooManyGateways 2)"
proof -
  have "expand_specs reg bm bi 0 0 (container_fleet ip ds) = Inl (TooManyGateways 2)"
    by (rule expand_second_gateway) (use assms(1-3) in \<open>auto simp: container_fleet_def\<close>)
  then show ?thesis using assms(4,5) by (simp add: expandFleet_def)
qed

lemma added_runs:
  assumes "list_all2 (added_as reg now (New url opts)) (container_fleet ip ds) mds"
    and "\<forall>d \<in> set ds. id_Serial d \<noteq> [] \<and> id_Name d \<noteq> []"
  shows "list_all2 (runs ip) ds mds"
proof -
  have "list_all2 (\<lambda>d. added_as reg now (New url opts) (identity_spec d\<lparr>sp_IP := ip\<rparr>)) ds mds"
    using assms(1) by (simp add: container_fleet_def list_all2_map1)
  then show ?thesis
  proof (rule list.rel_mono_strong)
    fix d md
    assume "d \<in> set ds" "md \<in> set mds" "added_as reg now (New url opts) (identity_spec d\<lparr>sp_IP := ip\<rparr>) md"
    then show "runs ip d md" using assms(2) new_reports [where d = d and ip = ip] by (fastforce simp: added_as_def runs_def)
  qed
qed

text \<open>
  A device container boots the devices the herder allocated. If at most one device of the unit is
  a gateway, the specs of its environment, under the container's own address, expand to themselves
  and are all added: one pending device per identity, known by its MAC and reporting its model, MAC,
  serial and name and the container's address to the controller.
\<close>
theorem container_fleet_boots:
  assumes "Allocate devices rnd = Inr (in_Devices inp)" and "BuildPlan reg inp = Inr pl" and "u \<in> set (pl_Units pl)"
    and "length (filter (is_gateway reg) (container_fleet ip (un_Devices u))) \<le> 1" and "ip \<noteq> []"
    and "parse_mac macBase = Some baseMAC" and "Option.bind (parse_ip ipBase) to4 = Some baseIP"
  shows "\<exists>ds. expandFleet reg (container_fleet ip (un_Devices u)) macBase ipBase = Inr (container_fleet ip (un_Devices u)) \<and>
    Add reg now (container_fleet ip (un_Devices u)) (New url opts) = (New url opts\<lparr>e_devices := rev ds\<rparr>, None) \<and>
    list_all2 (runs ip) (un_Devices u) ds"
proof -
  note ui = unit_identities [OF assms(1-3)]
  let ?fleet = "container_fleet ip (un_Devices u)"
  have "expandFleet reg ?fleet macBase ipBase = Inr ?fleet"
    using ui(2) assms(4-7) by (intro container_expands) auto
  moreover have "\<forall>s \<in> set ?fleet. addable reg s"
    using ui(2) device_mac_normal by (auto simp: container_fleet_def addable_def)
  moreover have "distinct (map sp_MAC ?fleet)" using ui(3) by (simp add: container_fleet_def o_def)
  ultimately obtain ds where ds: "list_all2 (added_as reg now (New url opts)) ?fleet ds"
      "Add reg now ?fleet (New url opts) = (New url opts\<lparr>e_devices := rev ds\<rparr>, None)"
    using Add_all [of ?fleet reg now url opts] by blast
  have "list_all2 (runs ip) (un_Devices u) ds" using added_runs [OF ds(1)] ui(2) by blast
  then show ?thesis using ds(2) \<open>expandFleet reg ?fleet macBase ipBase = Inr ?fleet\<close> by blast
qed

theorem container_fleet_boots_witness:
  "\<exists>ds. Add Plan_Laws.sample_registry 0 (container_fleet ''172.18.0.5'' (tl sample_identities)) (New ''http://10.0.0.2:8080/inform'' []) =
       (New ''http://10.0.0.2:8080/inform'' []\<lparr>e_devices := rev ds\<rparr>, None) \<and>
     list_all2 (runs ''172.18.0.5'') (tl sample_identities) ds"
proof -
  have u: "pl_Units sample_plan ! 1 \<in> set (pl_Units sample_plan)" "un_Devices (pl_Units sample_plan ! 1) = tl sample_identities"
    by (simp_all add: sample_plan_def)
  have "is_gateway Plan_Laws.sample_registry s = False" for s
    by (simp add: is_gateway_def Profile_def Plan_Laws.sample_registry_def zero_profile_def)
  then have "filter (is_gateway Plan_Laws.sample_registry) xs = []" for xs by simp
  then have g: "length (filter (is_gateway Plan_Laws.sample_registry) (container_fleet ''172.18.0.5'' (un_Devices (pl_Units sample_plan ! 1)))) \<le> 1"
    by (simp only: list.size)
  from container_fleet_boots [OF sample_allocated sample_plan_built u(1) g _ sample_bases, of 0 "''http://10.0.0.2:8080/inform''" "[]"]
  show ?thesis using u(2) by auto
qed

end
