(* ===== verification/Adopt_Client.thy ===== *)
theory Adopt_Client
  imports Go_Stream Go_URL
begin

text \<open>
  The client of the controller's API that adopts devices (\<^verbatim>\<open>internal/adopt/dialect.go\<close>,
  \<^verbatim>\<open>client.go\<close>): login, the adopt command, the device list, and the loops that wait. The HTTP
  exchange with its retries (go-retryablehttp over net/http), the clock and the context are a
  transport over a world that the model does not look into; the client's state is its CSRF token and
  that world. A loop that waits may run for ever, so it is a partial function.
\<close>

section \<open>Dialects\<close>

datatype dialect = Classic | UniFiOS

fun dialect_string :: "dialect \<Rightarrow> string" where
  "dialect_string Classic = ''classic''"
| "dialect_string UniFiOS = ''unifios''"

definition ParseDialect :: "string \<Rightarrow> unit + dialect" where
  "ParseDialect s =
     (let t = to_lower (trim_space s) in
      if t = ''classic'' then Inr Classic else if t = ''unifios'' then Inr UniFiOS else Inl ())"

text \<open>\<^verbatim>\<open>URL.Port\<close>\<close>

definition url_port :: "url \<Rightarrow> string" where
  "url_port u =
     (case cut_last CHR '':'' (url_Host u) of
        Some (_, port) \<Rightarrow> if list_all is_digit port then port else []
      | None \<Rightarrow> [])"

definition DialectForURL :: "string \<Rightarrow> dialect" where
  "DialectForURL raw =
     (case url_parse raw of
        None \<Rightarrow> Classic
      | Some u \<Rightarrow>
          (let port = url_port u;
               port = (if port = [] \<and> equal_fold (url_Scheme u) ''https'' then ''443'' else port)
           in if port = ''443'' then UniFiOS else Classic))"

section \<open>The transport\<close>

datatype ctx_end = Canceled | DeadlineExceeded

fun ctx_text :: "ctx_end \<Rightarrow> string" where
  "ctx_text Canceled = ''context canceled''"
| "ctx_text DeadlineExceeded = ''context deadline exceeded''"

record http_request =
  hr_Method :: string
  hr_URL :: string
  hr_Header :: "(string \<times> string) list"
  hr_Body :: "string option"

text \<open>The body of a response is what it delivers and the error it ends with, if any.\<close>

record http_response =
  rs_Status :: int
  rs_ContentType :: string
  rs_Body :: string
  rs_BodyError :: "string option"

text \<open>
  \<^verbatim>\<open>tr_Build\<close> is the error of making the request; \<^verbatim>\<open>tr_Do\<close> sends it and gives, for every response on
  the way, the two CSRF headers, and the error or the response in the end; \<^verbatim>\<open>tr_Ctx\<close> is the context's
  error; \<^verbatim>\<open>tr_Wait\<close> waits so many nanoseconds and says whether the context ended the wait;
  \<^verbatim>\<open>tr_JSON\<close> is the message of a decoding error.
\<close>

record 'w transport =
  tr_Build :: "http_request \<Rightarrow> string option"
  tr_Do :: "'w \<Rightarrow> http_request \<Rightarrow> 'w \<times> (string \<times> string) list \<times> (string + http_response)"
  tr_Ctx :: "'w \<Rightarrow> ctx_end option"
  tr_Wait :: "'w \<Rightarrow> int \<Rightarrow> 'w \<times> bool"
  tr_JSON :: "json_error \<Rightarrow> string"

record adopt_device =
  dv_MAC :: string
  dv_State :: int
  dv_Adopted :: bool
  dv_Model :: string
  dv_IP :: string
  dv_Name :: string
  dv_Version :: string

definition zero_device :: adopt_device where
  "zero_device = \<lparr>dv_MAC = [], dv_State = 0, dv_Adopted = False, dv_Model = [], dv_IP = [], dv_Name = [], dv_Version = []\<rparr>"

datatype hook = OnWaiting string | OnPending adopt_device | OnConnected adopt_device

record 'w adopt_state =
  as_CSRF :: string
  as_World :: 'w
  as_Hooks :: "hook list"

definition hook :: "hook \<Rightarrow> 'w adopt_state \<Rightarrow> 'w adopt_state" where
  "hook h st = st\<lparr>as_Hooks := as_Hooks st @ [h]\<rparr>"

text \<open>An error is its message and, if \<^verbatim>\<open>notReady\<close> is in its chain, that one's detail.\<close>

record adopt_error =
  ae_Text :: string
  ae_NotReady :: "string option"

definition errorf :: "string \<Rightarrow> adopt_error" where
  "errorf t = \<lparr>ae_Text = t, ae_NotReady = None\<rparr>"

record client =
  cl_Base :: string
  cl_Dialect :: dialect
  cl_WaitMin :: int
  cl_WaitMax :: int

definition second :: int where "second = 10 ^ 9"

definition newClient :: "string \<Rightarrow> dialect \<Rightarrow> int \<Rightarrow> int \<Rightarrow> client" where
  "newClient baseURL d waitMin waitMax =
     \<lparr>cl_Base = trim_right_set [CHR ''/''] baseURL, cl_Dialect = d, cl_WaitMin = waitMin, cl_WaitMax = waitMax\<rparr>"

definition New_client :: "string \<Rightarrow> dialect \<Rightarrow> client" where
  "New_client baseURL d = newClient baseURL d second (30 * second)"

definition loginPath :: "client \<Rightarrow> string" where
  "loginPath c = (if cl_Dialect c = UniFiOS then ''/api/auth/login'' else ''/api/login'')"

definition apiURL :: "client \<Rightarrow> string \<Rightarrow> string \<Rightarrow> string" where
  "apiURL c site endpoint =
     cl_Base c @ (if cl_Dialect c = UniFiOS then ''/proxy/network'' else []) @ ''/api/s/'' @ site @ ''/'' @ endpoint"

definition authHeader :: "client \<Rightarrow> 'w adopt_state \<Rightarrow> (string \<times> string) list" where
  "authHeader c st = (if cl_Dialect c = UniFiOS then [(''X-CSRF-Token'', as_CSRF st)] else [])"

text \<open>The CSRF sniffer sees every response: the rotated token first, the plain one else.\<close>

definition sniff :: "string \<times> string \<Rightarrow> string \<Rightarrow> string" where
  "sniff h tok =
     (case h of (updated, plain) \<Rightarrow>
        (let t = (if updated = [] then plain else updated) in if t \<noteq> [] then t else tok))"

definition send :: "'w transport \<Rightarrow> http_request \<Rightarrow> 'w adopt_state \<Rightarrow> 'w adopt_state \<times> (adopt_error + http_response)" where
  "send T req st =
     (case tr_Build T req of
        Some e \<Rightarrow> (st, Inl (errorf e))
      | None \<Rightarrow>
          (case tr_Do T (as_World st) req of
             (w, hs, r) \<Rightarrow>
               (st\<lparr>as_World := w, as_CSRF := fold sniff hs (as_CSRF st)\<rparr>,
                (case r of Inl e \<Rightarrow> Inl (errorf e) | Inr resp \<Rightarrow> Inr resp))))"

section \<open>Reading answers\<close>

text \<open>\<^verbatim>\<open>io.ReadAll\<close> of an \<^verbatim>\<open>io.LimitReader\<close>\<close>

definition body_limit :: nat where "body_limit = 2 ^ 20"
definition error_limit :: nat where "error_limit = 512"

definition read_limited :: "nat \<Rightarrow> http_response \<Rightarrow> string + string" where
  "read_limited n resp =
     (if n \<le> length (rs_Body resp) then Inr (take n (rs_Body resp))
      else (case rs_BodyError resp of Some e \<Rightarrow> Inl e | None \<Rightarrow> Inr (rs_Body resp)))"

definition isJSON :: "string \<Rightarrow> bool" where
  "isJSON contentType \<longleftrightarrow> contains ''application/json'' (to_lower contentType)"

definition checkReady :: "http_response \<Rightarrow> adopt_error option" where
  "checkReady resp =
     (if isJSON (rs_ContentType resp) then None
      else
        (let contentType = (if rs_ContentType resp = [] then ''no content type'' else rs_ContentType resp);
             detail = ''HTTP '' @ itoa (rs_Status resp) @ '' '' @ contentType @ '', not the JSON a running controller answers with''
         in Some \<lparr>ae_Text = detail, ae_NotReady = Some detail\<rparr>))"

text \<open>The answer that is not 200, with the start of its body\<close>

definition status_error :: "string \<Rightarrow> http_response \<Rightarrow> adopt_error" where
  "status_error operation resp =
     errorf (''emu: '' @ operation @ '': HTTP '' @ itoa (rs_Status resp) @ '': '' @ trim_space (take error_limit (rs_Body resp)))"

record envelope =
  ev_RC :: string
  ev_Msg :: string

definition set_meta_field :: "string \<Rightarrow> json \<Rightarrow> envelope \<Rightarrow> json_error + envelope" where
  "set_meta_field f v m =
     (if f = ''rc'' then rbind (dec_string f (ev_RC m) v) (\<lambda>x. Inr (m\<lparr>ev_RC := x\<rparr>))
      else rbind (dec_string f (ev_Msg m) v) (\<lambda>x. Inr (m\<lparr>ev_Msg := x\<rparr>)))"

definition dec_meta :: "envelope \<Rightarrow> json \<Rightarrow> json_error + envelope" where
  "dec_meta m v = dec_struct False [''rc'', ''msg''] set_meta_field v m"

definition no_envelope :: envelope where
  "no_envelope = \<lparr>ev_RC = [], ev_Msg = []\<rparr>"

text \<open>What an envelope that is not \<^verbatim>\<open>ok\<close> says\<close>

definition envelope_error :: "string \<Rightarrow> envelope \<Rightarrow> adopt_error option" where
  "envelope_error operation m =
     (if ev_RC m \<noteq> [] \<and> ev_RC m \<noteq> ''ok'' then
        Some (errorf (''emu: '' @ operation @ '': '' @
          (if ev_Msg m = [] then ''controller returned meta.rc='' @ ev_RC m else ev_Msg m)))
      else None)"

definition checkAPIEnvelope :: "'w transport \<Rightarrow> string \<Rightarrow> string \<Rightarrow> adopt_error option" where
  "checkAPIEnvelope T operation body =
     (if length (trim_space body) = 0 then None
      else
        (case unmarshal_struct [''meta''] (\<lambda>f v m. dec_meta m v) body no_envelope of
           Inl e \<Rightarrow> Some (errorf (''emu: '' @ operation @ '': decode response: '' @ tr_JSON T e))
         | Inr m \<Rightarrow> envelope_error operation m))"

section \<open>Login\<close>

definition json_headers :: "(string \<times> string) list" where
  "json_headers = [(''Content-Type'', ''application/json'')]"

text \<open>The end of \<^verbatim>\<open>postJSON\<close> and of a classic login: the status, the body, the envelope\<close>

definition read_verdict :: "'w transport \<Rightarrow> string \<Rightarrow> http_response \<Rightarrow> adopt_error option" where
  "read_verdict T operation resp =
     (case read_limited body_limit resp of
        Inl e \<Rightarrow> Some (errorf (''emu: '' @ operation @ '': read response: '' @ e))
      | Inr reply \<Rightarrow> checkAPIEnvelope T operation reply)"

definition login_request :: "client \<Rightarrow> string \<Rightarrow> string \<Rightarrow> http_request" where
  "login_request c user pass =
     \<lparr>hr_Method = ''POST'', hr_URL = cl_Base c @ loginPath c, hr_Header = json_headers,
      hr_Body = Some (json_text (json_object [(''username'', jstr user), (''password'', jstr pass)]))\<rparr>"

definition login :: "'w transport \<Rightarrow> client \<Rightarrow> string \<Rightarrow> string \<Rightarrow> 'w adopt_state \<Rightarrow> 'w adopt_state \<times> adopt_error option" where
  "login T c user pass st =
     (case send T (login_request c user pass) st of
        (st, Inl e) \<Rightarrow> (st, Some e)
      | (st, Inr resp) \<Rightarrow>
          (st,
           case checkReady resp of
             Some e \<Rightarrow> Some e
           | None \<Rightarrow>
               if rs_Status resp \<noteq> 200 then Some (status_error (''POST '' @ loginPath c) resp)
               else if cl_Dialect c = UniFiOS then
                 (if as_CSRF st = []
                  then Some (errorf ''emu: login 200 but no X-Updated-Csrf-Token or X-Csrf-Token header'') else None)
               else read_verdict T (''POST '' @ loginPath c) resp))"

definition ctx_reason :: "'w transport \<Rightarrow> 'w adopt_state \<Rightarrow> string" where
  "ctx_reason T st = (case tr_Ctx T (as_World st) of Some e \<Rightarrow> ctx_text e | None \<Rightarrow> ''<nil>'')"

definition notReadyTimeout :: "'w transport \<Rightarrow> 'w adopt_state \<Rightarrow> string \<Rightarrow> adopt_error" where
  "notReadyTimeout T st lastAnswer =
     errorf (''emu: controller never became ready: '' @ ctx_reason T st @ '' (last answer: '' @ lastAnswer @ '')'')"

text \<open>The wait of a loop: the state after it, and whether the context ended it\<close>

definition pause :: "'w transport \<Rightarrow> int \<Rightarrow> 'w adopt_state \<Rightarrow> 'w adopt_state \<times> bool" where
  "pause T d st = (case tr_Wait T (as_World st) d of (w, ended) \<Rightarrow> (st\<lparr>as_World := w\<rparr>, ended))"

definition not_ready :: "adopt_error option \<Rightarrow> string option" where
  "not_ready err = Option.bind err ae_NotReady"

partial_function (option) login_loop ::
  "'w transport \<Rightarrow> client \<Rightarrow> string \<Rightarrow> string \<Rightarrow> int \<Rightarrow> string \<Rightarrow> 'w adopt_state \<Rightarrow> ('w adopt_state \<times> adopt_error option) option"
where
  "login_loop T c user pass wait lastAnswer st =
     (let (st, err) = login T c user pass st in
      case not_ready err of
        None \<Rightarrow>
          if err \<noteq> None \<and> tr_Ctx T (as_World st) \<noteq> None \<and> lastAnswer \<noteq> []
          then Some (st, Some (notReadyTimeout T st lastAnswer))
          else Some (st, err)
      | Some detail \<Rightarrow>
          (let (st, ended) = pause T wait (hook (OnWaiting detail) st) in
           if ended then Some (st, Some (notReadyTimeout T st detail))
           else login_loop T c user pass (min (2 * wait) (cl_WaitMax c)) detail st))"

declare login_loop.simps [code]

definition Login :: "'w transport \<Rightarrow> client \<Rightarrow> string \<Rightarrow> string \<Rightarrow> 'w adopt_state \<Rightarrow> ('w adopt_state \<times> adopt_error option) option" where
  "Login T c user pass st = login_loop T c user pass (cl_WaitMin c) [] st"

section \<open>Commands and the device list\<close>

definition postJSON ::
  "'w transport \<Rightarrow> string \<Rightarrow> (string \<times> string) list \<Rightarrow> json \<Rightarrow> 'w adopt_state \<Rightarrow> 'w adopt_state \<times> adopt_error option"
where
  "postJSON T url hdr payload st =
     (case send T \<lparr>hr_Method = ''POST'', hr_URL = url, hr_Header = json_headers @ hdr, hr_Body = Some (json_text payload)\<rparr> st of
        (st, Inl e) \<Rightarrow> (st, Some e)
      | (st, Inr resp) \<Rightarrow>
          (st,
           case checkReady resp of
             Some e \<Rightarrow> Some e
           | None \<Rightarrow>
               if rs_Status resp \<noteq> 200 then Some (status_error (''POST '' @ url) resp)
               else read_verdict T (''POST '' @ url) resp))"

definition Adopt :: "'w transport \<Rightarrow> client \<Rightarrow> string \<Rightarrow> string \<Rightarrow> 'w adopt_state \<Rightarrow> 'w adopt_state \<times> adopt_error option" where
  "Adopt T c site mac st =
     postJSON T (apiURL c site ''cmd/devmgr'') (authHeader c st)
       (json_object [(''cmd'', jstr ''adopt''), (''mac'', jstr mac)]) st"

definition set_device_doc :: "string \<Rightarrow> json \<Rightarrow> adopt_device \<Rightarrow> json_error + adopt_device" where
  "set_device_doc f v d =
     (if f = ''mac'' then rbind (dec_string f (dv_MAC d) v) (\<lambda>x. Inr (d\<lparr>dv_MAC := x\<rparr>))
      else if f = ''state'' then rbind (dec_int f (dv_State d) v) (\<lambda>x. Inr (d\<lparr>dv_State := x\<rparr>))
      else if f = ''adopted'' then rbind (dec_bool f (dv_Adopted d) v) (\<lambda>x. Inr (d\<lparr>dv_Adopted := x\<rparr>))
      else if f = ''model'' then rbind (dec_string f (dv_Model d) v) (\<lambda>x. Inr (d\<lparr>dv_Model := x\<rparr>))
      else if f = ''ip'' then rbind (dec_string f (dv_IP d) v) (\<lambda>x. Inr (d\<lparr>dv_IP := x\<rparr>))
      else if f = ''name'' then rbind (dec_string f (dv_Name d) v) (\<lambda>x. Inr (d\<lparr>dv_Name := x\<rparr>))
      else rbind (dec_string f (dv_Version d) v) (\<lambda>x. Inr (d\<lparr>dv_Version := x\<rparr>)))"

definition dec_device_doc :: "adopt_device \<Rightarrow> json \<Rightarrow> json_error + adopt_device" where
  "dec_device_doc d v =
     dec_struct False [''mac'', ''state'', ''adopted'', ''model'', ''ip'', ''name'', ''version''] set_device_doc v d"

record device_reply =
  dr_Meta :: envelope
  dr_Data :: "adopt_device list"

definition set_reply_field :: "string \<Rightarrow> json \<Rightarrow> device_reply \<Rightarrow> json_error + device_reply" where
  "set_reply_field f v r =
     (if f = ''meta'' then rbind (dec_meta (dr_Meta r) v) (\<lambda>x. Inr (r\<lparr>dr_Meta := x\<rparr>))
      else rbind (dec_list f dec_device_doc zero_device (dr_Data r) v) (\<lambda>x. Inr (r\<lparr>dr_Data := x\<rparr>)))"

definition read_devices :: "'w transport \<Rightarrow> http_response \<Rightarrow> adopt_error + adopt_device list" where
  "read_devices T resp =
     (case checkReady resp of
        Some e \<Rightarrow> Inl e
      | None \<Rightarrow>
          if rs_Status resp \<noteq> 200 then Inl (status_error ''GET stat/device'' resp)
          else
            (case (case decode_first (rs_Body resp) of
                     None \<Rightarrow> Inl SyntaxError
                   | Some (v, _) \<Rightarrow>
                       dec_struct False [''meta'', ''data''] set_reply_field v \<lparr>dr_Meta = no_envelope, dr_Data = []\<rparr>) of
               Inl e \<Rightarrow> Inl (errorf (''emu: decode stat/device: '' @ tr_JSON T e))
             | Inr reply \<Rightarrow>
                 (case envelope_error ''GET stat/device'' (dr_Meta reply) of
                    Some e \<Rightarrow> Inl e
                  | None \<Rightarrow> Inr (dr_Data reply))))"

definition devices ::
  "'w transport \<Rightarrow> string \<Rightarrow> (string \<times> string) list \<Rightarrow> 'w adopt_state \<Rightarrow> 'w adopt_state \<times> (adopt_error + adopt_device list)"
where
  "devices T url hdr st =
     (case send T \<lparr>hr_Method = ''GET'', hr_URL = url, hr_Header = hdr, hr_Body = None\<rparr> st of
        (st, Inl e) \<Rightarrow> (st, Inl e)
      | (st, Inr resp) \<Rightarrow> (st, read_devices T resp))"

definition Devices :: "'w transport \<Rightarrow> client \<Rightarrow> string \<Rightarrow> 'w adopt_state \<Rightarrow> 'w adopt_state \<times> (adopt_error + adopt_device list)" where
  "Devices T c site st = devices T (apiURL c site ''stat/device'') (authHeader c st) st"

definition pick_device :: "string \<Rightarrow> adopt_device list \<Rightarrow> adopt_error + adopt_device" where
  "pick_device mac ds =
     (case find (\<lambda>d. equal_fold (dv_MAC d) mac) ds of
        Some d \<Rightarrow> Inr d
      | None \<Rightarrow> Inl (errorf (''emu: device '' @ mac @ '' not found'')))"

definition DeviceByMAC ::
  "'w transport \<Rightarrow> client \<Rightarrow> string \<Rightarrow> string \<Rightarrow> 'w adopt_state \<Rightarrow> 'w adopt_state \<times> (adopt_error + adopt_device)"
where
  "DeviceByMAC T c site mac st =
     (case Devices T c site st of (st, r) \<Rightarrow> (st, rbind r (pick_device mac)))"

text \<open>\<^verbatim>\<open>DoRaw\<close> and \<^verbatim>\<open>PostRaw\<close>: the status, 0 without an answer, and the body as they come\<close>

definition DoRaw ::
  "'w transport \<Rightarrow> client \<Rightarrow> string \<Rightarrow> string \<Rightarrow> json option \<Rightarrow> 'w adopt_state \<Rightarrow> 'w adopt_state \<times> int \<times> (adopt_error + string)"
where
  "DoRaw T c verb path payload st =
     (let url = (if cl_Dialect c = UniFiOS then cl_Base c @ ''/proxy/network'' @ path else cl_Base c @ path) in
      case send T \<lparr>hr_Method = verb, hr_URL = url, hr_Header = json_headers @ authHeader c st,
                   hr_Body = map_option json_text payload\<rparr> st of
        (st, Inl e) \<Rightarrow> (st, 0, Inl e)
      | (st, Inr resp) \<Rightarrow>
          (st, rs_Status resp,
           case read_limited body_limit resp of
             Inl e \<Rightarrow> Inl (errorf (''emu: POST '' @ url @ '': read response: '' @ e))
           | Inr reply \<Rightarrow> Inr reply))"

definition PostRaw ::
  "'w transport \<Rightarrow> client \<Rightarrow> string \<Rightarrow> json \<Rightarrow> 'w adopt_state \<Rightarrow> 'w adopt_state \<times> int \<times> (adopt_error + string)"
where
  "PostRaw T c path payload st = DoRaw T c ''POST'' path (Some payload) st"

section \<open>Waiting for one device\<close>

definition bool_text :: "bool \<Rightarrow> string" where
  "bool_text b = (if b then ''true'' else ''false'')"

text \<open>The formats \<^verbatim>\<open>%+v\<close> of a device and \<^verbatim>\<open>%v\<close> of an error\<close>

definition device_text :: "adopt_device \<Rightarrow> string" where
  "device_text d =
     ''{MAC:'' @ dv_MAC d @ '' State:'' @ itoa (dv_State d) @ '' Adopted:'' @ bool_text (dv_Adopted d) @ '' Model:'' @ dv_Model d @
     '' IP:'' @ dv_IP d @ '' Name:'' @ dv_Name d @ '' Version:'' @ dv_Version d @ ''}''"

definition error_text :: "adopt_error option \<Rightarrow> string" where
  "error_text e = (case e of None \<Rightarrow> ''<nil>'' | Some e \<Rightarrow> ae_Text e)"

definition connected :: "adopt_device \<Rightarrow> bool" where
  "connected d \<longleftrightarrow> dv_State d = 1 \<and> dv_Adopted d"

definition wait_error :: "'w transport \<Rightarrow> 'w adopt_state \<Rightarrow> string \<Rightarrow> adopt_device \<Rightarrow> adopt_error option \<Rightarrow> adopt_error" where
  "wait_error T st mac prev lastErr =
     errorf (''emu: waiting for '' @ mac @ '' adoption: '' @ ctx_reason T st @ '' (last device '' @ device_text prev @
       '', last error '' @ error_text lastErr @ '')'')"

partial_function (option) wait_adopted ::
  "'w transport \<Rightarrow> client \<Rightarrow> string \<Rightarrow> string \<Rightarrow> adopt_device \<Rightarrow> 'w adopt_state \<Rightarrow>
   ('w adopt_state \<times> adopt_device \<times> adopt_error option) option"
where
  "wait_adopted T c site mac prev st =
     (let (st, r) = DeviceByMAC T c site mac st;
          seen = (case r of Inl _ \<Rightarrow> prev | Inr d \<Rightarrow> d);
          lastErr = (case r of Inl e \<Rightarrow> Some e | Inr _ \<Rightarrow> None) in
      if lastErr = None \<and> connected seen then Some (st, seen, None)
      else
        (let (st, ended) = pause T (2 * second) st in
         if ended then Some (st, seen, Some (wait_error T st mac seen lastErr))
         else wait_adopted T c site mac seen st))"

declare wait_adopted.simps [code]

definition WaitAdopted ::
  "'w transport \<Rightarrow> client \<Rightarrow> string \<Rightarrow> string \<Rightarrow> 'w adopt_state \<Rightarrow> ('w adopt_state \<times> adopt_device \<times> adopt_error option) option"
where
  "WaitAdopted T c site mac st = wait_adopted T c site mac zero_device st"

end
