(* ===== verification/Adopt_Fleet.thy ===== *)
theory Adopt_Fleet
  imports Adopt_Client
begin

text \<open>
  Adopting a fleet (\<^verbatim>\<open>internal/adopt/fleet.go\<close>): device after device, wait for the pending document,
  issue the adopt, wait until the controller reports the device connected. What ends a wait is the
  context; a run that never ends is \<^const>\<open>None\<close>.
\<close>

section \<open>Options\<close>

record 'w fleet_options =
  op_PollInterval :: int
  op_RetryInterval :: int
  op_RequirePending :: bool
  op_Check :: "('w \<Rightarrow> string option) option"

definition pollInterval :: "'w fleet_options \<Rightarrow> int" where
  "pollInterval opts = (if op_PollInterval opts > 0 then op_PollInterval opts else 2 * second)"

definition retryInterval :: "'w fleet_options \<Rightarrow> int" where
  "retryInterval opts = (if op_RetryInterval opts > 0 then op_RetryInterval opts else 10 * second)"

definition checkAlive :: "'w fleet_options \<Rightarrow> 'w adopt_state \<Rightarrow> adopt_error option" where
  "checkAlive opts st =
     (case op_Check opts of
        None \<Rightarrow> None
      | Some check \<Rightarrow> map_option (\<lambda>e. errorf (''adoption abandoned: '' @ e)) (check (as_World st)))"

section \<open>Waiting for the pending document\<close>

text \<open>The last device seen, if any, is Go's pair of \<^verbatim>\<open>last\<close> and \<^verbatim>\<open>seen\<close>.\<close>

definition pending_error :: "'w transport \<Rightarrow> 'w adopt_state \<Rightarrow> string \<Rightarrow> adopt_device option \<Rightarrow> adopt_error option \<Rightarrow> adopt_error" where
  "pending_error T st mac prev lastErr =
     errorf (mac @ '' never reached pending: '' @ ctx_reason T st @
       (case prev of
          Some d \<Rightarrow> '' (last state '' @ itoa (dv_State d) @ '' adopted='' @ bool_text (dv_Adopted d) @ '')''
        | None \<Rightarrow> '' (never listed, last error '' @ error_text lastErr @ '')''))"

partial_function (option) wait_pending ::
  "'w transport \<Rightarrow> client \<Rightarrow> string \<Rightarrow> string \<Rightarrow> 'w fleet_options \<Rightarrow> adopt_device option \<Rightarrow> 'w adopt_state \<Rightarrow>
   ('w adopt_state \<times> (adopt_error + adopt_device \<times> bool)) option"
where
  "wait_pending T c site mac opts prev st =
     (let (st, r) = DeviceByMAC T c site mac st;
          seen = (case r of Inl _ \<Rightarrow> prev | Inr d \<Rightarrow> Some d);
          lastErr = (case r of Inl e \<Rightarrow> Some e | Inr _ \<Rightarrow> None) in
      if lastErr = None \<and> connected (the seen) then Some (st, Inr (the seen, True))
      else if lastErr = None \<and> dv_State (the seen) = 2 then Some (st, Inr (the seen, False))
      else
        (case checkAlive opts st of
           Some e \<Rightarrow> Some (st, Inl e)
         | None \<Rightarrow>
             (let (st, ended) = pause T (pollInterval opts) st in
              if ended then Some (st, Inl (pending_error T st mac seen lastErr))
              else wait_pending T c site mac opts seen st)))"

declare wait_pending.simps [code]

definition waitPending ::
  "'w transport \<Rightarrow> client \<Rightarrow> string \<Rightarrow> string \<Rightarrow> 'w fleet_options \<Rightarrow> 'w adopt_state \<Rightarrow>
   ('w adopt_state \<times> (adopt_error + adopt_device \<times> bool)) option"
where
  "waitPending T c site mac opts st = wait_pending T c site mac opts None st"

section \<open>Issuing the adopt\<close>

text \<open>The two answers that improve with time\<close>

definition premature :: "adopt_error \<Rightarrow> bool" where
  "premature e \<longleftrightarrow> ae_NotReady e \<noteq> None \<or> contains ''cannotadopt'' (to_lower (ae_Text e))"

partial_function (option) adoptWithRetry ::
  "'w transport \<Rightarrow> client \<Rightarrow> string \<Rightarrow> string \<Rightarrow> 'w fleet_options \<Rightarrow> 'w adopt_state \<Rightarrow>
   ('w adopt_state \<times> adopt_error option) option"
where
  "adoptWithRetry T c site mac opts st =
     (let (st, err) = Adopt T c site mac st in
      case err of
        None \<Rightarrow> Some (st, None)
      | Some e \<Rightarrow>
          if \<not> premature e then Some (st, Some (e\<lparr>ae_Text := ''adopt '' @ mac @ '': '' @ ae_Text e\<rparr>))
          else
            (let (st, r) = DeviceByMAC T c site mac st in
             if (case r of Inl _ \<Rightarrow> False | Inr d \<Rightarrow> dv_Adopted d) then Some (st, None)
             else
               (case checkAlive opts st of
                  Some e \<Rightarrow> Some (st, Some e)
                | None \<Rightarrow>
                    (let (st, ended) = pause T (retryInterval opts) st in
                     if ended then
                       Some (st, Some (errorf (mac @ '' never adopted: '' @ ctx_reason T st @ '' (last adopt error '' @ ae_Text e @ '')'')))
                     else adoptWithRetry T c site mac opts st))))"

declare adoptWithRetry.simps [code]

section \<open>The fleet\<close>

fun Fleet ::
  "'w transport \<Rightarrow> client \<Rightarrow> string \<Rightarrow> 'w fleet_options \<Rightarrow> string list \<Rightarrow> 'w adopt_state \<Rightarrow>
   ('w adopt_state \<times> adopt_error option) option"
where
  "Fleet T c site opts [] st = Some (st, None)"
| "Fleet T c site opts (mac # macs) st =
     Option.bind (waitPending T c site mac opts st) (\<lambda>(st, pending).
       case pending of
         Inl e \<Rightarrow> Some (st, Some e)
       | Inr (device, True) \<Rightarrow>
           if op_RequirePending opts then
             Some (st, Some (errorf (mac @ '' is already adopted (state '' @ itoa (dv_State device) @
               '') on a controller that should not know it'')))
           else Fleet T c site opts macs (hook (OnConnected device) st)
       | Inr (device, False) \<Rightarrow>
           Option.bind (adoptWithRetry T c site mac opts (hook (OnPending device) st)) (\<lambda>(st, err).
             case err of
               Some e \<Rightarrow> Some (st, Some e)
             | None \<Rightarrow>
                 Option.bind (WaitAdopted T c site mac st) (\<lambda>(st, device, err).
                   case err of
                     Some e \<Rightarrow> Some (st, Some (e\<lparr>ae_Text := mac @ '' controller-side adoption: '' @ ae_Text e\<rparr>))
                   | None \<Rightarrow> Fleet T c site opts macs (hook (OnConnected device) st))))"

end
