(* ===== verification/Cli_Adopt.thy ===== *)
theory Cli_Adopt
  imports Go_Flag Adopt_Fleet
begin

text \<open>
  The adoption settings of the emulator's command line and the adoption run behind them
  (\<^verbatim>\<open>cmd/unifi-emu/adopt.go\<close>). The lines of the log are values; the run's context and the context of
  the diagnosis are two transports over one world.
\<close>

section \<open>Settings\<close>

definition defaultAdoptTimeout :: int where
  "defaultAdoptTimeout = 5 * 60 * 10 ^ 9"

record adopt_settings =
  ad_Enabled :: bool
  ad_URL :: string
  ad_Site :: string
  ad_Dialect :: string
  ad_Timeout :: int
  ad_Explicit :: bool

record adopt_config =
  ac_Enabled :: bool
  ac_URL :: string
  ac_Site :: string
  ac_Dialect :: dialect
  ac_Username :: string
  ac_Password :: string
  ac_Timeout :: int
  ac_FromPort :: bool

datatype adopt_config_error =
    BadSimAdopt string
  | BadSimAdoptTimeout string
  | AdoptIsOff
  | NoAdoptURL
  | NoAdoptUser
  | BadPasswordFile string
  | NoAdoptPassword
  | BadAdoptBudget int
  | BadAdoptDialect string

definition no_settings :: adopt_settings where
  "no_settings = \<lparr>ad_Enabled = False, ad_URL = [], ad_Site = [], ad_Dialect = [], ad_Timeout = 0, ad_Explicit = False\<rparr>"

definition no_config :: adopt_config where
  "no_config =
     \<lparr>ac_Enabled = False, ac_URL = [], ac_Site = [], ac_Dialect = Classic, ac_Username = [], ac_Password = [],
      ac_Timeout = 0, ac_FromPort = False\<rparr>"

definition adoptEnvDefaults :: "(string \<Rightarrow> string) \<Rightarrow> adopt_config_error + adopt_settings" where
  "adoptEnvDefaults getenv =
     (let site = getenv ''SIM_ADOPT_SITE'';
          s = no_settings\<lparr>ad_URL := getenv ''SIM_ADOPT_URL'', ad_Site := (if site = [] then ''default'' else site),
                 ad_Dialect := getenv ''SIM_ADOPT_DIALECT'', ad_Timeout := defaultAdoptTimeout\<rparr>;
          raw = getenv ''SIM_ADOPT'';
          limit = getenv ''SIM_ADOPT_TIMEOUT''
      in rbind (if raw = [] then Inr s
                else (case parse_bool raw of None \<Rightarrow> Inl (BadSimAdopt raw) | Some b \<Rightarrow> Inr (s\<lparr>ad_Enabled := b\<rparr>))) (\<lambda>s.
         if limit = [] then Inr s
         else (case parse_duration limit of
                 None \<Rightarrow> Inl (BadSimAdoptTimeout limit)
               | Some d \<Rightarrow> Inr (s\<lparr>ad_Timeout := d\<rparr>))))"

text \<open>The password: of the environment, or of the file it names less its final line ends\<close>

definition adopt_password :: "(string \<Rightarrow> string) \<Rightarrow> (string \<Rightarrow> string option) \<Rightarrow> adopt_config_error + string" where
  "adopt_password getenv readFile =
     (let file = getenv ''SIM_ADOPT_PASSWORD_FILE'' in
      if file = [] then Inr (getenv ''SIM_ADOPT_PASSWORD'')
      else
        (case readFile file of
           None \<Rightarrow> Inl (BadPasswordFile file)
         | Some body \<Rightarrow> Inr (trim_right_set [char_of (13::nat), char_of (10::nat)] body)))"

definition resolveAdopt ::
  "adopt_settings \<Rightarrow> (string \<Rightarrow> string) \<Rightarrow> (string \<Rightarrow> string option) \<Rightarrow> adopt_config_error + adopt_config"
where
  "resolveAdopt s getenv readFile =
     (let username = getenv ''SIM_ADOPT_USERNAME'';
          settingsPresent =
            (ad_URL s \<noteq> [] \<or> ad_Dialect s \<noteq> [] \<or> username \<noteq> [] \<or> getenv ''SIM_ADOPT_PASSWORD'' \<noteq> [] \<or>
             getenv ''SIM_ADOPT_PASSWORD_FILE'' \<noteq> [])
      in if \<not> ad_Enabled s then
           (if settingsPresent \<and> \<not> ad_Explicit s then Inl AdoptIsOff else Inr no_config)
         else if ad_URL s = [] then Inl NoAdoptURL
         else if username = [] then Inl NoAdoptUser
         else
           rbind (adopt_password getenv readFile) (\<lambda>password.
             if password = [] then Inl NoAdoptPassword
             else if ad_Timeout s \<le> 0 then Inl (BadAdoptBudget (ad_Timeout s))
             else
               (let url = trim_right_set [CHR ''/''] (ad_URL s);
                    cfg = \<lparr>ac_Enabled = True, ac_URL = url, ac_Site = (if ad_Site s = [] then ''default'' else ad_Site s),
                           ac_Dialect = Classic, ac_Username = username, ac_Password = password,
                           ac_Timeout = ad_Timeout s, ac_FromPort = False\<rparr>
                in if ad_Dialect s = [] then Inr (cfg\<lparr>ac_Dialect := DialectForURL url, ac_FromPort := True\<rparr>)
                   else
                     (case ParseDialect (ad_Dialect s) of
                        Inl _ \<Rightarrow> Inl (BadAdoptDialect (ad_Dialect s))
                      | Inr d \<Rightarrow> Inr (cfg\<lparr>ac_Dialect := d\<rparr>)))))"

section \<open>The run\<close>

datatype adopt_line =
    DialectInferred dialect
  | AdoptingInto string string string dialect int
  | ControllerNotReady string
  | PendingOnController string
  | ConnectedDevice string string
  | FinalStateUnknown string string
  | FinalState string int bool string
  | AllConnected nat

fun hook_line :: "hook \<Rightarrow> adopt_line" where
  "hook_line (OnWaiting detail) = ControllerNotReady detail"
| "hook_line (OnPending d) = PendingOnController (dv_MAC d)"
| "hook_line (OnConnected d) = ConnectedDevice (dv_MAC d) (dv_Model d)"

fun logAdoptDiagnosis ::
  "'w transport \<Rightarrow> client \<Rightarrow> adopt_config \<Rightarrow> string list \<Rightarrow> 'w adopt_state \<Rightarrow> 'w adopt_state \<times> adopt_line list"
where
  "logAdoptDiagnosis T c cfg [] st = (st, [])"
| "logAdoptDiagnosis T c cfg (mac # macs) st =
     (case DeviceByMAC T c (ac_Site cfg) mac st of
        (st, r) \<Rightarrow>
          (case logAdoptDiagnosis T c cfg macs st of
             (st, ls) \<Rightarrow>
               (st, (case r of
                       Inl e \<Rightarrow> FinalStateUnknown mac (ae_Text e)
                     | Inr d \<Rightarrow> FinalState mac (dv_State d) (dv_Adopted d) (dv_Model d)) # ls)))"

definition fleet_defaults :: "'w fleet_options" where
  "fleet_defaults = \<lparr>op_PollInterval = 0, op_RetryInterval = 0, op_RequirePending = False, op_Check = None\<rparr>"

text \<open>
  \<open>T\<close> is the transport under the run's deadline, \<open>T'\<close> the one under the diagnosis's own;
  \<open>interrupted\<close> says whether the parent context has ended.
\<close>

definition run_intro :: "adopt_config \<Rightarrow> adopt_line list" where
  "run_intro cfg =
     (if ac_FromPort cfg then [DialectInferred (ac_Dialect cfg)] else []) @
     [AdoptingInto (ac_URL cfg) (ac_Site cfg) (ac_Username cfg) (ac_Dialect cfg) (ac_Timeout cfg)]"

definition runAdopt ::
  "'w transport \<Rightarrow> 'w transport \<Rightarrow> ('w \<Rightarrow> bool) \<Rightarrow> adopt_config \<Rightarrow> string list \<Rightarrow> 'w \<Rightarrow>
   ('w \<times> adopt_line list \<times> adopt_error option) option"
where
  "runAdopt T T' interrupted cfg macs w =
     (let client = New_client (ac_URL cfg) (ac_Dialect cfg) in
      Option.bind (Login T client (ac_Username cfg) (ac_Password cfg) \<lparr>as_CSRF = [], as_World = w, as_Hooks = []\<rparr>)
        (\<lambda>(st, err).
          case err of
            Some e \<Rightarrow>
              Some (as_World st, run_intro cfg @ map hook_line (as_Hooks st),
                    Some (e\<lparr>ae_Text := ''controller login: '' @ ae_Text e\<rparr>))
          | None \<Rightarrow>
              Option.bind (Fleet T client (ac_Site cfg) fleet_defaults macs st) (\<lambda>(st, err).
                let said = run_intro cfg @ map hook_line (as_Hooks st) in
                case err of
                  None \<Rightarrow> Some (as_World st, said @ [AllConnected (length macs)], None)
                | Some e \<Rightarrow>
                    (if interrupted (as_World st) then Some (as_World st, said, Some e)
                     else
                       (case logAdoptDiagnosis T' client cfg macs st of
                          (st, ls) \<Rightarrow> Some (as_World st, said @ ls, Some e))))))"

end
