(* ===== verification/Emu_URL.thy ===== *)
theory Emu_URL
  imports Go_URL
begin

text \<open>
  The inform URL with its host resolved to an IPv4 address (\<^verbatim>\<open>informurl.go\<close>). What \<^verbatim>\<open>URL.String\<close> writes
  is put together from the pieces of the parsed text.
\<close>

section \<open>Writing a URL\<close>

text \<open>\<^verbatim>\<open>shouldEscape\<close>\<close>

definition should_escape :: "encoding \<Rightarrow> char \<Rightarrow> bool" where
  "should_escape mode c \<longleftrightarrow>
     (if is_letter c \<or> is_digit c then False
      else if (mode = EncodeHost \<or> mode = EncodeZone) \<and> host_char c then False
      else if c \<in> set ''-_.~'' then False
      else if c \<in> set ''$&+,/:;=?@'' \<and> mode = EncodePath then c = CHR ''?''
      else if c \<in> set ''$&+,/:;=?@'' \<and> mode = EncodeUserPassword then c \<in> set ''@/?:''
      else if c \<in> set ''$&+,/:;=?@'' \<and> mode = EncodeFragment then False
      else \<not> (mode = EncodeFragment \<and> c \<in> set ''!()*''))"

definition upper_hex :: "nat \<Rightarrow> char" where
  "upper_hex n = (if n < 10 then char_of (48 + n) else char_of (55 + n))"

definition escape :: "encoding \<Rightarrow> string \<Rightarrow> string" where
  "escape mode s =
     concat (map (\<lambda>c. if should_escape mode c then [CHR ''%'', upper_hex (code c div 16), upper_hex (code c mod 16)] else [c]) s)"

definition valid_encoded :: "encoding \<Rightarrow> string \<Rightarrow> bool" where
  "valid_encoded mode s \<longleftrightarrow>
     list_all (\<lambda>c. c \<in> set ''!$&()*+,;=:@[]%'' \<or> code c = 39 \<or> \<not> should_escape mode c) s"

text \<open>\<^verbatim>\<open>EscapedPath\<close> and \<^verbatim>\<open>EscapedFragment\<close> of a text with what it decodes to\<close>

definition escaped_text :: "encoding \<Rightarrow> string \<Rightarrow> string \<Rightarrow> string" where
  "escaped_text mode raw decoded =
     (if raw \<noteq> escape mode decoded \<and> valid_encoded mode raw then raw else escape mode decoded)"

text \<open>
  The pieces of a URL that has a scheme and a host: the user information, the path, the query with
  whether there is one, the fragment, each as written
\<close>

record url_pieces =
  up_User :: "string option"
  up_Path :: string
  up_Query :: "string option"
  up_Fragment :: string

definition pieces_of :: "string \<Rightarrow> url_pieces" where
  "pieces_of raw =
     (let (base, fragment, _) = cut_at CHR ''#'' raw;
          rest = (case get_scheme base [] base of Some (_, r) \<Rightarrow> r | None \<Rightarrow> []);
          (body, query, asked) = cut_at CHR ''?'' rest;
          (authority, path, ok) = cut_at CHR ''/'' (drop 2 body)
      in \<lparr>up_User = map_option fst (cut_last CHR ''@'' authority),
          up_Path = (if ok then CHR ''/'' # path else []),
          up_Query = (if asked then Some query else None),
          up_Fragment = fragment\<rparr>)"

definition userinfo_text :: "string \<Rightarrow> string" where
  "userinfo_text info =
     (case cut_at CHR '':'' info of
        (user, pass, ok) \<Rightarrow>
          escape EncodeUserPassword (the (unescape EncodeUserPassword user)) @
          (if ok then CHR '':'' # escape EncodeUserPassword (the (unescape EncodeUserPassword pass)) else []))"

text \<open>\<^verbatim>\<open>URL.String\<close> of the URL with another host\<close>

definition url_string :: "string \<Rightarrow> url \<Rightarrow> string \<Rightarrow> string" where
  "url_string raw u host =
     (let p = pieces_of raw in
      url_Scheme u @ ''://'' @
      (case up_User p of Some info \<Rightarrow> userinfo_text info @ ''@'' | None \<Rightarrow> []) @
      escape EncodeHost host @
      escaped_text EncodePath (up_Path p) (url_Path u) @
      (case up_Query p of Some q \<Rightarrow> CHR ''?'' # q | None \<Rightarrow> []) @
      (if url_Fragment u \<noteq> [] then CHR ''#'' # escaped_text EncodeFragment (up_Fragment p) (url_Fragment u) else []))"

section \<open>Host and port of a URL\<close>

definition split_port :: "string \<Rightarrow> string \<times> string" where
  "split_port hostport =
     (case cut_last CHR '':'' hostport of
        Some (host, port) \<Rightarrow> if list_all is_digit port then (host, port) else (hostport, [])
      | None \<Rightarrow> (hostport, []))"

definition url_hostname :: "url \<Rightarrow> string" where
  "url_hostname u =
     (let host = fst (split_port (url_Host u)) in
      if host \<noteq> [] \<and> hd host = CHR ''['' \<and> last host = CHR '']'' then butlast (tl host) else host)"

definition join_host_port :: "string \<Rightarrow> string \<Rightarrow> string" where
  "join_host_port host port =
     (if CHR '':'' \<in> set host then ''['' @ host @ '']:'' @ port else host @ '':'' @ port)"

section \<open>Resolving\<close>

datatype inform_url_error =
    BadInformURL string
  | NoInformHost string
  | LookupFailed string
  | NoIPv4Address string

text \<open>
  \<open>lookup\<close> is the resolver asked for IPv4 addresses; their text is the dotted one.
\<close>

definition ip_text :: "bytes \<Rightarrow> string" where
  "ip_text b = v4_string (case to4 b of Some ip \<Rightarrow> ip | None \<Rightarrow> b)"

definition resolveInformURLWith :: "string \<Rightarrow> (string \<Rightarrow> unit + bytes list) \<Rightarrow> inform_url_error + string" where
  "resolveInformURLWith raw lookup =
     (case url_parse raw of
        None \<Rightarrow> Inl (BadInformURL raw)
      | Some u \<Rightarrow>
          if url_Scheme u = [] \<or> url_Host u = [] then Inl (BadInformURL raw)
          else
            (let host = url_hostname u in
             if host = [] then Inl (NoInformHost raw)
             else if parse_ip host \<noteq> None then Inr raw
             else
               (case lookup host of
                  Inl _ \<Rightarrow> Inl (LookupFailed host)
                | Inr [] \<Rightarrow> Inl (NoIPv4Address host)
                | Inr (ip # _) \<Rightarrow>
                    (let port = snd (split_port (url_Host u)) in
                     Inr (url_string raw u (if port \<noteq> [] then join_host_port (ip_text ip) port else ip_text ip))))))"

end
