(* ===== verification/Cli_Run.thy ===== *)
theory Cli_Run
  imports Cli_Devices Cli_Adopt Emu_URL Emu_Fleet
begin

text \<open>
  The command \<^verbatim>\<open>unifi-emu\<close> (\<^verbatim>\<open>cmd/unifi-emu/main.go\<close>): its flags and variables, the way from them to
  a running fleet, the readiness marker, the adoption run and the exit status. What the process finds
  around it is a record; what it does is the list of its effects in order. A run that is never
  interrupted is \<^const>\<open>None\<close>.
\<close>

section \<open>The process\<close>

record 'w process =
  ps_Registry :: registry
  ps_Version :: string
  ps_Args :: "string list"
  ps_Getenv :: "string \<Rightarrow> string"
  ps_ReadFile :: "string \<Rightarrow> string option"
  ps_YAML :: "string \<Rightarrow> device_spec list yaml_document \<times> unit yaml_document"
  ps_Interfaces :: "unit + net_interface list"
  ps_Lookup :: "string \<Rightarrow> unit + bytes list"
  ps_Exists :: "string \<Rightarrow> bool"
  ps_CanWrite :: "string \<Rightarrow> bool"
  ps_Now :: int
  ps_World :: 'w
  ps_Adopt :: "adopt_config \<Rightarrow> 'w transport"
  ps_Diagnose :: "'w transport"
  ps_Interrupted :: "'w \<Rightarrow> bool"
  ps_Signal :: "'w \<Rightarrow> 'w option"

datatype cli_line =
    FlagProblem flag_error
  | AdoptProblem adopt_config_error
  | FleetProblem cli_error
  | DefaultFleetProblem cli_error
  | ContainerIPProblem cli_error
  | ContainerReports string nat
  | ExpandProblem cli_error
  | ResolveProblem inform_url_error
  | InformResolved string string
  | IgnoringFlags "string list"
  | AddProblem emu_error
  | StartProblem emu_error
  | Informing device_spec string "device_state option"
  | MarkerProblem string
  | Adopting adopt_line
  | AdoptInterrupted
  | AdoptFailed string
  | SignalReceived

datatype cli_effect = Printed string | Logged cli_line | FleetStarted emu | MarkerWritten string | FleetStopped

section \<open>Flags and variables\<close>

definition envOr :: "'w process \<Rightarrow> string \<Rightarrow> string \<Rightarrow> string" where
  "envOr P key def = (if ps_Getenv P key \<noteq> [] then ps_Getenv P key else def)"

definition informURLDefault :: "(string \<Rightarrow> string) \<Rightarrow> string" where
  "informURLDefault getenv =
     (case find (\<lambda>key. getenv key \<noteq> []) [''UNIFI_EMU_INFORM_URL'', ''SIM_CONTROLLER''] of
        Some key \<Rightarrow> getenv key
      | None \<Rightarrow> ''http://localhost:8080/inform'')"

definition defaultReadyFile :: string where
  "defaultReadyFile = ''/unifi-emu-ready''"

definition readyFilePath :: "(string \<Rightarrow> string) \<Rightarrow> string" where
  "readyFilePath getenv =
     (let p = getenv ''UNIFI_EMU_READY_FILE'' in if p \<noteq> [] then p else defaultReadyFile)"

definition readyProbe :: "'w process \<Rightarrow> string \<Rightarrow> int" where
  "readyProbe P path = (if ps_Exists P path then 0 else 1)"

definition env_settings :: "'w process \<Rightarrow> adopt_settings" where
  "env_settings P = (case adoptEnvDefaults (ps_Getenv P) of Inl _ \<Rightarrow> no_settings | Inr s \<Rightarrow> s)"

definition cli_flags :: "'w process \<Rightarrow> flag_set" where
  "cli_flags P =
     \<lparr>fg_Formal =
        [(''inform'', FString (informURLDefault (ps_Getenv P))),
         (''devices'', FString []), (''models'', FString []),
         (''mac'', FString ''00:27:22:e0:00:01''), (''type'', FString []), (''model'', FString ''UGW3''),
         (''model-display'', FString []), (''version'', FString []), (''name'', FString []),
         (''ip'', FString ''192.168.1.242''),
         (''adopt'', FBool (ad_Enabled (env_settings P))), (''adopt-url'', FString (ad_URL (env_settings P))),
         (''adopt-site'', FString (ad_Site (env_settings P))), (''adopt-dialect'', FString (ad_Dialect (env_settings P))),
         (''adopt-timeout'', FDuration (ad_Timeout (env_settings P))),
         (''healthcheck'', FBool False), (''V'', FBool False)],
      fg_Actual = [], fg_Args = []\<rparr>"

definition flag_settings :: "flag_set \<Rightarrow> adopt_settings" where
  "flag_settings fs =
     \<lparr>ad_Enabled = bool_flag fs ''adopt'', ad_URL = string_flag fs ''adopt-url'', ad_Site = string_flag fs ''adopt-site'',
      ad_Dialect = string_flag fs ''adopt-dialect'', ad_Timeout = duration_flag fs ''adopt-timeout'',
      ad_Explicit = (''adopt'' \<in> set (fg_Actual fs))\<rparr>"

definition cli_sources :: "'w process \<Rightarrow> flag_set \<Rightarrow> fleet_sources" where
  "cli_sources P fs =
     \<lparr>fs_devicesFile = string_flag fs ''devices'', fs_envInline = ps_Getenv P ''SIM_DEVICES'',
      fs_devicesJSON = ps_Getenv P ''UNIFI_EMU_DEVICES_JSON'', fs_modelsFlag = string_flag fs ''models'',
      fs_models = ps_Getenv P ''SIM_MODELS''\<rparr>"

definition single_spec :: "flag_set \<Rightarrow> device_spec" where
  "single_spec fs =
     zero_spec\<lparr>sp_MAC := string_flag fs ''mac'', sp_Type := string_flag fs ''type'', sp_Model := string_flag fs ''model'',
       sp_ModelDisplay := string_flag fs ''model-display'', sp_Version := string_flag fs ''version'',
       sp_Name := string_flag fs ''name'', sp_IP := string_flag fs ''ip''\<rparr>"

section \<open>From the command line to the specs\<close>

text \<open>The lines logged so far with the result; an error is the lines with the last one saying it.\<close>

definition fail :: "cli_line list \<Rightarrow> ('e \<Rightarrow> cli_line) \<Rightarrow> 'e + 'a \<Rightarrow> cli_line list + 'a" where
  "fail said line r = (case r of Inl e \<Rightarrow> Inl (said @ [line e]) | Inr x \<Rightarrow> Inr x)"

definition source_specs :: "'w process \<Rightarrow> flag_set \<Rightarrow> cli_line list + device_spec list option \<times> string list" where
  "source_specs P fs =
     rbind (fail [] FleetProblem (fleetSpecs (ps_ReadFile P) (ps_YAML P) (cli_sources P fs) (fg_Actual fs))) (\<lambda>(specs, ignored).
       if specs \<noteq> None then Inr (specs, ignored)
       else
         rbind (fail [] DefaultFleetProblem
                 (defaultFleet (ps_ReadFile P) (ps_YAML P) (ps_Getenv P ''SIM_DEFAULT_DEVICES'') (fg_Actual fs)))
           (\<lambda>specs. Inr (specs, ignored)))"

definition own_address :: "'w process \<Rightarrow> fleet_sources \<Rightarrow> device_spec list option \<Rightarrow> cli_line list + device_spec list option \<times> cli_line list" where
  "own_address P src specs =
     (if trim_space (fs_devicesJSON src) \<noteq> [] then
        rbind (fail [] ContainerIPProblem (containerIPv4 (ps_Interfaces P))) (\<lambda>ip.
          Inr (map_option (map (\<lambda>s. s\<lparr>sp_IP := ip\<rparr>)) specs,
               [ContainerReports ip (case specs of Some ss \<Rightarrow> length ss | None \<Rightarrow> 0)]))
      else Inr (specs, []))"

definition fleet_plan :: "'w process \<Rightarrow> flag_set \<Rightarrow> cli_line list + device_spec list option \<times> string list \<times> cli_line list" where
  "fleet_plan P fs =
     rbind (source_specs P fs) (\<lambda>(specs, ignored).
     rbind (own_address P (cli_sources P fs) specs) (\<lambda>(specs, said).
       case specs of
         None \<Rightarrow> Inr (None, ignored, said)
       | Some ss \<Rightarrow>
           rbind (fail said ExpandProblem
                   (expandFleet (ps_Registry P) ss (envOr P ''SIM_MAC_BASE'' ''00:27:22:e0:00:00'') (envOr P ''SIM_IP_BASE'' ''192.168.1.100'')))
             (\<lambda>ss. Inr (Some ss, ignored, said))))"

text \<open>The resolved URL, the specs to add, and what has been logged on the way\<close>

definition cli_plan :: "'w process \<Rightarrow> flag_set \<Rightarrow> cli_line list + string \<times> device_spec list \<times> cli_line list" where
  "cli_plan P fs =
     rbind (fleet_plan P fs) (\<lambda>(specs, ignored, said).
     (let inform = string_flag fs ''inform'' in
      rbind (fail said ResolveProblem (resolveInformURLWith inform (ps_Lookup P))) (\<lambda>resolved.
        (let said = said @ (if resolved \<noteq> inform then [InformResolved inform resolved] else []) in
         case specs of
           None \<Rightarrow> Inr (resolved, [single_spec fs], said)
         | Some ss \<Rightarrow> Inr (resolved, ss, said @ (if length ignored > 0 then [IgnoringFlags ignored] else []))))))"

section \<open>The run\<close>

text \<open>From the written marker on: the adoption, then the wait for the signal\<close>

definition adopt_and_wait :: "'w process \<Rightarrow> adopt_config \<Rightarrow> string list \<Rightarrow> (cli_effect list \<times> int) option" where
  "adopt_and_wait P cfg macs =
     (let wait = (\<lambda>w lines. map_option (\<lambda>_. (lines @ [Logged SignalReceived], 0)) (ps_Signal P w)) in
      if \<not> ac_Enabled cfg then wait (ps_World P) []
      else
        Option.bind (runAdopt (ps_Adopt P cfg) (ps_Diagnose P) (ps_Interrupted P) cfg macs (ps_World P)) (\<lambda>(w, said, err).
          let lines = map (\<lambda>l. Logged (Adopting l)) said in
          case err of
            None \<Rightarrow> wait w lines
          | Some e \<Rightarrow>
              if ps_Interrupted P w then Some (lines @ [Logged AdoptInterrupted], 0)
              else Some (lines @ [Logged (AdoptFailed (ae_Text e))], 1)))"

definition informing_lines :: "emu \<Rightarrow> string \<Rightarrow> device_spec list \<Rightarrow> cli_effect list" where
  "informing_lines e url specs = map (\<lambda>s. Logged (Informing s url (State e (sp_MAC s)))) specs"

text \<open>The started fleet is stopped on every way out.\<close>

definition run_fleet :: "'w process \<Rightarrow> adopt_config \<Rightarrow> string \<Rightarrow> device_spec list \<Rightarrow> emu \<Rightarrow> (cli_effect list \<times> int) option" where
  "run_fleet P cfg url specs e =
     (let path = readyFilePath (ps_Getenv P);
          begun = FleetStarted e # informing_lines e url specs in
      if \<not> ps_CanWrite P path then Some (begun @ [Logged (MarkerProblem path), FleetStopped], 1)
      else
        map_option (\<lambda>(effects, status). (begun @ [MarkerWritten path] @ effects @ [FleetStopped], status))
          (adopt_and_wait P cfg (map sp_MAC specs)))"

definition boot :: "'w process \<Rightarrow> adopt_config \<Rightarrow> string \<Rightarrow> device_spec list \<Rightarrow> (cli_effect list \<times> int) option" where
  "boot P cfg url specs =
     (case Add (ps_Registry P) (ps_Now P) specs (New url []) of
        (e, Some err) \<Rightarrow> Some ([Logged (AddProblem err)], 1)
      | (e, None) \<Rightarrow>
          (case Start e of
             (e, Some err) \<Rightarrow> Some ([Logged (StartProblem err)], 1)
           | (e, None) \<Rightarrow> run_fleet P cfg url specs e))"

definition cli_adopt :: "'w process \<Rightarrow> flag_set \<Rightarrow> adopt_config_error + adopt_config" where
  "cli_adopt P fs =
     rbind (adoptEnvDefaults (ps_Getenv P)) (\<lambda>_. resolveAdopt (flag_settings fs) (ps_Getenv P) (ps_ReadFile P))"

definition run :: "'w process \<Rightarrow> (cli_effect list \<times> int) option" where
  "run P =
     (case parse_args (ps_Args P) (cli_flags P) of
        Inl e \<Rightarrow> Some ([Logged (FlagProblem e)], if e = ErrHelp then 0 else 2)
      | Inr fs \<Rightarrow>
          if bool_flag fs ''V'' then Some ([Printed (ps_Version P)], 0)
          else if bool_flag fs ''healthcheck'' then Some ([], readyProbe P (readyFilePath (ps_Getenv P)))
          else
            (case cli_adopt P fs of
               Inl e \<Rightarrow> Some ([Logged (AdoptProblem e)], 1)
             | Inr cfg \<Rightarrow>
                 (case cli_plan P fs of
                    Inl lines \<Rightarrow> Some (map Logged lines, 1)
                  | Inr (url, specs, said) \<Rightarrow>
                      map_option (\<lambda>(effects, status). (map Logged said @ effects, status)) (boot P cfg url specs))))"

section \<open>The watch on one device\<close>

text \<open>The changes of state \<^verbatim>\<open>watch\<close> logs, from what it sees at its first look and at its ticks\<close>

fun watch_loop :: "string \<Rightarrow> device_state \<Rightarrow> wait_event list \<Rightarrow> (device_state \<times> device_state) list" where
  "watch_loop mac prev [] = []"
| "watch_loop mac prev (WaitDone # evs) = []"
| "watch_loop mac prev (Tick e # evs) =
     (case State e mac of
        None \<Rightarrow> []
      | Some cur \<Rightarrow> if cur \<noteq> prev then (prev, cur) # watch_loop mac cur evs else watch_loop mac prev evs)"

definition watch :: "emu \<Rightarrow> string \<Rightarrow> wait_event list \<Rightarrow> (device_state \<times> device_state) list" where
  "watch e mac evs = (case State e mac of None \<Rightarrow> [] | Some prev \<Rightarrow> watch_loop mac prev evs)"

end
