(* ===== verification/Adopt_Laws.thy ===== *)
theory Adopt_Laws
  imports Adopt_Fleet
begin

text \<open>
  What an adoption run promises: it adopts in order and reports exactly what it adopted, a login
  holds a token, and it returns whenever its context ends.
\<close>

section \<open>What the steps leave alone\<close>

lemma send_hooks: "send T req st = (st', r) \<Longrightarrow> as_Hooks st' = as_Hooks st"
  by (auto simp: send_def split: option.splits prod.splits)

lemma Devices_hooks: "Devices T c site st = (st', r) \<Longrightarrow> as_Hooks st' = as_Hooks st"
  by (auto simp: Devices_def devices_def dest: send_hooks split: prod.splits sum.splits)

lemma DeviceByMAC_hooks: "DeviceByMAC T c site mac st = (st', r) \<Longrightarrow> as_Hooks st' = as_Hooks st"
  by (auto simp: DeviceByMAC_def dest: Devices_hooks split: prod.splits)

lemma Adopt_hooks: "Adopt T c site mac st = (st', r) \<Longrightarrow> as_Hooks st' = as_Hooks st"
  by (auto simp: Adopt_def postJSON_def dest: send_hooks split: prod.splits sum.splits)

lemma login_hooks: "login T c user pass st = (st', r) \<Longrightarrow> as_Hooks st' = as_Hooks st"
  by (auto simp: login_def dest: send_hooks split: prod.splits sum.splits)

lemma pause_hooks: "pause T d st = (st', b) \<Longrightarrow> as_Hooks st' = as_Hooks st"
  by (auto simp: pause_def split: prod.splits)

lemma hook_fields [simp]: "as_Hooks (hook h st) = as_Hooks st @ [h]" "as_World (hook h st) = as_World st" "as_CSRF (hook h st) = as_CSRF st"
  by (simp_all add: hook_def)

lemma DeviceByMAC_answer: "DeviceByMAC T c site mac st = (st', Inr d) \<Longrightarrow> equal_fold (dv_MAC d) mac"
  by (auto simp: DeviceByMAC_def pick_device_def rbind_Inr_iff find_Some_iff split: prod.splits option.splits)

section \<open>What the waits find\<close>

text \<open>The outcome of a wait leaves the hooks alone, and what it found is what it waited for.\<close>

definition pending_found :: "string \<Rightarrow> adopt_error + adopt_device \<times> bool \<Rightarrow> bool" where
  "pending_found mac r \<longleftrightarrow>
     (case r of
        Inl _ \<Rightarrow> True
      | Inr (d, already) \<Rightarrow> equal_fold (dv_MAC d) mac \<and> (if already then connected d else dv_State d = 2))"

lemma pending_found_simps [simp]:
  "pending_found mac (Inl e)"
  "pending_found mac (Inr (d, True)) \<longleftrightarrow> equal_fold (dv_MAC d) mac \<and> connected d"
  "pending_found mac (Inr (d, False)) \<longleftrightarrow> equal_fold (dv_MAC d) mac \<and> dv_State d = 2"
  by (simp_all add: pending_found_def)

lemma wait_pending_found:
  assumes "wait_pending T c site mac opts prev st = Some y"
  shows "as_Hooks (fst y) = as_Hooks st \<and> pending_found mac (snd y)"
proof (rule wait_pending.raw_induct [where P = "\<lambda>T c site mac opts prev st y. as_Hooks (fst y) = as_Hooks st \<and> pending_found mac (snd y)",
      OF _ assms], goal_cases)
  case (1 rec T c site mac opts prev st y)
  obtain st1 r where d: "DeviceByMAC T c site mac st = (st1, r)" by (cases "DeviceByMAC T c site mac st")
  obtain st2 b where p: "pause T (pollInterval opts) st1 = (st2, b)" by (cases "pause T (pollInterval opts) st1")
  note h = DeviceByMAC_hooks [OF d] pause_hooks [OF p]
  show ?case
  proof (cases r)
    case (Inl e)
    show ?thesis using 1(2) 1(1) h unfolding d Inl
      by (auto simp: p Let_def split: option.splits if_splits)
  next
    case (Inr dev)
    have "equal_fold (dv_MAC dev) mac" using DeviceByMAC_answer d Inr by blast
    then show ?thesis using 1(2) 1(1) h unfolding d Inr
      by (auto simp: p Let_def split: option.splits if_splits)
  qed
qed

definition adopted_found :: "string \<Rightarrow> adopt_device \<times> adopt_error option \<Rightarrow> bool" where
  "adopted_found mac r \<longleftrightarrow> (snd r = None \<longrightarrow> connected (fst r) \<and> equal_fold (dv_MAC (fst r)) mac)"

lemma wait_adopted_found:
  assumes "wait_adopted T c site mac prev st = Some y"
  shows "as_Hooks (fst y) = as_Hooks st \<and> adopted_found mac (snd y)"
proof (rule wait_adopted.raw_induct [where P = "\<lambda>T c site mac prev st y. as_Hooks (fst y) = as_Hooks st \<and> adopted_found mac (snd y)",
      OF _ assms], goal_cases)
  case (1 rec T c site mac prev st y)
  obtain st1 r where d: "DeviceByMAC T c site mac st = (st1, r)" by (cases "DeviceByMAC T c site mac st")
  obtain st2 b where p: "pause T (2 * second) st1 = (st2, b)" by (cases "pause T (2 * second) st1")
  note h = DeviceByMAC_hooks [OF d] pause_hooks [OF p]
  show ?case
  proof (cases r)
    case (Inl e)
    show ?thesis using 1(2) 1(1) h unfolding d Inl by (auto simp: p adopted_found_def split: if_splits)
  next
    case (Inr dev)
    have "equal_fold (dv_MAC dev) mac" using DeviceByMAC_answer d Inr by blast
    then show ?thesis using 1(2) 1(1) h unfolding d Inr by (auto simp: p adopted_found_def split: if_splits)
  qed
qed

lemma adopt_retry_hooks:
  assumes "adoptWithRetry T c site mac opts st = Some y"
  shows "as_Hooks (fst y) = as_Hooks st"
proof (rule adoptWithRetry.raw_induct [where P = "\<lambda>T c site mac opts st y. as_Hooks (fst y) = as_Hooks st", OF _ assms], goal_cases)
  case (1 rec T c site mac opts st y)
  obtain st0 err where a: "Adopt T c site mac st = (st0, err)" by (cases "Adopt T c site mac st")
  obtain st1 r where d: "DeviceByMAC T c site mac st0 = (st1, r)" by (cases "DeviceByMAC T c site mac st0")
  obtain st2 b where p: "pause T (retryInterval opts) st1 = (st2, b)" by (cases "pause T (retryInterval opts) st1")
  note h = Adopt_hooks [OF a] DeviceByMAC_hooks [OF d] pause_hooks [OF p]
  show ?case
  proof (cases err)
    case None
    then show ?thesis using 1(2) h unfolding a by auto
  next
    case (Some e)
    then show ?thesis using 1(2) 1(1) h unfolding a by (auto simp: d p split: option.splits if_splits sum.splits)
  qed
qed

section \<open>A run adopts in order\<close>

text \<open>
  What the hooks see of one device: it was connected before the run, or was seen pending, then
  connected.
\<close>

definition adopted_part :: "bool \<Rightarrow> string \<Rightarrow> hook list \<Rightarrow> bool" where
  "adopted_part fresh mac hs \<longleftrightarrow>
     (\<exists>d. \<not> fresh \<and> hs = [OnConnected d] \<and> connected d \<and> equal_fold (dv_MAC d) mac) \<or>
     (\<exists>p d. hs = [OnPending p, OnConnected d] \<and> dv_State p = 2 \<and> equal_fold (dv_MAC p) mac \<and>
        connected d \<and> equal_fold (dv_MAC d) mac)"

definition run_log :: "bool \<Rightarrow> string list \<Rightarrow> adopt_error option \<Rightarrow> hook list \<Rightarrow> bool" where
  "run_log fresh macs err hs \<longleftrightarrow>
     (\<exists>k parts rest. k \<le> length macs \<and> list_all2 (adopted_part fresh) (take k macs) parts \<and> hs = concat parts @ rest \<and>
        (err = None \<longrightarrow> k = length macs \<and> rest = []) \<and>
        (err \<noteq> None \<longrightarrow> k < length macs \<and>
          (rest = [] \<or> (\<exists>p. rest = [OnPending p] \<and> dv_State p = 2 \<and> equal_fold (dv_MAC p) (macs ! k)))))"

lemma run_log_Nil: "run_log fresh [] None []"
  unfolding run_log_def by (intro exI [of _ 0] exI [of _ "[]"]) simp

lemma run_log_stop:
  "rest = [] \<or> (\<exists>p. rest = [OnPending p] \<and> dv_State p = 2 \<and> equal_fold (dv_MAC p) mac) \<Longrightarrow> run_log fresh (mac # macs) (Some e) rest"
  unfolding run_log_def by (intro exI [of _ 0] exI [of _ "[]"] exI [of _ rest]) simp

lemma run_log_Cons:
  assumes "adopted_part fresh mac hs" and "run_log fresh macs err hs'"
  shows "run_log fresh (mac # macs) err (hs @ hs')"
proof -
  obtain k parts rest where "k \<le> length macs" "list_all2 (adopted_part fresh) (take k macs) parts" "hs' = concat parts @ rest"
    "err = None \<longrightarrow> k = length macs \<and> rest = []"
    "err \<noteq> None \<longrightarrow> k < length macs \<and>
      (rest = [] \<or> (\<exists>p. rest = [OnPending p] \<and> dv_State p = 2 \<and> equal_fold (dv_MAC p) (macs ! k)))"
    using assms(2) unfolding run_log_def by (elim exE conjE) (rule that)
  then show ?thesis
    unfolding run_log_def using assms(1) by (intro exI [of _ "Suc k"] exI [of _ "hs # parts"] exI [of _ rest]) simp
qed

text \<open>One device of the run: it stops the run, or is adopted and hands on to the rest.\<close>

definition stops :: "string \<Rightarrow> hook list \<Rightarrow> bool" where
  "stops mac rest \<longleftrightarrow> rest = [] \<or> (\<exists>p. rest = [OnPending p] \<and> dv_State p = 2 \<and> equal_fold (dv_MAC p) mac)"

definition fleet_step :: "'w transport \<Rightarrow> client \<Rightarrow> string \<Rightarrow> 'w fleet_options \<Rightarrow> string \<Rightarrow> string list \<Rightarrow>
    'w adopt_state \<Rightarrow> 'w adopt_state \<times> adopt_error option \<Rightarrow> bool" where
  "fleet_step T c site opts mac macs st y \<longleftrightarrow>
     (snd y \<noteq> None \<and> (\<exists>rest. as_Hooks (fst y) = as_Hooks st @ rest \<and> stops mac rest)) \<or>
     (\<exists>hs st1. adopted_part (op_RequirePending opts) mac hs \<and> as_Hooks st1 = as_Hooks st @ hs \<and> Fleet T c site opts macs st1 = Some y)"

lemma fleet_step_stop: "as_Hooks st' = as_Hooks st @ rest \<Longrightarrow> stops mac rest \<Longrightarrow> fleet_step T c site opts mac macs st (st', Some e)"
  by (auto simp: fleet_step_def)

lemma fleet_step_adopted:
  "adopted_part (op_RequirePending opts) mac hs \<Longrightarrow> as_Hooks st1 = as_Hooks st @ hs \<Longrightarrow> Fleet T c site opts macs st1 = Some y \<Longrightarrow>
   fleet_step T c site opts mac macs st y"
  by (auto simp: fleet_step_def)

lemma pending_step:
  assumes f: "Fleet T c site opts (mac # macs) st = Some y" and w: "waitPending T c site mac opts st = Some (st1, Inr (d, False))"
  shows "fleet_step T c site opts mac macs st y"
proof -
  have d: "as_Hooks st1 = as_Hooks st" "equal_fold (dv_MAC d) mac" "dv_State d = 2"
    using wait_pending_found [of T c site mac opts None st "(st1, Inr (d, False))"] w by (simp_all add: waitPending_def)
  then have stop: "stops mac [OnPending d]" by (simp add: stops_def)
  obtain st2 err2 where a: "adoptWithRetry T c site mac opts (hook (OnPending d) st1) = Some (st2, err2)"
    using f w by (cases "adoptWithRetry T c site mac opts (hook (OnPending d) st1)") auto
  have h2: "as_Hooks st2 = as_Hooks st @ [OnPending d]" using adopt_retry_hooks [OF a] d(1) by simp
  show ?thesis
  proof (cases err2)
    case (Some e)
    then show ?thesis using f w a fleet_step_stop [OF h2 stop] by auto
  next
    case None
    obtain st3 d3 err3 where wa: "WaitAdopted T c site mac st2 = Some (st3, d3, err3)"
      using f w a None by (cases "WaitAdopted T c site mac st2") auto
    have h3: "as_Hooks st3 = as_Hooks st @ [OnPending d]" "adopted_found mac (d3, err3)"
      using wait_adopted_found [of T c site mac zero_device st2 "(st3, d3, err3)"] wa h2 by (simp_all add: WaitAdopted_def)
    show ?thesis
    proof (cases err3)
      case (Some e)
      then show ?thesis using f w a None wa fleet_step_stop [OF h3(1) stop] by auto
    next
      case None
      then have "adopted_part (op_RequirePending opts) mac [OnPending d, OnConnected d3]"
        using d h3(2) by (simp add: adopted_part_def adopted_found_def)
      then show ?thesis
        using f w a \<open>err2 = None\<close> wa None h3(1) by (intro fleet_step_adopted [of opts mac _ "hook (OnConnected d3) st3"]) simp_all
    qed
  qed
qed

lemma Fleet_step:
  assumes f: "Fleet T c site opts (mac # macs) st = Some y"
  shows "fleet_step T c site opts mac macs st y"
proof -
  obtain st1 r where w: "waitPending T c site mac opts st = Some (st1, r)"
    using f by (cases "waitPending T c site mac opts st") auto
  have h: "as_Hooks st1 = as_Hooks st" "pending_found mac r"
    using wait_pending_found [of T c site mac opts None st "(st1, r)"] w by (simp_all add: waitPending_def)
  have stop: "as_Hooks st1 = as_Hooks st @ []" "stops mac []" using h(1) by (simp_all add: stops_def)
  consider (err) e where "r = Inl e" | (conn) d where "r = Inr (d, True)" | (pend) d where "r = Inr (d, False)"
    by (metis (full_types) surj_pair sum.exhaust)
  then show ?thesis
  proof cases
    case err
    then show ?thesis using f w fleet_step_stop [OF stop] by auto
  next
    case conn
    show ?thesis
    proof (cases "op_RequirePending opts")
      case True
      then show ?thesis using f w conn fleet_step_stop [OF stop] by auto
    next
      case False
      then have "adopted_part (op_RequirePending opts) mac [OnConnected d]" using h(2) conn by (simp add: adopted_part_def)
      then show ?thesis
        using f w conn False h(1) by (intro fleet_step_adopted [of opts mac _ "hook (OnConnected d) st1"]) simp_all
    qed
  next
    case pend
    then show ?thesis using pending_step f w by blast
  qed
qed

lemma fleet_log:
  assumes "Fleet T c site opts macs st = Some (st', err)"
  shows "\<exists>hs. as_Hooks st' = as_Hooks st @ hs \<and> run_log (op_RequirePending opts) macs err hs"
  using assms
proof (induction macs arbitrary: st)
  case Nil
  then show ?case using run_log_Nil by auto
next
  case (Cons mac macs)
  from Fleet_step [OF Cons.prems] consider
    (stop) rest where "err \<noteq> None" "as_Hooks st' = as_Hooks st @ rest" "stops mac rest"
    | (go) hs st1 where "adopted_part (op_RequirePending opts) mac hs" "as_Hooks st1 = as_Hooks st @ hs"
        "Fleet T c site opts macs st1 = Some (st', err)"
    unfolding fleet_step_def fst_conv snd_conv by blast
  then show ?case
  proof cases
    case stop
    then show ?thesis using run_log_stop [of rest mac] unfolding stops_def by blast
  next
    case go
    from Cons.IH [OF go(3)] obtain hs' where "as_Hooks st' = as_Hooks st1 @ hs'" "run_log (op_RequirePending opts) macs err hs'" by blast
    then show ?thesis using run_log_Cons [OF go(1)] go(2) by auto
  qed
qed

text \<open>
  C17: a run adopts its devices one after the other and reports exactly that. However it ends, some
  first part of the list has been adopted, each device seen connected before the run (never with
  \<^verbatim>\<open>RequirePending\<close>), or seen pending and later connected under its own address; there is no error
  exactly if that part is the whole list; and with an error at most the next device was seen pending.
\<close>
theorem fleet_adopts_in_order:
  assumes "Fleet T c site opts macs st = Some (st', err)"
  shows "\<exists>hs. as_Hooks st' = as_Hooks st @ hs \<and> run_log (op_RequirePending opts) macs err hs"
  using fleet_log [OF assms] .

section \<open>A run returns when its context ends\<close>

text \<open>
  The time a world has left until its context ends: an exchange takes none of it back, and a wait
  that the context does not end takes some of it away.
\<close>

definition timed :: "'w transport \<Rightarrow> ('w \<Rightarrow> nat) \<Rightarrow> bool" where
  "timed T time_left \<longleftrightarrow>
     (\<forall>w req. time_left (fst (tr_Do T w req)) \<le> time_left w) \<and>
     (\<forall>w d. \<not> snd (tr_Wait T w d) \<longrightarrow> time_left (fst (tr_Wait T w d)) < time_left w)"

lemma timed_do: "timed T time_left \<Longrightarrow> tr_Do T w req = (w', x) \<Longrightarrow> time_left w' \<le> time_left w"
  unfolding timed_def by (metis fst_conv)

lemma timed_wait: "timed T time_left \<Longrightarrow> tr_Wait T w d = (w', False) \<Longrightarrow> time_left w' < time_left w"
  unfolding timed_def by (metis fst_conv snd_conv)

lemma send_time: "send T req st = (st', r) \<Longrightarrow> timed T time_left \<Longrightarrow> time_left (as_World st') \<le> time_left (as_World st)"
  by (auto simp: send_def dest: timed_do split: option.splits prod.splits)

lemma lookup_time:
  "DeviceByMAC T c site mac st = (st', r) \<Longrightarrow> timed T time_left \<Longrightarrow> time_left (as_World st') \<le> time_left (as_World st)"
  by (auto simp: DeviceByMAC_def Devices_def devices_def dest: send_time split: prod.splits sum.splits)

lemma adopt_time: "Adopt T c site mac st = (st', r) \<Longrightarrow> timed T time_left \<Longrightarrow> time_left (as_World st') \<le> time_left (as_World st)"
  by (auto simp: Adopt_def postJSON_def dest: send_time split: prod.splits sum.splits)

lemma login_time: "login T c user pass st = (st', r) \<Longrightarrow> timed T time_left \<Longrightarrow> time_left (as_World st') \<le> time_left (as_World st)"
  by (auto simp: login_def dest: send_time split: prod.splits sum.splits)

lemma pause_time: "pause T d st = (st', False) \<Longrightarrow> timed T time_left \<Longrightarrow> time_left (as_World st') < time_left (as_World st)"
  by (auto simp: pause_def dest: timed_wait split: prod.splits)

lemma wait_pending_returns:
  assumes timed: "timed T time_left"
  shows "\<exists>y. wait_pending T c site mac opts prev st = Some y"
proof (induction "time_left (as_World st)" arbitrary: prev st rule: less_induct)
  case less
  obtain st1 r where d: "DeviceByMAC T c site mac st = (st1, r)" by (cases "DeviceByMAC T c site mac st")
  obtain st2 b where p: "pause T (pollInterval opts) st1 = (st2, b)" by (cases "pause T (pollInterval opts) st1")
  have "\<exists>y. wait_pending T c site mac opts prev st2 = Some y" if "\<not> b" for prev
    using less [of st2 prev] lookup_time [OF d timed] pause_time [of T "pollInterval opts" st1 st2 time_left] timed p that by simp
  then show ?case
    by (subst wait_pending.simps) (simp add: d p Let_def split: option.splits)
qed

lemma wait_adopted_returns:
  assumes timed: "timed T time_left"
  shows "\<exists>y. wait_adopted T c site mac prev st = Some y"
proof (induction "time_left (as_World st)" arbitrary: prev st rule: less_induct)
  case less
  obtain st1 r where d: "DeviceByMAC T c site mac st = (st1, r)" by (cases "DeviceByMAC T c site mac st")
  obtain st2 b where p: "pause T (2 * second) st1 = (st2, b)" by (cases "pause T (2 * second) st1")
  have "\<exists>y. wait_adopted T c site mac prev st2 = Some y" if "\<not> b" for prev
    using less [of st2 prev] lookup_time [OF d timed] pause_time [of T "2 * second" st1 st2 time_left] timed p that by simp
  then show ?case
    by (subst wait_adopted.simps) (simp add: d p Let_def)
qed

lemma adopt_returns:
  assumes timed: "timed T time_left"
  shows "\<exists>y. adoptWithRetry T c site mac opts st = Some y"
proof (induction "time_left (as_World st)" arbitrary: st rule: less_induct)
  case less
  obtain st0 err where a: "Adopt T c site mac st = (st0, err)" by (cases "Adopt T c site mac st")
  obtain st1 r where d: "DeviceByMAC T c site mac st0 = (st1, r)" by (cases "DeviceByMAC T c site mac st0")
  obtain st2 b where p: "pause T (retryInterval opts) st1 = (st2, b)" by (cases "pause T (retryInterval opts) st1")
  have "\<exists>y. adoptWithRetry T c site mac opts st2 = Some y" if "\<not> b"
    using less [of st2] adopt_time [OF a timed] lookup_time [OF d timed] pause_time [of T "retryInterval opts" st1 st2 time_left] timed p that by simp
  then show ?case
    by (subst adoptWithRetry.simps) (simp add: a d p Let_def split: option.splits sum.splits)
qed

lemma login_returns:
  assumes timed: "timed T time_left"
  shows "\<exists>y. login_loop T c user pass wait lastAnswer st = Some y"
proof (induction "time_left (as_World st)" arbitrary: wait lastAnswer st rule: less_induct)
  case less
  obtain st1 err where a: "login T c user pass st = (st1, err)" by (cases "login T c user pass st")
  have "\<exists>y. login_loop T c user pass wait' detail st2 = Some y"
    if "pause T wait (hook (OnWaiting detail) st1) = (st2, False)" for wait' detail st2
    using less [of st2 wait' detail] login_time [OF a timed] pause_time [OF that timed] by simp
  then show ?case
    by (subst login_loop.simps) (auto simp: a Let_def split: option.splits prod.splits)
qed

lemma fleet_returns:
  assumes timed: "timed T time_left"
  shows "\<exists>y. Fleet T c site opts macs st = Some y"
proof (induction macs arbitrary: st)
  case (Cons mac macs)
  obtain st1 r where w: "waitPending T c site mac opts st = Some (st1, r)"
    using wait_pending_returns [OF timed] unfolding waitPending_def by fast
  obtain st2 where a: "adoptWithRetry T c site mac opts s = Some (st2 s)" for s using adopt_returns [OF timed] by metis
  obtain st3 where wa: "WaitAdopted T c site mac s = Some (st3 s)" for s
    using wait_adopted_returns [OF timed] unfolding WaitAdopted_def by metis
  show ?case using Cons.IH by (auto simp: w a wa split: sum.splits prod.splits bool.splits option.splits)
qed simp

text \<open>
  C18: adoption never hangs. Whenever waiting uses up the time its context has left, and whatever the
  controller answers, the login and the run over the fleet both return.
\<close>
theorem adoption_returns:
  assumes "timed T time_left"
  shows "(\<exists>y. Login T c user pass st = Some y) \<and> (\<exists>y. Fleet T c site opts macs st = Some y)"
  using login_returns [OF assms] fleet_returns [OF assms] unfolding Login_def by blast

text \<open>
  A controller with one device, and a world that counts the waits left: the first look finds the
  device pending, the adopt is accepted, and the next look finds it connected.
\<close>

definition sample_transport :: "(nat \<times> bool) transport" where
  "sample_transport =
     \<lparr>tr_Build = (\<lambda>_. None),
      tr_Do = (\<lambda>(n, adopted) req.
        ((n, adopted \<or> hr_Body req \<noteq> None),
         [([], ''tok'')],
         Inr \<lparr>rs_Status = 200, rs_ContentType = ''application/json'',
              rs_Body =
                (if hr_Body req \<noteq> None then []
                 else if adopted then ''{\"data\":[{\"mac\":\"a\",\"state\":1,\"adopted\":true}]}''
                 else ''{\"data\":[{\"mac\":\"a\",\"state\":2}]}''),
              rs_BodyError = None\<rparr>)),
      tr_Ctx = (\<lambda>(n, _). if n = 0 then Some DeadlineExceeded else None),
      tr_Wait = (\<lambda>(n, adopted) d. ((n - 1, adopted), n = 0)),
      tr_JSON = (\<lambda>_. [])\<rparr>"

definition sample_options :: "(nat \<times> bool) fleet_options" where
  "sample_options = \<lparr>op_PollInterval = 0, op_RetryInterval = 0, op_RequirePending = True, op_Check = None\<rparr>"

definition sample_client :: client where
  "sample_client = New_client ''u'' UniFiOS"

definition sample_start :: "(nat \<times> bool) adopt_state" where
  "sample_start = \<lparr>as_CSRF = [], as_World = (3, False), as_Hooks = []\<rparr>"

definition pending_doc :: adopt_device where
  "pending_doc = zero_device\<lparr>dv_MAC := ''a'', dv_State := 2\<rparr>"

definition connected_doc :: adopt_device where
  "connected_doc = zero_device\<lparr>dv_MAC := ''a'', dv_State := 1, dv_Adopted := True\<rparr>"

definition world_at :: "bool \<Rightarrow> string \<Rightarrow> hook list \<Rightarrow> (nat \<times> bool) adopt_state" where
  "world_at adopted tok hs = \<lparr>as_CSRF = tok, as_World = (3, adopted), as_Hooks = hs\<rparr>"

lemma sample_start_at: "sample_start = world_at False [] []"
  by (simp add: world_at_def sample_start_def)

lemma hook_at: "hook h (world_at b tok hs) = world_at b tok (hs @ [h])"
  by (simp add: hook_def world_at_def)

lemma look_pending: "DeviceByMAC sample_transport sample_client ''d'' ''a'' (world_at False [] []) = (world_at False ''tok'' [], Inr pending_doc)"
  by code_simp

lemma look_connected: "DeviceByMAC sample_transport sample_client ''d'' ''a'' (world_at True ''tok'' [OnPending pending_doc]) =
   (world_at True ''tok'' [OnPending pending_doc], Inr connected_doc)"
  by code_simp

lemma adopt_ok: "Adopt sample_transport sample_client ''d'' ''a'' (world_at False ''tok'' [OnPending pending_doc]) =
   (world_at True ''tok'' [OnPending pending_doc], None)"
proof -
  have "isJSON ''application/json''" "trim_space [] = []" by code_simp+
  then show ?thesis
  by (simp add: Adopt_def postJSON_def send_def sample_transport_def world_at_def read_verdict_def checkReady_def read_limited_def checkAPIEnvelope_def
     sniff_def body_limit_def)
qed

lemma sample_run_ends: "Fleet sample_transport sample_client ''d'' sample_options [''a''] sample_start =
   Some (world_at True ''tok'' [OnPending pending_doc, OnConnected connected_doc], None)"
proof -
  have w: "waitPending sample_transport sample_client ''d'' ''a'' sample_options sample_start = Some (world_at False ''tok'' [], Inr (pending_doc, False))"
    unfolding waitPending_def sample_start_at by (subst wait_pending.simps, unfold look_pending) (simp add: connected_def pending_doc_def)
  have a: "adoptWithRetry sample_transport sample_client ''d'' ''a'' sample_options (world_at False ''tok'' [OnPending pending_doc]) =
     Some (world_at True ''tok'' [OnPending pending_doc], None)"
    by (subst adoptWithRetry.simps, unfold adopt_ok) simp
  have c: "WaitAdopted sample_transport sample_client ''d'' ''a'' (world_at True ''tok'' [OnPending pending_doc]) =
     Some (world_at True ''tok'' [OnPending pending_doc], connected_doc, None)"
    unfolding WaitAdopted_def by (subst wait_adopted.simps, unfold look_connected) (simp add: connected_def connected_doc_def)
  show ?thesis by (simp add: w a c hook_at)
qed

lemma sample_timed: "timed sample_transport fst"
  unfolding timed_def sample_transport_def by auto

theorem fleet_adopts_in_order_witness:
  "run_log True [''a''] None [OnPending pending_doc, OnConnected connected_doc]"
  using fleet_adopts_in_order [OF sample_run_ends] by (simp add: sample_start_def sample_options_def world_at_def)

theorem adoption_returns_witness:
  "(\<exists>y. Login sample_transport sample_client ''u'' ''p'' sample_start = Some y) \<and>
   (\<exists>y. Fleet sample_transport sample_client ''d'' sample_options [''a''] sample_start = Some y)"
  by (rule adoption_returns [OF sample_timed])

end
