(* ===== verification/Cli_Run_Laws.thy ===== *)
theory Cli_Run_Laws
  imports Cli_Run Cli_Laws Adopt_Laws
begin

text \<open>
  What the command promises: a readiness marker means a fleet that informs, the exit status says how
  the run ended, the probes answer in any environment, and an adoption that reports success has
  connected every device.
\<close>

section \<open>The fleet behind the marker\<close>

definition fleet_up :: "registry \<Rightarrow> string \<Rightarrow> device_spec list \<Rightarrow> emu \<Rightarrow> bool" where
  "fleet_up reg url specs e \<longleftrightarrow>
     fleet_reach reg url e \<and> e_started e \<and> \<not> e_done e \<and> e_running e = map fst (e_devices e) \<and>
     length (e_devices e) = length specs \<and> (\<forall>s \<in> set specs. State e (sp_MAC s) = Some StatePending)"

lemma State_cong: "e_devices e = e_devices e' \<Longrightarrow> State e mac = State e' mac"
  by (simp add: State_def split: sum.splits)

lemma add_specs_done: "e_done (fst (add_specs reg now specs e)) = e_done e"
proof (induction specs arbitrary: e)
  case (Cons s specs)
  then show ?case by (auto split: sum.splits)
qed simp

lemma added_state:
  assumes "Add reg now specs (New url []) = (e, None)"
  shows "length (e_devices e) = length specs \<and> \<not> e_done e \<and> (\<forall>s \<in> set specs. State e (sp_MAC s) = Some StatePending) \<and>
    fleet_reach reg url e"
proof -
  let ?n = "New url []"
  have new: "e_devices ?n = []" "\<not> e_started ?n" "\<not> e_done ?n" by (simp_all add: New_fields)
  have a: "add_specs reg now specs ?n = (e, None)" using assms new by (simp add: Add_def)
  obtain k ds where ds: "length ds = k" "e_devices e = rev ds" "k = length specs"
      "\<forall>i < k. normalizeMAC (sp_MAC (specs ! i)) = Inr (fst (ds ! i)) \<and> d_state (snd (ds ! i)) = StatePending"
    using add_specs_prefix [of specs reg now ?n] a new by auto
  have reach: "fleet_reach reg url e"
    using fleet_reach.step [OF fleet_reach.new [of reg url "[]"] fleet_step.add [of reg ?n now specs]] assms by simp
  then have "distinct (map fst (e_devices e))" using fleet_reach_ok by (auto simp: fleet_ok_def)
  then have look: "map_of (e_devices e) (fst md) = Some (snd md)" if "md \<in> set ds" for md
    using that ds(2) by (cases md) (simp add: map_of_eq_Some_iff)
  have "State e (sp_MAC s) = Some StatePending" if "s \<in> set specs" for s
  proof -
    obtain i where i: "i < k" "s = specs ! i" using \<open>s \<in> set specs\<close> ds(3) by (metis in_set_conv_nth)
    then show ?thesis using ds(1,4) look [of "ds ! i"] by (simp add: State_def)
  qed
  moreover have "\<not> e_done e" using add_specs_done [of reg now specs ?n] a new by simp
  ultimately show ?thesis using ds reach new by simp
qed

lemma boot_up:
  assumes "Add reg now specs (New url []) = (e0, None)" and "Start e0 = (e, None)"
  shows "fleet_up reg url specs e"
proof -
  note a = added_state [OF assms(1)]
  have e: "e = e0\<lparr>e_started := True, e_cancel := True, e_running := map fst (e_devices e0)\<rparr>"
    using assms(2) by (auto simp: Start_def split: if_splits)
  have "fleet_reach reg url e" using fleet_reach.step [of reg url e0 e] fleet_step.start [of reg e0] a assms(2) by simp
  moreover have "State e mac = State e0 mac" for mac by (rule State_cong) (simp add: e)
  ultimately show ?thesis using a by (simp add: fleet_up_def e)
qed

section \<open>The shape of a run\<close>

definition no_fleet :: "cli_effect \<Rightarrow> bool" where
  "no_fleet ef \<longleftrightarrow> (case ef of Printed _ \<Rightarrow> True | Logged _ \<Rightarrow> True | _ \<Rightarrow> False)"

lemma no_fleet_simps [simp]:
  "no_fleet (Printed s)" "no_fleet (Logged l)" "\<not> no_fleet (FleetStarted e)" "\<not> no_fleet (MarkerWritten f)" "\<not> no_fleet FleetStopped"
  by (simp_all add: no_fleet_def)

text \<open>How a run with a marker ends: by a signal with status 0, or by a failed adoption with status 1\<close>

definition ends_well :: "cli_effect list \<Rightarrow> int \<Rightarrow> bool" where
  "ends_well after status \<longleftrightarrow>
     list_all no_fleet after \<and> after \<noteq> [] \<and>
     (status = 0 \<and> last after \<in> {Logged SignalReceived, Logged AdoptInterrupted} \<or>
      status = 1 \<and> (\<exists>e. last after = Logged (AdoptFailed e)))"

lemma adopting_no_fleet: "list_all no_fleet (map (\<lambda>l. Logged (Adopting l)) said)"
  by (simp add: list_all_iff)

lemma adopt_and_wait_ends:
  assumes "adopt_and_wait P cfg macs = Some (after, status)"
  shows "ends_well after status"
proof (cases "ac_Enabled cfg")
  case False
  then show ?thesis using assms by (auto simp: adopt_and_wait_def ends_well_def)
next
  case True
  obtain w said err where r: "runAdopt (ps_Adopt P cfg) (ps_Diagnose P) (ps_Interrupted P) cfg macs (ps_World P) = Some (w, said, err)"
    using assms True by (auto simp: adopt_and_wait_def Let_def bind_eq_Some_conv)
  show ?thesis
    using assms True r adopting_no_fleet [of said]
    by (cases err) (auto simp: adopt_and_wait_def Let_def ends_well_def split: if_splits)
qed

definition fleet_trace :: "'w process \<Rightarrow> string \<Rightarrow> device_spec list \<Rightarrow> cli_effect list \<Rightarrow> int \<Rightarrow> bool" where
  "fleet_trace P url specs effects status \<longleftrightarrow>
     (\<exists>said e after. fleet_up (ps_Registry P) url specs e \<and>
        (effects = map Logged said @ FleetStarted e # informing_lines e url specs @
             MarkerWritten (readyFilePath (ps_Getenv P)) # after @ [FleetStopped] \<and> ends_well after status \<or>
         effects = map Logged said @ FleetStarted e # informing_lines e url specs @
             [Logged (MarkerProblem (readyFilePath (ps_Getenv P))), FleetStopped] \<and> status = 1))"

lemma fleet_trace_marked:
  assumes "fleet_up (ps_Registry P) url specs e" and "ends_well after status"
  shows "fleet_trace P url specs (map Logged said @ FleetStarted e # informing_lines e url specs @
     MarkerWritten (readyFilePath (ps_Getenv P)) # after @ [FleetStopped]) status"
  unfolding fleet_trace_def using assms by blast

lemma fleet_trace_unmarked:
  assumes "fleet_up (ps_Registry P) url specs e"
  shows "fleet_trace P url specs (map Logged said @ FleetStarted e # informing_lines e url specs @
     [Logged (MarkerProblem (readyFilePath (ps_Getenv P))), FleetStopped]) 1"
  unfolding fleet_trace_def using assms by blast

lemma run_fleet_trace:
  assumes "run_fleet P cfg url specs e = Some (effects, status)" and up: "fleet_up (ps_Registry P) url specs e"
  shows "fleet_trace P url specs (map Logged said @ effects) status"
proof (cases "ps_CanWrite P (readyFilePath (ps_Getenv P))")
  case True
  then obtain after where "adopt_and_wait P cfg (map sp_MAC specs) = Some (after, status)"
      "effects = FleetStarted e # informing_lines e url specs @ MarkerWritten (readyFilePath (ps_Getenv P)) # after @ [FleetStopped]"
    using assms(1) by (auto simp: run_fleet_def Let_def)
  then show ?thesis using fleet_trace_marked [OF up adopt_and_wait_ends] by simp
next
  case False
  then show ?thesis using assms(1) fleet_trace_unmarked [OF up] by (auto simp: run_fleet_def Let_def)
qed

lemma boot_trace:
  assumes "boot P cfg url specs = Some (effects, status)"
  shows "(\<exists>l. effects = [Logged l] \<and> status = 1) \<or> fleet_trace P url specs (map Logged said @ effects) status"
proof -
  obtain e0 r0 where a: "Add (ps_Registry P) (ps_Now P) specs (New url []) = (e0, r0)" by (cases "Add (ps_Registry P) (ps_Now P) specs (New url [])")
  obtain e r where st: "Start e0 = (e, r)" by (cases "Start e0")
  show ?thesis
  proof (cases "r0 = None \<and> r = None")
    case True
    then show ?thesis using run_fleet_trace boot_up a st assms by (fastforce simp: boot_def)
  next
    case False
    then show ?thesis using assms a st by (auto simp: boot_def split: option.splits)
  qed
qed

text \<open>
  C13: a run either never starts a fleet, and then says so with status 0, 1 or 2; or it starts one in
  which every spec has a pending device of its own and every device its loop, writes the readiness
  marker only then, and stops the fleet at the very end. Past the marker status 0 means a signal and
  status 1 a failed adoption; a marker that cannot be written ends the run with status 1.
\<close>
theorem emulator_run_shape:
  assumes "run P = Some (effects, status)"
  shows "list_all no_fleet effects \<and> status \<in> {0, 1, 2} \<or> (\<exists>url specs. fleet_trace P url specs effects status)"
proof (cases "parse_args (ps_Args P) (cli_flags P)")
  case (Inl e)
  then show ?thesis using assms by (cases "e = ErrHelp") (auto simp: run_def)
next
  case (Inr fs)
  show ?thesis
  proof (cases "bool_flag fs ''V'' \<or> bool_flag fs ''healthcheck'' \<or> (\<exists>e. cli_adopt P fs = Inl e) \<or> (\<exists>ls. cli_plan P fs = Inl ls)")
    case True
    then show ?thesis using assms Inr by (auto simp: run_def readyProbe_def list_all_iff split: if_splits sum.splits)
  next
    case False
    then obtain cfg url specs said where c: "cli_adopt P fs = Inr cfg" "cli_plan P fs = Inr (url, specs, said)"
      by (metis old.sum.exhaust surj_pair)
    then obtain ef where ef: "boot P cfg url specs = Some (ef, status)" "effects = map Logged said @ ef"
      using assms Inr False by (auto simp: run_def)
    from boot_trace [OF ef(1), of said] show ?thesis
    proof
      assume "\<exists>l. ef = [Logged l] \<and> status = 1"
      then show ?thesis using ef(2) by (auto simp: list_all_iff)
    next
      assume "fleet_trace P url specs (map Logged said @ ef) status"
      then show ?thesis using ef(2) by blast
    qed
  qed
qed

section \<open>The probes\<close>

lemma one_switch:
  "parse_args [''-V''] (cli_flags P) = Inr (set_flag ''V'' (FBool True) (cli_flags P))"
  "parse_args [''-healthcheck''] (cli_flags P) = Inr (set_flag ''healthcheck'' (FBool True) (cli_flags P))"
  by (simp_all add: parse_args.simps(2) split_flag_def is_bool_flag_def parse_bool_def cli_flags_def set_flag_def Let_def)

lemma cli_flags_args: "cli_flags (P\<lparr>ps_Args := args\<rparr>) = cli_flags P"
  by (simp add: cli_flags_def env_settings_def)

lemma switched:
  "bool_flag (set_flag ''V'' (FBool True) (cli_flags P)) ''V''"
  "\<not> bool_flag (set_flag ''healthcheck'' (FBool True) (cli_flags P)) ''V''"
  "bool_flag (set_flag ''healthcheck'' (FBool True) (cli_flags P)) ''healthcheck''"
  by (simp_all add: bool_flag_def set_flag_def cli_flags_def)

text \<open>
  \<^verbatim>\<open>-V\<close> and \<^verbatim>\<open>-healthcheck\<close> answer whatever the environment holds: they print the version, or
  say whether the marker exists, and do nothing else.
\<close>
theorem probes_always_answer:
  "run (P\<lparr>ps_Args := [''-V'']\<rparr>) = Some ([Printed (ps_Version P)], 0)"
  "run (P\<lparr>ps_Args := [''-healthcheck'']\<rparr>) = Some ([], if ps_Exists P (readyFilePath (ps_Getenv P)) then 0 else 1)"
  by (simp_all add: run_def readyProbe_def cli_flags_args one_switch switched)

section \<open>A run that adopts\<close>

lemma login_loop_waits:
  assumes "login_loop T c user pass wait prev st = Some y"
  shows "\<exists>ds. as_Hooks (fst y) = as_Hooks st @ map OnWaiting ds"
proof (rule login_loop.raw_induct [where P = "\<lambda>T c user pass wait prev st y. \<exists>ds. as_Hooks (fst y) = as_Hooks st @ map OnWaiting ds",
      OF _ assms], goal_cases)
  case (1 rec T c user pass wait prev st y)
  obtain st1 err where l: "login T c user pass st = (st1, err)" by (cases "login T c user pass st")
  note h = login_hooks [OF l]
  show ?case
  proof (cases "not_ready err")
    case None
    then show ?thesis using 1(2) h unfolding l by (auto split: if_splits intro: exI [of _ "[]"])
  next
    case (Some detail)
    obtain st2 b where p: "pause T wait (hook (OnWaiting detail) st1) = (st2, b)" by (cases "pause T wait (hook (OnWaiting detail) st1)")
    have h2: "as_Hooks st2 = as_Hooks st @ [OnWaiting detail]" using pause_hooks [OF p] h by simp
    show ?thesis
    proof (cases b)
      case True
      then show ?thesis using 1(2) h2 unfolding l by (auto simp: Some p intro: exI [of _ "[detail]"])
    next
      case False
      then have "rec T c user pass (min (2 * wait) (cl_WaitMax c)) detail st2 = Some y" using 1(2) unfolding l by (simp add: Some p)
      then obtain ds where "as_Hooks (fst y) = as_Hooks st2 @ map OnWaiting ds" using 1(1) by blast
      then show ?thesis using h2 by (intro exI [of _ "detail # ds"]) simp
    qed
  qed
qed

lemma run_adopt_success:
  assumes "runAdopt T T' interrupted cfg macs w = Some (w', said, None)"
  obtains st1 st2 where
    "Login T (New_client (ac_URL cfg) (ac_Dialect cfg)) (ac_Username cfg) (ac_Password cfg)
       \<lparr>as_CSRF = [], as_World = w, as_Hooks = []\<rparr> = Some (st1, None)"
    and "Fleet T (New_client (ac_URL cfg) (ac_Dialect cfg)) (ac_Site cfg) fleet_defaults macs st1 = Some (st2, None)"
    and "said = run_intro cfg @ map hook_line (as_Hooks st2) @ [AllConnected (length macs)]"
proof -
  let ?c = "New_client (ac_URL cfg) (ac_Dialect cfg)" and ?st = "\<lparr>as_CSRF = [], as_World = w, as_Hooks = []\<rparr>"
  obtain st1 e1 where l: "Login T ?c (ac_Username cfg) (ac_Password cfg) ?st = Some (st1, e1)"
    using assms by (cases "Login T ?c (ac_Username cfg) (ac_Password cfg) ?st") (auto simp: runAdopt_def)
  have e1: "e1 = None" using assms l by (cases e1) (auto simp: runAdopt_def)
  obtain st2 e2 where f: "Fleet T ?c (ac_Site cfg) fleet_defaults macs st1 = Some (st2, e2)"
    using assms l e1 by (cases "Fleet T ?c (ac_Site cfg) fleet_defaults macs st1") (auto simp: runAdopt_def)
  have "e2 = None" using assms l e1 f by (cases e2) (auto simp: runAdopt_def Let_def split: if_splits prod.splits)
  then show ?thesis using assms l e1 f by (intro that) (auto simp: runAdopt_def)
qed

text \<open>
  C14: an adoption that reports success has connected the whole fleet: its log is the settings, the
  answers of a controller not ready yet, then for every device in order that it was seen pending and
  connected (or was connected before), and last the number of devices.
\<close>
theorem adoption_success_connects_all:
  assumes "runAdopt T T' interrupted cfg macs w = Some (w', said, None)"
  shows "\<exists>waits parts. said = run_intro cfg @ map ControllerNotReady waits @ map hook_line (concat parts) @ [AllConnected (length macs)] \<and>
    list_all2 (adopted_part False) macs parts"
proof -
  let ?c = "New_client (ac_URL cfg) (ac_Dialect cfg)" and ?st = "\<lparr>as_CSRF = [], as_World = w, as_Hooks = []\<rparr>"
  obtain st1 st2 where l: "Login T ?c (ac_Username cfg) (ac_Password cfg) ?st = Some (st1, None)"
      and f: "Fleet T ?c (ac_Site cfg) fleet_defaults macs st1 = Some (st2, None)"
      and said: "said = run_intro cfg @ map hook_line (as_Hooks st2) @ [AllConnected (length macs)]"
    by (rule run_adopt_success [OF assms])
  obtain waits where waits: "as_Hooks st1 = map OnWaiting waits"
    using login_loop_waits [of T ?c "ac_Username cfg" "ac_Password cfg" "cl_WaitMin ?c" "[]" ?st "(st1, None)"] l
    by (auto simp: Login_def)
  obtain hs where hs: "as_Hooks st2 = as_Hooks st1 @ hs" "run_log (op_RequirePending (fleet_defaults :: 'a fleet_options)) macs None hs"
    using fleet_log [OF f] by blast
  obtain parts where "hs = concat parts" "list_all2 (adopted_part False) macs parts"
    using hs(2) unfolding run_log_def fleet_defaults_def by auto
  then show ?thesis using said hs(1) waits by (intro exI [of _ waits] exI [of _ parts]) (simp add: o_def)
qed

section \<open>A sample run\<close>

text \<open>One device from the flags alone, on a file system that refuses the marker\<close>

definition sample_process :: "nat process" where
  "sample_process =
     \<lparr>ps_Registry = [''UGW3'' \<mapsto> zero_profile\<lparr>pf_Model := ''UGW3'', pf_Type := ''ugw''\<rparr>], ps_Version = ''1.0.0'', ps_Args = [],
      ps_Getenv = (\<lambda>k. if k = ''SIM_CONTROLLER'' then ''http://10.0.0.2:8080/inform'' else []),
      ps_ReadFile = (\<lambda>_. None), ps_YAML = (\<lambda>_. (YamlError, YamlError)), ps_Interfaces = Inl (), ps_Lookup = (\<lambda>_. Inl ()),
      ps_Exists = (\<lambda>_. False), ps_CanWrite = (\<lambda>_. False), ps_Now = 0, ps_World = 0,
      ps_Adopt = (\<lambda>_. \<lparr>tr_Build = (\<lambda>_. None), tr_Do = (\<lambda>w _. (w, [], Inl [])), tr_Ctx = (\<lambda>_. None), tr_Wait = (\<lambda>w _. (w, True)), tr_JSON = (\<lambda>_. [])\<rparr>),
      ps_Diagnose = \<lparr>tr_Build = (\<lambda>_. None), tr_Do = (\<lambda>w _. (w, [], Inl [])), tr_Ctx = (\<lambda>_. None), tr_Wait = (\<lambda>w _. (w, True)), tr_JSON = (\<lambda>_. [])\<rparr>,
      ps_Interrupted = (\<lambda>_. False), ps_Signal = Some\<rparr>"

lemma sample_process_reads:
  "parse_args (ps_Args sample_process) (cli_flags sample_process) = Inr (cli_flags sample_process)"
  "\<not> bool_flag (cli_flags sample_process) ''V''" "\<not> bool_flag (cli_flags sample_process) ''healthcheck''"
  "cli_adopt sample_process (cli_flags sample_process) = Inr no_config"
  by (simp_all add: sample_process_def cli_flags_def bool_flag_def cli_adopt_def adoptEnvDefaults_def resolveAdopt_def flag_settings_def
      string_flag_def env_settings_def no_settings_def)

lemma sample_process_plan:
  "cli_plan sample_process (cli_flags sample_process) = Inr (''http://10.0.0.2:8080/inform'', [single_spec (cli_flags sample_process)], [])"
proof -
  have "resolveInformURLWith ''http://10.0.0.2:8080/inform'' (\<lambda>_. Inl ()) = Inr ''http://10.0.0.2:8080/inform''" by code_simp
  moreover have "source_specs sample_process (cli_flags sample_process) = Inr (None, [])"
    by (simp add: source_specs_def fail_def fleetSpecs_def active_sources_def cli_sources_def string_flag_def cli_flags_def defaultFleet_def
        sample_process_def trim_space_Nil)
  moreover have "own_address sample_process (cli_sources sample_process (cli_flags sample_process)) None = Inr (None, [])"
    by (simp add: own_address_def cli_sources_def sample_process_def trim_space_Nil)
  moreover have "string_flag (cli_flags sample_process) ''inform'' = ''http://10.0.0.2:8080/inform''"
    by (simp add: string_flag_def cli_flags_def informURLDefault_def sample_process_def)
  moreover have "ps_Lookup sample_process = (\<lambda>_. Inl ())" by (simp add: sample_process_def)
  ultimately show ?thesis by (simp add: cli_plan_def fleet_plan_def fail_def)
qed

lemma sample_process_run: "\<exists>e ls. run sample_process = Some (FleetStarted e # ls, 1)"
proof -
  let ?s = "single_spec (cli_flags sample_process)" and ?n = "New ''http://10.0.0.2:8080/inform'' []"
  have s: "sp_MAC ?s = ''00:27:22:e0:00:01''" "sp_Model ?s = ''UGW3''" "sp_Type ?s = []"
    by (simp_all add: single_spec_def zero_spec_def string_flag_def cli_flags_def)
  have "Profile (ps_Registry sample_process) ''UGW3'' \<noteq> None" by (simp add: Profile_def sample_process_def)
  then have "addable (ps_Registry sample_process) ?s" using normalize_samples by (simp add: addable_def s)
  then obtain ds where ds: "length ds = 1" "Add (ps_Registry sample_process) (ps_Now sample_process) [?s] ?n = (?n\<lparr>e_devices := rev ds\<rparr>, None)"
    using Add_all [of "[?s]" "ps_Registry sample_process" "ps_Now sample_process" "''http://10.0.0.2:8080/inform''" "[]"]
    by (auto dest: list_all2_lengthD)
  then have "ds \<noteq> []" by auto
  then obtain e where "Start (?n\<lparr>e_devices := rev ds\<rparr>) = (e, None)" by (auto simp: Start_def New_def nanos_def)
  moreover have "\<not> ps_CanWrite sample_process f" for f by (simp add: sample_process_def)
  ultimately show ?thesis
    by (simp add: run_def sample_process_reads sample_process_plan boot_def ds(2) run_fleet_def)
qed

theorem emulator_run_shape_witness:
  "\<exists>effects url specs. run sample_process = Some (effects, 1) \<and> fleet_trace sample_process url specs effects 1"
proof -
  obtain e ls where ef: "run sample_process = Some (FleetStarted e # ls, 1)" using sample_process_run by blast
  then show ?thesis using emulator_run_shape [OF ef] by auto
qed

text \<open>An adoption against the sample controller, which connects the device at the first command\<close>

definition sample_config :: adopt_config where
  "sample_config = no_config\<lparr>ac_Enabled := True, ac_URL := ''u'', ac_Site := ''d'', ac_Dialect := UniFiOS, ac_Username := ''u'',
     ac_Password := ''p'', ac_Timeout := 1\<rparr>"

lemma sample_login: "login sample_transport sample_client ''u'' ''p'' (world_at False [] []) = (world_at True ''tok'' [], None)"
proof -
  have "isJSON ''application/json''" by code_simp
  moreover have "cl_Dialect sample_client = UniFiOS" by (simp add: sample_client_def New_client_def newClient_def)
  ultimately show ?thesis
    by (simp add: login_def send_def sample_transport_def world_at_def checkReady_def sniff_def login_request_def)
qed

lemma sample_adoption:
  "runAdopt sample_transport sample_transport (\<lambda>_. False) sample_config [''a''] (3, False) =
     Some ((3, True), run_intro sample_config @ [ConnectedDevice ''a'' [], AllConnected 1], None)"
proof -
  have l: "Login sample_transport sample_client ''u'' ''p'' (world_at False [] []) = Some (world_at True ''tok'' [], None)"
    unfolding Login_def by (subst login_loop.simps, unfold sample_login) (simp add: not_ready_def)
  have "DeviceByMAC sample_transport sample_client ''d'' ''a'' (world_at True ''tok'' []) = (world_at True ''tok'' [], Inr connected_doc)"
    by code_simp
  then have "waitPending sample_transport sample_client ''d'' ''a'' fleet_defaults (world_at True ''tok'' []) =
      Some (world_at True ''tok'' [], Inr (connected_doc, True))"
    unfolding waitPending_def by (subst wait_pending.simps) (simp add: connected_def connected_doc_def)
  then have f: "Fleet sample_transport sample_client ''d'' fleet_defaults [''a''] (world_at True ''tok'' []) =
      Some (world_at True ''tok'' [OnConnected connected_doc], None)"
    by (simp add: hook_at fleet_defaults_def)
  have "dv_MAC connected_doc = ''a''" "dv_Model connected_doc = []" by (simp_all add: connected_doc_def zero_device_def)
  moreover have "New_client (ac_URL sample_config) (ac_Dialect sample_config) = sample_client" "ac_Username sample_config = ''u''"
      "ac_Password sample_config = ''p''" "ac_Site sample_config = ''d''"
    by (simp_all add: sample_config_def sample_client_def)
  moreover have "\<lparr>as_CSRF = [], as_World = (3, False), as_Hooks = []\<rparr> = world_at False [] []" by (simp add: world_at_def)
  moreover have "as_World (world_at b tok hs) = (3, b)" "as_Hooks (world_at b tok hs) = hs" for b tok hs by (simp_all add: world_at_def)
  ultimately show ?thesis using l f by (simp add: runAdopt_def Let_def del: Fleet.simps logAdoptDiagnosis.simps)
qed

theorem adoption_success_connects_all_witness:
  "\<exists>parts. list_all2 (adopted_part False) [''a''] parts \<and> map hook_line (concat parts) = [ConnectedDevice ''a'' []]"
proof -
  obtain waits parts where "run_intro sample_config @ [ConnectedDevice ''a'' [], AllConnected 1] =
      run_intro sample_config @ map ControllerNotReady waits @ map hook_line (concat parts) @ [AllConnected 1]"
      "list_all2 (adopted_part False) [''a''] parts"
    using adoption_success_connects_all [OF sample_adoption] by auto
  moreover from this have "waits = []" by (cases waits) auto
  ultimately show ?thesis by auto
qed

section \<open>Two settings that cannot work\<close>

text \<open>
  The adoption looks a device up under the MAC as its spec spells it, while the device announces the
  normalized one: a fleet with a dashed MAC starts, and the lookup of what it announces never succeeds.
\<close>

theorem dashed_mac_is_never_listed:
  "normalizeMAC ''00-27-22-E0-00-01'' = Inr ''00:27:22:e0:00:01''"
  "\<forall>d \<in> set ds. dv_MAC d = ''00:27:22:e0:00:01'' \<Longrightarrow> \<exists>e. pick_device ''00-27-22-E0-00-01'' ds = Inl e"
proof -
  show "normalizeMAC ''00-27-22-E0-00-01'' = Inr ''00:27:22:e0:00:01''" by (rule normalize_samples)
  assume ds: "\<forall>d \<in> set ds. dv_MAC d = ''00:27:22:e0:00:01''"
  have "\<not> equal_fold ''00:27:22:e0:00:01'' ''00-27-22-E0-00-01''" by code_simp
  then have "find (\<lambda>d. equal_fold (dv_MAC d) ''00-27-22-E0-00-01'') ds = None" using ds by (auto simp: find_None_iff)
  then show "\<exists>e. pick_device ''00-27-22-E0-00-01'' ds = Inl e" by (simp add: pick_device_def)
qed

text \<open>A URL of slashes only counts as given, and is empty once its trailing slashes are gone.\<close>

theorem slash_is_no_url:
  "resolveAdopt (no_settings\<lparr>ad_Enabled := True, ad_URL := ''/'', ad_Timeout := 1\<rparr>)
     (\<lambda>k. if k = ''SIM_ADOPT_USERNAME'' then ''u'' else if k = ''SIM_ADOPT_PASSWORD'' then ''p'' else []) (\<lambda>_. None) =
   Inr \<lparr>ac_Enabled = True, ac_URL = [], ac_Site = ''default'', ac_Dialect = Classic, ac_Username = ''u'', ac_Password = ''p'',
        ac_Timeout = 1, ac_FromPort = True\<rparr>"
proof -
  have "DialectForURL [] = Classic" by code_simp
  then show ?thesis by (simp add: resolveAdopt_def adopt_password_def no_settings_def trim_right_set_def)
qed

end
