(* ===== verification/Container_Run.thy ===== *)
theory Container_Run
  imports Container_Laws Cli_Run_Laws Herder_URL
begin

text \<open>
  One device container from the inside: the emulator's command under the environment the herder gives
  a container, up to the fleet it informs with and the marker the herder's health check waits for.
\<close>

section \<open>The process of a device container\<close>

text \<open>The variables of a caller that drives the emulator directly\<close>

definition caller_variables :: "string list" where
  "caller_variables =
     [''SIM_ADOPT'', ''SIM_ADOPT_URL'', ''SIM_ADOPT_SITE'', ''SIM_ADOPT_DIALECT'', ''SIM_ADOPT_TIMEOUT'', ''SIM_ADOPT_USERNAME'',
      ''SIM_ADOPT_PASSWORD'', ''SIM_ADOPT_PASSWORD_FILE'', ''SIM_DEVICES'', ''SIM_MODELS'', ''SIM_MAC_BASE'', ''SIM_IP_BASE'']"

text \<open>
  The herder sets no command and the two variables of the contract; none of the others is set,
  whatever else the image brings along.
\<close>

definition device_container :: "plan \<Rightarrow> plan_unit \<Rightarrow> 'w process \<Rightarrow> bool" where
  "device_container pl u P \<longleftrightarrow>
     ps_Args P = [] \<and>
     (\<forall>(k, v) \<in> set (cr_Env (buildContainerRequest pl u)). ps_Getenv P k = v) \<and>
     (\<forall>k \<in> set caller_variables. ps_Getenv P k = [])"

lemma container_variables:
  assumes "device_container pl u P"
  shows "ps_Args P = []" "ps_Getenv P ''UNIFI_EMU_INFORM_URL'' = pl_InformURL pl"
    "ps_Getenv P ''UNIFI_EMU_DEVICES_JSON'' = json_text (JArr (map device_payload (un_Devices u)))"
    "k \<in> set caller_variables \<Longrightarrow> ps_Getenv P k = []"
  using assms by (auto simp: device_container_def buildContainerRequest_def envInformURL_def envDevicesJSON_def)

lemma trim_bracketed: "trim_space (CHR ''['' # s @ [CHR '']'']) = CHR ''['' # s @ [CHR '']'']"
  by (rule trim_space_graphic) (simp_all add: code_def graphic_def)

lemma container_text: "\<exists>s. json_text (JArr vs) = CHR ''['' # s @ [CHR '']'']"
  by (simp add: json_text_def)

lemma container_settings:
  assumes "device_container pl u P"
  shows "env_settings P = no_settings\<lparr>ad_Site := ''default'', ad_Timeout := defaultAdoptTimeout\<rparr>"
    "adoptEnvDefaults (ps_Getenv P) = Inr (env_settings P)"
  using container_variables(4) [OF assms]
  by (simp_all add: env_settings_def adoptEnvDefaults_def caller_variables_def no_settings_def)

lemma container_adopt:
  assumes "device_container pl u P"
  shows "cli_adopt P (cli_flags P) = Inr no_config"
  using container_variables(4) [OF assms] container_settings [OF assms]
  by (simp add: cli_adopt_def resolveAdopt_def flag_settings_def cli_flags_def bool_flag_def string_flag_def duration_flag_def
      caller_variables_def no_settings_def)

lemma container_sources:
  assumes "device_container pl u P"
  shows "cli_sources P (cli_flags P) =
    \<lparr>fs_devicesFile = [], fs_envInline = [], fs_devicesJSON = json_text (JArr (map device_payload (un_Devices u))),
     fs_modelsFlag = [], fs_models = []\<rparr>"
  using container_variables(3,4) [OF assms]
  by (simp add: cli_sources_def cli_flags_def string_flag_def caller_variables_def)

lemma container_source_specs:
  assumes "device_container pl u P" and "parseDevicesJSON (json_text (JArr (map device_payload (un_Devices u)))) = Inr specs"
  shows "source_specs P (cli_flags P) = Inr (Some specs, [])"
proof -
  obtain s where s: "json_text (JArr (map device_payload (un_Devices u))) = CHR ''['' # s @ [CHR '']'']" using container_text by blast
  then show ?thesis
    using assms(2) container_sources [OF assms(1)] trim_bracketed [of s]
    by (simp add: source_specs_def fleetSpecs_def active_sources_def modelsText_def fail_def singleFlags_def cli_flags_def trim_space_Nil)
qed

lemma usable_address_length: "usable_address a = Some b \<Longrightarrow> length b = 4"
  by (auto simp: usable_address_def to4_length split: net_addr.splits option.splits if_splits)

lemma first_address_nonempty: "first_address ifaces = Inr ip \<Longrightarrow> ip \<noteq> []"
proof (induction ifaces)
  case (Cons iface ifaces)
  show ?case
  proof (cases "\<not> if_Up iface \<or> if_Loopback iface \<or> (\<exists>e. if_Addrs iface = Inl e)")
    case True
    then show ?thesis using Cons by (auto split: if_splits)
  next
    case False
    then obtain addrs where a: "if_Addrs iface = Inr addrs" by (cases "if_Addrs iface") auto
    show ?thesis
    proof (cases "List.map_filter usable_address addrs")
      case Nil
      then show ?thesis using Cons a False by simp
    next
      case (Cons b bs)
      then have "b \<in> set (List.map_filter usable_address addrs)" by simp
      then have "length b = 4" using usable_address_length by (auto simp: List.map_filter_def)
      then show ?thesis using v4_string_nonempty [of b] Cons.prems a False Cons by auto
    qed
  qed
qed simp

lemma address_nonempty: "containerIPv4 interfaces = Inr ip \<Longrightarrow> ip \<noteq> []"
  using first_address_nonempty by (auto simp: containerIPv4_def split: sum.splits)

section \<open>The container's run\<close>

lemma container_base:
  "parse_mac ''00:27:22:e0:00:00'' = Some [0x00, 0x27, 0x22, 0xe0, 0x00, 0x00]"
  "Option.bind (parse_ip ''192.168.1.100'') to4 = Some [192, 168, 1, 100]"
  by code_simp+

lemma resolves_to_itself:
  assumes "length a = 4" and "list_all is_digit port"
  shows "resolveInformURLWith (''http://'' @ v4_string a @ CHR '':'' # port @ ''/inform'') lookup =
    Inr (''http://'' @ v4_string a @ CHR '':'' # port @ ''/inform'')"
proof -
  let ?h = "v4_string a"
  have h: "dotted ?h" "?h \<noteq> []" using v4_string_dotted v4_string_nonempty assms(1) by blast+
  have "CHR '':'' \<notin> set port" using assms(2) digit_not by (auto simp: list_all_iff)
  then have "cut_last CHR '':'' (?h @ CHR '':'' # port) = Some (?h, port)" by (rule cut_last_found)
  moreover have "hd ?h \<noteq> CHR ''[''" using dotted_not [OF h(1) hd_in_set [OF h(2)]] by blast
  ultimately show ?thesis
    using parse_inform_url [OF h assms(2)] dotted_parse [OF assms(1)] h(2) assms(2)
    by (simp add: resolveInformURLWith_def url_hostname_def split_port_def Let_def)
qed

lemma container_plan:
  assumes c: "device_container pl u P" and "parseDevicesJSON (json_text (JArr (map device_payload (un_Devices u)))) = Inr (map identity_spec (un_Devices u))"
    and ip: "containerIPv4 (ps_Interfaces P) = Inr ip"
    and "resolveInformURLWith (pl_InformURL pl) (ps_Lookup P) = Inr (pl_InformURL pl)" and "pl_InformURL pl \<noteq> []"
  shows "cli_plan P (cli_flags P) =
    (case expandFleet (ps_Registry P) (container_fleet ip (un_Devices u)) ''00:27:22:e0:00:00'' ''192.168.1.100'' of
       Inl e \<Rightarrow> Inl [ContainerReports ip (length (un_Devices u)), ExpandProblem e]
     | Inr specs \<Rightarrow> Inr (pl_InformURL pl, specs, [ContainerReports ip (length (un_Devices u))]))"
proof -
  obtain s where s: "json_text (JArr (map device_payload (un_Devices u))) = CHR ''['' # s @ [CHR '']'']" using container_text by blast
  note v = container_variables [OF c]
  have base: "envOr P ''SIM_MAC_BASE'' d = d" "envOr P ''SIM_IP_BASE'' d = d" for d
    using v(4) by (simp_all add: envOr_def caller_variables_def)
  have url: "string_flag (cli_flags P) ''inform'' = pl_InformURL pl"
    using v(2) assms(5) by (simp add: string_flag_def cli_flags_def informURLDefault_def)
  have own: "own_address P (cli_sources P (cli_flags P)) (Some (map identity_spec (un_Devices u))) =
      Inr (Some (container_fleet ip (un_Devices u)), [ContainerReports ip (length (un_Devices u))])"
    using ip trim_bracketed [of s] s container_sources [OF c]
    by (simp add: own_address_def fail_def container_fleet_def o_def)
  show ?thesis
    using assms(4) by (simp add: cli_plan_def fleet_plan_def container_source_specs [OF c assms(2)] own base url fail_def split: sum.split)
qed

text \<open>
  C8: what a device container started for a unit of a plan does, if its inform URL is spelled as an
  address, a port and the path, it has the environment the herder gives it with nothing set for another
  use, and an interface with an address. The command reads the unit's devices and reports its own
  address. A unit with more than one gateway, which a plan may have, is refused then, before any device
  is there, with exit status 1. Any other unit is run: one pending device per allocated identity, with
  its model, MAC, serial and name, informs at the URL of the plan; then the readiness marker is written
  and the devices are stopped at the signal, with exit status 0, or, if the marker cannot be written,
  they are stopped at once, with exit status 1.
\<close>
theorem device_container_informs:
  assumes "Allocate request rnd = Inr (in_Devices inp)" and "BuildPlan (ps_Registry P) inp = Inr pl" and "u \<in> set (pl_Units pl)"
    and "pl_InformURL pl = ''http://'' @ v4_string a @ CHR '':'' # port @ ''/inform''" and "length a = 4" and "list_all is_digit port"
    and c: "device_container pl u P" and ip: "containerIPv4 (ps_Interfaces P) = Inr ip"
  shows "if 1 < length (filter (is_gateway (ps_Registry P)) (container_fleet ip (un_Devices u))) then
      run P = Some ([Logged (ContainerReports ip (length (un_Devices u))), Logged (ExpandProblem (TooManyGateways 2))], 1)
    else
      \<exists>e. list_all2 (runs ip) (un_Devices u) (rev (e_devices e)) \<and>
        fleet_up (ps_Registry P) (pl_InformURL pl) (container_fleet ip (un_Devices u)) e \<and>
        run P =
          (let begun = Logged (ContainerReports ip (length (un_Devices u))) # FleetStarted e #
                 informing_lines e (pl_InformURL pl) (container_fleet ip (un_Devices u));
               path = readyFilePath (ps_Getenv P)
           in if ps_CanWrite P path then
                map_option (\<lambda>_. (begun @ [MarkerWritten path, Logged SignalReceived, FleetStopped], 0)) (ps_Signal P (ps_World P))
              else Some (begun @ [Logged (MarkerProblem path), FleetStopped], 1))"
proof -
  let ?fleet = "container_fleet ip (un_Devices u)" and ?url = "pl_InformURL pl"
  note ui = unit_identities [OF assms(1-3)] and ipn = address_nonempty [OF ip]
  note plan = container_plan [OF c payload_text ip]
  have args: "parse_args (ps_Args P) (cli_flags P) = Inr (cli_flags P)" using container_variables(1) [OF c] by (simp add: cli_flags_def)
  have flags: "\<not> bool_flag (cli_flags P) ''V''" "\<not> bool_flag (cli_flags P) ''healthcheck''" by (simp_all add: bool_flag_def cli_flags_def)
  have url: "resolveInformURLWith ?url (ps_Lookup P) = Inr ?url" "?url \<noteq> []" using resolves_to_itself [OF assms(5,6)] assms(4) by simp_all
  show ?thesis
  proof (cases "1 < length (filter (is_gateway (ps_Registry P)) ?fleet)")
    case True
    then have "expandFleet (ps_Registry P) ?fleet ''00:27:22:e0:00:00'' ''192.168.1.100'' = Inl (TooManyGateways 2)"
      using ui(2) ipn container_base by (intro container_refused) auto
    then show ?thesis using True plan ui url by (simp add: run_def args flags container_adopt [OF c])
  next
    case False
    have "expandFleet (ps_Registry P) ?fleet ''00:27:22:e0:00:00'' ''192.168.1.100'' = Inr ?fleet"
      using ui(2) False ipn container_base by (intro container_expands) auto
    then have p: "cli_plan P (cli_flags P) = Inr (?url, ?fleet, [ContainerReports ip (length (un_Devices u))])"
      using plan ui url by simp
    have "\<forall>s \<in> set ?fleet. addable (ps_Registry P) s" using ui(2) device_mac_normal by (auto simp: container_fleet_def addable_def)
    moreover have "distinct (map sp_MAC ?fleet)" using ui(3) by (simp add: container_fleet_def o_def)
    ultimately obtain ds where ds: "list_all2 (added_as (ps_Registry P) (ps_Now P) (New ?url [])) ?fleet ds"
        "Add (ps_Registry P) (ps_Now P) ?fleet (New ?url []) = (New ?url []\<lparr>e_devices := rev ds\<rparr>, None)"
      using Add_all [of ?fleet "ps_Registry P" "ps_Now P" ?url "[]"] by blast
    have runs: "list_all2 (runs ip) (un_Devices u) ds" using added_runs [OF ds(1)] ui(2) by blast
    then have "ds \<noteq> []" using ui(1) by auto
    then obtain e where e: "Start (New ?url []\<lparr>e_devices := rev ds\<rparr>) = (e, None)" "e_devices e = rev ds"
      by (auto simp: Start_def New_def nanos_def)
    have none: "\<not> ac_Enabled no_config" by (simp add: no_config_def)
    have "run P =
        (let begun = Logged (ContainerReports ip (length (un_Devices u))) # FleetStarted e # informing_lines e ?url ?fleet;
             path = readyFilePath (ps_Getenv P)
         in if ps_CanWrite P path then
              map_option (\<lambda>_. (begun @ [MarkerWritten path, Logged SignalReceived, FleetStopped], 0)) (ps_Signal P (ps_World P))
            else Some (begun @ [Logged (MarkerProblem path), FleetStopped], 1))"
      using none by (simp add: run_def args flags container_adopt [OF c] p boot_def ds(2) e(1) run_fleet_def adopt_and_wait_def
          Let_def option.map_comp o_def)
    moreover have "fleet_up (ps_Registry P) ?url ?fleet e" "list_all2 (runs ip) (un_Devices u) (rev (e_devices e))"
      using boot_up [OF ds(2) e(1)] runs e(2) by simp_all
    ultimately show ?thesis using False by auto
  qed
qed

definition sample_container :: "(nat \<times> bool) process" where
  "sample_container =
     \<lparr>ps_Registry = Plan_Laws.sample_registry, ps_Version = ''1.0.0'', ps_Args = [],
      ps_Getenv = (\<lambda>k. case map_of (cr_Env (buildContainerRequest sample_plan (pl_Units sample_plan ! 1))) k of Some v \<Rightarrow> v | None \<Rightarrow> []),
      ps_ReadFile = (\<lambda>_. None), ps_YAML = (\<lambda>_. (YamlError, YamlError)),
      ps_Interfaces = Inr [\<lparr>if_Name = ''eth0'', if_Up = True, if_Loopback = False, if_Addrs = Inr [IPNet [172, 18, 0, 5]]\<rparr>],
      ps_Lookup = (\<lambda>_. Inl ()), ps_Exists = (\<lambda>_. False), ps_CanWrite = (\<lambda>_. True), ps_Now = 0, ps_World = (3, False),
      ps_Adopt = (\<lambda>_. sample_transport), ps_Diagnose = sample_transport, ps_Interrupted = (\<lambda>_. False), ps_Signal = Some\<rparr>"

lemma sample_device_container: "device_container sample_plan (pl_Units sample_plan ! 1) sample_container"
proof -
  let ?u = "pl_Units sample_plan ! 1"
  have "map fst (cr_Env (buildContainerRequest sample_plan ?u)) = [''UNIFI_EMU_INFORM_URL'', ''UNIFI_EMU_DEVICES_JSON'']"
    by (simp add: buildContainerRequest_def envInformURL_def envDevicesJSON_def)
  then show ?thesis
    by (auto simp: device_container_def sample_container_def caller_variables_def buildContainerRequest_def envInformURL_def envDevicesJSON_def)
qed

text \<open>The same plan where both models of the batch are gateways\<close>

definition gateway_registry :: registry where
  "gateway_registry = (\<lambda>m. map_option (\<lambda>p. p\<lparr>pf_Type := ''ugw''\<rparr>) (Plan_Laws.sample_registry m))"

lemma gateway_plan_built: "BuildPlan gateway_registry sample_input = Inr sample_plan"
  by code_simp

lemma gateway_container: "device_container sample_plan (pl_Units sample_plan ! 1) (sample_container\<lparr>ps_Registry := gateway_registry\<rparr>)"
  using sample_device_container by (simp add: device_container_def)

theorem device_container_informs_witness:
  "(\<exists>e said. list_all2 (runs ''172.18.0.5'') (tl sample_identities) (rev (e_devices e)) \<and>
      run sample_container = Some (Logged (ContainerReports ''172.18.0.5'' 2) # FleetStarted e # said @
        [MarkerWritten ''/unifi-emu-ready'', Logged SignalReceived, FleetStopped], 0)) \<and>
   BuildPlan gateway_registry sample_input = Inr sample_plan \<and>
   run (sample_container\<lparr>ps_Registry := gateway_registry\<rparr>) =
     Some ([Logged (ContainerReports ''172.18.0.5'' 2), Logged (ExpandProblem (TooManyGateways 2))], 1)"
proof -
  let ?u = "pl_Units sample_plan ! 1" and ?P = "sample_container\<lparr>ps_Registry := gateway_registry\<rparr>"
  have u: "?u \<in> set (pl_Units sample_plan)" "un_Devices ?u = tl sample_identities" by (simp_all add: sample_plan_def)
  have reg: "ps_Registry sample_container = Plan_Laws.sample_registry" by (simp add: sample_container_def)
  have "is_gateway Plan_Laws.sample_registry s = False" for s
    by (simp add: is_gateway_def Profile_def Plan_Laws.sample_registry_def zero_profile_def)
  then have "filter (is_gateway Plan_Laws.sample_registry) xs = []" for xs by simp
  then have g: "\<not> 1 < length (filter (is_gateway (ps_Registry sample_container)) (container_fleet ''172.18.0.5'' (un_Devices ?u)))"
    by (simp only: reg list.size)
  have url: "pl_InformURL sample_plan = ''http://'' @ v4_string [10, 0, 0, 2] @ CHR '':'' # ''8080'' @ ''/inform''"
    by code_simp
  have ip: "containerIPv4 (ps_Interfaces sample_container) = Inr ''172.18.0.5''" by code_simp
  have f: "readyFilePath (ps_Getenv sample_container) = ''/unifi-emu-ready''" by code_simp
  have b: "BuildPlan (ps_Registry sample_container) sample_input = Inr sample_plan" using sample_plan_built reg by simp
  have w: "ps_CanWrite sample_container path" for path by (simp add: sample_container_def)
  have port: "length [10, 0, 0, 2 :: byte] = 4" "list_all is_digit ''8080''" by (simp, code_simp)
  have sig: "ps_Signal sample_container (ps_World sample_container) = Some (3, False)" by (simp add: sample_container_def)
  have two: "length (tl sample_identities) = 2" by code_simp
  note one = device_container_informs [OF sample_allocated b u(1) url port sample_device_container ip,
      unfolded if_not_P [OF g], unfolded Let_def if_P [OF w], unfolded u(2) f two sig option.map append_Cons]
  have "sp_Model (identity_spec d\<lparr>sp_IP := ip\<rparr>) = id_Model d" for d ip by simp
  moreover have "\<forall>d \<in> set (tl sample_identities). gateway_registry (id_Model d) \<noteq> None" by code_simp
  ultimately have "\<forall>s \<in> set (container_fleet ''172.18.0.5'' (tl sample_identities)). is_gateway gateway_registry s"
    by (fastforce simp: container_fleet_def is_gateway_def Profile_def gateway_registry_def)
  then have "filter (is_gateway gateway_registry) (container_fleet ''172.18.0.5'' (tl sample_identities)) =
      container_fleet ''172.18.0.5'' (tl sample_identities)" by (simp add: filter_id_conv)
  then have g2: "1 < length (filter (is_gateway (ps_Registry ?P)) (container_fleet ''172.18.0.5'' (un_Devices ?u)))"
    using two u(2) by (simp add: container_fleet_def)
  have b2: "BuildPlan (ps_Registry ?P) sample_input = Inr sample_plan" using gateway_plan_built by simp
  have ip2: "containerIPv4 (ps_Interfaces ?P) = Inr ''172.18.0.5''" using ip by simp
  note refused = device_container_informs [OF sample_allocated b2 u(1) url port gateway_container ip2,
      unfolded if_P [OF g2], unfolded u(2) two]
  show ?thesis using one refused gateway_plan_built by blast
qed

end
