(* ===== verification/Go_Encode.thy ===== *)
theory Go_Encode
  imports Go_Stream
begin

text \<open>
  The rest of \<^verbatim>\<open>encoding/json\<close> and \<^verbatim>\<open>strings\<close> the model generator uses: maps as decoding targets,
  the first value of a stream decoded into a struct, an encoder that indents and leaves HTML
  characters alone, and the fields of a text. Indented text reads back as the document written.
\<close>

section \<open>Decoding\<close>

text \<open>
  A map: every member is decoded into a fresh zero value under its key, a later member replaces an
  earlier one, and \<^verbatim>\<open>null\<close> gives the nil map.
\<close>

definition put_member ::
  "('a \<Rightarrow> json \<Rightarrow> json_error + 'a) \<Rightarrow> 'a \<Rightarrow> string \<times> json \<Rightarrow> (string \<times> 'a) list \<Rightarrow> json_error + (string \<times> 'a) list"
where
  "put_member dec z kv m = (case kv of (k, v) \<Rightarrow> rbind (dec z v) (\<lambda>x. Inr (AList.update (unquote k) x m)))"

definition dec_map ::
  "string \<Rightarrow> ('a \<Rightarrow> json \<Rightarrow> json_error + 'a) \<Rightarrow> 'a \<Rightarrow> (string \<times> 'a) list \<Rightarrow> json \<Rightarrow> json_error + (string \<times> 'a) list"
where
  "dec_map f dec z m v =
     (case v of
        JNull \<Rightarrow> Inr []
      | JObj kvs \<Rightarrow> rfold (put_member dec z) kvs m
      | _ \<Rightarrow> Inl (UnmarshalTypeError f))"

text \<open>A pointer: \<^verbatim>\<open>null\<close> makes it nil, anything else is decoded into what it points to.\<close>

definition dec_pointer ::
  "('a \<Rightarrow> json \<Rightarrow> json_error + 'a) \<Rightarrow> 'a \<Rightarrow> 'a option \<Rightarrow> json \<Rightarrow> json_error + 'a option"
where
  "dec_pointer dec z p v =
     (if v = JNull then Inr None else rbind (dec (case p of Some x \<Rightarrow> x | None \<Rightarrow> z) v) (\<lambda>x. Inr (Some x)))"

text \<open>A \<^verbatim>\<open>json.RawMessage\<close>\<close>

definition dec_raw :: "json \<Rightarrow> json \<Rightarrow> json_error + json" where
  "dec_raw cur v = Inr v"

text \<open>\<^verbatim>\<open>json.NewDecoder(r).Decode\<close>: the first value of the stream\<close>

definition decode_struct ::
  "string list \<Rightarrow> (string \<Rightarrow> json \<Rightarrow> 'r \<Rightarrow> json_error + 'r) \<Rightarrow> string \<Rightarrow> 'r \<Rightarrow> json_error + 'r"
where
  "decode_struct fs setf body r =
     (case decode_first body of
        None \<Rightarrow> Inl SyntaxError
      | Some (v, _) \<Rightarrow> dec_struct False fs setf v r)"

lemma put_member_keys:
  "put_member dec z kv m = Inr m' \<Longrightarrow> distinct (map fst m) \<Longrightarrow> distinct (map fst m')"
  by (auto simp: put_member_def rbind_def distinct_update split: prod.splits sum.splits)

lemma rfold_keys:
  "rfold (put_member dec z) kvs m = Inr m' \<Longrightarrow> distinct (map fst m) \<Longrightarrow> distinct (map fst m')"
  by (induction kvs arbitrary: m) (auto simp: rbind_def dest: put_member_keys split: sum.splits)

text \<open>A decoded map has every key once.\<close>

lemma dec_map_keys:
  "dec_map f dec z m v = Inr m' \<Longrightarrow> distinct (map fst m) \<Longrightarrow> distinct (map fst m')"
  by (auto simp: dec_map_def intro: rfold_keys split: json.splits)

section \<open>Values written and read\<close>

lemma update_new_key: "k \<notin> fst ` set m \<Longrightarrow> AList.update k x m = m @ [(k, x)]"
  by (induction m) auto

lemma rfold_put_members:
  assumes "distinct (map fst kvs)" and "fst ` set kvs \<inter> fst ` set m = {}"
    and "\<And>k x. (k, x) \<in> set kvs \<Longrightarrow> valid_utf8 k \<and> dec z (j x) = Inr (g x)"
  shows "rfold (put_member dec z) (map (\<lambda>(k, x). (quote_body k, j x)) kvs) m = Inr (m @ map (\<lambda>(k, x). (k, g x)) kvs)"
  using assms
proof (induction kvs arbitrary: m)
  case (Cons kv kvs)
  obtain k x where kv: "kv = (k, x)" by (cases kv)
  have one: "valid_utf8 k" "dec z (j x) = Inr (g x)" using Cons.prems(3) [of k x] kv by simp_all
  have "k \<notin> fst ` set m" using Cons.prems(2) kv by auto
  then have "put_member dec z (quote_body k, j x) m = Inr (m @ [(k, g x)])"
    using one by (simp add: put_member_def update_new_key)
  moreover have "rfold (put_member dec z) (map (\<lambda>(k, x). (quote_body k, j x)) kvs) (m @ [(k, g x)]) =
      Inr ((m @ [(k, g x)]) @ map (\<lambda>(k, x). (k, g x)) kvs)"
    by (rule Cons.IH) (use Cons.prems kv in auto)
  ultimately show ?case by (simp add: kv)
qed simp

lemma insort_mapped:
  "insort_key fst (k, f x) (map (\<lambda>(k, x). (k, f x)) m) = map (\<lambda>(k, x). (k, f x)) (insort_key fst (k, x) m)"
  by (induction m) auto

lemma sort_key_mapped: "sort_key fst (map (\<lambda>(k, x). (k, f x)) m) = map (\<lambda>(k, x). (k, f x)) (sort_key fst m)"
  by (induction m) (auto simp: insort_mapped)

lemma dec_elems_map:
  "(\<And>x. x \<in> set xs \<Longrightarrow> dec z (j x) = Inr (g x)) \<Longrightarrow> dec_elems dec z (map j xs) [] = Inr (map g xs)"
  by (induction xs) simp_all

text \<open>
  A type of values whose documents decode: lists and maps of them then decode too, a map in the order
  of its keys.
\<close>

locale written =
  fixes dec :: "'a \<Rightarrow> json \<Rightarrow> json_error + 'a" and z :: 'a and j :: "'b \<Rightarrow> json" and g :: "'b \<Rightarrow> 'a" and ok :: "'b \<Rightarrow> bool"
  assumes read: "ok x \<Longrightarrow> dec z (j x) = Inr (g x)"
begin

lemma read_list: "list_all ok xs \<Longrightarrow> dec_list f dec z [] (JArr (map j xs)) = Inr (map g xs)"
  by (simp add: dec_list_def list_all_iff dec_elems_map read)

lemma read_map:
  assumes "distinct (map fst m)" and "list_all (\<lambda>(k, x). valid_utf8 k \<and> ok x) m"
  shows "dec_map f dec z [] (json_object (map (\<lambda>(k, x). (k, j x)) m)) = Inr (map (\<lambda>(k, x). (k, g x)) (sort_key fst m))"
proof -
  have d: "distinct (map fst (sort_key fst m))" using assms(1) by (simp add: distinct_map)
  have "rfold (put_member dec z) (map (\<lambda>(k, x). (quote_body k, j x)) (sort_key fst m)) [] =
      Inr ([] @ map (\<lambda>(k, x). (k, g x)) (sort_key fst m))"
    by (rule rfold_put_members [OF d]) (use assms(2) read in \<open>auto simp: list_all_iff\<close>)
  moreover have "map (\<lambda>(k, v). (quote_body k, v)) (sort_key fst (map (\<lambda>(k, x). (k, j x)) m)) =
      map (\<lambda>(k, x). (quote_body k, j x)) (sort_key fst m)"
    unfolding sort_key_mapped by (simp add: split_def)
  ultimately show ?thesis by (simp add: dec_map_def json_object_def del: map_map)
qed

end

section \<open>Strings without HTML escapes\<close>

definition escape_plain :: "char \<Rightarrow> string" where
  "escape_plain c = (if code c = 60 \<or> code c = 62 \<or> code c = 38 then [c] else escape_char c)"

function quote_plain :: "string \<Rightarrow> string" where
  "quote_plain [] = []"
| "quote_plain (c # s) =
     (if code c < 128 then escape_plain c @ quote_plain s
      else case utf8_len (c # s) of
        None \<Rightarrow> (backslash # ''ufffd'') @ quote_plain s
      | Some n \<Rightarrow>
          (let r = take n (c # s) in
           (if r = line_sep then backslash # ''u2028''
            else if r = para_sep then backslash # ''u2029'' else r)
           @ quote_plain (drop (n - 1) s)))"
  by pat_completeness auto
termination
  by (relation "measure length") auto

declare quote_plain.simps(2) [simp del]

lemma passes_escape_plain: "passes (escape_plain c)"
proof (cases "code c = 60 \<or> code c = 62 \<or> code c = 38")
  case True
  then have "passes [c]" by (intro passes_plain) (auto simp: quote_mark_def backslash_def code_def)
  then show ?thesis using True by (simp add: escape_plain_def)
next
  case False
  then show ?thesis using passes_escape_char by (simp add: escape_plain_def)
qed

lemma unquote_escape_plain:
  assumes "code c < 128"
  shows "unquote (escape_plain c @ z) = c # unquote z"
proof (cases "code c = 60 \<or> code c = 62 \<or> code c = 38")
  case True
  then have "c \<noteq> backslash" by (auto simp: backslash_def code_def)
  then show ?thesis using True assms by (simp add: escape_plain_def unquote_plain)
next
  case False
  then show ?thesis using unquote_escape_char [OF assms] by (simp add: escape_plain_def)
qed

lemma passes_unicode:
  "passes (backslash # ''ufffd'')" "passes (backslash # ''u2028'')" "passes (backslash # ''u2029'')"
  using passes_unicode_escape [of "CHR ''f''" "CHR ''f''" "CHR ''f''" "CHR ''d''"]
    passes_unicode_escape [of "CHR ''2''" "CHR ''0''" "CHR ''2''"]
  by simp_all

lemma passes_quote_plain: "passes (quote_plain s)"
proof (induction s rule: quote_plain.induct)
  case (2 c s)
  show ?case
  proof (cases "code c < 128")
    case True
    then show ?thesis using "2.IH"(1) passes_escape_plain by (simp add: quote_plain.simps passes_append)
  next
    case False
    show ?thesis
    proof (cases "utf8_len (c # s)")
      case None
      then show ?thesis
        using "2.IH"(2) False passes_append [OF passes_unicode(1)] by (simp add: quote_plain.simps)
    next
      case (Some n)
      have "passes (take n (c # s))"
        using utf8_len_high [OF Some] False by (intro passes_plain) (auto dest: high_not_special)
      then have p: "passes (if take n (c # s) = line_sep then backslash # ''u2028''
          else if take n (c # s) = para_sep then backslash # ''u2029'' else take n (c # s))"
        using passes_unicode by (auto split: if_splits)
      have "passes (quote_plain (drop (n - 1) s))" using "2.IH"(3) [OF False Some refl] .
      from passes_append [OF p this] show ?thesis
        using False Some by (subst quote_plain.simps) (simp add: Let_def)
    qed
  qed
qed simp

lemma str_ok_quote_plain [simp]: "str_ok (quote_plain s)"
  by (rule str_ok_passes) (rule passes_quote_plain)

lemma unquote_quote_plain [simp]: "valid_utf8 s \<Longrightarrow> unquote (quote_plain s) = s"
proof (induction s rule: quote_plain.induct)
  case (2 c s)
  obtain n where n: "utf8_len (c # s) = Some n" and rest: "valid_utf8 (drop (n - 1) s)"
    using "2.prems" by (auto simp: valid_utf8.simps split: option.splits)
  show ?case
  proof (cases "code c < 128")
    case True
    then have "n = 1" using n by (simp add: utf8_len_def)
    then show ?thesis using "2.IH"(1) True rest by (simp add: quote_plain.simps unquote_escape_plain)
  next
    case False
    obtain m where m: "n = Suc m" using utf8_len_bounds [OF n] by (cases n) auto
    have ih: "unquote (quote_plain (drop m s)) = drop m s" using "2.IH"(3) [OF False n] rest m by simp
    let ?r = "take n (c # s)" and ?q = "quote_plain (drop m s)"
    have "quote_plain (c # s) = (if ?r = line_sep then backslash # ''u2028''
        else if ?r = para_sep then backslash # ''u2029'' else ?r) @ ?q"
      using False n m by (subst quote_plain.simps) (simp add: Let_def)
    moreover have "unquote (?r @ ?q) = ?r @ unquote ?q" using unquote_utf8 [OF n] False by simp
    ultimately have "unquote (quote_plain (c # s)) = ?r @ unquote ?q"
      using unquote_separators [of ?q] by (auto split: if_splits)
    then show ?thesis using ih m by simp
  qed
qed simp

section \<open>Indented text\<close>

definition new_line :: "nat \<Rightarrow> string" where
  "new_line d = CHR 0x0A # replicate (2 * d) CHR '' ''"

text \<open>The document with two blanks per level; what is empty stays on its line.\<close>

fun indented :: "nat \<Rightarrow> json \<Rightarrow> string" where
  "indented d (JArr vs) =
     (if vs = [] then ''[]''
      else CHR ''['' # new_line (Suc d) @ join_with (CHR '','' # new_line (Suc d)) (map (indented (Suc d)) vs)
           @ new_line d @ '']'')"
| "indented d (JObj kvs) =
     (if kvs = [] then ''{}''
      else CHR ''{'' # new_line (Suc d)
           @ join_with (CHR '','' # new_line (Suc d))
               (map (\<lambda>(k, v). quote_mark # k @ quote_mark # '': '' @ indented (Suc d) v) kvs)
           @ new_line d @ ''}'')"
| "indented d v = json_text v"

lemma lex_skip_ws: "list_all is_ws w \<Longrightarrow> lex (w @ s) = lex s"
  by (induction w) (simp_all add: lex.simps)

lemma lex_new_line: "lex (new_line d @ s) = lex s"
  by (rule lex_skip_ws) (simp add: new_line_def is_ws_def code_def list_all_iff)

lemma lex_blank: "lex (CHR '' '' # s) = lex s"
  using lex_skip_ws [of "'' ''" s] by (simp add: is_ws_def code_def)

text \<open>What may follow a number or a word without joining it\<close>

definition parted :: "string \<Rightarrow> bool" where
  "parted s \<longleftrightarrow> s = [] \<or> punct_token (hd s) \<noteq> None \<or> is_ws (hd s)"

lemma parted_simps [simp]:
  "parted []" "parted (CHR '','' # s)" "parted (new_line d @ s)" "parted (CHR 0x0A # s)"
  by (simp_all add: parted_def punct_token_def new_line_def is_ws_def code_def)

lemma takeWhile_parted:
  assumes "list_all P t" and "parted s" and "\<And>c. punct_token c \<noteq> None \<or> is_ws c \<Longrightarrow> \<not> P c"
  shows "takeWhile P (t @ s) = t" and "dropWhile P (t @ s) = s"
proof -
  have "takeWhile P s = []" "dropWhile P s = s" using assms(2,3) by (cases s; auto simp: parted_def)+
  moreover have "\<And>c. c \<in> set t \<Longrightarrow> P c" using assms(1) by (simp add: list_all_iff)
  ultimately show "takeWhile P (t @ s) = t" and "dropWhile P (t @ s) = s" by simp_all
qed

lemma parted_char: "punct_token c \<noteq> None \<or> is_ws c \<Longrightarrow> \<not> num_char c \<and> \<not> is_lower c"
  unfolding class_codes by auto

lemma lex_num_parted:
  assumes "valid_num n" and "parted s"
  shows "lex (n @ s) = map_option ((#) (TNum n)) (lex s)"
proof -
  obtain c t where n: "n = c # t" "num_start c" "list_all num_char t"
    using valid_num_chars [OF assms(1)] by blast
  have "takeWhile num_char (t @ s) = t" "dropWhile num_char (t @ s) = s"
    using takeWhile_parted [OF n(3) assms(2)] parted_char by blast+
  then show ?thesis using num_start_class [OF n(2)] assms(1) n by (simp add: lex.simps)
qed

lemma lex_word_parted:
  assumes "word_token (c # t) = Some k" and "is_lower c" and "list_all is_lower t" and "parted s"
  shows "lex (c # t @ s) = map_option ((#) k) (lex s)"
proof -
  have "takeWhile is_lower (t @ s) = t" "dropWhile is_lower (t @ s) = s"
    using takeWhile_parted [OF assms(3,4)] parted_char by blast+
  moreover have "\<not> is_ws c \<and> punct_token c = None \<and> c \<noteq> quote_mark \<and> \<not> num_start c"
    using assms(2) unfolding class_codes by auto
  ultimately show ?thesis using assms(1,2) by (simp add: lex.simps)
qed

lemma lex_joined:
  assumes "\<And>x s. x \<in> set xs \<Longrightarrow> parted s \<Longrightarrow> lex (f x @ s) = map_option ((@) (g x)) (lex s)" and "parted s"
  shows "lex (join_with (CHR '','' # new_line d) (map f xs) @ s) = map_option ((@) (commas (map g xs))) (lex s)"
  using assms(1)
proof (induction xs)
  case Nil
  then show ?case by (cases "lex s") auto
next
  case (Cons x xs)
  show ?case
  proof (cases xs)
    case Nil
    then show ?thesis using Cons.prems assms(2) by simp
  next
    case (Cons y ys)
    have "lex (join_with (CHR '','' # new_line d) (map f xs) @ s) = map_option ((@) (commas (map g xs))) (lex s)"
      using Cons.IH Cons.prems by simp
    then show ?thesis using Cons.prems Cons by (simp add: lex_new_line option.map_comp o_def append_fun)
  qed
qed

lemma lex_indented:
  "json_ok v \<Longrightarrow> parted s \<Longrightarrow> lex (indented d v @ s) = map_option ((@) (tokens v)) (lex s)"
proof (induction v arbitrary: s d)
  case JNull
  then show ?case using lex_word_parted [of "CHR ''n''" "''ull''" TNull s]
    by (simp add: json_text_def word_token_def is_lower_def code_def append_fun)
next
  case (JBool b)
  then show ?case using lex_word_parted [of "CHR ''t''" "''rue''" TTrue s] lex_word_parted [of "CHR ''f''" "''alse''" TFalse s]
    by (simp add: json_text_def word_token_def is_lower_def code_def append_fun)
next
  case (JNum n)
  then show ?case by (simp add: json_text_def lex_num_parted append_fun)
next
  case (JStr b)
  then show ?case by (simp add: json_text_def lex_string append_fun)
next
  case (JArr vs)
  have "lex (join_with (CHR '','' # new_line (Suc d)) (map (indented (Suc d)) vs) @ new_line d @ CHR '']'' # s) =
      map_option ((@) (commas (map tokens vs))) (lex (new_line d @ CHR '']'' # s))"
    by (rule lex_joined) (use JArr in \<open>auto simp: list_all_iff\<close>)
  then show ?case by (simp add: lex_new_line option.map_comp o_def append_fun)
next
  case (JObj kvs)
  let ?f = "\<lambda>(k, v). quote_mark # k @ quote_mark # '': '' @ indented (Suc d) v"
  have "lex (join_with (CHR '','' # new_line (Suc d)) (map ?f kvs) @ new_line d @ CHR ''}'' # s) =
      map_option ((@) (commas (map member_tokens kvs))) (lex (new_line d @ CHR ''}'' # s))"
  proof (rule lex_joined)
    fix x s'
    assume x: "x \<in> set kvs" and s': "parted s'"
    obtain k v where kv: "x = (k, v)" by (cases x)
    have ok: "str_ok k" "json_ok v" using JObj.prems(1) x kv by (auto simp: list_all_iff)
    have "lex (indented (Suc d) v @ s') = map_option ((@) (tokens v)) (lex s')"
      by (rule JObj.IH [OF x _ ok(2) s']) (simp add: kv Basic_BNFs.snds.intros)
    then show "lex (?f x @ s') = map_option ((@) (member_tokens x)) (lex s')"
      using kv ok(1) by (simp add: lex_string lex_blank option.map_comp o_def append_fun)
  qed simp
  then show ?case by (simp add: lex_new_line option.map_comp o_def append_fun)
qed

text \<open>Indented text with its final line end parses as the document.\<close>

lemma json_parse_indented:
  assumes "json_ok v" and "json_depth v \<le> max_nesting_depth"
  shows "json_parse (indented 0 v @ [CHR 0x0A]) = Some v"
proof -
  have "lex [CHR 0x0A] = Some []" using lex_skip_ws [of "[CHR 0x0A]" "[]"] by (simp add: is_ws_def code_def)
  then have "lex (indented 0 v @ [CHR 0x0A]) = Some (tokens v)"
    using lex_indented [OF assms(1), of "[CHR 0x0A]" 0] by simp
  moreover have "json_run ([], MVal) (tokens v) = Some ([], MDone v)"
    using run_value [of "[]" v] assms(2) by simp
  ultimately show ?thesis by (simp add: json_parse_def)
qed

section \<open>Strings\<close>

text \<open>\<^verbatim>\<open>strings.Fields\<close>\<close>

function fields_from :: "string \<Rightarrow> string \<Rightarrow> string list" where
  "fields_from cur s =
     (case strip_any spaces s of
        Some r \<Rightarrow>
          (if length r < length s then (if cur = [] then fields_from [] r else cur # fields_from [] r) else [cur])
      | None \<Rightarrow> (case s of [] \<Rightarrow> (if cur = [] then [] else [cur]) | c # r \<Rightarrow> fields_from (cur @ [c]) r))"
  by pat_completeness auto
termination
  by (relation "measure (\<lambda>(cur, s). length s)") auto

declare fields_from.simps [simp del]

definition split_fields :: "string \<Rightarrow> string list" where
  "split_fields s = fields_from [] s"

text \<open>\<^verbatim>\<open>bytes.Index\<close> with what lies behind the match\<close>

fun find_after :: "string \<Rightarrow> string \<Rightarrow> string option" where
  "find_after p [] = (if p = [] then Some [] else None)"
| "find_after p (c # s) = (case strip_prefix p (c # s) of Some r \<Rightarrow> Some r | None \<Rightarrow> find_after p s)"

text \<open>\<^verbatim>\<open>strings.ToUpper\<close> as far as ASCII can see: the dotless i and the long s become letters.\<close>

fun upper_ascii :: "string \<Rightarrow> string" where
  "upper_ascii [] = []"
| "upper_ascii [c] = [upper_char c]"
| "upper_ascii (c # d # s) =
     (if code c = 0xC5 \<and> code d = 0xBF then CHR ''S'' # upper_ascii s
      else if code c = 0xC4 \<and> code d = 0xB1 then CHR ''I'' # upper_ascii s
      else upper_char c # upper_ascii (d # s))"

end
