(* ===== verification/Gen_Catalog.thy ===== *)
theory Gen_Catalog
  imports Go_Encode Go_Net Inform_Session
begin

text \<open>
  The model generator (\<^verbatim>\<open>cmd/modelgen/main.go\<close>): the catalog it writes, the validation every entry
  passes, and the reduction of a controller's device list to a catalog.
\<close>

section \<open>The catalog\<close>

record catalog_port =
  cp_IfName :: string
  cp_Name :: string
  cp_PortIdx :: int
  cp_Media :: string
  cp_PoECaps :: int
  cp_IsUplink :: bool

record catalog_radio =
  ca_Name :: string
  ca_Radio :: string
  ca_HT :: string
  ca_MinTxPower :: int
  ca_MaxTxPower :: int
  ca_NSS :: int
  ca_RadioCaps :: int
  ca_AntennaGain :: int

record catalog_model =
  cm_Model :: string
  cm_ModelDisplay :: string
  cm_Type :: string
  cm_Version :: string
  cm_UDAPIVersion :: string
  cm_UDAPICaps :: int
  cm_FWCaps :: int
  cm_Ports :: "catalog_port list"
  cm_Radios :: "catalog_radio list"

record excluded_model =
  ex_Model :: string
  ex_Reason :: string

record catalog_file =
  cf_ControllerVersion :: string
  cf_IdentitySource :: string
  cf_HardwareSource :: string
  cf_Models :: "catalog_model list"
  cf_ExcludedModels :: "excluded_model list"

section \<open>Writing it\<close>

definition kstr :: "string \<Rightarrow> json" where
  "kstr s = JStr (quote_plain s)"

definition if_some :: "bool \<Rightarrow> string \<Rightarrow> json \<Rightarrow> (string \<times> json) list" where
  "if_some present k v = (if present then [(k, v)] else [])"

definition port_json :: "catalog_port \<Rightarrow> json" where
  "port_json p =
     JObj ([(''ifname'', kstr (cp_IfName p)), (''name'', kstr (cp_Name p)), (''port_idx'', jint (cp_PortIdx p)),
            (''media'', kstr (cp_Media p))] @
           if_some (cp_PoECaps p \<noteq> 0) ''poe_caps'' (jint (cp_PoECaps p)) @
           if_some (cp_IsUplink p) ''is_uplink'' (JBool (cp_IsUplink p)))"

definition radio_json :: "catalog_radio \<Rightarrow> json" where
  "radio_json r =
     JObj [(''name'', kstr (ca_Name r)), (''radio'', kstr (ca_Radio r)), (''ht'', kstr (ca_HT r)),
           (''min_txpower'', jint (ca_MinTxPower r)), (''max_txpower'', jint (ca_MaxTxPower r)), (''nss'', jint (ca_NSS r)),
           (''radio_caps'', jint (ca_RadioCaps r)), (''antenna_gain'', jint (ca_AntennaGain r))]"

definition model_json :: "catalog_model \<Rightarrow> json" where
  "model_json m =
     JObj ([(''model'', kstr (cm_Model m)), (''model_display'', kstr (cm_ModelDisplay m)), (''type'', kstr (cm_Type m)),
            (''version'', kstr (cm_Version m))] @
           if_some (cm_UDAPIVersion m \<noteq> []) ''udapi_version'' (kstr (cm_UDAPIVersion m)) @
           if_some (cm_UDAPICaps m \<noteq> 0) ''udapi_caps'' (jint (cm_UDAPICaps m)) @
           if_some (cm_FWCaps m \<noteq> 0) ''fw_caps'' (jint (cm_FWCaps m)) @
           if_some (cm_Ports m \<noteq> []) ''ports'' (JArr (map port_json (cm_Ports m))) @
           if_some (cm_Radios m \<noteq> []) ''radios'' (JArr (map radio_json (cm_Radios m))))"

definition excluded_json :: "excluded_model \<Rightarrow> json" where
  "excluded_json e = JObj [(''model'', kstr (ex_Model e)), (''reason'', kstr (ex_Reason e))]"

text \<open>A catalog without models has a nil slice, which is written \<^verbatim>\<open>null\<close>.\<close>

definition catalog_json :: "catalog_file \<Rightarrow> json" where
  "catalog_json c =
     JObj ([(''controller_version'', kstr (cf_ControllerVersion c)), (''identity_source'', kstr (cf_IdentitySource c)),
            (''hardware_source'', kstr (cf_HardwareSource c)),
            (''models'', if cf_Models c = [] then JNull else JArr (map model_json (cf_Models c)))] @
           if_some (cf_ExcludedModels c \<noteq> []) ''excluded_models'' (JArr (map excluded_json (cf_ExcludedModels c))))"

definition writeCatalog :: "catalog_file \<Rightarrow> string" where
  "writeCatalog c = indented 0 (catalog_json c) @ [CHR 0x0A]"

section \<open>Errors\<close>

datatype model_problem =
    IncompleteModel string string string
  | UnsupportedType string string
  | NoPorts string
  | BadPortIndex string int
  | DuplicatePortIndex string int
  | DuplicateIfName string string
  | UplinkCount string nat
  | NoRadios string
  | IncompleteRadio string catalog_radio
  | UnsupportedBand string string
  | BadRadioFacts string catalog_radio
  | DuplicateRadio string string

datatype gen_error =
    NoControllerVersion
  | BadDump json_error
  | ControllerSays string
  | IncompleteIdentity string string string
  | NotConnected string
  | SameModelTwice string
  | ModelMissing string
  | UnterminatedModel string
  | BadModelJSON string json_error
  | TypeMismatch string string string
  | BadLayout string string
  | BadModel model_problem
  | UnknownCapability string string "string list"
  | NoCapabilityBits string
  | StaleOverride string
  | CannotRead string
  | BadFile string json_error
  | NoBuildID
  | FetchFailed string
  | FlagsMissing string

section \<open>Validation\<close>

definition fill_ifname :: "catalog_port \<Rightarrow> catalog_port" where
  "fill_ifname p = (if cp_IfName p = [] then p\<lparr>cp_IfName := ''eth'' @ itoa (cp_PortIdx p - 1)\<rparr> else p)"

definition fill_port :: "catalog_port \<Rightarrow> catalog_port" where
  "fill_port p =
     (let p = fill_ifname p;
          p = (if cp_Name p = [] then p\<lparr>cp_Name := ''Port '' @ itoa (cp_PortIdx p)\<rparr> else p)
      in if cp_Media p = [] then p\<lparr>cp_Media := ''GE''\<rparr> else p)"

text \<open>The loop over the ports, with the indexes and interface names seen so far\<close>

fun check_ports :: "string \<Rightarrow> int list \<Rightarrow> string list \<Rightarrow> catalog_port list \<Rightarrow> model_problem + catalog_port list" where
  "check_ports m idxs names [] = Inr []"
| "check_ports m idxs names (p # ps) =
     (if cp_PortIdx p \<le> 0 then Inl (BadPortIndex m (cp_PortIdx p))
      else if cp_PortIdx p \<in> set idxs then Inl (DuplicatePortIndex m (cp_PortIdx p))
      else if cp_IfName (fill_ifname p) \<in> set names then Inl (DuplicateIfName m (cp_IfName (fill_ifname p)))
      else rbind (check_ports m (cp_PortIdx p # idxs) (cp_IfName (fill_ifname p) # names) ps) (\<lambda>r. Inr (fill_port p # r)))"

definition check_radio :: "string \<Rightarrow> catalog_radio \<Rightarrow> model_problem option" where
  "check_radio m r =
     (if ca_Name r = [] \<or> ca_Radio r = [] \<or> ca_HT r = [] then Some (IncompleteRadio m r)
      else if ca_Radio r \<notin> {''ng'', ''na'', ''6e''} then Some (UnsupportedBand m (ca_Radio r))
      else if ca_MinTxPower r \<le> 0 \<or> ca_MaxTxPower r < ca_MinTxPower r \<or> ca_NSS r \<le> 0 then Some (BadRadioFacts m r)
      else None)"

fun check_radios :: "string \<Rightarrow> string list \<Rightarrow> catalog_radio list \<Rightarrow> model_problem option" where
  "check_radios m names [] = None"
| "check_radios m names (r # rs) =
     (case check_radio m r of
        Some e \<Rightarrow> Some e
      | None \<Rightarrow>
          if ca_Name r \<in> set names then Some (DuplicateRadio m (ca_Name r))
          else check_radios m (ca_Name r # names) rs)"

text \<open>The validated model has the gaps of its ports filled in.\<close>

definition validateModel :: "catalog_model \<Rightarrow> model_problem + catalog_model" where
  "validateModel m =
     (let name = cm_Model m in
      if name = [] \<or> cm_ModelDisplay m = [] \<or> cm_Version m = [] then
        Inl (IncompleteModel name (cm_ModelDisplay m) (cm_Version m))
      else if cm_Type m \<notin> {''ugw'', ''usw'', ''uap'', ''uxg''} then Inl (UnsupportedType name (cm_Type m))
      else if cm_Ports m = [] then Inl (NoPorts name)
      else
        rbind (check_ports name [] [] (cm_Ports m)) (\<lambda>ports.
          (let uplinks = length (filter cp_IsUplink ports) in
           if uplinks \<noteq> 1 then Inl (UplinkCount name uplinks)
           else if cm_Type m = ''uap'' \<and> cm_Radios m = [] then Inl (NoRadios name)
           else
             (case check_radios name [] (cm_Radios m) of
                Some e \<Rightarrow> Inl e
              | None \<Rightarrow> Inr (m\<lparr>cm_Ports := ports\<rparr>)))))"

section \<open>The device list of a controller\<close>

record raw_device =
  rd_Model :: string
  rd_Type :: string
  rd_Name :: string
  rd_Version :: string
  rd_State :: int
  rd_Adopted :: bool
  rd_PortTable :: "catalog_port list"
  rd_RadioTable :: "catalog_radio list"
  rd_EthernetTable :: "int list"

record raw_envelope =
  re_RC :: string
  re_Msg :: string
  re_Data :: "raw_device list"

definition no_port :: catalog_port where
  "no_port = \<lparr>cp_IfName = [], cp_Name = [], cp_PortIdx = 0, cp_Media = [], cp_PoECaps = 0, cp_IsUplink = False\<rparr>"

definition no_radio :: catalog_radio where
  "no_radio = \<lparr>ca_Name = [], ca_Radio = [], ca_HT = [], ca_MinTxPower = 0, ca_MaxTxPower = 0, ca_NSS = 0,
     ca_RadioCaps = 0, ca_AntennaGain = 0\<rparr>"

definition no_device :: raw_device where
  "no_device = \<lparr>rd_Model = [], rd_Type = [], rd_Name = [], rd_Version = [], rd_State = 0, rd_Adopted = False,
     rd_PortTable = [], rd_RadioTable = [], rd_EthernetTable = []\<rparr>"

definition set_catalog_port :: "string \<Rightarrow> json \<Rightarrow> catalog_port \<Rightarrow> json_error + catalog_port" where
  "set_catalog_port f v p =
     (if f = ''ifname'' then rbind (dec_string f (cp_IfName p) v) (\<lambda>x. Inr (p\<lparr>cp_IfName := x\<rparr>))
      else if f = ''name'' then rbind (dec_string f (cp_Name p) v) (\<lambda>x. Inr (p\<lparr>cp_Name := x\<rparr>))
      else if f = ''port_idx'' then rbind (dec_int f (cp_PortIdx p) v) (\<lambda>x. Inr (p\<lparr>cp_PortIdx := x\<rparr>))
      else if f = ''media'' then rbind (dec_string f (cp_Media p) v) (\<lambda>x. Inr (p\<lparr>cp_Media := x\<rparr>))
      else if f = ''poe_caps'' then rbind (dec_int f (cp_PoECaps p) v) (\<lambda>x. Inr (p\<lparr>cp_PoECaps := x\<rparr>))
      else rbind (dec_bool f (cp_IsUplink p) v) (\<lambda>x. Inr (p\<lparr>cp_IsUplink := x\<rparr>)))"

definition dec_catalog_port :: "catalog_port \<Rightarrow> json \<Rightarrow> json_error + catalog_port" where
  "dec_catalog_port p v =
     dec_struct False [''ifname'', ''name'', ''port_idx'', ''media'', ''poe_caps'', ''is_uplink''] set_catalog_port v p"

definition set_catalog_radio :: "string \<Rightarrow> json \<Rightarrow> catalog_radio \<Rightarrow> json_error + catalog_radio" where
  "set_catalog_radio f v r =
     (if f = ''name'' then rbind (dec_string f (ca_Name r) v) (\<lambda>x. Inr (r\<lparr>ca_Name := x\<rparr>))
      else if f = ''radio'' then rbind (dec_string f (ca_Radio r) v) (\<lambda>x. Inr (r\<lparr>ca_Radio := x\<rparr>))
      else if f = ''ht'' then rbind (dec_string f (ca_HT r) v) (\<lambda>x. Inr (r\<lparr>ca_HT := x\<rparr>))
      else if f = ''min_txpower'' then rbind (dec_int f (ca_MinTxPower r) v) (\<lambda>x. Inr (r\<lparr>ca_MinTxPower := x\<rparr>))
      else if f = ''max_txpower'' then rbind (dec_int f (ca_MaxTxPower r) v) (\<lambda>x. Inr (r\<lparr>ca_MaxTxPower := x\<rparr>))
      else if f = ''nss'' then rbind (dec_int f (ca_NSS r) v) (\<lambda>x. Inr (r\<lparr>ca_NSS := x\<rparr>))
      else if f = ''radio_caps'' then rbind (dec_int f (ca_RadioCaps r) v) (\<lambda>x. Inr (r\<lparr>ca_RadioCaps := x\<rparr>))
      else rbind (dec_int f (ca_AntennaGain r) v) (\<lambda>x. Inr (r\<lparr>ca_AntennaGain := x\<rparr>)))"

definition dec_catalog_radio :: "catalog_radio \<Rightarrow> json \<Rightarrow> json_error + catalog_radio" where
  "dec_catalog_radio r v =
     dec_struct False [''name'', ''radio'', ''ht'', ''min_txpower'', ''max_txpower'', ''nss'', ''radio_caps'', ''antenna_gain'']
       set_catalog_radio v r"

definition dec_num_port :: "int \<Rightarrow> json \<Rightarrow> json_error + int" where
  "dec_num_port n v = dec_struct False [''num_port''] (\<lambda>f v n. dec_int f n v) v n"

definition set_raw_device :: "string \<Rightarrow> json \<Rightarrow> raw_device \<Rightarrow> json_error + raw_device" where
  "set_raw_device f v d =
     (if f = ''model'' then rbind (dec_string f (rd_Model d) v) (\<lambda>x. Inr (d\<lparr>rd_Model := x\<rparr>))
      else if f = ''type'' then rbind (dec_string f (rd_Type d) v) (\<lambda>x. Inr (d\<lparr>rd_Type := x\<rparr>))
      else if f = ''name'' then rbind (dec_string f (rd_Name d) v) (\<lambda>x. Inr (d\<lparr>rd_Name := x\<rparr>))
      else if f = ''version'' then rbind (dec_string f (rd_Version d) v) (\<lambda>x. Inr (d\<lparr>rd_Version := x\<rparr>))
      else if f = ''state'' then rbind (dec_int f (rd_State d) v) (\<lambda>x. Inr (d\<lparr>rd_State := x\<rparr>))
      else if f = ''adopted'' then rbind (dec_bool f (rd_Adopted d) v) (\<lambda>x. Inr (d\<lparr>rd_Adopted := x\<rparr>))
      else if f = ''port_table'' then
        rbind (dec_list f dec_catalog_port no_port (rd_PortTable d) v) (\<lambda>x. Inr (d\<lparr>rd_PortTable := x\<rparr>))
      else if f = ''radio_table'' then
        rbind (dec_list f dec_catalog_radio no_radio (rd_RadioTable d) v) (\<lambda>x. Inr (d\<lparr>rd_RadioTable := x\<rparr>))
      else rbind (dec_list f dec_num_port 0 (rd_EthernetTable d) v) (\<lambda>x. Inr (d\<lparr>rd_EthernetTable := x\<rparr>)))"

definition dec_raw_device :: "raw_device \<Rightarrow> json \<Rightarrow> json_error + raw_device" where
  "dec_raw_device d v =
     dec_struct False [''model'', ''type'', ''name'', ''version'', ''state'', ''adopted'', ''port_table'', ''radio_table'',
       ''ethernet_table''] set_raw_device v d"

definition set_meta :: "string \<Rightarrow> json \<Rightarrow> raw_envelope \<Rightarrow> json_error + raw_envelope" where
  "set_meta f v e =
     (if f = ''rc'' then rbind (dec_string f (re_RC e) v) (\<lambda>x. Inr (e\<lparr>re_RC := x\<rparr>))
      else rbind (dec_string f (re_Msg e) v) (\<lambda>x. Inr (e\<lparr>re_Msg := x\<rparr>)))"

definition set_envelope :: "string \<Rightarrow> json \<Rightarrow> raw_envelope \<Rightarrow> json_error + raw_envelope" where
  "set_envelope f v e =
     (if f = ''meta'' then dec_struct False [''rc'', ''msg''] set_meta v e
      else rbind (dec_list f dec_raw_device no_device (re_Data e) v) (\<lambda>x. Inr (e\<lparr>re_Data := x\<rparr>)))"

text \<open>The dump, unless the controller says it failed\<close>

definition decode_dump :: "string \<Rightarrow> gen_error + raw_device list" where
  "decode_dump body =
     (case decode_struct [''meta'', ''data''] set_envelope body \<lparr>re_RC = [], re_Msg = [], re_Data = []\<rparr> of
        Inl e \<Rightarrow> Inl (BadDump e)
      | Inr raw \<Rightarrow> if re_RC raw \<noteq> [] \<and> re_RC raw \<noteq> ''ok'' then Inl (ControllerSays (re_Msg raw)) else Inr (re_Data raw))"

section \<open>Reducing a fleet\<close>

text \<open>The name, unless there is none or it is the device's hardware address\<close>

definition displayName :: "raw_device \<Rightarrow> string" where
  "displayName d =
     (if rd_Name d \<noteq> [] \<and> (case parse_mac (rd_Name d) of None \<Rightarrow> True | Some hw \<Rightarrow> length hw \<noteq> 6) then rd_Name d
      else rd_Model d)"

definition reduced_model :: "raw_device \<Rightarrow> catalog_model" where
  "reduced_model d =
     (let ports =
        (if rd_PortTable d = [] \<and> rd_EthernetTable d \<noteq> [] then
           map (\<lambda>i. no_port\<lparr>cp_IfName := ''eth'' @ itoa (i - 1), cp_Name := ''Port '' @ itoa i, cp_PortIdx := i,
                      cp_Media := ''GE'', cp_IsUplink := (i = 1)\<rparr>) [1..hd (rd_EthernetTable d)]
         else rd_PortTable d)
      in \<lparr>cm_Model = rd_Model d, cm_ModelDisplay = displayName d, cm_Type = rd_Type d, cm_Version = rd_Version d,
          cm_UDAPIVersion = [], cm_UDAPICaps = 0, cm_FWCaps = 0, cm_Ports = ports, cm_Radios = rd_RadioTable d\<rparr>)"

definition sort_ports :: "catalog_model \<Rightarrow> catalog_model" where
  "sort_ports m = m\<lparr>cm_Ports := sort_key cp_PortIdx (cm_Ports m)\<rparr>"

fun reduce_devices :: "string list \<Rightarrow> raw_device list \<Rightarrow> gen_error + catalog_model list" where
  "reduce_devices seen [] = Inr []"
| "reduce_devices seen (d # ds) =
     (if rd_Model d = [] \<or> rd_Type d = [] \<or> rd_Version d = [] then
        Inl (IncompleteIdentity (rd_Model d) (rd_Type d) (rd_Version d))
      else if rd_State d \<noteq> 1 \<or> \<not> rd_Adopted d then Inl (NotConnected (rd_Model d))
      else if rd_Model d \<in> set seen then Inl (SameModelTwice (rd_Model d))
      else
        (case validateModel (reduced_model d) of
           Inl e \<Rightarrow> Inl (BadModel e)
         | Inr m \<Rightarrow> rbind (reduce_devices (rd_Model d # seen) ds) (\<lambda>ms. Inr (sort_ports m # ms))))"

definition catalog_of :: "string \<Rightarrow> string \<Rightarrow> string \<Rightarrow> catalog_model list \<Rightarrow> catalog_file" where
  "catalog_of ver identity hardware ms =
     \<lparr>cf_ControllerVersion = ver, cf_IdentitySource = identity, cf_HardwareSource = hardware,
      cf_Models = sort_key cm_Model ms, cf_ExcludedModels = []\<rparr>"

definition reduce :: "string \<Rightarrow> string \<Rightarrow> gen_error + catalog_file" where
  "reduce body controllerVersion =
     (if trim_space controllerVersion = [] then Inl NoControllerVersion
      else
        rbind (decode_dump body) (\<lambda>ds.
        rbind (reduce_devices [] ds) (\<lambda>ms.
          Inr (catalog_of controllerVersion ''GET /api/s/default/stat/device'' ''adopted stat/device port_table and radio_table'' ms))))"

end
