(* ===== verification/Gen_Bundle.thy ===== *)
theory Gen_Bundle
  imports Gen_Catalog
begin

text \<open>
  The hardware database of a controller bundle (\<^verbatim>\<open>cmd/modelgen/main.go\<close>): finding a model's object in
  the JavaScript text, and deriving its ports and radios. The entries of a map are a list in the order
  the code's range visits them.
\<close>

section \<open>Model keys\<close>

definition key_char :: "char \<Rightarrow> bool" where
  "key_char c \<longleftrightarrow> is_upper c \<or> is_digit c \<or> c = CHR ''-''"

text \<open>\<^verbatim>\<open>\s\<close> of a regular expression\<close>

definition regex_space :: "char \<Rightarrow> bool" where
  "regex_space c \<longleftrightarrow> code c \<in> {9, 10, 12, 13, 32}"

text \<open>\<^verbatim>\<open>modelKeyPattern\<close> at the front of a text: the key and what follows the match\<close>

definition model_key_at :: "string \<Rightarrow> (string \<times> string) option" where
  "model_key_at s =
     (case s of
        [] \<Rightarrow> None
      | q # t \<Rightarrow>
          (let key = takeWhile key_char t in
           if q = quote_mark \<and> 3 \<le> length key \<and> length key \<le> 13 \<and> hd key \<noteq> CHR ''-'' then
             (case dropWhile key_char t of
                [] \<Rightarrow> None
              | q' # u \<Rightarrow>
                  if q' \<noteq> quote_mark then None
                  else
                    (case dropWhile regex_space u of
                       [] \<Rightarrow> None
                     | c # w \<Rightarrow>
                         if c \<noteq> CHR '':'' then None
                         else
                           (case dropWhile regex_space w of
                              [] \<Rightarrow> None
                            | b # x \<Rightarrow> if b = CHR ''{'' then Some (key, x) else None)))
           else None))"

lemma dropWhile_shorter: "dropWhile P s = c # t \<Longrightarrow> length t < length s"
  using length_dropWhile_le [of P s] by simp

lemma model_key_at_shorter: "model_key_at s = Some (key, r) \<Longrightarrow> length r < length s"
  by (auto simp: model_key_at_def Let_def split: list.splits if_splits dest!: dropWhile_shorter)

text \<open>\<^verbatim>\<open>FindAllSubmatch\<close>: the matches from left to right, none overlapping\<close>

function key_matches :: "string \<Rightarrow> string list" where
  "key_matches s =
     (case s of
        [] \<Rightarrow> []
      | c # t \<Rightarrow>
          (case model_key_at s of
             Some (key, r) \<Rightarrow> (if length r < length s then key # key_matches r else [])
           | None \<Rightarrow> key_matches t))"
  by pat_completeness auto
termination
  by (relation "measure length") auto

declare key_matches.simps [simp del]

section \<open>A model's object\<close>

text \<open>The object behind a key: the text from its brace on, if a colon and a brace follow\<close>

definition object_after :: "string \<Rightarrow> string option" where
  "object_after s =
     (case dropWhile is_ws s of
        [] \<Rightarrow> None
      | c # t \<Rightarrow>
          if c \<noteq> CHR '':'' then None
          else (case dropWhile is_ws t of [] \<Rightarrow> None | b # u \<Rightarrow> if b = CHR ''{'' then Some (b # u) else None))"

text \<open>Where the search goes on after a key that opens no object\<close>

definition search_from :: "string \<Rightarrow> string" where
  "search_from s =
     (case dropWhile is_ws s of
        [] \<Rightarrow> []
      | c # t \<Rightarrow> if c = CHR '':'' then dropWhile is_ws t else c # t)"

lemma find_after_shorter: "find_after p s = Some r \<Longrightarrow> p \<noteq> [] \<Longrightarrow> length r < length s"
proof (induction p s rule: find_after.induct)
  case (2 p c s)
  have "length q < length (c # s)" if "c # s = p @ q" for q
  proof -
    have "length p + length q = length (c # s)" by (simp only: that length_append)
    moreover have "0 < length p" using "2.prems"(2) by simp
    ultimately show ?thesis by linarith
  qed
  note shorter = this
  show ?case
  proof (cases "strip_prefix p (c # s)")
    case None
    then show ?thesis using 2 by (simp add: less_SucI)
  next
    case (Some q)
    then have "c # s = p @ q" by (simp add: strip_prefix_Some)
    moreover have "q = r" using "2.prems"(1) unfolding find_after.simps Some option.case by simp
    ultimately show ?thesis using shorter [of r] by blast
  qed
qed simp

lemma search_from_shorter: "length (search_from s) \<le> length s"
proof (cases "dropWhile is_ws s")
  case Nil
  then show ?thesis unfolding search_from_def Nil by simp
next
  case (Cons c t)
  have "length (dropWhile is_ws t) \<le> length t" by (rule length_dropWhile_le)
  then show ?thesis using dropWhile_shorter [OF Cons] Cons by (simp add: search_from_def)
qed

function find_object :: "string \<Rightarrow> string \<Rightarrow> string option" where
  "find_object key s =
     (if key = [] then None
      else
        (case find_after key s of
           None \<Rightarrow> None
         | Some r \<Rightarrow> (case object_after r of Some obj \<Rightarrow> Some obj | None \<Rightarrow> find_object key (search_from r))))"
  by pat_completeness auto
termination
  by (relation "measure (\<lambda>(key, s). length s)")
     (auto dest: find_after_shorter intro: le_less_trans [OF search_from_shorter])

declare find_object.simps [simp del]

text \<open>
  The scan to the closing brace, over the depth, whether it is inside a string, and whether the last
  character there was a backslash
\<close>

fun scan_object :: "nat \<Rightarrow> bool \<Rightarrow> bool \<Rightarrow> string \<Rightarrow> string option" where
  "scan_object depth inString escaped [] = None"
| "scan_object depth inString escaped (c # s) =
     (if inString \<and> escaped then map_option ((#) c) (scan_object depth True False s)
      else if inString \<and> c = backslash then map_option ((#) c) (scan_object depth True True s)
      else if inString \<and> c = quote_mark then map_option ((#) c) (scan_object depth False False s)
      else if inString then map_option ((#) c) (scan_object depth True False s)
      else if c = quote_mark then map_option ((#) c) (scan_object depth True False s)
      else if c = CHR ''{'' then map_option ((#) c) (scan_object (Suc depth) False False s)
      else if c = CHR ''}'' then
        (if depth = 1 then Some [c] else map_option ((#) c) (scan_object (depth - 1) False False s))
      else map_option ((#) c) (scan_object depth False False s))"

text \<open>\<^verbatim>\<open>strconv.Quote\<close>; what lies outside ASCII is taken as printable text.\<close>

definition quote_char :: "char \<Rightarrow> string" where
  "quote_char c =
     (if c = quote_mark \<or> c = backslash then [backslash, c]
      else if code c = 7 then backslash # ''a''
      else if code c = 8 then backslash # ''b''
      else if code c = 12 then backslash # ''f''
      else if code c = 10 then backslash # ''n''
      else if code c = 13 then backslash # ''r''
      else if code c = 9 then backslash # ''t''
      else if code c = 11 then backslash # ''v''
      else if code c < 32 \<or> code c = 127 then backslash # CHR ''x'' # [hex_char (code c div 16), hex_char (code c mod 16)]
      else [c])"

definition quoted :: "string \<Rightarrow> string" where
  "quoted model = quote_mark # concat (map quote_char model) @ [quote_mark]"

definition extractModelJSON :: "string \<Rightarrow> string \<Rightarrow> gen_error + string" where
  "extractModelJSON bundle model =
     (case find_object (quoted model) bundle of
        None \<Rightarrow> Inl (ModelMissing model)
      | Some obj \<Rightarrow>
          (case scan_object 0 False False obj of
             None \<Rightarrow> Inl (UnterminatedModel model)
           | Some s \<Rightarrow> Inr s))"

section \<open>Keys with a type\<close>

definition dec_probe :: "string \<Rightarrow> json_error + string" where
  "dec_probe obj = unmarshal_struct [''type''] (\<lambda>f v t. dec_string f t v) obj []"

definition is_model_key :: "string \<Rightarrow> string \<Rightarrow> bool" where
  "is_model_key bundle key =
     (case extractModelJSON bundle key of
        Inl _ \<Rightarrow> False
      | Inr obj \<Rightarrow> (case dec_probe obj of Inl _ \<Rightarrow> False | Inr t \<Rightarrow> t \<noteq> []))"

text \<open>A key is looked at again as long as it has not been taken.\<close>

fun take_keys :: "string \<Rightarrow> string list \<Rightarrow> string list \<Rightarrow> string list" where
  "take_keys bundle seen [] = []"
| "take_keys bundle seen (key # keys) =
     (if key \<in> set seen then take_keys bundle seen keys
      else if is_model_key bundle key then key # take_keys bundle (key # seen) keys
      else take_keys bundle seen keys)"

definition allModelKeys :: "string \<Rightarrow> string list" where
  "allModelKeys bundle = sort (take_keys bundle [] (key_matches bundle))"

section \<open>The metadata of a model\<close>

record radio_facts =
  rf_MaxPower :: int
  rf_Gain :: int

record link_facts =
  lf_PortIdx :: int
  lf_SupportedValues :: "string list"

record device_db_model =
  dm_Type :: string
  dm_SysID :: string
  dm_Adoptability :: string
  dm_Ports :: "(string \<times> json) list"
  dm_Radios :: "(string \<times> radio_facts) list"
  dm_PoE :: bool
  dm_LinkNegotiation :: "(string \<times> link_facts) list"

definition no_link :: link_facts where
  "no_link = \<lparr>lf_PortIdx = 0, lf_SupportedValues = []\<rparr>"

definition no_meta :: device_db_model where
  "no_meta = \<lparr>dm_Type = [], dm_SysID = [], dm_Adoptability = [], dm_Ports = [], dm_Radios = [], dm_PoE = False,
     dm_LinkNegotiation = []\<rparr>"

definition dec_radio_facts :: "radio_facts \<Rightarrow> json \<Rightarrow> json_error + radio_facts" where
  "dec_radio_facts r v =
     dec_struct False [''maxPower'', ''gain'']
       (\<lambda>f v r. if f = ''maxPower'' then rbind (dec_int f (rf_MaxPower r) v) (\<lambda>x. Inr (r\<lparr>rf_MaxPower := x\<rparr>))
                else rbind (dec_int f (rf_Gain r) v) (\<lambda>x. Inr (r\<lparr>rf_Gain := x\<rparr>))) v r"

definition dec_link_facts :: "link_facts \<Rightarrow> json \<Rightarrow> json_error + link_facts" where
  "dec_link_facts l v =
     dec_struct False [''portIdx'', ''supportedValues'']
       (\<lambda>f v l. if f = ''portIdx'' then rbind (dec_int f (lf_PortIdx l) v) (\<lambda>x. Inr (l\<lparr>lf_PortIdx := x\<rparr>))
                else rbind (dec_list f (dec_string f) [] (lf_SupportedValues l) v) (\<lambda>x. Inr (l\<lparr>lf_SupportedValues := x\<rparr>))) v l"

definition set_meta_field :: "string \<Rightarrow> json \<Rightarrow> device_db_model \<Rightarrow> json_error + device_db_model" where
  "set_meta_field f v d =
     (if f = ''type'' then rbind (dec_string f (dm_Type d) v) (\<lambda>x. Inr (d\<lparr>dm_Type := x\<rparr>))
      else if f = ''systemIdHexadecimal'' then rbind (dec_string f (dm_SysID d) v) (\<lambda>x. Inr (d\<lparr>dm_SysID := x\<rparr>))
      else if f = ''adoptability'' then rbind (dec_string f (dm_Adoptability d) v) (\<lambda>x. Inr (d\<lparr>dm_Adoptability := x\<rparr>))
      else if f = ''ports'' then rbind (dec_map f dec_raw JNull (dm_Ports d) v) (\<lambda>x. Inr (d\<lparr>dm_Ports := x\<rparr>))
      else if f = ''radios'' then
        rbind (dec_map f dec_radio_facts \<lparr>rf_MaxPower = 0, rf_Gain = 0\<rparr> (dm_Radios d) v) (\<lambda>x. Inr (d\<lparr>dm_Radios := x\<rparr>))
      else if f = ''features'' then
        rbind (dec_struct False [''poe''] (\<lambda>f v b. dec_bool f b v) v (dm_PoE d)) (\<lambda>x. Inr (d\<lparr>dm_PoE := x\<rparr>))
      else rbind (dec_map f dec_link_facts no_link (dm_LinkNegotiation d) v) (\<lambda>x. Inr (d\<lparr>dm_LinkNegotiation := x\<rparr>)))"

definition decode_meta :: "string \<Rightarrow> json_error + device_db_model" where
  "decode_meta obj =
     unmarshal_struct [''type'', ''systemIdHexadecimal'', ''adoptability'', ''ports'', ''radios'', ''features'', ''linkNegotiation'']
       set_meta_field obj no_meta"

section \<open>Ports and radios\<close>

text \<open>The fastest rate named\<close>

definition best_rate :: "string list \<Rightarrow> int" where
  "best_rate supported =
     fold (\<lambda>tok best. case atoi tok of Some n \<Rightarrow> max best n | None \<Rightarrow> best) (concat (map split_fields supported)) 0"

definition negotiatedMedia :: "string list \<Rightarrow> string" where
  "negotiatedMedia supported =
     (let best = best_rate supported in
      if best \<ge> 10000 then ''10GbE'' else if best \<ge> 2500 then ''2.5GbE'' else ''GE'')"

text \<open>One entry of a gateway's port map: skipped, a port, or no port index\<close>

definition gateway_port :: "(string \<times> link_facts) list \<Rightarrow> string \<times> json \<Rightarrow> string + catalog_port option" where
  "gateway_port links kv =
     (case kv of (ifName, rawName) \<Rightarrow>
        (case dec_string [] [] rawName of
           Inl _ \<Rightarrow> Inr None
         | Inr name \<Rightarrow>
             (case strip_prefix ''eth'' ifName of
                None \<Rightarrow> Inr None
              | Some digits \<Rightarrow>
                  (let neg = (case map_of links ifName of Some l \<Rightarrow> l | None \<Rightarrow> no_link);
                       port = (\<lambda>idx. \<lparr>cp_IfName = ifName, cp_Name = name, cp_PortIdx = idx,
                                       cp_Media = negotiatedMedia (lf_SupportedValues neg), cp_PoECaps = 0,
                                       cp_IsUplink = (idx = 1)\<rparr>)
                   in if lf_PortIdx neg \<noteq> 0 then Inr (Some (port (lf_PortIdx neg)))
                      else (case atoi digits of
                              None \<Rightarrow> Inl ifName
                            | Some n \<Rightarrow> Inr (Some (port (wrap64 (n + 1)))))))))"

definition gatewayPorts :: "device_db_model \<Rightarrow> string + catalog_port list" where
  "gatewayPorts meta =
     (if dm_Ports meta = [] then Inl ''gateway has no ports''
      else
        rbind (rmap (gateway_port (dm_LinkNegotiation meta)) (dm_Ports meta)) (\<lambda>ports.
          if List.map_filter id ports = [] then Inl ''gateway has no ethernet ports''
          else Inr (sort_key cp_PortIdx (List.map_filter id ports))))"

text \<open>A count, a list of indexes, or a text of ranges\<close>

definition expand_range :: "string \<Rightarrow> string + int list" where
  "expand_range part =
     (let part = trim_space part;
          (loText, hiText, hasRange) = cut_at CHR ''-'' part in
      case atoi loText of
        None \<Rightarrow> Inl part
      | Some lo \<Rightarrow>
          if lo \<le> 0 then Inl part
          else if \<not> hasRange then Inr [lo]
          else (case atoi hiText of None \<Rightarrow> Inl part | Some hi \<Rightarrow> if hi < lo then Inl part else Inr [lo..hi]))"

definition expandPortIndexes :: "json \<Rightarrow> string + int list" where
  "expandPortIndexes raw =
     (case dec_int [] 0 raw of
        Inr count \<Rightarrow> if count \<le> 0 then Inl ''invalid count'' else Inr [1..count]
      | Inl _ \<Rightarrow>
          (case dec_list [] (dec_int []) 0 [] raw of
             Inr indexes \<Rightarrow>
               if indexes = [] then Inl ''empty index list''
               else if \<exists>i \<in> set indexes. i \<le> 0 then Inl ''invalid index''
               else Inr indexes
           | Inl _ \<Rightarrow>
               (case dec_string [] [] raw of
                  Inl _ \<Rightarrow> Inl ''unsupported port encoding''
                | Inr ranges \<Rightarrow> rbind (rmap expand_range (split_on CHR '','' ranges)) (\<lambda>ls. Inr (concat ls)))))"

definition port_categories :: "(string \<times> string) list" where
  "port_categories =
     [(''standard'', ''GE''), (''sfp'', ''SFP''), (''plus'', ''SFP+''), (''sfp28'', ''SFP28''), (''qsfp28'', ''QSFP28'')]"

definition category_media :: "string \<Rightarrow> string \<times> string \<Rightarrow> string" where
  "category_media model category =
     (if model = ''USM8P'' \<and> fst category = ''plus'' then ''GE'' else snd category)"

text \<open>The media of every index, the later category winning\<close>

definition add_category ::
  "string \<Rightarrow> device_db_model \<Rightarrow> string \<times> string \<Rightarrow> (int \<times> string) list \<Rightarrow> string + (int \<times> string) list"
where
  "add_category model meta category media =
     (case map_of (dm_Ports meta) (fst category) of
        None \<Rightarrow> Inr media
      | Some raw \<Rightarrow>
          rbind (expandPortIndexes raw) (\<lambda>indexes.
            Inr (fold (\<lambda>idx. AList.update idx (category_media model category)) indexes media)))"

definition switch_port :: "bool \<Rightarrow> (int \<times> string) list \<Rightarrow> int \<Rightarrow> catalog_port" where
  "switch_port poe media idx =
     (let m = (case map_of media idx of Some m \<Rightarrow> m | None \<Rightarrow> []) in
      \<lparr>cp_IfName = ''eth'' @ itoa (idx - 1), cp_Name = ''Port '' @ itoa idx, cp_PortIdx = idx, cp_Media = m,
       cp_PoECaps = (if poe \<and> m = ''GE'' then 7 else 0), cp_IsUplink = (idx = 1)\<rparr>)"

definition switchMetadataPorts :: "string \<Rightarrow> device_db_model \<Rightarrow> string + catalog_port list" where
  "switchMetadataPorts model meta =
     rbind (rfold (add_category model meta) port_categories []) (\<lambda>media.
       if media = [] then Inl ''switch has no recognized ports''
       else Inr (map (switch_port (dm_PoE meta) media) (sort (map fst media))))"

definition eth_port :: "string \<Rightarrow> int \<Rightarrow> catalog_port" where
  "eth_port media i =
     \<lparr>cp_IfName = ''eth'' @ itoa (i - 1), cp_Name = ''eth'' @ itoa (i - 1), cp_PortIdx = i, cp_Media = media,
      cp_PoECaps = 0, cp_IsUplink = (i = 1)\<rparr>"

definition accessPointPorts :: "string \<Rightarrow> catalog_port list" where
  "accessPointPorts model =
     map (eth_port (if model = ''U7PRO'' \<or> model = ''UAPA6B0'' then ''2.5GbE'' else ''GE''))
       [1..(if model = ''U7MP'' then 2 else 1)]"

definition band_order :: "string \<Rightarrow> int" where
  "band_order band = (if band = ''na'' then 1 else if band = ''6e'' then 2 else 0)"

definition band_radio :: "string \<Rightarrow> string \<times> radio_facts \<Rightarrow> catalog_radio" where
  "band_radio model bf =
     \<lparr>ca_Name = ''wifi-'' @ fst bf, ca_Radio = fst bf,
      ca_HT = (if fst bf = ''ng'' then ''20'' else if fst bf = ''6e'' then ''80'' else ''40''),
      ca_MinTxPower = 5, ca_MaxTxPower = rf_MaxPower (snd bf), ca_NSS = (if model = ''U7MP'' then 3 else 2),
      ca_RadioCaps = 0, ca_AntennaGain = rf_Gain (snd bf)\<rparr>"

definition metadataRadios :: "string \<Rightarrow> device_db_model \<Rightarrow> catalog_radio list" where
  "metadataRadios model meta = sort_key (\<lambda>r. band_order (ca_Radio r)) (map (band_radio model) (dm_Radios meta))"

definition deriveLayout :: "catalog_model \<Rightarrow> device_db_model \<Rightarrow> string + catalog_model" where
  "deriveLayout m meta =
     (if cm_Type m = ''ugw'' \<or> cm_Type m = ''uxg'' then
        rbind (gatewayPorts meta) (\<lambda>ps. Inr (m\<lparr>cm_Ports := ps\<rparr>))
      else if cm_Type m = ''usw'' then
        rbind (switchMetadataPorts (cm_Model m) meta) (\<lambda>ps. Inr (m\<lparr>cm_Ports := ps\<rparr>))
      else if cm_Type m = ''uap'' then
        Inr (m\<lparr>cm_Ports := accessPointPorts (cm_Model m), cm_Radios := metadataRadios (cm_Model m) meta\<rparr>)
      else Inl ''unsupported type'')"

section \<open>Reducing a fleet with the database\<close>

text \<open>\<open>order\<close> puts the maps of a model's metadata into the order the range visits them.\<close>

definition bare_model :: "string \<Rightarrow> string \<Rightarrow> string \<Rightarrow> string \<Rightarrow> catalog_model" where
  "bare_model model display typ version =
     \<lparr>cm_Model = model, cm_ModelDisplay = display, cm_Type = typ, cm_Version = version, cm_UDAPIVersion = [],
      cm_UDAPICaps = 0, cm_FWCaps = 0, cm_Ports = [], cm_Radios = []\<rparr>"

text \<open>The layout as \<^verbatim>\<open>reduceDeviceDatabase\<close> derives it: gateways of type \<^verbatim>\<open>uxg\<close> are not supported there.\<close>

definition database_layout :: "catalog_model \<Rightarrow> device_db_model \<Rightarrow> string + catalog_model" where
  "database_layout m meta = (if cm_Type m = ''uxg'' then Inl ''unsupported type'' else deriveLayout m meta)"

definition database_model ::
  "(string \<Rightarrow> device_db_model \<Rightarrow> device_db_model) \<Rightarrow> string \<Rightarrow> raw_device \<Rightarrow> gen_error + catalog_model"
where
  "database_model order bundle d =
     rbind (extractModelJSON bundle (rd_Model d)) (\<lambda>obj.
       case decode_meta obj of
         Inl e \<Rightarrow> Inl (BadModelJSON (rd_Model d) e)
       | Inr meta \<Rightarrow>
           if dm_Type meta \<noteq> rd_Type d then Inl (TypeMismatch (rd_Model d) (rd_Type d) (dm_Type meta))
           else
             (case database_layout (bare_model (rd_Model d) (displayName d) (rd_Type d) (rd_Version d)) (order (rd_Model d) meta) of
                Inl e \<Rightarrow> Inl (BadLayout (rd_Model d) e)
              | Inr m \<Rightarrow> (case validateModel m of Inl e \<Rightarrow> Inl (BadModel e) | Inr m \<Rightarrow> Inr m)))"

fun database_devices ::
  "(string \<Rightarrow> device_db_model \<Rightarrow> device_db_model) \<Rightarrow> string \<Rightarrow> string list \<Rightarrow> raw_device list \<Rightarrow> gen_error + catalog_model list"
where
  "database_devices order bundle seen [] = Inr []"
| "database_devices order bundle seen (d # ds) =
     (if rd_Model d = [] \<or> rd_Type d = [] \<or> rd_Version d = [] then
        Inl (IncompleteIdentity (rd_Model d) (rd_Type d) (rd_Version d))
      else if rd_Model d \<in> set seen then Inl (SameModelTwice (rd_Model d))
      else
        rbind (database_model order bundle d) (\<lambda>m.
        rbind (database_devices order bundle (rd_Model d # seen) ds) (\<lambda>ms. Inr (m # ms))))"

definition reduceDeviceDatabase ::
  "(string \<Rightarrow> device_db_model \<Rightarrow> device_db_model) \<Rightarrow> string \<Rightarrow> string \<Rightarrow> string \<Rightarrow> gen_error + catalog_file"
where
  "reduceDeviceDatabase order identity bundle controllerVersion =
     (if trim_space controllerVersion = [] then Inl NoControllerVersion
      else
        rbind (decode_dump identity) (\<lambda>ds.
        rbind (database_devices order bundle [] ds) (\<lambda>ms.
          Inr (catalog_of controllerVersion ''GET /api/s/default/stat/device'' ''controller UI device database bundle'' ms))))"

end
