(* ===== verification/Gen_Sources.thy ===== *)
theory Gen_Sources
  imports Gen_Bundle
begin

text \<open>
  What the model generator reads beside the bundle: capability bits (\<^verbatim>\<open>caps.go\<close>), exclusions
  (\<^verbatim>\<open>exclusions.go\<close>), firmware versions (\<^verbatim>\<open>firmware.go\<close>), overrides (\<^verbatim>\<open>overrides.go\<close>) and the values of
  Tech Specs (\<^verbatim>\<open>techspecs.go\<close>), all of \<^verbatim>\<open>cmd/modelgen\<close>.
\<close>

unbundle bit_operations_syntax

section \<open>Capability bits\<close>

record cap_bitmap =
  cb_Field :: string
  cb_Bits :: "(string \<times> int) list"

record caps_file =
  cs_ControllerVersion :: string
  cs_Bitmaps :: "(string \<times> cap_bitmap) list"

definition no_bitmap :: cap_bitmap where
  "no_bitmap = \<lparr>cb_Field = [], cb_Bits = []\<rparr>"

definition dec_bitmap :: "cap_bitmap \<Rightarrow> json \<Rightarrow> json_error + cap_bitmap" where
  "dec_bitmap b v =
     dec_struct False [''field'', ''bits'']
       (\<lambda>f v b. if f = ''field'' then rbind (dec_string f (cb_Field b) v) (\<lambda>x. Inr (b\<lparr>cb_Field := x\<rparr>))
                else rbind (dec_map f (dec_int f) 0 (cb_Bits b) v) (\<lambda>x. Inr (b\<lparr>cb_Bits := x\<rparr>))) v b"

definition set_caps_field :: "string \<Rightarrow> json \<Rightarrow> caps_file \<Rightarrow> json_error + caps_file" where
  "set_caps_field f v c =
     (if f = ''controller_version'' then
        rbind (dec_string f (cs_ControllerVersion c) v) (\<lambda>x. Inr (c\<lparr>cs_ControllerVersion := x\<rparr>))
      else rbind (dec_map f dec_bitmap no_bitmap (cs_Bitmaps c) v) (\<lambda>x. Inr (c\<lparr>cs_Bitmaps := x\<rparr>)))"

definition udapiFamily :: string where
  "udapiFamily = ''UNIFI_UDAPI_CAP''"

definition udapi_bits :: "caps_file \<Rightarrow> (string \<times> int) list" where
  "udapi_bits c = (case map_of (cs_Bitmaps c) udapiFamily of Some b \<Rightarrow> cb_Bits b | None \<Rightarrow> [])"

text \<open>\<open>readFile\<close> is the file system.\<close>

definition loadCaps :: "(string \<Rightarrow> string option) \<Rightarrow> string \<Rightarrow> gen_error + caps_file" where
  "loadCaps readFile path =
     (case readFile path of
        None \<Rightarrow> Inl (CannotRead path)
      | Some b \<Rightarrow>
          (case unmarshal_struct [''controller_version'', ''bitmaps''] set_caps_field b
                  \<lparr>cs_ControllerVersion = [], cs_Bitmaps = []\<rparr> of
             Inl e \<Rightarrow> Inl (BadFile path e)
           | Inr c \<Rightarrow> if udapi_bits c = [] then Inl (NoCapabilityBits path) else Inr c))"

definition sortedKeys :: "(string \<times> int) list \<Rightarrow> string list" where
  "sortedKeys m = sort (map fst m)"

fun or_bits :: "(string \<times> int) list \<Rightarrow> string list \<Rightarrow> int \<Rightarrow> string + int" where
  "or_bits bits [] acc = Inr acc"
| "or_bits bits (name # names) acc =
     (case map_of bits name of
        None \<Rightarrow> Inl name
      | Some v \<Rightarrow> or_bits bits names (acc OR v))"

definition udapiMask :: "caps_file \<Rightarrow> string \<Rightarrow> string list \<Rightarrow> gen_error + int" where
  "udapiMask c model names =
     (case or_bits (udapi_bits c) names 0 of
        Inl name \<Rightarrow> Inl (UnknownCapability model name (sortedKeys (udapi_bits c)))
      | Inr bitmap \<Rightarrow> Inr bitmap)"

section \<open>Exclusions\<close>

definition apostrophe :: char where
  "apostrophe = CHR 0x27"

definition unknown_code :: string where
  "unknown_code =
     ''no hardware reports this code: absent from Ubiquiti'' @ apostrophe # ''s fingerprint DB entirely, from bundles.json, and from the firmware index, so it has no friendly '' @
     ''name and only a per-type default version. Measured against sim controller 10.4.57: never listed, in '' @
     ''a batch or alone''"

definition dropped_ac :: string where
  "dropped_ac =
     ''UniFi AP-AC (real hardware, fingerprint sysids e920/e900) that sim controller 10.4.57 never lists. '' @
     ''Measured: no document in a batch, alone, or when reporting a plausible gen1 build (4.0.21.x) '' @
     ''instead of the catalog'' @ apostrophe # ''s default, while a U7PRO registered in the same boot -- so the controller rejects the model code, '' @
     ''and no version rescues it''"

definition dropped_ac_outdoor :: string where
  "dropped_ac_outdoor =
     ''UniFi AP-AC Outdoor (real hardware, fingerprint sysid e910) that sim controller 10.4.57 never '' @
     ''lists. Measured: no document in a batch, alone, or when reporting a plausible gen1 build (4.0.21.x) '' @
     ''instead of the catalog'' @ apostrophe # ''s default, while a U7PRO registered in the same boot -- so the controller rejects the model code, '' @
     ''and no version rescues it''"

definition cancelled_gateway :: string where
  "cancelled_gateway =
     ''no hardware reports this code. Ubiquiti'' @ apostrophe # ''s fingerprint DB files it as an alias on the USG product record with an empty sysids list, while '' @
     ''real USG hardware identifies as UGW3 (sysid ee21); it has no firmware bundle and no friendly name. '' @
     ''Measured against sim controller 10.4.57: it informs and is answered HTTP 404 like any pending '' @
     ''device, but the controller never creates a pending document for it -- alone or beside a device that '' @
     ''does appear -- and logs nothing about it, while UGW3 and UXGENT adopt to CONNECTED from the same '' @
     ''payload branch''"

definition excludedModels :: "(string \<times> string) list" where
  "excludedModels =
     [(''UAPA6BE'', unknown_code),
      (''UAPA6BF'', unknown_code),
      (''U7E'', dropped_ac),
      (''U7O'', dropped_ac_outdoor),
      (''UGWHD4'', cancelled_gateway)]"

definition excludedCatalogList :: "excluded_model list" where
  "excludedCatalogList = map (\<lambda>(m, r). \<lparr>ex_Model = m, ex_Reason = r\<rparr>) (sort_key fst excludedModels)"

definition staleExclusions :: "string list \<Rightarrow> string list" where
  "staleExclusions considered = sort (filter (\<lambda>m. m \<notin> set considered) (map fst excludedModels))"

section \<open>Firmware versions\<close>

type_synonym firmware_index = "(string \<times> string) list"

definition perTypeFirmwareDefault :: "(string \<times> string) list" where
  "perTypeFirmwareDefault =
     [(''ugw'', ''4.4.57.5578372''), (''uxg'', ''5.0.16.30689''), (''usw'', ''7.3.109.16640''), (''uap'', ''8.6.11.18870'')]"

record firmware_entry =
  fe_Platform :: string
  fe_Product :: string
  fe_Version :: string

definition dec_firmware :: "firmware_entry \<Rightarrow> json \<Rightarrow> json_error + firmware_entry" where
  "dec_firmware e v =
     dec_struct False [''platform'', ''product'', ''version'']
       (\<lambda>f v e. if f = ''platform'' then rbind (dec_string f (fe_Platform e) v) (\<lambda>x. Inr (e\<lparr>fe_Platform := x\<rparr>))
                else if f = ''product'' then rbind (dec_string f (fe_Product e) v) (\<lambda>x. Inr (e\<lparr>fe_Product := x\<rparr>))
                else rbind (dec_string f (fe_Version e) v) (\<lambda>x. Inr (e\<lparr>fe_Version := x\<rparr>))) v e"

definition set_embedded :: "string \<Rightarrow> json \<Rightarrow> firmware_entry list \<Rightarrow> json_error + firmware_entry list" where
  "set_embedded f v es =
     dec_struct False [''firmware'']
       (\<lambda>f v es. dec_list f dec_firmware \<lparr>fe_Platform = [], fe_Product = [], fe_Version = []\<rparr> es v) v es"

definition transformFirmwareVersion :: "string \<Rightarrow> string" where
  "transformFirmwareVersion v =
     (let s = (case strip_prefix ''v'' v of Some r \<Rightarrow> r | None \<Rightarrow> v) in
      case cut_at CHR ''+'' s of (a, b, ok) \<Rightarrow> if ok then a @ CHR ''.'' # b else s)"

definition index_firmware :: "firmware_entry list \<Rightarrow> firmware_index" where
  "index_firmware es =
     fold (\<lambda>e idx.
        if fe_Product e \<noteq> ''unifi-firmware'' \<or> fe_Platform e = [] \<or> fe_Version e = [] then idx
        else AList.update (fe_Platform e) (transformFirmwareVersion (fe_Version e)) idx) es []"

definition parseFirmware :: "string \<Rightarrow> json_error + firmware_index" where
  "parseFirmware body =
     rbind (decode_struct [''_embedded''] set_embedded body []) (\<lambda>es. Inr (index_firmware es))"

definition firmwareVersion :: "firmware_index \<Rightarrow> string \<Rightarrow> string \<Rightarrow> string" where
  "firmwareVersion idx model typ =
     (case map_of idx model of
        Some v \<Rightarrow> v
      | None \<Rightarrow> (case map_of perTypeFirmwareDefault typ of Some v \<Rightarrow> v | None \<Rightarrow> []))"

section \<open>Overrides\<close>

record eth_override =
  eo_Count :: int
  eo_Media :: string

record udapi_override =
  uo_Version :: string
  uo_Caps :: "string list option"

text \<open>A nil slice is \<^const>\<open>None\<close>: it is written as \<^verbatim>\<open>null\<close>.\<close>

definition cap_names :: "udapi_override \<Rightarrow> string list" where
  "cap_names u = (case uo_Caps u of Some names \<Rightarrow> names | None \<Rightarrow> [])"

text \<open>The radio overrides have one field, the spatial streams; the port overrides one, the media.\<close>

record model_override =
  mo_Eth :: "eth_override option"
  mo_Radios :: "(string \<times> int) list"
  mo_Ports :: "(string \<times> string) list"
  mo_UDAPI :: "udapi_override option"
  mo_Source :: string

record firmware_caps_override =
  fc_FWCaps :: int
  fc_Source :: string

record model_overrides =
  ov_Models :: "(string \<times> model_override) list"
  ov_FirmwareCaps :: "(string \<times> firmware_caps_override) list"

definition no_override :: model_override where
  "no_override = \<lparr>mo_Eth = None, mo_Radios = [], mo_Ports = [], mo_UDAPI = None, mo_Source = []\<rparr>"

definition dec_eth_override :: "eth_override \<Rightarrow> json \<Rightarrow> json_error + eth_override" where
  "dec_eth_override e v =
     dec_struct False [''count'', ''media'']
       (\<lambda>f v e. if f = ''count'' then rbind (dec_int f (eo_Count e) v) (\<lambda>x. Inr (e\<lparr>eo_Count := x\<rparr>))
                else rbind (dec_string f (eo_Media e) v) (\<lambda>x. Inr (e\<lparr>eo_Media := x\<rparr>))) v e"

definition dec_udapi_override :: "udapi_override \<Rightarrow> json \<Rightarrow> json_error + udapi_override" where
  "dec_udapi_override u v =
     dec_struct False [''version'', ''caps'']
       (\<lambda>f v u. if f = ''version'' then rbind (dec_string f (uo_Version u) v) (\<lambda>x. Inr (u\<lparr>uo_Version := x\<rparr>))
                else rbind (dec_list f (dec_string f) [] (cap_names u) v)
                       (\<lambda>x. Inr (u\<lparr>uo_Caps := (if v = JNull then None else Some x)\<rparr>))) v u"

definition dec_nss :: "int \<Rightarrow> json \<Rightarrow> json_error + int" where
  "dec_nss n v = dec_struct False [''nss''] (\<lambda>f v n. dec_int f n v) v n"

definition dec_media :: "string \<Rightarrow> json \<Rightarrow> json_error + string" where
  "dec_media m v = dec_struct False [''media''] (\<lambda>f v m. dec_string f m v) v m"

definition set_override_field :: "string \<Rightarrow> json \<Rightarrow> model_override \<Rightarrow> json_error + model_override" where
  "set_override_field f v ovr =
     (if f = ''eth'' then
        rbind (dec_pointer dec_eth_override \<lparr>eo_Count = 0, eo_Media = []\<rparr> (mo_Eth ovr) v) (\<lambda>x. Inr (ovr\<lparr>mo_Eth := x\<rparr>))
      else if f = ''radios'' then rbind (dec_map f dec_nss 0 (mo_Radios ovr) v) (\<lambda>x. Inr (ovr\<lparr>mo_Radios := x\<rparr>))
      else if f = ''ports'' then rbind (dec_map f dec_media [] (mo_Ports ovr) v) (\<lambda>x. Inr (ovr\<lparr>mo_Ports := x\<rparr>))
      else if f = ''udapi'' then
        rbind (dec_pointer dec_udapi_override \<lparr>uo_Version = [], uo_Caps = None\<rparr> (mo_UDAPI ovr) v) (\<lambda>x. Inr (ovr\<lparr>mo_UDAPI := x\<rparr>))
      else rbind (dec_string f (mo_Source ovr) v) (\<lambda>x. Inr (ovr\<lparr>mo_Source := x\<rparr>)))"

definition dec_override :: "model_override \<Rightarrow> json \<Rightarrow> json_error + model_override" where
  "dec_override ovr v = dec_struct False [''eth'', ''radios'', ''ports'', ''udapi'', ''source''] set_override_field v ovr"

definition dec_fw_caps :: "firmware_caps_override \<Rightarrow> json \<Rightarrow> json_error + firmware_caps_override" where
  "dec_fw_caps c v =
     dec_struct False [''fw_caps'', ''source'']
       (\<lambda>f v c. if f = ''fw_caps'' then rbind (dec_int f (fc_FWCaps c) v) (\<lambda>x. Inr (c\<lparr>fc_FWCaps := x\<rparr>))
                else rbind (dec_string f (fc_Source c) v) (\<lambda>x. Inr (c\<lparr>fc_Source := x\<rparr>))) v c"

definition set_overrides_field :: "string \<Rightarrow> json \<Rightarrow> model_overrides \<Rightarrow> json_error + model_overrides" where
  "set_overrides_field f v ovr =
     (if f = ''models'' then rbind (dec_map f dec_override no_override (ov_Models ovr) v) (\<lambda>x. Inr (ovr\<lparr>ov_Models := x\<rparr>))
      else rbind (dec_map f dec_fw_caps \<lparr>fc_FWCaps = 0, fc_Source = []\<rparr> (ov_FirmwareCaps ovr) v)
             (\<lambda>x. Inr (ovr\<lparr>ov_FirmwareCaps := x\<rparr>)))"

definition parse_overrides :: "string \<Rightarrow> json_error + model_overrides" where
  "parse_overrides b =
     unmarshal_struct [''models'', ''firmware_caps''] set_overrides_field b \<lparr>ov_Models = [], ov_FirmwareCaps = []\<rparr>"

definition loadOverrides :: "(string \<Rightarrow> string option) \<Rightarrow> string \<Rightarrow> gen_error + model_overrides" where
  "loadOverrides readFile path =
     (case readFile path of
        None \<Rightarrow> Inl (CannotRead path)
      | Some b \<Rightarrow> (case parse_overrides b of Inl e \<Rightarrow> Inl (BadFile path e) | Inr ov \<Rightarrow> Inr ov))"

definition set_nss :: "string \<times> int \<Rightarrow> catalog_radio list \<Rightarrow> catalog_radio list" where
  "set_nss ro rs = map (\<lambda>r. if ca_Radio r = fst ro \<and> snd ro > 0 then r\<lparr>ca_NSS := snd ro\<rparr> else r) rs"

definition applyOverride :: "catalog_model \<Rightarrow> model_override \<Rightarrow> catalog_model" where
  "applyOverride m ovr =
     (let m = (case mo_Eth ovr of
                 None \<Rightarrow> m
               | Some e \<Rightarrow> m\<lparr>cm_Ports := map (eth_port (eo_Media e)) [1..(if eo_Count e \<le> 0 then 1 else eo_Count e)]\<rparr>)
      in m\<lparr>cm_Radios := fold set_nss (mo_Radios ovr) (cm_Radios m)\<rparr>)"

text \<open>Which stale model is named depends on the order of the map.\<close>

definition checkStaleOverrides :: "model_overrides \<Rightarrow> string list \<Rightarrow> gen_error option" where
  "checkStaleOverrides ov models =
     (case find (\<lambda>m. m \<notin> set models) (map fst (ov_Models ov)) of
        Some m \<Rightarrow> Some (StaleOverride m)
      | None \<Rightarrow> None)"

section \<open>Tech Specs\<close>

record eth_spec =
  es_Count :: int
  es_Media :: string

text \<open>The digits of the leftmost parenthesized number\<close>

fun paren_number :: "string \<Rightarrow> string option" where
  "paren_number [] = None"
| "paren_number (c # s) =
     (if c = CHR ''('' \<and> takeWhile is_digit s \<noteq> [] \<and> dropWhile is_digit s \<noteq> [] \<and> hd (dropWhile is_digit s) = CHR '')''
      then Some (takeWhile is_digit s) else paren_number s)"

definition normalizeMedia :: "string \<Rightarrow> string option" where
  "normalizeMedia s =
     (let u = upper_ascii s in
      if contains ''SFP28'' u then Some ''SFP28''
      else if contains ''SFP+'' u \<or> contains ''SFP '' u then Some ''SFP+''
      else if contains ''2.5'' u \<and> contains ''GBE'' u then Some ''2.5GbE''
      else if contains ''10G'' u \<or> contains ''10 G'' u then Some ''10GbE''
      else if contains ''GBE'' u then Some ''GE''
      else None)"

text \<open>\<^verbatim>\<open>strconv.Atoi\<close> of digits gives the largest integer where they name a larger one.\<close>

definition parseEthValue :: "string \<Rightarrow> eth_spec option" where
  "parseEthValue s =
     (let count = (case paren_number s of
                     None \<Rightarrow> 1
                   | Some ds \<Rightarrow> (case atoi ds of Some n \<Rightarrow> n | None \<Rightarrow> 2 ^ 63 - 1))
      in case normalizeMedia s of
           None \<Rightarrow> None
         | Some media \<Rightarrow> if count \<le> 0 then None else Some \<lparr>es_Count = count, es_Media = media\<rparr>)"

text \<open>
  A document decoded into \<^verbatim>\<open>any\<close>; a number beyond the largest \<^verbatim>\<open>float64\<close> makes the decoding fail.
\<close>

datatype go_any = AnyNull | AnyBool bool | AnyNumber | AnyString string | AnyList "go_any list" | AnyMap "(string \<times> go_any) list"

fun any_of :: "json \<Rightarrow> go_any" where
  "any_of JNull = AnyNull"
| "any_of (JBool b) = AnyBool b"
| "any_of (JNum n) = AnyNumber"
| "any_of (JStr b) = AnyString (unquote b)"
| "any_of (JArr vs) = AnyList (map any_of vs)"
| "any_of (JObj kvs) = AnyMap (fold (\<lambda>(k, v). AList.update k v) (map (\<lambda>(k, v). (unquote k, any_of v)) kvs) [])"

definition digits_of :: "string \<Rightarrow> string \<times> string" where
  "digits_of s = (takeWhile is_digit s, dropWhile is_digit s)"

text \<open>Half way between the largest \<^verbatim>\<open>float64\<close> and the next power of two the rounding goes up.\<close>

definition float_overflows :: "string \<Rightarrow> bool" where
  "float_overflows n =
     (let (whole, r) = digits_of (case strip_prefix ''-'' n of Some t \<Rightarrow> t | None \<Rightarrow> n);
          (frac, r) = (case r of [] \<Rightarrow> ([], []) | c # t \<Rightarrow> if c = CHR ''.'' then digits_of t else ([], r));
          (neg, e) = (case r of [] \<Rightarrow> (False, 0)
                      | _ # [] \<Rightarrow> (False, 0)
                      | _ # c # t \<Rightarrow> if c = CHR ''-'' then (True, dec_nat t)
                                    else if c = CHR ''+'' then (False, dec_nat t) else (False, dec_nat (c # t)));
          m = dec_nat (whole @ frac);
          limit = 2 ^ 1024 - 2 ^ 970
      in if neg then m \<ge> limit * 10 ^ (length frac + e) else m * 10 ^ e \<ge> limit * 10 ^ length frac)"

fun numbers_fit :: "json \<Rightarrow> bool" where
  "numbers_fit (JNum n) \<longleftrightarrow> \<not> float_overflows n"
| "numbers_fit (JArr vs) \<longleftrightarrow> list_all numbers_fit vs"
| "numbers_fit (JObj kvs) \<longleftrightarrow> list_all (\<lambda>(k, v). numbers_fit v) kvs"
| "numbers_fit _ \<longleftrightarrow> True"

definition interface_value :: "(string \<times> go_any) list \<Rightarrow> string option" where
  "interface_value n =
     (case map_of n ''feature'' of
        Some (AnyMap f) \<Rightarrow>
          if map_of f ''slug'' = Some (AnyString ''networking-interface'') then
            (case map_of n ''value'' of Some (AnyString v) \<Rightarrow> Some v | _ \<Rightarrow> None)
          else None
      | _ \<Rightarrow> None)"

fun first_some :: "'a option list \<Rightarrow> 'a option" where
  "first_some [] = None"
| "first_some (x # xs) = (case x of Some y \<Rightarrow> Some y | None \<Rightarrow> first_some xs)"

text \<open>\<open>order\<close> is the order in which a map's keys are visited.\<close>

fun findNetworkingInterface :: "(string list \<Rightarrow> string list) \<Rightarrow> go_any \<Rightarrow> string option" where
  "findNetworkingInterface order (AnyMap n) =
     (case interface_value n of
        Some v \<Rightarrow> Some v
      | None \<Rightarrow>
          (let found = map (\<lambda>(k, v). (k, findNetworkingInterface order v)) n in
           first_some (map (\<lambda>k. case map_of found k of Some r \<Rightarrow> r | None \<Rightarrow> None) (order (map fst n)))))"
| "findNetworkingInterface order (AnyList n) = first_some (map (findNetworkingInterface order) n)"
| "findNetworkingInterface order _ = None"

definition parseNetworkingInterface :: "(string list \<Rightarrow> string list) \<Rightarrow> string \<Rightarrow> eth_spec option" where
  "parseNetworkingInterface order data =
     (case json_parse data of
        None \<Rightarrow> None
      | Some doc \<Rightarrow>
          if \<not> numbers_fit doc then None
          else Option.bind (findNetworkingInterface order (any_of doc)) parseEthValue)"

definition modelSlug :: "string \<Rightarrow> string" where
  "modelSlug productName =
     (let s = to_lower (trim_space productName);
          s = map (\<lambda>c. if c = CHR ''/'' then CHR ''-'' else c) s
      in join_with ''-'' (split_fields s))"

end
