(* ===== verification/Gen_Harvest.thy ===== *)
theory Gen_Harvest
  imports Gen_Sources Go_Flag
begin

text \<open>
  The model generator at work: harvesting a whole bundle and the command itself
  (\<^verbatim>\<open>cmd/modelgen/main.go\<close>), and fetching the Ethernet layouts of access points (\<^verbatim>\<open>fetcheth.go\<close>).
\<close>

section \<open>Harvesting a bundle\<close>

record harvest_sources =
  hv_Bundle :: string
  hv_Display :: "(string \<times> string) list"
  hv_Firmware :: firmware_index
  hv_Overrides :: model_overrides
  hv_Caps :: caps_file
  hv_Version :: string
  hv_Order :: "string \<Rightarrow> device_db_model \<Rightarrow> device_db_model"

datatype skip_reason = NotAdoptable string | LayoutProblem string | InvalidModel model_problem

record harvest_state =
  hs_Considered :: "string list"
  hs_Models :: "catalog_model list"
  hs_Skipped :: "(string \<times> skip_reason) list"
  hs_Defaulted :: "string list"
  hs_Excluded :: "(string \<times> string) list"

datatype report_line =
    DefaultEthernet "string list"
  | SkippedModels "(string \<times> skip_reason) list"
  | ExcludedHere "(string \<times> string) list"
  | StaleExclusions "string list"

definition displayFor :: "string \<Rightarrow> (string \<times> string) list \<Rightarrow> string" where
  "displayFor model display =
     (case map_of display model of Some name \<Rightarrow> if name \<noteq> [] then name else model | None \<Rightarrow> model)"

definition model_meta :: "string \<Rightarrow> string \<Rightarrow> device_db_model option" where
  "model_meta bundle model =
     (case extractModelJSON bundle model of
        Inl _ \<Rightarrow> None
      | Inr obj \<Rightarrow> (case decode_meta obj of Inl _ \<Rightarrow> None | Inr meta \<Rightarrow> Some meta))"

definition add_fw_caps :: "model_overrides \<Rightarrow> catalog_model \<Rightarrow> catalog_model" where
  "add_fw_caps ov m =
     (case map_of (ov_FirmwareCaps ov) (cm_Type m @ ''@'' @ cm_Version m) of
        Some fc \<Rightarrow> m\<lparr>cm_FWCaps := fc_FWCaps fc\<rparr>
      | None \<Rightarrow> m)"

definition override_model :: "caps_file \<Rightarrow> model_override option \<Rightarrow> catalog_model \<Rightarrow> gen_error + catalog_model" where
  "override_model caps ovr m =
     (case ovr of
        None \<Rightarrow> Inr m
      | Some ov \<Rightarrow>
          (let m = applyOverride m ov in
           case mo_UDAPI ov of
             None \<Rightarrow> Inr m
           | Some u \<Rightarrow>
               rbind (udapiMask caps (cm_Model m) (cap_names u)) (\<lambda>bitmap.
                 Inr (m\<lparr>cm_UDAPIVersion := uo_Version u, cm_UDAPICaps := bitmap\<rparr>))))"

definition harvest_step :: "harvest_sources \<Rightarrow> string \<Rightarrow> harvest_state \<Rightarrow> gen_error + harvest_state" where
  "harvest_step H model st =
     (case model_meta (hv_Bundle H) model of
        None \<Rightarrow> Inr st
      | Some meta \<Rightarrow>
          if dm_Type meta \<notin> {''uap'', ''usw'', ''ugw'', ''uxg''} then Inr st
          else
            (let st = st\<lparr>hs_Considered := hs_Considered st @ [model]\<rparr>;
                 skip = (\<lambda>why. Inr (st\<lparr>hs_Skipped := hs_Skipped st @ [(model, why)]\<rparr>));
                 ovr = map_of (ov_Models (hv_Overrides H)) model
             in if dm_Adoptability meta \<noteq> [] \<and> dm_Adoptability meta \<noteq> ''adoptable'' then skip (NotAdoptable (dm_Adoptability meta))
                else
                  (case map_of excludedModels model of
                     Some reason \<Rightarrow> Inr (st\<lparr>hs_Excluded := hs_Excluded st @ [(model, reason)]\<rparr>)
                   | None \<Rightarrow>
                       (case deriveLayout (bare_model model (displayFor model (hv_Display H)) (dm_Type meta)
                                             (firmwareVersion (hv_Firmware H) model (dm_Type meta))) (hv_Order H model meta) of
                          Inl e \<Rightarrow> skip (LayoutProblem e)
                        | Inr m \<Rightarrow>
                            rbind (override_model (hv_Caps H) ovr (add_fw_caps (hv_Overrides H) m)) (\<lambda>m.
                              case validateModel m of
                                Inl e \<Rightarrow> skip (InvalidModel e)
                              | Inr m \<Rightarrow>
                                  Inr (st\<lparr>hs_Models := hs_Models st @ [sort_ports m],
                                          hs_Defaulted :=
                                            (if dm_Type meta = ''uap'' \<and> (case ovr of None \<Rightarrow> True | Some ov \<Rightarrow> mo_Eth ov = None)
                                             then hs_Defaulted st @ [model] else hs_Defaulted st)\<rparr>))))))"

definition harvest_report :: "harvest_state \<Rightarrow> report_line list" where
  "harvest_report st =
     (if hs_Defaulted st \<noteq> [] then [DefaultEthernet (hs_Defaulted st)] else []) @
     (if hs_Skipped st \<noteq> [] then [SkippedModels (hs_Skipped st)] else []) @
     (if hs_Excluded st \<noteq> [] then [ExcludedHere (hs_Excluded st)] else []) @
     (if staleExclusions (hs_Considered st) \<noteq> [] then [StaleExclusions (staleExclusions (hs_Considered st))] else [])"

definition empty_harvest :: harvest_state where
  "empty_harvest = \<lparr>hs_Considered = [], hs_Models = [], hs_Skipped = [], hs_Defaulted = [], hs_Excluded = []\<rparr>"

text \<open>The lines written to the standard error, and the catalog\<close>

definition harvestBundle :: "harvest_sources \<Rightarrow> report_line list \<times> (gen_error + catalog_file)" where
  "harvestBundle H =
     (case rfold (harvest_step H) (allModelKeys (hv_Bundle H)) empty_harvest of
        Inl e \<Rightarrow> ([], Inl e)
      | Inr st \<Rightarrow>
          (harvest_report st,
           case checkStaleOverrides (hv_Overrides H) (hs_Considered st) of
             Some e \<Rightarrow> Inl e
           | None \<Rightarrow>
               Inr ((catalog_of (hv_Version H) ''controller hardware DB bundle (swai.js)''
                       ''controller hardware DB bundle + fw-update API + tech specs'' (hs_Models st))
                    \<lparr>cf_ExcludedModels := excludedCatalogList\<rparr>)))"

section \<open>The fingerprint index\<close>

definition normalizeCode :: "string \<Rightarrow> string" where
  "normalizeCode s = filter (\<lambda>c. is_upper c \<or> is_digit c) (upper_ascii s)"

record fingerprint =
  fp_DeviceTypes :: "string list"
  fp_ShortNames :: "string list"
  fp_SKU :: string
  fp_SysID :: string
  fp_SysIDs :: "string list"
  fp_Abbrev :: string

definition no_fingerprint :: fingerprint where
  "no_fingerprint =
     \<lparr>fp_DeviceTypes = [], fp_ShortNames = [], fp_SKU = [], fp_SysID = [], fp_SysIDs = [], fp_Abbrev = []\<rparr>"

definition set_fingerprint :: "string \<Rightarrow> json \<Rightarrow> fingerprint \<Rightarrow> json_error + fingerprint" where
  "set_fingerprint f v d =
     (if f = ''deviceTypes'' then
        rbind (dec_list f (dec_string f) [] (fp_DeviceTypes d) v) (\<lambda>x. Inr (d\<lparr>fp_DeviceTypes := x\<rparr>))
      else if f = ''shortnames'' then
        rbind (dec_list f (dec_string f) [] (fp_ShortNames d) v) (\<lambda>x. Inr (d\<lparr>fp_ShortNames := x\<rparr>))
      else if f = ''sku'' then rbind (dec_string f (fp_SKU d) v) (\<lambda>x. Inr (d\<lparr>fp_SKU := x\<rparr>))
      else if f = ''sysid'' then rbind (dec_string f (fp_SysID d) v) (\<lambda>x. Inr (d\<lparr>fp_SysID := x\<rparr>))
      else if f = ''sysids'' then rbind (dec_list f (dec_string f) [] (fp_SysIDs d) v) (\<lambda>x. Inr (d\<lparr>fp_SysIDs := x\<rparr>))
      else rbind (dec_struct False [''abbrev''] (\<lambda>f v a. dec_string f a v) v (fp_Abbrev d)) (\<lambda>x. Inr (d\<lparr>fp_Abbrev := x\<rparr>)))"

definition dec_fingerprint :: "fingerprint \<Rightarrow> json \<Rightarrow> json_error + fingerprint" where
  "dec_fingerprint d v =
     dec_struct False [''deviceTypes'', ''shortnames'', ''sku'', ''sysid'', ''sysids'', ''product''] set_fingerprint v d"

text \<open>First writer wins.\<close>

definition index_key :: "string \<Rightarrow> string \<Rightarrow> (string \<times> string) list \<Rightarrow> (string \<times> string) list" where
  "index_key sku n idx =
     (let key = normalizeCode n in
      if key = [] \<or> map_of idx key \<noteq> None then idx else idx @ [(key, sku)])"

definition index_device :: "fingerprint \<Rightarrow> (string \<times> string) list \<Rightarrow> (string \<times> string) list" where
  "index_device d idx =
     (if ''access-point'' \<notin> set (fp_DeviceTypes d) \<or> fp_SKU d = [] then idx
      else fold (index_key (fp_SKU d)) ([fp_SKU d, fp_Abbrev d, fp_SysID d] @ fp_ShortNames d @ fp_SysIDs d) idx)"

definition buildFingerprintIndex :: "string \<Rightarrow> json_error + (string \<times> string) list" where
  "buildFingerprintIndex text =
     rbind (unmarshal_struct [''devices''] (\<lambda>f v ds. dec_list f dec_fingerprint no_fingerprint ds v) text [])
       (\<lambda>ds. Inr (fold index_device ds []))"

section \<open>Fetching\<close>

text \<open>\<^verbatim>\<open>buildIDPattern\<close>: the leftmost build id that is closed and not empty\<close>

fun find_build_id :: "string \<Rightarrow> string option" where
  "find_build_id [] = None"
| "find_build_id (c # s) =
     (case strip_prefix (quote_mark # ''buildId'' @ [quote_mark, CHR '':'', quote_mark]) (c # s) of
        Some r \<Rightarrow>
          (let b = takeWhile (\<lambda>x. x \<noteq> quote_mark) r in
           if b \<noteq> [] \<and> b \<noteq> r then Some b else find_build_id s)
      | None \<Rightarrow> find_build_id s)"

definition parseBuildID :: "string \<Rightarrow> gen_error + string" where
  "parseBuildID html = (case find_build_id html of None \<Rightarrow> Inl NoBuildID | Some b \<Rightarrow> Inr b)"

definition techSpecsHome :: string where
  "techSpecsHome = ''https://techspecs.ui.com/''"

definition tech_specs_url :: "string \<Rightarrow> string \<Rightarrow> string" where
  "tech_specs_url buildID slug = ''https://techspecs.ui.com/_next/data/'' @ buildID @ ''/unifi/wifi/'' @ slug @ ''.json''"

text \<open>\<open>get\<close> is \<^verbatim>\<open>httpGet\<close>: the body of a 200, or nothing.\<close>

definition fetchBuildID :: "(string \<Rightarrow> string option) \<Rightarrow> gen_error + string" where
  "fetchBuildID get =
     (case get techSpecsHome of
        None \<Rightarrow> Inl (FetchFailed techSpecsHome)
      | Some body \<Rightarrow> parseBuildID body)"

record ap_candidate =
  ap_Code :: string
  ap_SysID :: string

record eth_result =
  er_Model :: string
  er_Eth :: eth_spec
  er_SKU :: string

datatype eth_outcome = Resolved eth_result | Unmatched | Unresolved

definition candidate_sku :: "(string \<times> string) list \<Rightarrow> ap_candidate \<Rightarrow> string option" where
  "candidate_sku idx ap =
     (case map_of idx (normalizeCode (ap_Code ap)) of
        Some sku \<Rightarrow> Some sku
      | None \<Rightarrow> if ap_SysID ap \<noteq> [] then map_of idx (normalizeCode (ap_SysID ap)) else None)"

definition resolve_ap ::
  "(string list \<Rightarrow> string list) \<Rightarrow> (string \<Rightarrow> string option) \<Rightarrow> (string \<times> string) list \<Rightarrow> string \<Rightarrow> ap_candidate \<Rightarrow> eth_outcome"
where
  "resolve_ap order get idx buildID ap =
     (case candidate_sku idx ap of
        None \<Rightarrow> Unmatched
      | Some sku \<Rightarrow>
          (case get (tech_specs_url buildID (modelSlug sku)) of
             None \<Rightarrow> Unresolved
           | Some body \<Rightarrow>
               (case parseNetworkingInterface order body of
                  None \<Rightarrow> Unresolved
                | Some eth \<Rightarrow> Resolved \<lparr>er_Model = ap_Code ap, er_Eth = eth, er_SKU = sku\<rparr>)))"

definition fetchAPEthernet ::
  "(string list \<Rightarrow> string list) \<Rightarrow> (string \<Rightarrow> string option) \<Rightarrow> ap_candidate list \<Rightarrow> (string \<times> string) list \<Rightarrow> string \<Rightarrow>
   eth_result list \<times> nat \<times> nat"
where
  "fetchAPEthernet order get aps idx buildID =
     (let outs = map (resolve_ap order get idx buildID) aps in
      (sort_key er_Model (List.map_filter (\<lambda>x. case x of Resolved r \<Rightarrow> Some r | _ \<Rightarrow> None) outs),
       length (filter (\<lambda>x. x = Unmatched) outs), length (filter (\<lambda>x. x = Unresolved) outs)))"

section \<open>Merging into the overrides file\<close>

text \<open>The document as this command knows it: the note and the models, and nothing else\<close>

record overrides_doc =
  od_SourceNote :: string
  od_Models :: "(string \<times> model_override) list"

definition set_doc_field :: "string \<Rightarrow> json \<Rightarrow> overrides_doc \<Rightarrow> json_error + overrides_doc" where
  "set_doc_field f v d =
     (if f = ''_source_note'' then rbind (dec_string f (od_SourceNote d) v) (\<lambda>x. Inr (d\<lparr>od_SourceNote := x\<rparr>))
      else rbind (dec_map f dec_override no_override (od_Models d) v) (\<lambda>x. Inr (d\<lparr>od_Models := x\<rparr>)))"

definition parse_doc :: "string \<Rightarrow> json_error + overrides_doc" where
  "parse_doc b = unmarshal_struct [''_source_note'', ''models''] set_doc_field b \<lparr>od_SourceNote = [], od_Models = []\<rparr>"

definition eth_json :: "eth_override \<Rightarrow> json" where
  "eth_json e = JObj [(''count'', jint (eo_Count e)), (''media'', jstr (eo_Media e))]"

definition udapi_json :: "udapi_override \<Rightarrow> json" where
  "udapi_json u =
     JObj [(''version'', jstr (uo_Version u)),
           (''caps'', case uo_Caps u of None \<Rightarrow> JNull | Some names \<Rightarrow> JArr (map jstr names))]"

definition override_json :: "model_override \<Rightarrow> json" where
  "override_json ov =
     JObj ((case mo_Eth ov of Some e \<Rightarrow> [(''eth'', eth_json e)] | None \<Rightarrow> []) @
           if_some (mo_Radios ov \<noteq> []) ''radios''
             (json_object (map (\<lambda>(k, n). (k, JObj (if_some (n \<noteq> 0) ''nss'' (jint n)))) (mo_Radios ov))) @
           if_some (mo_Ports ov \<noteq> []) ''ports''
             (json_object (map (\<lambda>(k, m). (k, JObj (if_some (m \<noteq> []) ''media'' (jstr m)))) (mo_Ports ov))) @
           (case mo_UDAPI ov of Some u \<Rightarrow> [(''udapi'', udapi_json u)] | None \<Rightarrow> []) @
           if_some (mo_Source ov \<noteq> []) ''source'' (jstr (mo_Source ov)))"

definition doc_json :: "overrides_doc \<Rightarrow> json" where
  "doc_json d =
     JObj (if_some (od_SourceNote d \<noteq> []) ''_source_note'' (jstr (od_SourceNote d)) @
           [(''models'', json_object (map (\<lambda>(k, ov). (k, override_json ov)) (od_Models d)))])"

definition eth_of :: "eth_spec \<Rightarrow> eth_override" where
  "eth_of e = \<lparr>eo_Count = es_Count e, eo_Media = es_Media e\<rparr>"

definition merge_result :: "eth_result \<Rightarrow> (string \<times> model_override) list \<times> nat \<Rightarrow> (string \<times> model_override) list \<times> nat" where
  "merge_result r acc =
     (case acc of (models, changed) \<Rightarrow>
        (let mo = (case map_of models (er_Model r) of Some mo \<Rightarrow> mo | None \<Rightarrow> no_override);
             changed = (if mo_Eth mo \<noteq> Some (eth_of (er_Eth r)) then Suc changed else changed);
             mo = mo\<lparr>mo_Eth := Some (eth_of (er_Eth r))\<rparr>;
             mo = (if mo_Source mo = []
                   then mo\<lparr>mo_Source := ''techspecs.ui.com networking-interface (fingerprint sku '' @ er_SKU r @ '')''\<rparr> else mo)
         in (AList.update (er_Model r) mo models, changed)))"

text \<open>The number of changed entries and the text written back\<close>

definition mergeEthOverrides :: "string \<Rightarrow> eth_result list \<Rightarrow> json_error + nat \<times> string" where
  "mergeEthOverrides text results =
     rbind (parse_doc text) (\<lambda>doc.
       (case fold merge_result results (od_Models doc, 0) of
          (models, changed) \<Rightarrow> Inr (changed, indented 0 (doc_json (doc\<lparr>od_Models := models\<rparr>)) @ [CHR 0x0A])))"

section \<open>The command\<close>

record gen_process =
  gp_Args :: "string list"
  gp_ReadFile :: "string \<Rightarrow> string option"
  gp_CanWrite :: "string \<Rightarrow> bool"
  gp_Get :: "string \<Rightarrow> string option"
  gp_MetaOrder :: "string \<Rightarrow> device_db_model \<Rightarrow> device_db_model"
  gp_KeyOrder :: "string list \<Rightarrow> string list"

datatype gen_line =
    Report report_line
  | BuildIDLine string nat
  | FetchLine nat nat nat nat nat
  | MultiGig "(string \<times> int \<times> string) list"

datatype gen_effect = Stderr gen_line | Wrote string string

datatype gen_failure = BadFlags flag_error | Failed gen_error | NotWritten string

definition read_file :: "gen_process \<Rightarrow> string \<Rightarrow> gen_error + string" where
  "read_file P path = (case gp_ReadFile P path of None \<Rightarrow> Inl (CannotRead path) | Some b \<Rightarrow> Inr b)"

definition in_file :: "string \<Rightarrow> json_error + 'a \<Rightarrow> gen_error + 'a" where
  "in_file path r = (case r of Inl e \<Rightarrow> Inl (BadFile path e) | Inr x \<Rightarrow> Inr x)"

definition ap_candidates :: "string \<Rightarrow> ap_candidate list" where
  "ap_candidates bundle =
     List.map_filter
       (\<lambda>model. case model_meta bundle model of
          Some meta \<Rightarrow> if dm_Type meta = ''uap'' then Some \<lparr>ap_Code = model, ap_SysID = dm_SysID meta\<rparr> else None
        | None \<Rightarrow> None)
       (allModelKeys bundle)"

text \<open>What is fetched: the candidates, the build id and the results with their counts\<close>

definition fetch_eth ::
  "gen_process \<Rightarrow> string \<Rightarrow> string \<Rightarrow> gen_error + ap_candidate list \<times> string \<times> eth_result list \<times> nat \<times> nat"
where
  "fetch_eth P bundlePath fingerprintPath =
     rbind (read_file P bundlePath) (\<lambda>bundle.
     rbind (read_file P fingerprintPath) (\<lambda>db.
     rbind (in_file fingerprintPath (buildFingerprintIndex db)) (\<lambda>idx.
     rbind (fetchBuildID (gp_Get P)) (\<lambda>buildID.
       Inr (ap_candidates bundle, buildID, fetchAPEthernet (gp_KeyOrder P) (gp_Get P) (ap_candidates bundle) idx buildID)))))"

definition runFetchEth :: "gen_process \<Rightarrow> string \<Rightarrow> string \<Rightarrow> string \<Rightarrow> gen_effect list \<times> gen_failure option" where
  "runFetchEth P bundlePath fingerprintPath overridesPath =
     (case fetch_eth P bundlePath fingerprintPath of
        Inl e \<Rightarrow> ([], Some (Failed e))
      | Inr (aps, buildID, results, unmatched, unresolved) \<Rightarrow>
          (let begun = [Stderr (BuildIDLine buildID (length aps))] in
           case rbind (read_file P overridesPath) (\<lambda>text. in_file overridesPath (mergeEthOverrides text results)) of
             Inl e \<Rightarrow> (begun, Some (Failed e))
           | Inr (changed, text) \<Rightarrow>
               if \<not> gp_CanWrite P overridesPath then (begun, Some (NotWritten overridesPath))
               else
                 (begun @
                  [Wrote overridesPath text,
                   Stderr (FetchLine (length results) (length aps) unmatched unresolved changed),
                   Stderr (MultiGig (map (\<lambda>r. (er_Model r, es_Count (er_Eth r), es_Media (er_Eth r)))
                                      (filter (\<lambda>r. es_Media (er_Eth r) \<noteq> ''GE'') results)))],
                  None)))"

definition gen_flags :: flag_set where
  "gen_flags =
     \<lparr>fg_Formal =
        [(''input'', FString []), (''device-db-bundle'', FString []), (''bundle'', FString []),
         (''bundles-json'', FString []), (''firmware-json'', FString []), (''overrides'', FString ''model_overrides.json''),
         (''caps'', FString ''capability_bits.json''), (''catalog'', FString ''model_profiles.json''),
         (''controller-version'', FString []), (''fetch-eth'', FBool False), (''fingerprint'', FString [])],
      fg_Actual = [], fg_Args = []\<rparr>"

definition dec_display :: "string \<Rightarrow> json \<Rightarrow> json_error + string" where
  "dec_display d v = dec_struct False [''display''] (\<lambda>f v d. dec_string f d v) v d"

definition parse_displays :: "string \<Rightarrow> json_error + (string \<times> string) list" where
  "parse_displays b = (case json_parse b of None \<Rightarrow> Inl SyntaxError | Some v \<Rightarrow> dec_map [] dec_display [] [] v)"

text \<open>A file that is read only if it is named\<close>

definition optional_file :: "gen_process \<Rightarrow> string \<Rightarrow> (string \<Rightarrow> json_error + 'a list) \<Rightarrow> gen_error + 'a list" where
  "optional_file P path parse = (if path = [] then Inr [] else rbind (read_file P path) (\<lambda>b. in_file path (parse b)))"

definition harvest_files :: "gen_process \<Rightarrow> flag_set \<Rightarrow> gen_error + harvest_sources" where
  "harvest_files P fs =
     (if trim_space (string_flag fs ''controller-version'') = [] then Inl NoControllerVersion
      else
        rbind (read_file P (string_flag fs ''bundle'')) (\<lambda>bundle.
        rbind (optional_file P (string_flag fs ''bundles-json'') parse_displays) (\<lambda>display.
        rbind (optional_file P (string_flag fs ''firmware-json'') parseFirmware) (\<lambda>fw.
        rbind (loadOverrides (gp_ReadFile P) (string_flag fs ''overrides'')) (\<lambda>ov.
        rbind (loadCaps (gp_ReadFile P) (string_flag fs ''caps'')) (\<lambda>caps.
          Inr \<lparr>hv_Bundle = bundle, hv_Display = display, hv_Firmware = fw, hv_Overrides = ov, hv_Caps = caps,
               hv_Version = string_flag fs ''controller-version'', hv_Order = gp_MetaOrder P\<rparr>))))))"

definition reduce_files :: "gen_process \<Rightarrow> flag_set \<Rightarrow> gen_error + catalog_file" where
  "reduce_files P fs =
     rbind (read_file P (string_flag fs ''input'')) (\<lambda>input.
       if string_flag fs ''device-db-bundle'' \<noteq> [] then
         rbind (read_file P (string_flag fs ''device-db-bundle'')) (\<lambda>bundle.
           reduceDeviceDatabase (gp_MetaOrder P) input bundle (string_flag fs ''controller-version''))
       else reduce input (string_flag fs ''controller-version''))"

text \<open>The standard error so far, and the catalog or the error\<close>

definition make_catalog :: "gen_process \<Rightarrow> flag_set \<Rightarrow> report_line list \<times> (gen_error + catalog_file)" where
  "make_catalog P fs =
     (if string_flag fs ''bundle'' \<noteq> [] then
        (case harvest_files P fs of
           Inl e \<Rightarrow> ([], Inl e)
         | Inr H \<Rightarrow> harvestBundle H)
      else if string_flag fs ''input'' \<noteq> [] then ([], reduce_files P fs)
      else ([], Inl (FlagsMissing ''one of -bundle or -input is required'')))"

definition write_catalog :: "gen_process \<Rightarrow> flag_set \<Rightarrow> gen_effect list \<times> gen_failure option" where
  "write_catalog P fs =
     (case make_catalog P fs of
        (report, r) \<Rightarrow>
          (let said = map (\<lambda>l. Stderr (Report l)) report;
               path = string_flag fs ''catalog''
           in case r of
                Inl e \<Rightarrow> (said, Some (Failed e))
              | Inr c \<Rightarrow>
                  if gp_CanWrite P path then (said @ [Wrote path (writeCatalog c)], None)
                  else (said, Some (NotWritten path))))"

definition gen_run :: "gen_process \<Rightarrow> gen_effect list \<times> gen_failure option" where
  "gen_run P =
     (case parse_args (gp_Args P) gen_flags of
        Inl e \<Rightarrow> ([], Some (BadFlags e))
      | Inr fs \<Rightarrow>
          if bool_flag fs ''fetch-eth'' then
            (if string_flag fs ''bundle'' = [] \<or> string_flag fs ''fingerprint'' = [] then
               ([], Some (Failed (FlagsMissing ''-fetch-eth requires -bundle and -fingerprint'')))
             else runFetchEth P (string_flag fs ''bundle'') (string_flag fs ''fingerprint'') (string_flag fs ''overrides''))
          else write_catalog P fs)"

definition gen_status :: "gen_process \<Rightarrow> int" where
  "gen_status P = (if snd (gen_run P) = None then 0 else 1)"

end
