(* ===== verification/Gen_Valid.thy ===== *)
theory Gen_Valid
  imports Gen_Harvest
begin

text \<open>
  What every generated catalog satisfies: validation accepts exactly the models that describe a
  device, and whichever way a catalog is made its models are such models, each once and in order.
\<close>

section \<open>A valid model\<close>

definition port_ok :: "catalog_port \<Rightarrow> bool" where
  "port_ok p \<longleftrightarrow> cp_PortIdx p > 0 \<and> cp_IfName p \<noteq> [] \<and> cp_Name p \<noteq> [] \<and> cp_Media p \<noteq> []"

definition radio_ok :: "catalog_radio \<Rightarrow> bool" where
  "radio_ok r \<longleftrightarrow> ca_Name r \<noteq> [] \<and> ca_HT r \<noteq> [] \<and> ca_Radio r \<in> {''ng'', ''na'', ''6e''} \<and>
     0 < ca_MinTxPower r \<and> ca_MinTxPower r \<le> ca_MaxTxPower r \<and> 0 < ca_NSS r"

definition model_ok :: "catalog_model \<Rightarrow> bool" where
  "model_ok m \<longleftrightarrow>
     cm_Model m \<noteq> [] \<and> cm_ModelDisplay m \<noteq> [] \<and> cm_Version m \<noteq> [] \<and>
     cm_Type m \<in> {''ugw'', ''usw'', ''uap'', ''uxg''} \<and>
     list_all port_ok (cm_Ports m) \<and> distinct (map cp_PortIdx (cm_Ports m)) \<and> distinct (map cp_IfName (cm_Ports m)) \<and>
     length (filter cp_IsUplink (cm_Ports m)) = 1 \<and>
     (cm_Type m = ''uap'' \<longrightarrow> cm_Radios m \<noteq> []) \<and>
     list_all radio_ok (cm_Radios m) \<and> distinct (map ca_Name (cm_Radios m))"

definition filled :: "catalog_model \<Rightarrow> catalog_model" where
  "filled m = m\<lparr>cm_Ports := map fill_port (cm_Ports m)\<rparr>"

lemma fill_port_fields [simp]:
  "cp_PortIdx (fill_port p) = cp_PortIdx p" "cp_IsUplink (fill_port p) = cp_IsUplink p"
  "cp_IfName (fill_port p) = cp_IfName (fill_ifname p)"
  by (simp_all add: fill_port_def fill_ifname_def Let_def)

lemma port_ok_fill: "port_ok (fill_port p) \<longleftrightarrow> cp_PortIdx p > 0"
  by (simp add: port_ok_def fill_port_def fill_ifname_def Let_def)

text \<open>No two of the values are the same, and none is among those seen.\<close>

definition fresh :: "('a \<Rightarrow> 'b) \<Rightarrow> 'a list \<Rightarrow> 'b list \<Rightarrow> bool" where
  "fresh f qs seen \<longleftrightarrow> distinct (map f qs) \<and> set (map f qs) \<inter> set seen = {}"

lemma fresh_simps [simp]:
  "fresh f [] seen" "fresh f (q # qs) seen \<longleftrightarrow> f q \<notin> set seen \<and> fresh f qs (f q # seen)"
  by (auto simp: fresh_def)

lemma fresh_Nil: "fresh f qs [] \<longleftrightarrow> distinct (map f qs)"
  by (simp add: fresh_def)

lemma check_ports_iff:
  "check_ports m idxs names ps = Inr qs \<longleftrightarrow>
     qs = map fill_port ps \<and> list_all port_ok qs \<and> fresh cp_PortIdx qs idxs \<and> fresh cp_IfName qs names"
proof (induction ps arbitrary: idxs names qs)
  case (Cons p ps)
  show ?case
  proof (cases "cp_PortIdx p \<le> 0 \<or> cp_PortIdx p \<in> set idxs \<or> cp_IfName (fill_ifname p) \<in> set names")
    case True
    then show ?thesis by (auto simp: port_ok_fill)
  next
    case False
    then have "check_ports m idxs names (p # ps) = Inr qs \<longleftrightarrow>
        (\<exists>r. check_ports m (cp_PortIdx p # idxs) (cp_IfName (fill_ifname p) # names) ps = Inr r \<and> qs = fill_port p # r)"
      by (auto simp: rbind_def split: sum.splits)
    also have "\<dots> \<longleftrightarrow> qs = map fill_port (p # ps) \<and> list_all port_ok qs \<and> fresh cp_PortIdx qs idxs \<and> fresh cp_IfName qs names"
      unfolding Cons.IH using False by (auto simp: port_ok_fill)
    finally show ?thesis .
  qed
qed auto

lemma check_radio_None: "check_radio m r = None \<longleftrightarrow> radio_ok r"
  by (auto simp: check_radio_def radio_ok_def)

lemma check_radios_None:
  "check_radios m names rs = None \<longleftrightarrow> list_all radio_ok rs \<and> fresh ca_Name rs names"
proof (induction rs arbitrary: names)
  case (Cons r rs)
  then show ?case using check_radio_None [of m r] by (auto split: option.splits)
qed simp

lemma filter_fill [simp]: "length (filter cp_IsUplink (map fill_port ps)) = length (filter cp_IsUplink ps)"
  by (induction ps) auto

lemma validate_iff: "validateModel m = Inr m' \<longleftrightarrow> m' = filled m \<and> model_ok m'"
proof -
  let ?ps = "map fill_port (cm_Ports m)" and ?n = "cm_Model m"
  consider (identity) "?n = [] \<or> cm_ModelDisplay m = [] \<or> cm_Version m = []"
    | (kind) "\<not> (?n = [] \<or> cm_ModelDisplay m = [] \<or> cm_Version m = [])" "cm_Type m \<notin> {''ugw'', ''usw'', ''uap'', ''uxg''}"
    | (noports) "\<not> (?n = [] \<or> cm_ModelDisplay m = [] \<or> cm_Version m = [])" "cm_Type m \<in> {''ugw'', ''usw'', ''uap'', ''uxg''}" "cm_Ports m = []"
    | (bad) e where "\<not> (?n = [] \<or> cm_ModelDisplay m = [] \<or> cm_Version m = [])" "cm_Type m \<in> {''ugw'', ''usw'', ''uap'', ''uxg''}" "cm_Ports m \<noteq> []"
        "check_ports ?n [] [] (cm_Ports m) = Inl e"
    | (good) qs where "\<not> (?n = [] \<or> cm_ModelDisplay m = [] \<or> cm_Version m = [])" "cm_Type m \<in> {''ugw'', ''usw'', ''uap'', ''uxg''}" "cm_Ports m \<noteq> []"
        "check_ports ?n [] [] (cm_Ports m) = Inr qs"
    by (cases "check_ports ?n [] [] (cm_Ports m)") blast+
  then show ?thesis
  proof cases
    case identity
    then show ?thesis by (auto simp: validateModel_def Let_def filled_def model_ok_def)
  next
    case kind
    then show ?thesis by (simp add: validateModel_def Let_def) (auto simp: filled_def model_ok_def)
  next
    case noports
    then show ?thesis by (simp add: validateModel_def Let_def) (auto simp: filled_def model_ok_def)
  next
    case bad
    then have "\<not> (list_all port_ok ?ps \<and> distinct (map cp_PortIdx ?ps) \<and> distinct (map cp_IfName ?ps))"
      using check_ports_iff [of ?n "[]" "[]" "cm_Ports m" ?ps] by (auto simp: fresh_Nil)
    then have "\<not> model_ok (filled m)" by (auto simp: model_ok_def filled_def)
    then show ?thesis using bad by (simp add: validateModel_def Let_def)
  next
    case good
    then have q: "qs = ?ps" and ok: "list_all port_ok ?ps" "distinct (map cp_PortIdx ?ps)" "distinct (map cp_IfName ?ps)"
      using check_ports_iff [of ?n "[]" "[]" "cm_Ports m" qs] by (auto simp: fresh_Nil)
    have "model_ok (filled m) \<longleftrightarrow> length (filter cp_IsUplink ?ps) = 1 \<and> (cm_Type m = ''uap'' \<longrightarrow> cm_Radios m \<noteq> []) \<and>
        check_radios ?n [] (cm_Radios m) = None"
      using good(1,2) ok check_radios_None [of ?n "[]" "cm_Radios m"] by (simp add: model_ok_def filled_def fresh_Nil)
    moreover have "validateModel m = Inr m' \<longleftrightarrow> length (filter cp_IsUplink ?ps) = 1 \<and>
        (cm_Type m = ''uap'' \<longrightarrow> cm_Radios m \<noteq> []) \<and> check_radios ?n [] (cm_Radios m) = None \<and> m' = filled m"
      using good q by (cases "check_radios ?n [] (cm_Radios m)") (simp_all add: validateModel_def Let_def filled_def, blast)
    ultimately show ?thesis by blast
  qed
qed

text \<open>
  C21: validation accepts exactly the models that, once their ports are filled in, describe a device:
  an identity, a type the emulator speaks, ports with distinct positive indexes and distinct names of
  which exactly one is the uplink, radios of known bands with sensible powers, and a radio for every
  access point; what it hands back is the filled-in model.
\<close>
theorem validate_accepts_iff: "validateModel m = Inr m' \<longleftrightarrow> m' = filled m \<and> model_ok m'"
  by (rule validate_iff)

section \<open>A valid catalog\<close>

lemma model_ok_sort_ports: "model_ok m \<Longrightarrow> model_ok (sort_ports m)"
  by (auto simp: model_ok_def sort_ports_def list_all_iff distinct_map filter_sort)

definition ports_in_order :: "catalog_model \<Rightarrow> bool" where
  "ports_in_order m \<longleftrightarrow> sorted_wrt (<) (map cp_PortIdx (cm_Ports m))"

lemma ports_in_order_sort: "model_ok m \<Longrightarrow> ports_in_order (sort_ports m)"
  by (auto simp: ports_in_order_def sort_ports_def model_ok_def strict_sorted_iff distinct_map)

definition entry_ok :: "catalog_model \<Rightarrow> bool" where
  "entry_ok m \<longleftrightarrow> model_ok m \<and> ports_in_order m"

lemma entry_ok_sort: "model_ok m \<Longrightarrow> entry_ok (sort_ports m)"
  by (simp add: entry_ok_def model_ok_sort_ports ports_in_order_sort)

definition catalog_ok :: "catalog_file \<Rightarrow> bool" where
  "catalog_ok c \<longleftrightarrow> list_all entry_ok (cf_Models c) \<and> sorted_wrt (<) (map cm_Model (cf_Models c))"

lemma catalog_of_ok:
  assumes "list_all entry_ok ms" and "distinct (map cm_Model ms)"
  shows "catalog_ok (catalog_of ver i h ms)"
  using assms by (auto simp: catalog_ok_def catalog_of_def list_all_iff strict_sorted_iff distinct_map)

text \<open>The layouts come in order already, and filling in keeps the order.\<close>

lemma filled_order: "ports_in_order (filled m) \<longleftrightarrow> ports_in_order m"
  by (simp add: ports_in_order_def filled_def o_def)

lemma filled_model [simp]: "cm_Model (filled m) = cm_Model m" "cm_Model (sort_ports m) = cm_Model m"
  by (simp_all add: filled_def sort_ports_def)

lemma reduce_devices_ok:
  assumes "reduce_devices seen ds = Inr ms"
  shows "list_all entry_ok ms \<and> map cm_Model ms = map rd_Model ds \<and> distinct (map rd_Model ds) \<and>
    set (map rd_Model ds) \<inter> set seen = {}"
  using assms
proof (induction ds arbitrary: seen ms)
  case (Cons d ds)
  then obtain m where m: "validateModel (reduced_model d) = Inr m" and d: "rd_Model d \<notin> set seen"
    by (auto split: if_splits sum.splits)
  then obtain ms' where ms: "reduce_devices (rd_Model d # seen) ds = Inr ms'" "ms = sort_ports m # ms'"
    using Cons.prems by (auto simp: rbind_def split: if_splits sum.splits)
  have "cm_Model m = rd_Model d" "model_ok m" using m validate_iff by (auto simp: reduced_model_def)
  then show ?case using Cons.IH [OF ms(1)] ms(2) d by (auto simp: entry_ok_sort)
qed simp

lemma reduce_ok:
  assumes "reduce body ver = Inr c"
  shows "catalog_ok c"
proof -
  obtain ds ms i h where ms: "reduce_devices [] ds = Inr ms" "c = catalog_of ver i h ms"
    using assms by (auto simp: reduce_def rbind_def split: if_splits sum.splits)
  show ?thesis unfolding ms(2) using reduce_devices_ok [OF ms(1)] by (intro catalog_of_ok) auto
qed

section \<open>Layouts\<close>

lemma mapped_order: "(\<And>i. cp_PortIdx (f i) = i) \<Longrightarrow> map cp_PortIdx (map f is) = is"
  by (induction "is") auto

lemma upto_strict: "sorted_wrt (<) [i..j :: int]"
  by simp

lemma update_keys_distinct:
  "distinct (map fst m) \<Longrightarrow> distinct (map fst (fold (\<lambda>k. AList.update k v) ks m))"
  by (induction ks arbitrary: m) (auto simp: distinct_update)

lemma add_category_distinct:
  "add_category model meta cat m = Inr m' \<Longrightarrow> distinct (map fst m) \<Longrightarrow> distinct (map fst m')"
  by (auto simp: add_category_def rbind_def update_keys_distinct split: option.splits sum.splits)

lemma rfold_add_category_distinct:
  "rfold (add_category model meta) cats m = Inr m' \<Longrightarrow> distinct (map fst m) \<Longrightarrow> distinct (map fst m')"
  by (induction cats arbitrary: m) (auto simp: rbind_def dest: add_category_distinct split: sum.splits)

lemma switch_ports_order:
  assumes "switchMetadataPorts model meta = Inr ps"
  shows "sorted_wrt (<) (map cp_PortIdx ps)"
proof -
  obtain media where m: "rfold (add_category model meta) port_categories [] = Inr media"
      "ps = map (switch_port (dm_PoE meta) media) (sort (map fst media))"
    using assms by (auto simp: switchMetadataPorts_def rbind_def split: sum.splits if_splits)
  have "map cp_PortIdx ps = sort (map fst media)"
    unfolding m(2) by (rule mapped_order) (simp add: switch_port_def Let_def)
  then show ?thesis using rfold_add_category_distinct [OF m(1)] by (simp add: strict_sorted_iff)
qed

lemma gateway_ports_order: "gatewayPorts meta = Inr ps \<Longrightarrow> sorted (map cp_PortIdx ps)"
  by (auto simp: gatewayPorts_def rbind_def split: sum.splits if_splits)

lemma access_point_order: "ports_in_order (m\<lparr>cm_Ports := accessPointPorts model, cm_Radios := rs\<rparr>)"
proof -
  have "map cp_PortIdx (accessPointPorts model) = [1..(if model = ''U7MP'' then 2 else 1)]"
    unfolding accessPointPorts_def by (rule mapped_order) (simp add: eth_port_def)
  then show ?thesis using upto_strict by (simp add: ports_in_order_def)
qed

lemma derived_order:
  assumes "deriveLayout m meta = Inr m'" and "model_ok (filled m')"
  shows "ports_in_order m'"
proof -
  have d: "distinct (map cp_PortIdx (cm_Ports m'))" using assms(2) by (simp add: model_ok_def filled_def o_def)
  consider (gateway) "cm_Type m = ''ugw'' \<or> cm_Type m = ''uxg''" | (switch) "cm_Type m = ''usw''" | (ap) "cm_Type m = ''uap''"
    | (other) "cm_Type m \<notin> {''ugw'', ''uxg'', ''usw'', ''uap''}" by blast
  then show ?thesis
  proof cases
    case gateway
    then obtain ps where "gatewayPorts meta = Inr ps" "m' = m\<lparr>cm_Ports := ps\<rparr>"
      using assms(1) by (cases "gatewayPorts meta") (simp_all add: deriveLayout_def)
    then show ?thesis using gateway_ports_order d by (simp add: ports_in_order_def strict_sorted_iff)
  next
    case switch
    then obtain ps where "switchMetadataPorts (cm_Model m) meta = Inr ps" "m' = m\<lparr>cm_Ports := ps\<rparr>"
      using assms(1) by (cases "switchMetadataPorts (cm_Model m) meta") (simp_all add: deriveLayout_def)
    then show ?thesis using switch_ports_order by (simp add: ports_in_order_def)
  next
    case ap
    then have "m' = m\<lparr>cm_Ports := accessPointPorts (cm_Model m), cm_Radios := metadataRadios (cm_Model m) meta\<rparr>"
      using assms(1) by (simp add: deriveLayout_def)
    then show ?thesis using access_point_order by simp
  next
    case other
    then show ?thesis using assms(1) by (simp add: deriveLayout_def)
  qed
qed

lemma derived_identity:
  "deriveLayout m meta = Inr m' \<Longrightarrow> cm_Model m' = cm_Model m \<and> cm_Type m' = cm_Type m"
  by (auto simp: deriveLayout_def rbind_def split: if_splits sum.splits)

lemma database_model_ok:
  assumes "database_model order bundle d = Inr m"
  shows "entry_ok m \<and> cm_Model m = rd_Model d"
proof -
  obtain meta m0 where m0: "database_layout (bare_model (rd_Model d) (displayName d) (rd_Type d) (rd_Version d)) meta = Inr m0"
      "validateModel m0 = Inr m"
    using assms by (auto simp: database_model_def rbind_def split: sum.splits if_splits)
  then have der: "deriveLayout (bare_model (rd_Model d) (displayName d) (rd_Type d) (rd_Version d)) meta = Inr m0"
    by (auto simp: database_layout_def split: if_splits)
  have "m = filled m0" "model_ok m" using m0(2) validate_iff by auto
  then show ?thesis using derived_order [OF der] derived_identity [OF der] by (simp add: entry_ok_def filled_order bare_model_def)
qed

lemma database_devices_ok:
  assumes "database_devices order bundle seen ds = Inr ms"
  shows "list_all entry_ok ms \<and> map cm_Model ms = map rd_Model ds \<and> distinct (map rd_Model ds) \<and>
    set (map rd_Model ds) \<inter> set seen = {}"
  using assms
proof (induction ds arbitrary: seen ms)
  case (Cons d ds)
  then have s: "rd_Model d \<notin> set seen"
      "rbind (database_model order bundle d) (\<lambda>m. rbind (database_devices order bundle (rd_Model d # seen) ds) (\<lambda>ms. Inr (m # ms))) = Inr ms"
    by (simp_all split: if_splits)
  obtain m where m: "database_model order bundle d = Inr m"
    using s(2) by (cases "database_model order bundle d") simp_all
  obtain ms' where ms: "database_devices order bundle (rd_Model d # seen) ds = Inr ms'"
    using s(2) m by (cases "database_devices order bundle (rd_Model d # seen) ds") simp_all
  then have "ms = m # ms'" using s(2) m by simp
  then show ?case using Cons.IH [OF ms] database_model_ok [OF m] s(1) by auto
qed simp

lemma database_ok:
  assumes "reduceDeviceDatabase order identity bundle ver = Inr c"
  shows "catalog_ok c"
proof -
  obtain ds ms i h where ms: "database_devices order bundle [] ds = Inr ms" "c = catalog_of ver i h ms"
    using assms by (auto simp: reduceDeviceDatabase_def rbind_def split: if_splits sum.splits)
  show ?thesis unfolding ms(2) using database_devices_ok [OF ms(1)] by (intro catalog_of_ok) auto
qed

end
