(* ===== verification/Gen_Written.thy ===== *)
theory Gen_Written
  imports Gen_Valid Emu_Registry
begin

text \<open>
  The catalog between the two programs: what the generator writes is what the emulator's registry
  loads.
\<close>

section \<open>The profile of a catalog entry\<close>

definition port_of :: "catalog_port \<Rightarrow> port" where
  "port_of p = \<lparr>port_IfName = cp_IfName p, port_Name = cp_Name p, port_PortIdx = cp_PortIdx p, port_Media = cp_Media p,
     port_PoECaps = cp_PoECaps p, port_IsUplink = cp_IsUplink p\<rparr>"

definition radio_of :: "catalog_radio \<Rightarrow> radio" where
  "radio_of r = \<lparr>radio_Name = ca_Name r, radio_Radio = ca_Radio r, radio_Channel = 0, radio_HT = ca_HT r,
     radio_MinTxPower = ca_MinTxPower r, radio_MaxTxPower = ca_MaxTxPower r, radio_NSS = ca_NSS r,
     radio_RadioCaps = ca_RadioCaps r, radio_AntennaGain = ca_AntennaGain r\<rparr>"

definition profile_of :: "catalog_model \<Rightarrow> model_profile" where
  "profile_of m = \<lparr>pf_Model = cm_Model m, pf_ModelDisplay = cm_ModelDisplay m, pf_Type = cm_Type m, pf_Version = cm_Version m,
     pf_UDAPIVersion = cm_UDAPIVersion m, pf_UDAPICaps = cm_UDAPICaps m, pf_FWCaps = cm_FWCaps m,
     pf_Ports = map port_of (cm_Ports m), pf_Radios = map radio_of (cm_Radios m)\<rparr>"

text \<open>Texts that are UTF-8 and integers of 64 bits\<close>

definition port_encodable :: "catalog_port \<Rightarrow> bool" where
  "port_encodable p \<longleftrightarrow> valid_utf8 (cp_IfName p) \<and> valid_utf8 (cp_Name p) \<and> valid_utf8 (cp_Media p) \<and>
     in_int64 (cp_PortIdx p) \<and> in_int64 (cp_PoECaps p)"

definition radio_encodable :: "catalog_radio \<Rightarrow> bool" where
  "radio_encodable r \<longleftrightarrow> valid_utf8 (ca_Name r) \<and> valid_utf8 (ca_Radio r) \<and> valid_utf8 (ca_HT r) \<and>
     in_int64 (ca_MinTxPower r) \<and> in_int64 (ca_MaxTxPower r) \<and> in_int64 (ca_NSS r) \<and> in_int64 (ca_RadioCaps r) \<and>
     in_int64 (ca_AntennaGain r)"

definition model_encodable :: "catalog_model \<Rightarrow> bool" where
  "model_encodable m \<longleftrightarrow> valid_utf8 (cm_Model m) \<and> valid_utf8 (cm_ModelDisplay m) \<and> valid_utf8 (cm_Type m) \<and>
     valid_utf8 (cm_Version m) \<and> valid_utf8 (cm_UDAPIVersion m) \<and> in_int64 (cm_UDAPICaps m) \<and> in_int64 (cm_FWCaps m) \<and>
     list_all port_encodable (cm_Ports m) \<and> list_all radio_encodable (cm_Radios m)"

section \<open>Reading a struct back\<close>

lemma dec_member_plain: "plain_key k \<Longrightarrow> k \<in> set fs \<Longrightarrow> dec_member False fs setf (k, v) r = setf k v r"
  by (simp add: dec_member_def unquote_plain_key pick_field_def)

lemma rfold_if_some: "rfold f (if_some b k v) s = (if b then f (k, v) s else Inr s)"
  by (simp add: if_some_def rbind_def split: sum.splits)

lemma dec_string_kstr [simp]: "valid_utf8 s \<Longrightarrow> dec_string f cur (kstr s) = Inr s"
  by (simp add: dec_string_def kstr_def)

lemma dec_int_jint [simp]: "in_int64 i \<Longrightarrow> dec_int f cur (jint i) = Inr i"
  by (simp add: dec_int_def jint_def atoi_itoa)

lemma catalog_plain_keys [simp]:
  "plain_key ''ifname''" "plain_key ''name''" "plain_key ''port_idx''" "plain_key ''media''" "plain_key ''poe_caps''"
  "plain_key ''is_uplink''" "plain_key ''radio''" "plain_key ''ht''" "plain_key ''min_txpower''" "plain_key ''max_txpower''"
  "plain_key ''nss''" "plain_key ''radio_caps''" "plain_key ''antenna_gain''" "plain_key ''model''" "plain_key ''model_display''"
  "plain_key ''type''" "plain_key ''version''" "plain_key ''udapi_version''" "plain_key ''udapi_caps''" "plain_key ''fw_caps''"
  "plain_key ''ports''" "plain_key ''radios''" "plain_key ''controller_version''" "plain_key ''identity_source''"
  "plain_key ''hardware_source''" "plain_key ''models''" "plain_key ''excluded_models''" "plain_key ''reason''"
  by (simp_all add: plain_key_def is_lower_def code_def)

lemma read_port:
  assumes "port_encodable p"
  shows "dec_port zero_port (port_json p) = Inr (port_of p)"
  using assms
  by (simp add: dec_port_def port_json_def dec_struct_def rfold_append rfold_if_some dec_member_plain port_fields_def
      set_port_field_def port_encodable_def zero_port_def port_of_def dec_bool_def)

lemma read_radio:
  assumes "radio_encodable r"
  shows "dec_radio zero_radio (radio_json r) = Inr (radio_of r)"
  using assms
  by (simp add: dec_radio_def radio_json_def dec_struct_def dec_member_plain radio_fields_def
      set_radio_field_def radio_encodable_def zero_radio_def radio_of_def)

interpretation port_text: written dec_port zero_port port_json port_of port_encodable
  by unfold_locales (rule read_port)

interpretation radio_text: written dec_radio zero_radio radio_json radio_of radio_encodable
  by unfold_locales (rule read_radio)

lemma read_model:
  assumes "model_encodable m"
  shows "dec_profile zero_profile (model_json m) = Inr (profile_of m)"
  using assms
  by (simp add: dec_profile_def model_json_def dec_struct_def rfold_append rfold_if_some dec_member_plain profile_fields_def
      set_profile_field_def model_encodable_def zero_profile_def profile_of_def port_text.read_list radio_text.read_list)

interpretation model_text: written dec_profile zero_profile model_json profile_of model_encodable
  by unfold_locales (rule read_model)

section \<open>Writing is well formed\<close>

lemma kstr_ok [simp]: "json_ok (kstr s)" "json_depth (kstr s) = 0"
  by (simp_all add: kstr_def)

lemma struct_if_some [simp]: "struct_ok n (if_some b k v) \<longleftrightarrow> (b \<longrightarrow> plain_key k \<and> json_ok v \<and> json_depth v \<le> n)"
  by (simp add: if_some_def)

definition shallow :: "nat \<Rightarrow> json \<Rightarrow> bool" where
  "shallow n v \<longleftrightarrow> json_ok v \<and> json_depth v \<le> n"

lemma shallow_struct: "struct_ok n kvs \<Longrightarrow> shallow (Suc n) (JObj kvs)"
  unfolding shallow_def by (rule struct_json)

lemma shallow_array: "(\<And>x. x \<in> set xs \<Longrightarrow> shallow n (j x)) \<Longrightarrow> shallow (Suc n) (JArr (map j xs))"
  unfolding shallow_def by (rule array_json) auto

lemma shallow_mono: "shallow n v \<Longrightarrow> n \<le> k \<Longrightarrow> shallow k v"
  by (simp add: shallow_def)

lemma shallow_port: "shallow 1 (port_json p)" and shallow_radio: "shallow 1 (radio_json r)"
  and shallow_excluded: "shallow 1 (excluded_json e)"
  unfolding port_json_def radio_json_def excluded_json_def One_nat_def by (rule shallow_struct, simp)+

lemma shallow_model: "shallow 3 (model_json m)"
proof -
  have "shallow (Suc 1) (JArr (map port_json (cm_Ports m)))" by (rule shallow_array) (rule shallow_port)
  moreover have "shallow (Suc 1) (JArr (map radio_json (cm_Radios m)))" by (rule shallow_array) (rule shallow_radio)
  ultimately show ?thesis
    unfolding model_json_def numeral_3_eq_3 by (intro shallow_struct) (simp add: shallow_def numeral_2_eq_2)
qed

lemma catalog_shallow: "shallow 5 (catalog_json c)"
proof -
  have "shallow (Suc 3) (JArr (map model_json (cf_Models c)))" by (rule shallow_array) (rule shallow_model)
  moreover have "shallow (Suc 1) (JArr (map excluded_json (cf_ExcludedModels c)))" by (rule shallow_array) (rule shallow_excluded)
  ultimately have "shallow (Suc 4) (catalog_json c)"
    unfolding catalog_json_def by (intro shallow_struct) (simp add: shallow_def)
  then show ?thesis by simp
qed

lemma catalog_parses: "json_parse (writeCatalog c) = Some (catalog_json c)"
  unfolding writeCatalog_def
  by (rule json_parse_indented) (use catalog_shallow [of c] in \<open>simp_all add: shallow_def max_nesting_depth_def\<close>)

section \<open>Loading it\<close>

lemma other_catalog_keys:
  "pick_field [''models''] ''controller_version'' = None" "pick_field [''models''] ''identity_source'' = None"
  "pick_field [''models''] ''hardware_source'' = None" "pick_field [''models''] ''excluded_models'' = None"
  by code_simp+

lemma dec_member_other: "plain_key k \<Longrightarrow> pick_field fs k = None \<Longrightarrow> dec_member False fs setf (k, v) r = Inr r"
  by (simp add: dec_member_def unquote_plain_key)

lemma catalog_decodes:
  assumes "list_all model_encodable (cf_Models c)" and "cf_Models c \<noteq> []"
  shows "unmarshal_struct [''models''] set_catalog_field (writeCatalog c) [] = Inr (map profile_of (cf_Models c))"
proof -
  have "dec_list ''models'' dec_profile zero_profile [] (JArr (map model_json (cf_Models c))) = Inr (map profile_of (cf_Models c))"
    by (rule model_text.read_list [OF assms(1)])
  then show ?thesis
    using assms(2)
    by (simp add: unmarshal_struct_def catalog_parses catalog_json_def dec_struct_def rfold_append rfold_if_some dec_member_plain
        dec_member_other other_catalog_keys set_catalog_field_def)
qed

text \<open>A catalog without models is written, and then makes the registry panic.\<close>

lemma empty_catalog_panics:
  assumes "cf_Models c = []"
  shows "loadRegistry (writeCatalog c) = Inl NoModels"
  using assms
  by (simp add: loadRegistry_def unmarshal_struct_def catalog_parses catalog_json_def dec_struct_def rfold_append rfold_if_some
      dec_member_plain dec_member_other other_catalog_keys set_catalog_field_def dec_list_def)

lemma fold_registry:
  assumes "distinct (map pf_Model ps)" and "p \<in> set ps"
  shows "fold (\<lambda>m reg. reg(pf_Model m \<mapsto> set_channels m)) ps reg (pf_Model p) = Some (set_channels p)"
  using assms
proof (induction ps arbitrary: reg)
  case (Cons q ps)
  show ?case
  proof (cases "p \<in> set ps")
    case True
    then show ?thesis using Cons by simp
  next
    case False
    have keep: "k \<notin> pf_Model ` set qs \<Longrightarrow> fold (\<lambda>m reg. reg(pf_Model m \<mapsto> set_channels m)) qs r k = r k" for qs r k
      by (induction qs arbitrary: r) auto
    then have "p = q" "pf_Model q \<notin> pf_Model ` set ps" using False Cons.prems by auto
    then show ?thesis using keep [of "pf_Model q" ps "reg(pf_Model q \<mapsto> set_channels q)"] by (simp del: fun_upd_apply add: fun_upd_same)
  qed
qed simp

lemma written_loads:
  assumes "list_all model_encodable (cf_Models c)" and "cf_Models c \<noteq> []" and "catalog_ok c"
  shows "\<exists>reg. loadRegistry (writeCatalog c) = Inr reg \<and> Models reg = map cm_Model (cf_Models c) \<and>
    (\<forall>m \<in> set (cf_Models c). Profile reg (cm_Model m) = Some (set_channels (profile_of m)))"
proof -
  let ?ps = "map profile_of (cf_Models c)"
  let ?reg = "fold (\<lambda>m reg. reg(pf_Model m \<mapsto> set_channels m)) ?ps Map.empty"
  have names: "map pf_Model ?ps = map cm_Model (cf_Models c)" by (simp add: profile_of_def)
  have l: "loadRegistry (writeCatalog c) = Inr ?reg"
    using catalog_decodes [OF assms(1,2)] assms(2) by (simp add: loadRegistry_def)
  have s: "sorted_wrt (<) (map cm_Model (cf_Models c))" using assms(3) by (simp add: catalog_ok_def)
  then have d: "distinct (map pf_Model ?ps)" using names by (simp only: strict_sorted_iff)
  have "dom ?reg = set (map cm_Model (cf_Models c))"
    using fold_update_dom [of ?ps Map.empty] names by (metis dom_empty list.set_map sup_bot.right_neutral)
  then have "Models ?reg = map cm_Model (cf_Models c)"
    using s by (simp add: Models_def strict_sorted_iff sorted_list_of_set.idem_if_sorted_distinct del: set_map)
  moreover have "Profile ?reg (cm_Model m) = Some (set_channels (profile_of m))" if "m \<in> set (cf_Models c)" for m
    using fold_registry [OF d, of "profile_of m" Map.empty] that by (simp add: Profile_def profile_of_def)
  ultimately show ?thesis using l by blast
qed

end
