(* ===== verification/Gen_Laws.thy ===== *)
theory Gen_Laws
  imports Gen_Written "HOL-Library.Multiset"
begin

text \<open>
  What the generator's modes promise: how a harvest accounts for the models of its bundle, and that
  a catalog boots the emulator whichever way it was made.
\<close>

section \<open>The keys of a bundle\<close>

lemma take_keys_fresh: "fresh id (take_keys bundle seen keys) seen"
  by (induction keys arbitrary: seen) auto

lemma allModelKeys_order: "sorted_wrt (<) (allModelKeys bundle)"
  using take_keys_fresh [of "bundle" "[]"] by (simp add: allModelKeys_def fresh_Nil strict_sorted_iff)

section \<open>Accounting for a bundle\<close>

definition in_scope :: "string \<Rightarrow> string \<Rightarrow> bool" where
  "in_scope bundle model \<longleftrightarrow>
     (case model_meta bundle model of
        None \<Rightarrow> False
      | Some meta \<Rightarrow> dm_Type meta \<in> {''uap'', ''usw'', ''ugw'', ''uxg''})"

text \<open>Every model considered has one fate.\<close>

definition accounted :: "harvest_state \<Rightarrow> bool" where
  "accounted st \<longleftrightarrow>
     mset (hs_Considered st) =
       mset (map cm_Model (hs_Models st)) + mset (map fst (hs_Skipped st)) + mset (map fst (hs_Excluded st)) \<and>
     list_all entry_ok (hs_Models st) \<and>
     list_all (\<lambda>m. map_of excludedModels (cm_Model m) = None) (hs_Models st) \<and>
     list_all (\<lambda>(m, reason). map_of excludedModels m = Some reason) (hs_Excluded st)"

lemma add_fw_caps_fields [simp]: "cm_Model (add_fw_caps ov m) = cm_Model m"
  by (simp add: add_fw_caps_def split: option.splits)

lemma applyOverride_fields [simp]: "cm_Model (applyOverride m ovr) = cm_Model m"
  by (simp add: applyOverride_def Let_def split: option.splits)

lemma override_model_identity: "override_model caps ovr m = Inr m' \<Longrightarrow> cm_Model m' = cm_Model m"
  by (auto simp: override_model_def Let_def rbind_def split: option.splits sum.splits)

text \<open>The ways a step ends\<close>

lemma harvest_step_cases:
  assumes "harvest_step H model st = Inr st'"
  obtains (ignored) "\<not> in_scope (hv_Bundle H) model" "st' = st"
    | (skipped) why where "in_scope (hv_Bundle H) model"
        "st' = st\<lparr>hs_Considered := hs_Considered st @ [model], hs_Skipped := hs_Skipped st @ [(model, why)]\<rparr>"
    | (excluded) reason where "in_scope (hv_Bundle H) model" "map_of excludedModels model = Some reason"
        "st' = st\<lparr>hs_Considered := hs_Considered st @ [model], hs_Excluded := hs_Excluded st @ [(model, reason)]\<rparr>"
    | (taken) m ds where "in_scope (hv_Bundle H) model" "map_of excludedModels model = None" "entry_ok m" "cm_Model m = model"
        "st' = st\<lparr>hs_Considered := hs_Considered st @ [model], hs_Models := hs_Models st @ [m], hs_Defaulted := ds\<rparr>"
proof (cases "model_meta (hv_Bundle H) model")
  case None
  then show thesis using assms ignored by (simp add: harvest_step_def in_scope_def)
next
  case (Some meta)
  show thesis
  proof (cases "in_scope (hv_Bundle H) model")
    case False
    then show thesis using assms ignored Some by (auto simp: harvest_step_def in_scope_def)
  next
    case True
    then have scope: "(dm_Type meta \<notin> {''uap'', ''usw'', ''ugw'', ''uxg''}) = False" using Some by (simp add: in_scope_def)
    note step = assms [unfolded harvest_step_def Some option.case Let_def scope if_False]
    show thesis
    proof (cases "dm_Adoptability meta \<noteq> [] \<and> dm_Adoptability meta \<noteq> ''adoptable''")
      case True
      with step show thesis
        using skipped [of "NotAdoptable (dm_Adoptability meta)"] \<open>in_scope (hv_Bundle H) model\<close> by simp
    next
      case adoptable: False
      show thesis
      proof (cases "map_of excludedModels model")
        case (Some reason)
        then show thesis using step adoptable excluded [OF True] by simp
      next
        case None
        let ?bare = "bare_model model (displayFor model (hv_Display H)) (dm_Type meta) (firmwareVersion (hv_Firmware H) model (dm_Type meta))"
        show thesis
        proof (cases "deriveLayout ?bare (hv_Order H model meta)")
          case (Inl e)
          then show thesis using step adoptable None skipped [of "LayoutProblem e"] True by simp
        next
          case (Inr m)
          then obtain m1 where m1: "override_model (hv_Caps H) (map_of (ov_Models (hv_Overrides H)) model) (add_fw_caps (hv_Overrides H) m) = Inr m1"
            using step adoptable None
            by (cases "override_model (hv_Caps H) (map_of (ov_Models (hv_Overrides H)) model) (add_fw_caps (hv_Overrides H) m)") simp_all
          show thesis
          proof (cases "validateModel m1")
            case (Inl e)
            then show thesis using step adoptable None Inr m1 skipped [of "InvalidModel e"] True by simp
          next
            case valid: (Inr m2)
            have "cm_Model m1 = model" using override_model_identity [OF m1] derived_identity [OF Inr] by (simp add: bare_model_def)
            then have "entry_ok (sort_ports m2)" "cm_Model (sort_ports m2) = model"
              using valid validate_iff [of m1 m2] by (auto simp: entry_ok_sort)
            with step adoptable None Inr m1 valid show thesis
              by (intro taken [OF True None, of "sort_ports m2" "hs_Defaulted st'"]) auto
          qed
        qed
      qed
    qed
  qed
qed

lemma harvest_step_accounted:
  assumes "harvest_step H model st = Inr st'" and "accounted st"
  shows "accounted st' \<and> hs_Considered st' = hs_Considered st @ filter (in_scope (hv_Bundle H)) [model]"
  using assms(1)
proof (cases rule: harvest_step_cases)
  case ignored
  then show ?thesis using assms(2) by simp
next
  case skipped
  then show ?thesis using assms(2) by (simp add: accounted_def)
next
  case excluded
  then show ?thesis using assms(2) by (simp add: accounted_def)
next
  case taken
  then show ?thesis using assms(2) by (simp add: accounted_def)
qed

lemma harvest_loop_accounted:
  assumes "rfold (harvest_step H) keys st = Inr st'" and "accounted st"
  shows "accounted st' \<and> hs_Considered st' = hs_Considered st @ filter (in_scope (hv_Bundle H)) keys"
  using assms
proof (induction keys arbitrary: st)
  case (Cons k keys)
  then obtain st1 where st1: "harvest_step H k st = Inr st1" "rfold (harvest_step H) keys st1 = Inr st'"
    by (cases "harvest_step H k st") simp_all
  note one = harvest_step_accounted [OF st1(1) Cons.prems(2)]
  show ?case using Cons.IH [OF st1(2)] one by simp
qed simp

text \<open>What a successful harvest went through\<close>

lemma harvest_success:
  assumes "harvestBundle H = (report, Inr c)"
  obtains st where "accounted st" "hs_Considered st = filter (in_scope (hv_Bundle H)) (allModelKeys (hv_Bundle H))"
    "report = harvest_report st" "cf_Models c = sort_key cm_Model (hs_Models st)" "cf_ExcludedModels c = excludedCatalogList"
    "fst ` set (ov_Models (hv_Overrides H)) \<subseteq> set (hs_Considered st)"
proof (cases "rfold (harvest_step H) (allModelKeys (hv_Bundle H)) empty_harvest")
  case (Inl e)
  then show thesis using assms by (simp add: harvestBundle_def)
next
  case (Inr st)
  have "accounted empty_harvest" by (simp add: accounted_def empty_harvest_def)
  then have a: "accounted st" "hs_Considered st = filter (in_scope (hv_Bundle H)) (allModelKeys (hv_Bundle H))"
    using harvest_loop_accounted [OF Inr] by (simp_all add: empty_harvest_def)
  have stale: "checkStaleOverrides (hv_Overrides H) (hs_Considered st) = None"
    using assms Inr by (cases "checkStaleOverrides (hv_Overrides H) (hs_Considered st)") (simp_all add: harvestBundle_def)
  then have "fst ` set (ov_Models (hv_Overrides H)) \<subseteq> set (hs_Considered st)"
    by (force simp: checkStaleOverrides_def find_None_iff split: option.splits)
  moreover have "report = harvest_report st" "cf_Models c = sort_key cm_Model (hs_Models st)" "cf_ExcludedModels c = excludedCatalogList"
    using assms Inr stale by (auto simp: harvestBundle_def catalog_of_def)
  ultimately show thesis using that [OF a] by blast
qed

lemma harvest_models:
  assumes "accounted st" and "distinct (hs_Considered st)"
  shows "distinct (map cm_Model (hs_Models st))" and "list_all entry_ok (hs_Models st)"
proof -
  have "mset (map cm_Model (hs_Models st)) \<subseteq># mset (hs_Considered st)" using assms(1) by (simp add: accounted_def)
  then show "distinct (map cm_Model (hs_Models st))"
    using assms(2) by (metis distinct_append mset_append mset_eq_imp_distinct_iff subset_mset.le_iff_add ex_mset)
  show "list_all entry_ok (hs_Models st)" using assms(1) by (simp add: accounted_def)
qed

lemma harvest_ok:
  assumes "harvestBundle H = (report, Inr c)"
  shows "catalog_ok c"
proof (rule harvest_success [OF assms])
  fix st
  assume st: "accounted st" "hs_Considered st = filter (in_scope (hv_Bundle H)) (allModelKeys (hv_Bundle H))"
    "cf_Models c = sort_key cm_Model (hs_Models st)"
  have "distinct (hs_Considered st)" using st(2) allModelKeys_order [of "hv_Bundle H"] by (simp add: strict_sorted_iff)
  then have "catalog_ok (catalog_of [] [] [] (hs_Models st))" using harvest_models [OF st(1)] by (intro catalog_of_ok)
  then show ?thesis using st(3) by (simp add: catalog_ok_def catalog_of_def)
qed

section \<open>Every catalog\<close>

lemma make_catalog_ok:
  assumes "make_catalog P fs = (report, Inr c)"
  shows "catalog_ok c"
proof (cases "string_flag fs ''bundle'' \<noteq> []")
  case True
  then obtain H where "harvestBundle H = (report, Inr c)"
    using assms by (cases "harvest_files P fs") (simp_all add: make_catalog_def)
  then show ?thesis by (rule harvest_ok)
next
  case False
  then have r: "reduce_files P fs = Inr c" using assms by (auto simp: make_catalog_def split: if_splits)
  then obtain input where i: "read_file P (string_flag fs ''input'') = Inr input"
    by (cases "read_file P (string_flag fs ''input'')") (simp_all add: reduce_files_def)
  show ?thesis
  proof (cases "string_flag fs ''device-db-bundle'' \<noteq> []")
    case True
    then obtain db where "reduceDeviceDatabase (gp_MetaOrder P) input db (string_flag fs ''controller-version'') = Inr c"
      using r i by (cases "read_file P (string_flag fs ''device-db-bundle'')") (simp_all add: reduce_files_def)
    then show ?thesis by (rule database_ok)
  next
    case False
    then have "reduce input (string_flag fs ''controller-version'') = Inr c" using r i by (simp add: reduce_files_def)
    then show ?thesis by (rule reduce_ok)
  qed
qed

text \<open>
  C9: a catalog the generator writes is one the emulator starts from, unless it is empty. Whether it is
  harvested from a bundle, reduced from a controller's device list, or reduced with the hardware
  database, every entry describes a device and each model occurs once and in order. If it has a model,
  and its texts are UTF-8 and its numbers fit 64 bits, the text written is loaded by the registry into
  exactly these models, each with the profile of its entry and the default channels of its radios. If
  it has none, the generator writes it all the same and reports success, and the registry panics.
\<close>
theorem generated_catalog_loads:
  assumes "parse_args (gp_Args P) gen_flags = Inr fs" and "\<not> bool_flag fs ''fetch-eth''"
    and c: "make_catalog P fs = (report, Inr c)" and w: "gp_CanWrite P (string_flag fs ''catalog'')"
    and e: "list_all model_encodable (cf_Models c)"
  shows "gen_run P = (map (\<lambda>l. Stderr (Report l)) report @ [Wrote (string_flag fs ''catalog'') (writeCatalog c)], None) \<and>
    catalog_ok c \<and>
    (if cf_Models c = [] then loadRegistry (writeCatalog c) = Inl NoModels
     else \<exists>reg. loadRegistry (writeCatalog c) = Inr reg \<and> Models reg = map cm_Model (cf_Models c) \<and>
       (\<forall>m \<in> set (cf_Models c). Profile reg (cm_Model m) = Some (set_channels (profile_of m))))"
proof -
  have "gen_run P = (map (\<lambda>l. Stderr (Report l)) report @ [Wrote (string_flag fs ''catalog'') (writeCatalog c)], None)"
    using assms(1-4) by (simp add: gen_run_def write_catalog_def)
  then show ?thesis using make_catalog_ok [OF c] written_loads [OF e] empty_catalog_panics by auto
qed

definition sample_dump :: string where
  "sample_dump = ''{\"data\":[{\"model\":\"US8\",\"type\":\"usw\",\"version\":\"7.0\",\"state\":1,\"adopted\":true,\"ethernet_table\":[{\"num_port\":2}]}]}''"

definition sample_gen :: gen_process where
  "sample_gen =
     \<lparr>gp_Args = [''-input'', ''d'', ''-controller-version=1''], gp_ReadFile = (\<lambda>path. if path = ''d'' then Some sample_dump else None),
      gp_CanWrite = (\<lambda>_. True), gp_Get = (\<lambda>_. None), gp_MetaOrder = (\<lambda>_ m. m), gp_KeyOrder = id\<rparr>"

definition sample_entry :: catalog_model where
  "sample_entry = (bare_model ''US8'' ''US8'' ''usw'' ''7.0'')
     \<lparr>cm_Ports := [\<lparr>cp_IfName = ''eth0'', cp_Name = ''Port 1'', cp_PortIdx = 1, cp_Media = ''GE'', cp_PoECaps = 0, cp_IsUplink = True\<rparr>,
                   \<lparr>cp_IfName = ''eth1'', cp_Name = ''Port 2'', cp_PortIdx = 2, cp_Media = ''GE'', cp_PoECaps = 0, cp_IsUplink = False\<rparr>]\<rparr>"

definition sample_fs :: flag_set where
  "sample_fs = set_flag ''controller-version'' (FString ''1'') (set_flag ''input'' (FString ''d'') gen_flags)"

lemma sample_flags: "parse_args (gp_Args sample_gen) gen_flags = Inr sample_fs"
  by code_simp

lemma sample_devices:
  "decode_dump sample_dump = Inr [no_device\<lparr>rd_Model := ''US8'', rd_Type := ''usw'', rd_Version := ''7.0'', rd_State := 1,
     rd_Adopted := True, rd_EthernetTable := [2]\<rparr>]"
  by code_simp

lemma sample_reduced:
  "reduce_devices [] [no_device\<lparr>rd_Model := ''US8'', rd_Type := ''usw'', rd_Version := ''7.0'', rd_State := 1,
     rd_Adopted := True, rd_EthernetTable := [2]\<rparr>] = Inr [sample_entry]"
  by code_simp

lemma sample_catalog_made:
  "make_catalog sample_gen sample_fs =
     ([], Inr (catalog_of ''1'' ''GET /api/s/default/stat/device'' ''adopted stat/device port_table and radio_table'' [sample_entry]))"
proof -
  have "string_flag sample_fs ''bundle'' = []" "string_flag sample_fs ''input'' = ''d''" "string_flag sample_fs ''device-db-bundle'' = []"
    "string_flag sample_fs ''controller-version'' = ''1''" by code_simp+
  moreover have "trim_space ''1'' = ''1''" by code_simp
  ultimately show ?thesis
    by (simp add: make_catalog_def reduce_files_def read_file_def sample_gen_def reduce_def sample_devices sample_reduced del: reduce_devices.simps)
qed

definition empty_gen :: gen_process where
  "empty_gen = sample_gen\<lparr>gp_ReadFile := (\<lambda>path. if path = ''d'' then Some ''{\"data\":[]}'' else None)\<rparr>"

lemma empty_flags: "parse_args (gp_Args empty_gen) gen_flags = Inr sample_fs"
  using sample_flags by (simp add: empty_gen_def)

lemma empty_dump: "decode_dump ''{\"data\":[]}'' = Inr []"
  by code_simp

lemma empty_catalog_made:
  "make_catalog empty_gen sample_fs =
     ([], Inr (catalog_of ''1'' ''GET /api/s/default/stat/device'' ''adopted stat/device port_table and radio_table'' []))"
proof -
  have "string_flag sample_fs ''bundle'' = []" "string_flag sample_fs ''input'' = ''d''" "string_flag sample_fs ''device-db-bundle'' = []"
    "string_flag sample_fs ''controller-version'' = ''1''" by code_simp+
  moreover have "trim_space ''1'' = ''1''" by code_simp
  ultimately show ?thesis
    by (simp add: make_catalog_def reduce_files_def read_file_def empty_gen_def reduce_def empty_dump)
qed

theorem generated_catalog_loads_witness:
  "(\<exists>text reg. gen_run sample_gen = ([Wrote ''model_profiles.json'' text], None) \<and> loadRegistry text = Inr reg \<and>
      Models reg = [''US8''] \<and> Profile reg ''US8'' = Some (set_channels (profile_of sample_entry))) \<and>
   (\<exists>text. gen_run empty_gen = ([Wrote ''model_profiles.json'' text], None) \<and> loadRegistry text = Inl NoModels)"
proof
  let ?c = "catalog_of ''1'' ''GET /api/s/default/stat/device'' ''adopted stat/device port_table and radio_table'' [sample_entry]"
  have c: "cf_Models ?c = [sample_entry]" by (simp add: catalog_of_def)
  have f: "\<not> bool_flag sample_fs ''fetch-eth''" and out: "string_flag sample_fs ''catalog'' = ''model_profiles.json''" by code_simp+
  have e: "list_all model_encodable (cf_Models ?c)"
    unfolding c by code_simp
  have w: "gp_CanWrite sample_gen (string_flag sample_fs ''catalog'')" by (simp add: sample_gen_def)
  have "cm_Model sample_entry = ''US8''" by (simp add: sample_entry_def bare_model_def)
  then show "\<exists>text reg. gen_run sample_gen = ([Wrote ''model_profiles.json'' text], None) \<and> loadRegistry text = Inr reg \<and>
      Models reg = [''US8''] \<and> Profile reg ''US8'' = Some (set_channels (profile_of sample_entry))"
    using generated_catalog_loads [OF sample_flags f sample_catalog_made w e] unfolding c out by auto
next
  let ?c = "catalog_of ''1'' ''GET /api/s/default/stat/device'' ''adopted stat/device port_table and radio_table'' []"
  have c: "cf_Models ?c = []" by (simp add: catalog_of_def)
  have f: "\<not> bool_flag sample_fs ''fetch-eth''" and out: "string_flag sample_fs ''catalog'' = ''model_profiles.json''" by code_simp+
  have e: "list_all model_encodable (cf_Models ?c)" unfolding c by simp
  have w: "gp_CanWrite empty_gen (string_flag sample_fs ''catalog'')" by (simp add: empty_gen_def sample_gen_def)
  show "\<exists>text. gen_run empty_gen = ([Wrote ''model_profiles.json'' text], None) \<and> loadRegistry text = Inl NoModels"
    using generated_catalog_loads [OF empty_flags f empty_catalog_made w e] unfolding out by (simp add: catalog_of_def)
qed

section \<open>The harvest\<close>

text \<open>
  C10: a harvest accounts for its bundle. The models of a type in scope are exactly those that got into
  the catalog, were skipped or were excluded, each once and each skip and exclusion reported; no
  excluded model is in the catalog, which says so itself; and a successful harvest has no override for
  a model the bundle does not offer.
\<close>
theorem harvest_accounts_for_bundle:
  assumes "harvestBundle H = (report, Inr c)"
  shows "\<exists>skipped excluded.
    mset (filter (in_scope (hv_Bundle H)) (allModelKeys (hv_Bundle H))) =
      mset (map cm_Model (cf_Models c)) + mset (map fst skipped) + mset (map fst excluded) \<and>
    (skipped \<noteq> [] \<longrightarrow> SkippedModels skipped \<in> set report) \<and> (excluded \<noteq> [] \<longrightarrow> ExcludedHere excluded \<in> set report) \<and>
    list_all (\<lambda>m. map_of excludedModels (cm_Model m) = None) (cf_Models c) \<and>
    list_all (\<lambda>(m, reason). map_of excludedModels m = Some reason) excluded \<and>
    cf_ExcludedModels c = excludedCatalogList \<and> catalog_ok c \<and>
    (\<forall>m \<in> fst ` set (ov_Models (hv_Overrides H)). m \<in> set (allModelKeys (hv_Bundle H)) \<and> in_scope (hv_Bundle H) m)"
proof (rule harvest_success [OF assms])
  fix st
  assume st: "accounted st" "hs_Considered st = filter (in_scope (hv_Bundle H)) (allModelKeys (hv_Bundle H))"
    "report = harvest_report st" "cf_Models c = sort_key cm_Model (hs_Models st)" "cf_ExcludedModels c = excludedCatalogList"
    "fst ` set (ov_Models (hv_Overrides H)) \<subseteq> set (hs_Considered st)"
  have "mset (map cm_Model (cf_Models c)) = mset (map cm_Model (hs_Models st))" using st(4) by simp
  moreover have "hs_Skipped st \<noteq> [] \<longrightarrow> SkippedModels (hs_Skipped st) \<in> set report"
    "hs_Excluded st \<noteq> [] \<longrightarrow> ExcludedHere (hs_Excluded st) \<in> set report"
    using st(3) by (simp_all add: harvest_report_def)
  moreover have "list_all (\<lambda>m. map_of excludedModels (cm_Model m) = None) (cf_Models c)"
    using st(1,4) by (simp add: accounted_def list_all_iff)
  moreover have "\<forall>m \<in> fst ` set (ov_Models (hv_Overrides H)). m \<in> set (allModelKeys (hv_Bundle H)) \<and> in_scope (hv_Bundle H) m"
    using st(2,6) by auto
  ultimately show ?thesis
    using st(1,2,5) harvest_ok [OF assms]
    by (intro exI [of _ "hs_Skipped st"] exI [of _ "hs_Excluded st"]) (simp add: accounted_def)
qed

definition sample_bundle :: string where
  "sample_bundle = ''x={\"US8\": {\"type\":\"usw\",\"ports\":{\"standard\":2}},\"U7E\":{\"type\":\"uap\"}}''"

definition sample_harvest :: harvest_sources where
  "sample_harvest =
     \<lparr>hv_Bundle = sample_bundle, hv_Display = [], hv_Firmware = [(''US8'', ''7.0'')],
      hv_Overrides = \<lparr>ov_Models = [(''US8'', no_override)], ov_FirmwareCaps = []\<rparr>,
      hv_Caps = \<lparr>cs_ControllerVersion = [], cs_Bitmaps = []\<rparr>, hv_Version = ''1'', hv_Order = (\<lambda>_ m. m)\<rparr>"

lemma sample_keys: "allModelKeys sample_bundle = [''U7E'', ''US8'']"
  by code_simp

lemma sample_metas:
  "model_meta sample_bundle ''US8'' = Some (no_meta\<lparr>dm_Type := ''usw'', dm_Ports := [(''standard'', JNum ''2'')]\<rparr>)"
  "model_meta sample_bundle ''U7E'' = Some (no_meta\<lparr>dm_Type := ''uap''\<rparr>)"
  by code_simp+

lemma sample_layout:
  "deriveLayout (bare_model ''US8'' ''US8'' ''usw'' ''7.0'') (no_meta\<lparr>dm_Type := ''usw'', dm_Ports := [(''standard'', JNum ''2'')]\<rparr>) =
     Inr sample_entry"
  "validateModel sample_entry = Inr sample_entry" "sort_ports sample_entry = sample_entry" "applyOverride sample_entry no_override = sample_entry"
  by code_simp+

lemma sample_excluded: "map_of excludedModels ''U7E'' = Some dropped_ac" "map_of excludedModels ''US8'' = None"
  by (simp_all add: excludedModels_def)

lemma sample_harvested:
  "\<exists>c. harvestBundle sample_harvest = ([ExcludedHere [(''U7E'', dropped_ac)],
       StaleExclusions (staleExclusions [''U7E'', ''US8''])], Inr c) \<and> cf_Models c = [sample_entry]"
proof -
  have one: "harvest_step sample_harvest ''U7E'' empty_harvest =
      Inr (empty_harvest\<lparr>hs_Considered := [''U7E''], hs_Excluded := [(''U7E'', dropped_ac)]\<rparr>)"
    by (simp add: harvest_step_def sample_harvest_def sample_metas sample_excluded no_meta_def empty_harvest_def)
  have two: "harvest_step sample_harvest ''US8'' (empty_harvest\<lparr>hs_Considered := [''U7E''], hs_Excluded := [(''U7E'', dropped_ac)]\<rparr>) =
      Inr (empty_harvest\<lparr>hs_Considered := [''U7E'', ''US8''], hs_Models := [sample_entry], hs_Excluded := [(''U7E'', dropped_ac)]\<rparr>)"
    using sample_layout
    by (simp add: harvest_step_def sample_harvest_def sample_metas sample_excluded displayFor_def firmwareVersion_def add_fw_caps_def
        override_model_def no_meta_def empty_harvest_def no_override_def)
  have stale: "staleExclusions [''U7E'', ''US8''] \<noteq> []" by (simp add: staleExclusions_def excludedModels_def)
  have b: "hv_Bundle sample_harvest = sample_bundle" by (simp add: sample_harvest_def)
  have none: "checkStaleOverrides (hv_Overrides sample_harvest) [''U7E'', ''US8''] = None"
    by (simp add: checkStaleOverrides_def sample_harvest_def)
  show ?thesis
    using one two stale none
    by (simp add: harvestBundle_def b sample_keys harvest_report_def empty_harvest_def catalog_of_def)
qed

theorem harvest_accounts_for_bundle_witness:
  "\<exists>skipped excluded. excluded = [(''U7E'', dropped_ac)] \<and>
     mset (filter (in_scope sample_bundle) [''U7E'', ''US8'']) = {#''US8''#} + mset (map fst skipped) + mset (map fst excluded)"
proof -
  obtain c where c: "harvestBundle sample_harvest = ([ExcludedHere [(''U7E'', dropped_ac)],
       StaleExclusions (staleExclusions [''U7E'', ''US8''])], Inr c)" "cf_Models c = [sample_entry]"
    using sample_harvested by blast
  have b: "hv_Bundle sample_harvest = sample_bundle" by (simp add: sample_harvest_def)
  have n: "cm_Model sample_entry = ''US8''" by (simp add: sample_entry_def bare_model_def)
  have scope: "filter (in_scope sample_bundle) [''U7E'', ''US8''] = [''U7E'', ''US8'']"
    by (simp add: in_scope_def sample_metas no_meta_def)
  obtain skipped excluded where s: "mset [''U7E'', ''US8''] = mset [''US8''] + mset (map fst skipped) + mset (map fst excluded)"
      "skipped = []" "excluded \<noteq> [] \<longrightarrow> ExcludedHere excluded \<in> {ExcludedHere [(''U7E'', dropped_ac)]}"
    using harvest_accounts_for_bundle [OF c(1)] unfolding b sample_keys scope c(2) by (auto simp: n)
  then have "excluded = [(''U7E'', dropped_ac)]" by auto
  then show ?thesis using s unfolding scope by auto
qed

end
