(* ===== verification/Gen_Order.thy ===== *)
theory Gen_Order
  imports Gen_Laws
begin

text \<open>
  The generator ranges over maps, whose order Go leaves open. What it generates does not depend on
  that order.
\<close>

section \<open>The same metadata in another order\<close>

definition same_meta :: "device_db_model \<Rightarrow> device_db_model \<Rightarrow> bool" where
  "same_meta a b \<longleftrightarrow> dm_Type b = dm_Type a \<and> dm_PoE b = dm_PoE a \<and> mset (dm_Ports b) = mset (dm_Ports a) \<and>
     mset (dm_Radios b) = mset (dm_Radios a) \<and> mset (dm_LinkNegotiation b) = mset (dm_LinkNegotiation a)"

text \<open>An order visits every entry once.\<close>

definition reorders :: "(string \<Rightarrow> device_db_model \<Rightarrow> device_db_model) \<Rightarrow> bool" where
  "reorders order \<longleftrightarrow> (\<forall>model meta. same_meta meta (order model meta))"

definition keys_once :: "device_db_model \<Rightarrow> bool" where
  "keys_once d \<longleftrightarrow> distinct (map fst (dm_Ports d)) \<and> distinct (map fst (dm_Radios d)) \<and> distinct (map fst (dm_LinkNegotiation d))"

lemma set_meta_field_keys: "set_meta_field f v d = Inr d' \<Longrightarrow> keys_once d \<Longrightarrow> keys_once d'"
  unfolding set_meta_field_def rbind_def keys_once_def
  by (auto dest: dec_map_keys split: if_splits sum.splits)

lemma rfold_meta_keys:
  "rfold (dec_member False fs set_meta_field) kvs d = Inr d' \<Longrightarrow> keys_once d \<Longrightarrow> keys_once d'"
proof (induction kvs arbitrary: d)
  case (Cons kv kvs)
  obtain k v where kv: "kv = (k, v)" by (cases kv)
  obtain d1 where d1: "dec_member False fs set_meta_field kv d = Inr d1" "rfold (dec_member False fs set_meta_field) kvs d1 = Inr d'"
    using Cons.prems(1) by (cases "dec_member False fs set_meta_field kv d") simp_all
  have "keys_once d1"
    using d1(1) Cons.prems(2) set_meta_field_keys by (cases "pick_field fs (unquote k)") (auto simp: dec_member_def kv)
  then show ?case using Cons.IH [OF d1(2)] by simp
qed simp

lemma decode_meta_keys: "decode_meta obj = Inr meta \<Longrightarrow> keys_once meta"
proof -
  have z: "keys_once no_meta" by (simp add: keys_once_def no_meta_def)
  assume "decode_meta obj = Inr meta"
  then show ?thesis
    using rfold_meta_keys [OF _ z] z by (auto simp: decode_meta_def unmarshal_struct_def dec_struct_def split: option.splits json.splits)
qed

lemma map_of_mset:
  assumes "distinct (map fst xs)" and "mset ys = mset xs"
  shows "map_of ys = map_of xs"
proof -
  have "mset (map fst ys) = mset (map fst xs)" using assms(2) by (metis mset_map)
  then have "distinct (map fst ys)" using assms(1) by (metis mset_eq_imp_distinct_iff)
  then show ?thesis using assms mset_eq_setD map_of_inject_set by blast
qed

lemma map_of_same:
  assumes "keys_once meta" and "same_meta meta m"
  shows "map_of (dm_Ports m) = map_of (dm_Ports meta)" "map_of (dm_LinkNegotiation m) = map_of (dm_LinkNegotiation meta)"
  using assms by (auto simp: keys_once_def same_meta_def intro!: map_of_mset)

section \<open>Layouts\<close>

lemma rmap_failure: "(\<exists>e. rmap f xs = Inl e) \<longleftrightarrow> (\<exists>x \<in> set xs. \<exists>e. f x = Inl e)"
  by (induction xs) (auto simp: rbind_def split: sum.splits)

lemma rmap_success: "rmap f xs = Inr ys \<Longrightarrow> mset ys = image_mset (\<lambda>x. case f x of Inr y \<Rightarrow> y | Inl _ \<Rightarrow> undefined) (mset xs)"
  by (induction xs arbitrary: ys) (auto simp: rbind_def split: sum.splits)

lemma mset_map_filter_id: "mset (List.map_filter id xs) = image_mset the (filter_mset (\<lambda>x. x \<noteq> None) (mset xs))"
  by (induction xs) (auto simp: List.map_filter_def)

text \<open>Two results of the range that differ in the order of ties only\<close>

definition same_head :: "catalog_model \<Rightarrow> catalog_model \<Rightarrow> bool" where
  "same_head a b \<longleftrightarrow> cm_Model b = cm_Model a \<and> cm_ModelDisplay b = cm_ModelDisplay a \<and> cm_Type b = cm_Type a \<and>
     cm_Version b = cm_Version a \<and> cm_UDAPIVersion b = cm_UDAPIVersion a \<and> cm_UDAPICaps b = cm_UDAPICaps a \<and>
     cm_FWCaps b = cm_FWCaps a"

text \<open>The ports and radios of a range: in order, the radios named by their band\<close>

definition radio_named :: "catalog_radio \<Rightarrow> bool" where
  "radio_named r \<longleftrightarrow> ca_Name r = ''wifi-'' @ ca_Radio r"

definition ranged :: "catalog_model \<Rightarrow> bool" where
  "ranged m \<longleftrightarrow> sorted (map cp_PortIdx (cm_Ports m)) \<and> sorted (map (\<lambda>r. band_order (ca_Radio r)) (cm_Radios m)) \<and>
     (\<forall>r \<in> set (cm_Radios m). radio_named r)"

definition shuffled :: "catalog_model \<Rightarrow> catalog_model \<Rightarrow> bool" where
  "shuffled a b \<longleftrightarrow> same_head a b \<and> mset (cm_Ports b) = mset (cm_Ports a) \<and> mset (cm_Radios b) = mset (cm_Radios a) \<and>
     ranged a \<and> ranged b"

lemma shuffled_sym: "shuffled a b \<Longrightarrow> shuffled b a"
  by (simp add: shuffled_def same_head_def)

lemma gateway_shuffled:
  assumes "keys_once meta" and "same_meta meta m1" and "same_meta meta m2"
  shows "(\<exists>e e'. gatewayPorts m1 = Inl e \<and> gatewayPorts m2 = Inl e') \<or>
    (\<exists>ps qs. gatewayPorts m1 = Inr ps \<and> gatewayPorts m2 = Inr qs \<and> mset ps = mset qs)"
proof -
  have links: "map_of (dm_LinkNegotiation m1) = map_of (dm_LinkNegotiation m2)"
    using map_of_same(2) [OF assms(1,2)] map_of_same(2) [OF assms(1,3)] by simp
  then have port: "gateway_port (dm_LinkNegotiation m1) = gateway_port (dm_LinkNegotiation m2)"
    by (intro ext) (simp only: gateway_port_def)
  let ?f = "gateway_port (dm_LinkNegotiation m2)"
  have ms: "mset (dm_Ports m1) = mset (dm_Ports m2)" using assms by (simp add: same_meta_def)
  then have s: "set (dm_Ports m1) = set (dm_Ports m2)" by (rule mset_eq_setD)
  show ?thesis
  proof (cases "dm_Ports m1 = []")
    case True
    then show ?thesis using ms by (simp add: gatewayPorts_def)
  next
    case False
    then have ne: "dm_Ports m2 \<noteq> []" using ms by auto
    show ?thesis
    proof (cases "rmap ?f (dm_Ports m1)")
      case (Inl e)
      then obtain e' where "rmap ?f (dm_Ports m2) = Inl e'" using rmap_failure [of ?f] s by metis
      then show ?thesis using Inl False ne by (simp add: gatewayPorts_def port)
    next
      case (Inr ps)
      then obtain qs where qs: "rmap ?f (dm_Ports m2) = Inr qs"
        using rmap_failure [of ?f] s by (metis Inl_Inr_False sum.exhaust)
      have "mset ps = mset qs" using rmap_success [OF Inr] rmap_success [OF qs] ms by simp
      then have m: "mset (List.map_filter id ps) = mset (List.map_filter id qs)" by (simp add: mset_map_filter_id)
      then have "List.map_filter id ps = [] \<longleftrightarrow> List.map_filter id qs = []" by (metis mset_zero_iff)
      then show ?thesis using Inr qs m False ne by (simp add: gatewayPorts_def port)
    qed
  qed
qed

lemma switch_same:
  assumes "keys_once meta" and "same_meta meta m1" and "same_meta meta m2"
  shows "switchMetadataPorts model m1 = switchMetadataPorts model m2"
proof -
  have "map_of (dm_Ports m1) = map_of (dm_Ports m2)" "dm_PoE m1 = dm_PoE m2"
    using map_of_same(1) [OF assms(1,2)] map_of_same(1) [OF assms(1,3)] assms(2,3) by (simp_all add: same_meta_def)
  then have "add_category model m1 = add_category model m2" by (intro ext) (simp only: add_category_def)
  then show ?thesis using \<open>dm_PoE m1 = dm_PoE m2\<close> by (simp only: switchMetadataPorts_def)
qed

lemma derive_shuffled:
  assumes "keys_once meta" and "same_meta meta m1" and "same_meta meta m2" and x: "cm_Radios x = []"
  shows "(\<exists>e e'. deriveLayout x m1 = Inl e \<and> deriveLayout x m2 = Inl e') \<or>
    (\<exists>a b. deriveLayout x m1 = Inr a \<and> deriveLayout x m2 = Inr b \<and> shuffled a b)"
proof -
  consider (gateway) "cm_Type x = ''ugw'' \<or> cm_Type x = ''uxg''" | (switch) "cm_Type x = ''usw''" | (ap) "cm_Type x = ''uap''"
    | (other) "cm_Type x \<notin> {''ugw'', ''uxg'', ''usw'', ''uap''}" by blast
  then show ?thesis
  proof cases
    case gateway
    from gateway_shuffled [OF assms(1-3)] show ?thesis
    proof (elim disjE exE conjE)
      fix e e' assume "gatewayPorts m1 = Inl e" "gatewayPorts m2 = Inl e'"
      then show ?thesis using gateway by (simp add: deriveLayout_def)
    next
      fix ps qs assume p: "gatewayPorts m1 = Inr ps" "gatewayPorts m2 = Inr qs" "mset ps = mset qs"
      then have "shuffled (x\<lparr>cm_Ports := ps\<rparr>) (x\<lparr>cm_Ports := qs\<rparr>)"
        using gateway_ports_order x by (simp add: shuffled_def same_head_def ranged_def)
      then show ?thesis using gateway p by (simp add: deriveLayout_def)
    qed
  next
    case switch
    show ?thesis
    proof (cases "switchMetadataPorts (cm_Model x) m1")
      case (Inl e)
      then show ?thesis using switch switch_same [OF assms(1-3), of "cm_Model x"] by (simp add: deriveLayout_def)
    next
      case (Inr ps)
      then have "shuffled (x\<lparr>cm_Ports := ps\<rparr>) (x\<lparr>cm_Ports := ps\<rparr>)"
        using switch_ports_order [OF Inr] x by (simp add: shuffled_def same_head_def ranged_def strict_sorted_iff)
      then show ?thesis using switch Inr switch_same [OF assms(1-3), of "cm_Model x"] by (simp add: deriveLayout_def)
    qed
  next
    case ap
    let ?m = "\<lambda>m. x\<lparr>cm_Ports := accessPointPorts (cm_Model x), cm_Radios := metadataRadios (cm_Model x) m\<rparr>"
    have "sorted (map cp_PortIdx (accessPointPorts (cm_Model x)))"
      using access_point_order [where m = x and model = "cm_Model x" and rs = "[]"] by (simp add: ports_in_order_def strict_sorted_iff)
    moreover have "mset (metadataRadios (cm_Model x) m1) = mset (metadataRadios (cm_Model x) m2)"
      using assms(2,3) by (simp add: metadataRadios_def same_meta_def)
    ultimately have "shuffled (?m m1) (?m m2)" by (auto simp: shuffled_def same_head_def ranged_def metadataRadios_def band_radio_def radio_named_def)
    then show ?thesis using ap by (simp add: deriveLayout_def)
  next
    case other
    then show ?thesis by (simp add: deriveLayout_def)
  qed
qed

section \<open>Overrides\<close>

lemma shuffled_fw_caps: "shuffled a b \<Longrightarrow> shuffled (add_fw_caps ov a) (add_fw_caps ov b)"
  by (auto simp: shuffled_def same_head_def ranged_def add_fw_caps_def split: option.splits)

lemma set_nss_fields: "set_nss ro rs = map (\<lambda>r. r\<lparr>ca_NSS := (if ca_Radio r = fst ro \<and> snd ro > 0 then snd ro else ca_NSS r)\<rparr>) rs"
  by (auto simp: set_nss_def)

lemma fold_set_nss:
  "mset rs = mset ts \<Longrightarrow> mset (fold set_nss ros rs) = mset (fold set_nss ros ts)"
  by (induction ros arbitrary: rs ts) (simp_all add: set_nss_fields)

lemma fold_set_nss_map: "(\<And>r n. f (r\<lparr>ca_NSS := n\<rparr>) = f r) \<Longrightarrow> map f (fold set_nss ros rs) = map f rs"
  by (induction ros arbitrary: rs) (simp_all add: set_nss_fields)

lemma ranged_override: "ranged m \<Longrightarrow> ranged (applyOverride m ovr)"
proof -
  assume r: "ranged m"
  have radios: "map (\<lambda>r. band_order (ca_Radio r)) (fold set_nss (mo_Radios ovr) rs) = map (\<lambda>r. band_order (ca_Radio r)) rs"
    "map radio_named (fold set_nss (mo_Radios ovr) rs) = map radio_named rs" for rs
    by (rule fold_set_nss_map, simp add: radio_named_def)+
  have all: "(\<forall>r \<in> set rs. radio_named r) \<longleftrightarrow> False \<notin> set (map radio_named rs)" for rs
    by auto
  have names: "(\<forall>r \<in> set (fold set_nss (mo_Radios ovr) rs). radio_named r) \<longleftrightarrow>
      (\<forall>r \<in> set rs. radio_named r)" for rs
    unfolding all radios(2) by (rule refl)
  have eth: "map cp_PortIdx (map (eth_port media) is) = is" for media "is" by (rule mapped_order) (simp add: eth_port_def)
  show ?thesis
    using r upto_strict by (simp add: ranged_def applyOverride_def Let_def radios names eth strict_sorted_iff del: map_map split: option.splits)
qed

lemma shuffled_override: "shuffled a b \<Longrightarrow> shuffled (applyOverride a ovr) (applyOverride b ovr)"
proof -
  assume s: "shuffled a b"
  then have "mset (fold set_nss (mo_Radios ovr) (cm_Radios b)) = mset (fold set_nss (mo_Radios ovr) (cm_Radios a))"
    by (intro fold_set_nss) (simp add: shuffled_def)
  then have "mset (cm_Ports (applyOverride b ovr)) = mset (cm_Ports (applyOverride a ovr))"
    "mset (cm_Radios (applyOverride b ovr)) = mset (cm_Radios (applyOverride a ovr))"
    using s by (simp_all add: applyOverride_def Let_def shuffled_def split: option.splits)
  moreover have "same_head (applyOverride a ovr) (applyOverride b ovr)"
    using s by (simp add: applyOverride_def Let_def shuffled_def same_head_def split: option.splits)
  ultimately show ?thesis using s ranged_override by (simp add: shuffled_def)
qed

lemma override_shuffled:
  assumes "shuffled a b"
  shows "(\<exists>e. override_model caps ovr a = Inl e \<and> override_model caps ovr b = Inl e) \<or>
    (\<exists>a' b'. override_model caps ovr a = Inr a' \<and> override_model caps ovr b = Inr b' \<and> shuffled a' b')"
proof (cases ovr)
  case None
  then show ?thesis using assms by (simp add: override_model_def)
next
  case (Some ov)
  note s = shuffled_override [OF assms, of ov]
  show ?thesis
  proof (cases "mo_UDAPI ov")
    case None
    then show ?thesis using Some s by (simp add: override_model_def Let_def)
  next
    case u: (Some u)
    have m: "cm_Model b = cm_Model a" using assms by (simp add: shuffled_def same_head_def)
    show ?thesis
    proof (cases "udapiMask caps (cm_Model a) (cap_names u)")
      case (Inl e)
      then show ?thesis using Some u m by (simp add: override_model_def Let_def)
    next
      case (Inr bits)
      have "shuffled (applyOverride a ov\<lparr>cm_UDAPIVersion := uo_Version u, cm_UDAPICaps := bits\<rparr>)
          (applyOverride b ov\<lparr>cm_UDAPIVersion := uo_Version u, cm_UDAPICaps := bits\<rparr>)"
        using s by (simp add: shuffled_def same_head_def ranged_def)
      then show ?thesis using Some u m Inr by (simp add: override_model_def Let_def)
    qed
  qed
qed

section \<open>Validation decides the ties\<close>

lemma sorted_key_unique:
  assumes "mset xs = mset ys" and "inj_on f (set xs)" and "distinct xs" and "sorted (map f xs)" and "sorted (map f ys)"
  shows "xs = ys"
proof -
  have s: "set xs = set ys" using assms(1) by (rule mset_eq_setD)
  have d: "distinct ys" using assms(1,3) by (metis mset_eq_imp_distinct_iff)
  show ?thesis
    by (rule map_sorted_distinct_set_unique [of f]) (use assms s d in \<open>simp_all add: distinct_map\<close>)
qed

lemma shuffled_valid:
  assumes "shuffled a b" and "model_ok (filled a)"
  shows "b = a"
proof -
  have ok: "distinct (map cp_PortIdx (cm_Ports a))" "distinct (map ca_Name (cm_Radios a))" "list_all radio_ok (cm_Radios a)"
    using assms(2) by (simp_all add: model_ok_def filled_def o_def)
  have "cm_Ports a = cm_Ports b"
    by (rule sorted_key_unique [of _ _ cp_PortIdx]) (use assms(1) ok(1) in \<open>simp_all add: shuffled_def ranged_def distinct_map\<close>)
  moreover have "cm_Radios a = cm_Radios b"
  proof (rule sorted_key_unique [of _ _ "\<lambda>r. band_order (ca_Radio r)"])
    show "inj_on (\<lambda>r. band_order (ca_Radio r)) (set (cm_Radios a))"
    proof (rule inj_onI)
      fix r s assume rs: "r \<in> set (cm_Radios a)" "s \<in> set (cm_Radios a)" "band_order (ca_Radio r) = band_order (ca_Radio s)"
      then have "ca_Radio r \<in> {''ng'', ''na'', ''6e''}" "ca_Radio s \<in> {''ng'', ''na'', ''6e''}"
        using ok(3) by (auto simp: list_all_iff radio_ok_def)
      then have "ca_Radio r = ca_Radio s" using rs(3) by (auto simp: band_order_def)
      then have "ca_Name r = ca_Name s" using assms(1) rs(1,2) by (simp add: shuffled_def ranged_def radio_named_def)
      then show "r = s" using ok(2) rs(1,2) by (auto simp: distinct_map dest: inj_onD)
    qed
  qed (use assms(1) ok(2) in \<open>simp_all add: shuffled_def ranged_def distinct_map\<close>)
  ultimately show ?thesis using assms(1) by (intro catalog_model.equality) (simp_all add: shuffled_def same_head_def)
qed

lemma validate_shuffled: "shuffled a b \<Longrightarrow> validateModel a = Inr r \<Longrightarrow> validateModel b = Inr r"
  using validate_iff shuffled_valid by metis

section \<open>Harvests\<close>

text \<open>Two states of the loop that differ in the reasons of what was skipped only\<close>

definition same_fates :: "harvest_state \<Rightarrow> harvest_state \<Rightarrow> bool" where
  "same_fates a b \<longleftrightarrow> hs_Considered b = hs_Considered a \<and> hs_Models b = hs_Models a \<and> hs_Defaulted b = hs_Defaulted a \<and>
     hs_Excluded b = hs_Excluded a \<and> map fst (hs_Skipped b) = map fst (hs_Skipped a)"

fun same_result :: "gen_error + harvest_state \<Rightarrow> gen_error + harvest_state \<Rightarrow> bool" where
  "same_result (Inl e) (Inl e') = (e' = e)"
| "same_result (Inr a) (Inr b) = same_fates a b"
| "same_result (Inl _) (Inr _) = False"
| "same_result (Inr _) (Inl _) = False"

lemma model_meta_keys: "model_meta bundle model = Some meta \<Longrightarrow> keys_once meta"
  by (auto simp: model_meta_def dest: decode_meta_keys split: option.splits sum.splits)

lemma bare_model_radios: "cm_Radios (bare_model model display type version) = []"
  by (simp add: bare_model_def)

text \<open>What becomes of a model that is offered and not excluded: skipped for a reason, or taken\<close>

definition fate :: "harvest_sources \<Rightarrow> string \<Rightarrow> device_db_model \<Rightarrow> gen_error + (skip_reason + catalog_model)" where
  "fate H model meta =
     (case deriveLayout (bare_model model (displayFor model (hv_Display H)) (dm_Type meta)
                           (firmwareVersion (hv_Firmware H) model (dm_Type meta))) (hv_Order H model meta) of
        Inl e \<Rightarrow> Inr (Inl (LayoutProblem e))
      | Inr m \<Rightarrow>
          rbind (override_model (hv_Caps H) (map_of (ov_Models (hv_Overrides H)) model) (add_fw_caps (hv_Overrides H) m)) (\<lambda>m.
            case validateModel m of
              Inl e \<Rightarrow> Inr (Inl (InvalidModel e))
            | Inr m \<Rightarrow> Inr (Inr m)))"

lemma harvest_step_fate:
  assumes meta: "model_meta (hv_Bundle H) model = Some meta" and scope: "dm_Type meta \<in> {''uap'', ''usw'', ''ugw'', ''uxg''}"
    and offered: "\<not> (dm_Adoptability meta \<noteq> [] \<and> dm_Adoptability meta \<noteq> ''adoptable'')" and free: "map_of excludedModels model = None"
  shows "harvest_step H model st =
    rbind (fate H model meta) (\<lambda>r. Inr (case r of
        Inl why \<Rightarrow> st\<lparr>hs_Considered := hs_Considered st @ [model], hs_Skipped := hs_Skipped st @ [(model, why)]\<rparr>
      | Inr m \<Rightarrow> st\<lparr>hs_Considered := hs_Considered st @ [model], hs_Models := hs_Models st @ [sort_ports m],
          hs_Defaulted :=
            (if dm_Type meta = ''uap'' \<and> (case map_of (ov_Models (hv_Overrides H)) model of None \<Rightarrow> True | Some ov \<Rightarrow> mo_Eth ov = None)
             then hs_Defaulted st @ [model] else hs_Defaulted st)\<rparr>))"
proof -
  have s: "(dm_Type meta \<notin> {''uap'', ''usw'', ''ugw'', ''uxg''}) = False" using scope by simp
  note step = harvest_step_def [of H model st, unfolded meta option.case Let_def s if_False if_not_P [OF offered] free]
  let ?bare = "bare_model model (displayFor model (hv_Display H)) (dm_Type meta) (firmwareVersion (hv_Firmware H) model (dm_Type meta))"
  let ?over = "\<lambda>m. override_model (hv_Caps H) (map_of (ov_Models (hv_Overrides H)) model) (add_fw_caps (hv_Overrides H) m)"
  show ?thesis
  proof (cases "deriveLayout ?bare (hv_Order H model meta)")
    case (Inl e)
    then show ?thesis unfolding step by (simp add: fate_def)
  next
    case m: (Inr m)
    show ?thesis
    proof (cases "?over m")
      case (Inl e)
      then show ?thesis unfolding step using m by (simp add: fate_def)
    next
      case (Inr x)
      then show ?thesis unfolding step using m by (cases "validateModel x") (simp_all add: fate_def)
    qed
  qed
qed

lemma fate_same:
  assumes "reorders o1" and "reorders o2" and "keys_once meta"
  shows "(\<exists>e. fate (H\<lparr>hv_Order := o1\<rparr>) model meta = Inl e \<and> fate (H\<lparr>hv_Order := o2\<rparr>) model meta = Inl e) \<or>
    (\<exists>w w'. fate (H\<lparr>hv_Order := o1\<rparr>) model meta = Inr (Inl w) \<and> fate (H\<lparr>hv_Order := o2\<rparr>) model meta = Inr (Inl w')) \<or>
    (\<exists>m. fate (H\<lparr>hv_Order := o1\<rparr>) model meta = Inr (Inr m) \<and> fate (H\<lparr>hv_Order := o2\<rparr>) model meta = Inr (Inr m))"
proof -
  let ?bare = "bare_model model (displayFor model (hv_Display H)) (dm_Type meta) (firmwareVersion (hv_Firmware H) model (dm_Type meta))"
  let ?caps = "add_fw_caps (hv_Overrides H)"
  let ?over = "override_model (hv_Caps H) (map_of (ov_Models (hv_Overrides H)) model)"
  have m: "same_meta meta (o1 model meta)" "same_meta meta (o2 model meta)" using assms(1,2) by (simp_all add: reorders_def)
  from derive_shuffled [OF assms(3) m bare_model_radios]
  consider (bad) e e' where "deriveLayout ?bare (o1 model meta) = Inl e" "deriveLayout ?bare (o2 model meta) = Inl e'"
    | (good) a b where "deriveLayout ?bare (o1 model meta) = Inr a" "deriveLayout ?bare (o2 model meta) = Inr b" "shuffled a b"
    by blast
  then show ?thesis
  proof cases
    case bad
    then show ?thesis by (simp add: fate_def)
  next
    case good
    from override_shuffled [OF shuffled_fw_caps [OF good(3)]]
    consider (fail) e where "?over (?caps a) = Inl e" "?over (?caps b) = Inl e"
      | (over) x y where "?over (?caps a) = Inr x" "?over (?caps b) = Inr y" "shuffled x y"
      by blast
    then show ?thesis
    proof cases
      case fail
      then show ?thesis using good by (simp add: fate_def)
    next
      case over
      show ?thesis
      proof (cases "validateModel x")
        case (Inr z)
        then have "validateModel y = Inr z" using validate_shuffled [OF over(3)] by blast
        then show ?thesis using good over Inr by (simp add: fate_def)
      next
        case (Inl e)
        then obtain e' where "validateModel y = Inl e'"
          using validate_shuffled [OF shuffled_sym [OF over(3)]] by (cases "validateModel y") auto
        then show ?thesis using good over Inl by (simp add: fate_def)
      qed
    qed
  qed
qed

lemma harvest_step_same:
  assumes "reorders o1" and "reorders o2" and s: "same_fates st st'"
  shows "same_result (harvest_step (H\<lparr>hv_Order := o1\<rparr>) model st) (harvest_step (H\<lparr>hv_Order := o2\<rparr>) model st')"
proof (cases "model_meta (hv_Bundle H) model")
  case None
  then show ?thesis using s by (simp add: harvest_step_def)
next
  case (Some meta)
  note fates = s [unfolded same_fates_def]
  have meta: "model_meta (hv_Bundle (H\<lparr>hv_Order := ord\<rparr>)) model = Some meta" for ord using Some by simp
  consider (out) "dm_Type meta \<notin> {''uap'', ''usw'', ''ugw'', ''uxg''}"
    | (adopt) "dm_Type meta \<in> {''uap'', ''usw'', ''ugw'', ''uxg''}" "dm_Adoptability meta \<noteq> [] \<and> dm_Adoptability meta \<noteq> ''adoptable''"
    | (excl) reason where "dm_Type meta \<in> {''uap'', ''usw'', ''ugw'', ''uxg''}"
        "\<not> (dm_Adoptability meta \<noteq> [] \<and> dm_Adoptability meta \<noteq> ''adoptable'')" "map_of excludedModels model = Some reason"
    | (layout) "dm_Type meta \<in> {''uap'', ''usw'', ''ugw'', ''uxg''}"
        "\<not> (dm_Adoptability meta \<noteq> [] \<and> dm_Adoptability meta \<noteq> ''adoptable'')" "map_of excludedModels model = None"
    by (cases "map_of excludedModels model") blast+
  then show ?thesis
  proof cases
    case out
    then show ?thesis using Some s by (simp add: harvest_step_def)
  next
    case adopt
    then show ?thesis using Some fates by (simp add: harvest_step_def same_fates_def)
  next
    case excl
    have scope: "(dm_Type meta \<notin> {''uap'', ''usw'', ''ugw'', ''uxg''}) = False" using excl by simp
    show ?thesis
      unfolding harvest_step_def meta option.case Let_def scope if_False if_not_P [OF excl(2)] excl(3)
      using fates by (simp add: same_fates_def)
  next
    case layout
    from fate_same [OF assms(1,2) model_meta_keys [OF Some], of H model] show ?thesis
      unfolding harvest_step_fate [OF meta layout] using fates by (elim disjE exE conjE) (simp_all add: same_fates_def)
  qed
qed

lemma harvest_loop_same:
  assumes "reorders o1" and "reorders o2" and "same_fates st st'"
  shows "same_result (rfold (harvest_step (H\<lparr>hv_Order := o1\<rparr>)) models st) (rfold (harvest_step (H\<lparr>hv_Order := o2\<rparr>)) models st')"
  using assms(3)
proof (induction models arbitrary: st st')
  case (Cons model models)
  have step: "same_result (harvest_step (H\<lparr>hv_Order := o1\<rparr>) model st) (harvest_step (H\<lparr>hv_Order := o2\<rparr>) model st')"
    by (rule harvest_step_same [OF assms(1,2) Cons.prems])
  show ?case
  proof (cases "harvest_step (H\<lparr>hv_Order := o1\<rparr>) model st")
    case (Inl e)
    then show ?thesis using step by (cases "harvest_step (H\<lparr>hv_Order := o2\<rparr>) model st'") simp_all
  next
    case (Inr a)
    then obtain b where "harvest_step (H\<lparr>hv_Order := o2\<rparr>) model st' = Inr b" "same_fates a b"
      using step by (cases "harvest_step (H\<lparr>hv_Order := o2\<rparr>) model st'") simp_all
    then show ?thesis using Inr Cons.IH by simp
  qed
qed simp

text \<open>Two lines of the report that differ in the reasons of what was skipped only\<close>

fun same_line :: "report_line \<Rightarrow> report_line \<Rightarrow> bool" where
  "same_line (SkippedModels xs) (SkippedModels ys) = (map fst ys = map fst xs)"
| "same_line l l' = (l' = l)"

lemma same_line_refl [simp]: "same_line l l"
  by (cases l) simp_all

lemma same_report: "same_fates a b \<Longrightarrow> list_all2 same_line (harvest_report a) (harvest_report b)"
proof -
  assume s: "same_fates a b"
  then have "hs_Skipped b = [] \<longleftrightarrow> hs_Skipped a = []" by (metis Nil_is_map_conv same_fates_def)
  then show ?thesis using s by (auto simp: harvest_report_def same_fates_def intro!: list_all2_appendI)
qed

text \<open>
  C11: what a harvest makes of a bundle does not depend on the order in which the runtime visits the maps
  of the bundle's metadata. The same models are considered, taken, skipped and excluded, a failing
  harvest fails with the same error, the catalog is the same, and the reports differ at most in which of
  several reasons a skipped model is given.
\<close>
theorem harvest_order_independent:
  assumes "reorders o1" and "reorders o2"
  shows "snd (harvestBundle (H\<lparr>hv_Order := o1\<rparr>)) = snd (harvestBundle (H\<lparr>hv_Order := o2\<rparr>)) \<and>
    list_all2 same_line (fst (harvestBundle (H\<lparr>hv_Order := o1\<rparr>))) (fst (harvestBundle (H\<lparr>hv_Order := o2\<rparr>)))"
proof -
  let ?r = "\<lambda>ord. rfold (harvest_step (H\<lparr>hv_Order := ord\<rparr>)) (allModelKeys (hv_Bundle H)) empty_harvest"
  have same: "same_result (?r o1) (?r o2)" by (rule harvest_loop_same [OF assms]) (simp add: same_fates_def)
  show ?thesis
  proof (cases "?r o1")
    case (Inl e)
    then have "?r o2 = Inl e" using same by (cases "?r o2") simp_all
    then show ?thesis using Inl by (simp add: harvestBundle_def)
  next
    case (Inr a)
    then obtain b where b: "?r o2 = Inr b" "same_fates a b" using same by (cases "?r o2") simp_all
    have "hs_Considered b = hs_Considered a" "hs_Models b = hs_Models a" using b(2) by (simp_all add: same_fates_def)
    then show ?thesis using Inr b same_report [OF b(2)] by (simp add: harvestBundle_def split: option.splits)
  qed
qed

definition backwards :: "string \<Rightarrow> device_db_model \<Rightarrow> device_db_model" where
  "backwards model d = d\<lparr>dm_Ports := rev (dm_Ports d), dm_Radios := rev (dm_Radios d), dm_LinkNegotiation := rev (dm_LinkNegotiation d)\<rparr>"

theorem harvest_order_independent_witness:
  "snd (harvestBundle (sample_harvest\<lparr>hv_Order := backwards\<rparr>)) = snd (harvestBundle sample_harvest) \<and>
     (\<exists>c. snd (harvestBundle (sample_harvest\<lparr>hv_Order := backwards\<rparr>)) = Inr c \<and> cf_Models c = [sample_entry])"
proof -
  have o: "reorders backwards" "reorders (\<lambda>_ m. m)" by (simp_all add: reorders_def same_meta_def backwards_def)
  have "sample_harvest\<lparr>hv_Order := \<lambda>_ m. m\<rparr> = sample_harvest" by (simp add: sample_harvest_def)
  then show ?thesis using harvest_order_independent [OF o, of sample_harvest] sample_harvested by auto
qed

end
