(* ===== verification/Gen_Scan.thy ===== *)
theory Gen_Scan
  imports Gen_Bundle
begin

text \<open>
  The scan for a model's object finds the object: whatever the braces, quotes and escapes inside its
  strings, the text cut out of the bundle is the one written there.
\<close>

section \<open>Inside a string\<close>

lemma hex_not_special: "hex_val h \<noteq> None \<Longrightarrow> h \<noteq> quote_mark \<and> h \<noteq> backslash"
  by (auto simp: hex_val_def is_digit_def quote_mark_def backslash_def code_def split: if_splits)

lemma scan_in_string:
  "c \<noteq> quote_mark \<Longrightarrow> c \<noteq> backslash \<Longrightarrow> scan_object d True False (c # s) = map_option ((#) c) (scan_object d True False s)"
  by simp

lemma scan_escape:
  "scan_object d True False (backslash # e # s) = map_option (\<lambda>t. backslash # e # t) (scan_object d True False s)"
  by (simp add: option.map_comp o_def)

lemma scan_string:
  "lex_str z = Some (b, r) \<Longrightarrow>
     z = b @ quote_mark # r \<and>
     scan_object d True False (z @ s) = map_option ((@) (b @ [quote_mark])) (scan_object d False False (r @ s))"
proof (induction z arbitrary: b r rule: lex_str.induct)
  case (2 c z)
  consider (closing) "c = quote_mark" | (escape) "c = backslash" | (plain) "c \<noteq> quote_mark" "c \<noteq> backslash" by blast
  then show ?case
  proof cases
    case closing
    then have "quote_mark \<noteq> backslash" by (simp add: quote_mark_def backslash_def)
    then show ?thesis using "2.prems" closing by (auto simp: fun_eq_iff)
  next
    case escape
    have nq: "backslash \<noteq> quote_mark" by (simp add: quote_mark_def backslash_def)
    show ?thesis
    proof (cases z)
      case Nil
      then show ?thesis using "2.prems" escape nq by simp
    next
      case (Cons e t)
      show ?thesis
      proof (cases "e = CHR ''u''")
        case True
        then obtain h1 h2 h3 h4 t' where t: "t = h1 # h2 # h3 # h4 # t'" and h: "list_all (\<lambda>h. hex_val h \<noteq> None) [h1, h2, h3, h4]"
          using "2.prems" escape Cons nq by (auto split: list.splits if_splits)
        then obtain b' where b': "lex_str t' = Some (b', r)" "b = c # e # h1 # h2 # h3 # h4 # b'"
          using "2.prems" escape Cons True nq by (auto split: if_splits)
        have ih: "t' = b' @ quote_mark # r \<and>
            scan_object d True False (t' @ s) = map_option ((@) (b' @ [quote_mark])) (scan_object d False False (r @ s))"
          by (rule "2.IH"(1) [OF _ escape Cons True t]) (use nq escape h b'(1) in auto)
        have n: "h \<noteq> quote_mark" "h \<noteq> backslash" if "h \<in> {h1, h2, h3, h4}" for h
          using that h hex_not_special by auto
        have z: "t' = b' @ quote_mark # r"
          and sc: "scan_object d True False (t' @ s) = map_option ((@) (b' @ [quote_mark])) (scan_object d False False (r @ s))"
          using ih by blast+
        show ?thesis using z sc [unfolded z] b'(2) t Cons escape n by (simp add: scan_escape scan_in_string option.map_comp o_def del: scan_object.simps)
      next
        case False
        then obtain b' where b': "lex_str t = Some (b', r)" "b = c # e # b'" and e: "e \<in> set simple_escapes"
          using "2.prems" escape Cons nq by (auto split: if_splits)
        have ih: "t = b' @ quote_mark # r \<and>
            scan_object d True False (t @ s) = map_option ((@) (b' @ [quote_mark])) (scan_object d False False (r @ s))"
          by (rule "2.IH"(2) [OF _ escape Cons False e]) (use nq escape b'(1) in auto)
        then have z: "t = b' @ quote_mark # r"
          and sc: "scan_object d True False (t @ s) = map_option ((@) (b' @ [quote_mark])) (scan_object d False False (r @ s))"
          by blast+
        show ?thesis using z sc [unfolded z] b'(2) Cons escape by (simp add: scan_escape option.map_comp o_def del: scan_object.simps)
      qed
    qed
  next
    case plain
    then obtain b' where b': "lex_str z = Some (b', r)" "b = c # b'" "\<not> code c < 32"
      using "2.prems" by (auto split: if_splits)
    have ih: "z = b' @ quote_mark # r \<and>
        scan_object d True False (z @ s) = map_option ((@) (b' @ [quote_mark])) (scan_object d False False (r @ s))"
      by (rule "2.IH"(3) [OF plain b'(3) b'(1)])
    then have y: "z = b' @ quote_mark # r"
      and sc: "scan_object d True False (z @ s) = map_option ((@) (b' @ [quote_mark])) (scan_object d False False (r @ s))"
      by blast+
    show ?thesis using y sc [unfolded y] b'(2) plain by (simp add: scan_in_string option.map_comp o_def del: scan_object.simps)
  qed
qed simp

section \<open>Up to the closing brace\<close>

text \<open>The depth after a row of tokens that never closes the object\<close>

fun brace_depth :: "nat \<Rightarrow> token list \<Rightarrow> nat option" where
  "brace_depth d [] = Some d"
| "brace_depth d (t # ts) =
     (if t = TLBrace then brace_depth (Suc d) ts
      else if t = TRBrace then (if d \<le> 1 then None else brace_depth (d - 1) ts)
      else brace_depth d ts)"

definition plain_char :: "char \<Rightarrow> bool" where
  "plain_char c \<longleftrightarrow> c \<noteq> quote_mark \<and> c \<noteq> CHR ''{'' \<and> c \<noteq> CHR ''}''"

lemma scan_plain: "plain_char c \<Longrightarrow> scan_object d False False (c # s) = map_option ((#) c) (scan_object d False False s)"
  by (simp add: plain_char_def)

lemma scan_plains:
  "list_all plain_char t \<Longrightarrow> scan_object d False False (t @ s) = map_option ((@) t) (scan_object d False False s)"
  by (induction t) (simp_all add: scan_plain option.map_comp o_def append_fun option.map_ident del: scan_object.simps)

lemma plain_classes:
  "is_ws c \<Longrightarrow> plain_char c" "num_char c \<Longrightarrow> plain_char c" "is_lower c \<Longrightarrow> plain_char c" "num_start c \<Longrightarrow> plain_char c"
proof -
  have q: "code quote_mark = 34" by (simp add: quote_mark_def code_def)
  show "is_ws c \<Longrightarrow> plain_char c" "num_char c \<Longrightarrow> plain_char c" "is_lower c \<Longrightarrow> plain_char c" "num_start c \<Longrightarrow> plain_char c"
    unfolding class_codes plain_char_def char_eq_code q by (auto simp: char_codes)
qed

lemma punct_plain: "punct_token c = Some t \<Longrightarrow> t \<noteq> TLBrace \<Longrightarrow> t \<noteq> TRBrace \<Longrightarrow> plain_char c"
  by (auto simp: punct_token_def plain_char_def quote_mark_def split: if_splits)

lemma punct_braces:
  "punct_token c = Some TLBrace \<longleftrightarrow> c = CHR ''{''" "punct_token c = Some TRBrace \<longleftrightarrow> c = CHR ''}''"
  by (auto simp: punct_token_def)

lemma lex_no_tokens: "lex s = Some [] \<Longrightarrow> list_all is_ws s"
  by (rule lex_Nil)

lemma closing_not_ws: "\<not> is_ws CHR ''}''"
  by (simp add: is_ws_def code_def)

lemma run_step:
  assumes "list_all plain_char p" and "scan_object d False False (r @ s) = Some r"
  shows "scan_object d False False ((p @ r) @ s) = Some (p @ r)"
  using scan_plains [OF assms(1), of d "r @ s"] assms(2) by simp

lemma last_rest: "last (p @ r) = c \<Longrightarrow> r \<noteq> [] \<Longrightarrow> last r = c"
  by simp

lemma lex_tokens_nonempty: "lex r = Some (ts @ [t]) \<Longrightarrow> r \<noteq> []"
  by auto

lemma scan_closes:
  assumes "lex t = Some (ts @ [TRBrace])" and "brace_depth d ts = Some 1" and "last t = CHR ''}''"
  shows "scan_object d False False (t @ s) = Some t"
  using assms
proof (induction t arbitrary: ts d rule: lex.induct)
  case (2 c z)
  consider (ws) "is_ws c" | (punct) k where "\<not> is_ws c" "punct_token c = Some k"
    | (quote) "\<not> is_ws c" "punct_token c = None" "c = quote_mark"
    | (num) "\<not> is_ws c" "punct_token c = None" "c \<noteq> quote_mark" "num_start c"
    | (word) "\<not> is_ws c" "punct_token c = None" "c \<noteq> quote_mark" "\<not> num_start c" "is_lower c"
    using "2.prems"(1) by (cases "punct_token c") (auto simp: lex.simps(2) split: if_splits)
  then show ?case
  proof cases
    case ws
    then have l: "lex z = Some (ts @ [TRBrace])" using "2.prems"(1) by (simp add: lex.simps(2))
    then have "last z = CHR ''}''" using "2.prems"(3) lex_tokens_nonempty [OF l] by simp
    then have "scan_object d False False (z @ s) = Some z" using "2.IH"(1) [OF ws l "2.prems"(2)] by simp
    then show ?thesis using run_step [of "[c]" d z s] plain_classes(1) [OF ws] by simp
  next
    case punct
    then obtain ks where ks: "lex z = Some ks" "ts @ [TRBrace] = k # ks"
      using "2.prems"(1) by (cases "lex z") (auto simp: lex.simps(2))
    show ?thesis
    proof (cases ts)
      case Nil
      then have "k = TRBrace" "ks = []" using ks(2) by simp_all
      then have "list_all is_ws z" "c = CHR ''}''" using ks(1) lex_no_tokens punct(2) punct_braces(2) by auto
      then have "z = []" using "2.prems"(3) closing_not_ws by (cases z rule: rev_cases) auto
      moreover have "d = 1" using Nil "2.prems"(2) by simp
      ultimately show ?thesis using \<open>c = CHR ''}''\<close> by (simp add: quote_mark_def)
    next
      case (Cons k' ts')
      then have k: "k' = k" "ks = ts' @ [TRBrace]" using ks(2) by simp_all
      have l: "lex z = Some (ts' @ [TRBrace])" using ks(1) k(2) by simp
      have last: "last z = CHR ''}''" using "2.prems"(3) lex_tokens_nonempty [OF l] by simp
      have ih: "brace_depth d' ts' = Some 1 \<Longrightarrow> scan_object d' False False (z @ s) = Some z" for d'
        using "2.IH"(5) [OF punct l _ last] by blast
      consider "k = TLBrace" | "k = TRBrace" | "k \<noteq> TLBrace" "k \<noteq> TRBrace" by blast
      then show ?thesis
      proof cases
        case 1
        then have "c = CHR ''{''" "brace_depth (Suc d) ts' = Some 1" using punct(2) punct_braces(1) "2.prems"(2) Cons k(1) by auto
        then show ?thesis using ih by (simp add: quote_mark_def)
      next
        case 2
        then have "c = CHR ''}''" "d \<noteq> 1" "brace_depth (d - 1) ts' = Some 1"
          using punct(2) punct_braces(2) "2.prems"(2) Cons k(1) by (auto split: if_splits)
        then show ?thesis using ih by (simp add: quote_mark_def)
      next
        case 3
        then have "scan_object d False False (z @ s) = Some z" using ih "2.prems"(2) Cons k(1) by simp
        then show ?thesis using run_step [of "[c]" d z s] punct_plain [OF punct(2) 3] by simp
      qed
    qed
  next
    case quote
    then obtain b r where br: "lex_str z = Some (b, r)" "length r < length z"
      using "2.prems"(1) lex_str_length by (cases "lex_str z") (auto simp: lex.simps(2))
    then obtain ks where ks: "lex r = Some ks" "ts @ [TRBrace] = TStr b # ks"
      using "2.prems"(1) quote by (cases "lex r") (auto simp: lex.simps(2))
    then obtain ts' where ts: "ts = TStr b # ts'" "ks = ts' @ [TRBrace]" by (cases ts) auto
    have l: "lex r = Some (ts' @ [TRBrace])" using ks(1) ts(2) by simp
    have z: "z = b @ quote_mark # r" "scan_object d True False (z @ s) = map_option ((@) (b @ [quote_mark])) (scan_object d False False (r @ s))"
      using scan_string [OF br(1), of d s] by blast+
    have last: "last r = CHR ''}''" using "2.prems"(3) lex_tokens_nonempty [OF l] unfolding z(1) by simp
    have "scan_object d False False (r @ s) = Some r"
      by (rule "2.IH"(2) [OF quote(1-3) br(1) refl br(2) l _ last]) (use "2.prems"(2) ts(1) in simp)
    then show ?thesis using quote z by simp
  next
    case num
    let ?r = "dropWhile num_char z"
    let ?k = "c # takeWhile num_char z"
    obtain ks where ks: "lex ?r = Some ks" "ts @ [TRBrace] = TNum ?k # ks" and v: "valid_num (c # takeWhile num_char z)"
      using "2.prems"(1) num by (cases "lex ?r") (auto simp: lex.simps(2) split: if_splits)
    then obtain ts' where ts: "ts = TNum ?k # ts'" "ks = ts' @ [TRBrace]" by (cases ts) auto
    have l: "lex ?r = Some (ts' @ [TRBrace])" using ks(1) ts(2) by simp
    have z: "c # z = (c # takeWhile num_char z) @ ?r" by simp
    have last: "last ?r = CHR ''}''" using "2.prems"(3) lex_tokens_nonempty [OF l] by (metis last_rest z)
    have "scan_object d False False (?r @ s) = Some ?r"
      by (rule "2.IH"(3) [OF num v l _ last]) (use "2.prems"(2) ts(1) in simp)
    moreover have "list_all plain_char (c # takeWhile num_char z)"
      using plain_classes(2,4) num(4) by (auto simp: list_all_iff dest: set_takeWhileD)
    ultimately show ?thesis using run_step z by metis
  next
    case word
    let ?r = "dropWhile is_lower z"
    obtain k where k: "word_token (c # takeWhile is_lower z) = Some k"
      using "2.prems"(1) word by (cases "word_token (c # takeWhile is_lower z)") (auto simp: lex.simps(2))
    then obtain ks where ks: "lex ?r = Some ks" "ts @ [TRBrace] = k # ks"
      using "2.prems"(1) word by (cases "lex ?r") (auto simp: lex.simps(2))
    have w: "k \<noteq> TLBrace" "k \<noteq> TRBrace" using k by (auto simp: word_token_def split: if_splits)
    then obtain ts' where ts: "ts = k # ts'" "ks = ts' @ [TRBrace]" using ks(2) by (cases ts) auto
    have l: "lex ?r = Some (ts' @ [TRBrace])" using ks(1) ts(2) by simp
    have z: "c # z = (c # takeWhile is_lower z) @ ?r" by simp
    have last: "last ?r = CHR ''}''" using "2.prems"(3) lex_tokens_nonempty [OF l] by (metis last_rest z)
    have "scan_object d False False (?r @ s) = Some ?r"
      by (rule "2.IH"(4) [OF word(1-5) k l _ last]) (use "2.prems"(2) ts(1) w in simp)
    moreover have "list_all plain_char (c # takeWhile is_lower z)"
      using plain_classes(3) word(5) by (auto simp: list_all_iff dest: set_takeWhileD)
    ultimately show ?thesis using run_step z by metis
  qed
qed simp

section \<open>A document closes its own braces\<close>

lemma brace_depth_append:
  "brace_depth d xs = Some d' \<Longrightarrow> brace_depth d (xs @ ys) = brace_depth d' ys"
  by (induction xs arbitrary: d) (auto split: if_splits)

lemma brace_depth_commas:
  assumes "\<And>x. x \<in> set xs \<Longrightarrow> brace_depth d x = Some d"
  shows "brace_depth d (commas xs) = Some d"
  using assms by (induction xs rule: commas.induct) (simp_all add: brace_depth_append)

lemma brace_depth_tokens: "0 < d \<Longrightarrow> brace_depth d (tokens v) = Some d"
proof (induction v arbitrary: d)
  case (JArr vs)
  then have "brace_depth d (commas (map tokens vs)) = Some d" by (intro brace_depth_commas) auto
  then show ?case by (simp add: brace_depth_append)
next
  case (JObj kvs)
  have "brace_depth (Suc d) (commas (map member_tokens kvs)) = Some (Suc d)"
  proof (rule brace_depth_commas)
    fix x assume "x \<in> set (map member_tokens kvs)"
    then obtain k v where kv: "(k, v) \<in> set kvs" "x = TStr k # TColon # tokens v" by auto
    have "brace_depth (Suc d) (tokens v) = Some (Suc d)" by (rule JObj.IH [OF kv(1)]) (simp_all add: Basic_BNFs.snds.intros)
    then show "brace_depth (Suc d) x = Some (Suc d)" using kv(2) by simp
  qed
  then show ?case using JObj.prems by (simp add: brace_depth_append)
qed simp_all

text \<open>A text of the object \<open>kvs\<close>, from its opening to its closing brace\<close>

definition object_text :: "(string \<times> json) list \<Rightarrow> string \<Rightarrow> bool" where
  "object_text kvs obj \<longleftrightarrow> lex obj = Some (tokens (JObj kvs)) \<and> hd obj = CHR ''{'' \<and> last obj = CHR ''}''"

lemma scan_object_text:
  assumes "object_text kvs obj"
  shows "scan_object 0 False False (obj @ s) = Some obj"
proof -
  let ?ms = "commas (map member_tokens kvs)"
  have o: "lex obj = Some (tokens (JObj kvs))" "hd obj = CHR ''{''" "last obj = CHR ''}''" using assms by (simp_all add: object_text_def)
  then obtain t where t: "obj = CHR ''{'' # t" by (cases obj) auto
  then have l: "lex t = Some (?ms @ [TRBrace])" using o(1) by auto
  have d: "brace_depth 1 ?ms = Some 1"
    by (rule brace_depth_commas) (auto simp: brace_depth_tokens)
  have "last t = CHR ''}''" using o(3) t lex_tokens_nonempty [OF l] by simp
  then have "scan_object 1 False False (t @ s) = Some t" by (rule scan_closes [OF l d])
  then show ?thesis by (simp add: t quote_mark_def)
qed

section \<open>Finding the key\<close>

lemma strip_prefix_append_short:
  assumes "strip_prefix q (p @ r) \<noteq> None" and "length q \<le> length p"
  shows "strip_prefix q p \<noteq> None"
proof -
  obtain u where "p @ r = q @ u" using assms(1) by (auto simp: strip_prefix_Some)
  then have "p = q @ drop (length q) p" using assms(2) by (metis append_eq_append_conv_if append_take_drop_id)
  then show ?thesis by (metis option.distinct(1) strip_prefix_Some)
qed

lemma contains_Cons: "contains q (c # p) \<longleftrightarrow> strip_prefix q (c # p) \<noteq> None \<or> contains q p"
  by simp

lemma find_after_first:
  assumes "\<not> contains q (pre @ butlast q)" and "q \<noteq> []"
  shows "find_after q (pre @ q @ rest) = Some rest"
  using assms(1)
proof (induction pre)
  case Nil
  have "strip_prefix q (q @ rest) = Some rest" by (simp add: strip_prefix_Some)
  then show ?case using assms(2) by (cases q) simp_all
next
  case (Cons c pre)
  have "strip_prefix q ((c # pre @ butlast q) @ [last q] @ rest) = None"
  proof (rule ccontr)
    assume "strip_prefix q ((c # pre @ butlast q) @ [last q] @ rest) \<noteq> None"
    then have "strip_prefix q (c # pre @ butlast q) \<noteq> None" by (rule strip_prefix_append_short) simp
    then show False using Cons.prems by (simp del: strip_prefix.simps)
  qed
  moreover have "(c # pre @ butlast q) @ [last q] @ rest = c # pre @ q @ rest"
  proof -
    have "butlast q @ last q # rest = q @ rest" using append_butlast_last_id [OF assms(2)] by (metis append.assoc append_Cons append_Nil)
    then show ?thesis by simp
  qed
  ultimately have "strip_prefix q (c # pre @ q @ rest) = None" by metis
  then show ?case using Cons by simp
qed

lemma quoted_nonempty: "quoted model \<noteq> []"
  by (simp add: quoted_def)

text \<open>
  C22: the extraction reads back what a bundle holds for a model: where the quoted model code first
  occurs as the key of an object, with any white space around the colon, the text returned is exactly
  the object's, whatever its strings contain and whatever follows it.
\<close>
theorem extract_finds_object:
  assumes "object_text kvs obj" and "list_all is_ws w" and "list_all is_ws w'"
    and "\<not> contains (quoted model) (pre @ butlast (quoted model))"
  shows "extractModelJSON (pre @ quoted model @ w @ CHR '':'' # w' @ obj @ post) model = Inr obj"
proof -
  have ws: "dropWhile is_ws (u @ c # r) = c # r" if "list_all is_ws u" "\<not> is_ws c" for u c r
    using that by (induction u) auto
  obtain t where t: "obj = CHR ''{'' # t" using assms(1) by (cases obj) (auto simp: object_text_def)
  have c: "\<not> is_ws CHR '':''" "\<not> is_ws CHR ''{''" by (simp_all add: is_ws_def code_def)
  have "object_after (w @ CHR '':'' # w' @ obj @ post) = Some (obj @ post)"
    using ws [OF assms(2) c(1)] ws [OF assms(3) c(2), of "t @ post"] by (simp add: object_after_def t)
  then have "find_object (quoted model) (pre @ quoted model @ w @ CHR '':'' # w' @ obj @ post) = Some (obj @ post)"
    using find_after_first [OF assms(4) quoted_nonempty] quoted_nonempty by (subst find_object.simps) simp
  then show ?thesis using scan_object_text [OF assms(1)] by (simp add: extractModelJSON_def)
qed

text \<open>An object with braces and an escaped quote in a string\<close>

definition sample_object :: string where
  "sample_object = ''{\"a\":\"}{'' @ [backslash, quote_mark] @ ''\",\"b\":{}}''"

theorem extract_finds_object_witness:
  "extractModelJSON (''x={'' @ quoted ''US8'' @ '' '' @ CHR '':'' # '' '' @ sample_object @ '',\"c\":{}}'') ''US8'' = Inr sample_object"
proof (rule extract_finds_object)
  show "object_text [(''a'', JStr (''}{'' @ [backslash, quote_mark])), (''b'', JObj [])] sample_object" by code_simp
  show "\<not> contains (quoted ''US8'') (''x={'' @ butlast (quoted ''US8''))" by code_simp
qed code_simp+

end
