(* ===== verification/Gen_Merge.thy ===== *)
theory Gen_Merge
  imports Gen_Written
begin

text \<open>
  The overrides file across \<^verbatim>\<open>-fetch-eth\<close>: what is written back is read as the entries merged, and
  merging again changes nothing.
\<close>

section \<open>Overrides written and read\<close>

definition eth_encodable :: "eth_override \<Rightarrow> bool" where
  "eth_encodable e \<longleftrightarrow> in_int64 (eo_Count e) \<and> valid_utf8 (eo_Media e)"

definition udapi_encodable :: "udapi_override \<Rightarrow> bool" where
  "udapi_encodable u \<longleftrightarrow> valid_utf8 (uo_Version u) \<and> list_all valid_utf8 (cap_names u)"

text \<open>Keys once, texts that are UTF-8 and integers of 64 bits: what decoding a document gives\<close>

definition override_encodable :: "model_override \<Rightarrow> bool" where
  "override_encodable ov \<longleftrightarrow>
     (case mo_Eth ov of None \<Rightarrow> True | Some e \<Rightarrow> eth_encodable e) \<and>
     (case mo_UDAPI ov of None \<Rightarrow> True | Some u \<Rightarrow> udapi_encodable u) \<and> valid_utf8 (mo_Source ov) \<and>
     distinct (map fst (mo_Radios ov)) \<and> list_all (\<lambda>(k, n). valid_utf8 k \<and> in_int64 n) (mo_Radios ov) \<and>
     distinct (map fst (mo_Ports ov)) \<and> list_all (\<lambda>(k, m). valid_utf8 k \<and> valid_utf8 m) (mo_Ports ov)"

definition doc_encodable :: "overrides_doc \<Rightarrow> bool" where
  "doc_encodable d \<longleftrightarrow> valid_utf8 (od_SourceNote d) \<and> distinct (map fst (od_Models d)) \<and>
     list_all (\<lambda>(k, ov). valid_utf8 k \<and> override_encodable ov) (od_Models d)"

text \<open>The same override with its maps in the order of their keys, as they are written\<close>

definition in_key_order :: "model_override \<Rightarrow> model_override" where
  "in_key_order ov = ov\<lparr>mo_Radios := sort_key fst (mo_Radios ov), mo_Ports := sort_key fst (mo_Ports ov)\<rparr>"

definition models_in_order :: "(string \<times> model_override) list \<Rightarrow> (string \<times> model_override) list" where
  "models_in_order ms = map (\<lambda>(k, ov). (k, in_key_order ov)) (sort_key fst ms)"

lemma override_plain_keys [simp]:
  "plain_key ''count''" "plain_key ''caps''" "plain_key ''eth''" "plain_key ''udapi''" "plain_key ''source''" "plain_key ''_source_note''"
  by (simp_all add: plain_key_def is_lower_def code_def)

lemma dec_string_jstr [simp]: "valid_utf8 s \<Longrightarrow> dec_string f cur (jstr s) = Inr s"
  by (simp add: dec_string_def jstr_def)

lemma read_eth:
  assumes "eth_encodable e"
  shows "dec_eth_override \<lparr>eo_Count = 0, eo_Media = []\<rparr> (eth_json e) = Inr e"
  using assms by (simp add: dec_eth_override_def eth_json_def dec_struct_def dec_member_plain eth_encodable_def)

lemma read_nss: "in_int64 n \<Longrightarrow> dec_nss 0 (JObj (if_some (n \<noteq> 0) ''nss'' (jint n))) = Inr n"
  by (simp add: dec_nss_def dec_struct_def rfold_if_some dec_member_plain)

lemma read_media: "valid_utf8 m \<Longrightarrow> dec_media [] (JObj (if_some (m \<noteq> []) ''media'' (jstr m))) = Inr m"
  by (simp add: dec_media_def dec_struct_def rfold_if_some dec_member_plain)

interpretation cap_text: written "dec_string f" "[]" jstr id valid_utf8 for f
  by unfold_locales simp

interpretation nss_text: written dec_nss 0 "\<lambda>n. JObj (if_some (n \<noteq> 0) ''nss'' (jint n))" id in_int64
  by unfold_locales (simp add: read_nss)

interpretation media_text: written dec_media "[]" "\<lambda>s. JObj (if_some (s \<noteq> []) ''media'' (jstr s))" id valid_utf8
  by unfold_locales (simp add: read_media)

lemma read_udapi:
  assumes "udapi_encodable u"
  shows "dec_udapi_override \<lparr>uo_Version = [], uo_Caps = None\<rparr> (udapi_json u) = Inr u"
proof (cases "uo_Caps u")
  case None
  then show ?thesis
    using assms by (simp add: dec_udapi_override_def udapi_json_def dec_struct_def dec_member_plain udapi_encodable_def dec_list_def cap_names_def)
next
  case (Some names)
  then show ?thesis
    using assms cap_text.read_list [of names]
    by (simp add: dec_udapi_override_def udapi_json_def dec_struct_def dec_member_plain udapi_encodable_def cap_names_def)
qed

lemma objects_not_null [simp]: "eth_json e \<noteq> JNull" "udapi_json u \<noteq> JNull"
  by (simp_all add: eth_json_def udapi_json_def)

lemma read_override:
  assumes "override_encodable ov"
  shows "dec_override no_override (override_json ov) = Inr (in_key_order ov)"
proof -
  note e = assms [unfolded override_encodable_def]
  show ?thesis
    using e
    by (cases "mo_Eth ov"; cases "mo_UDAPI ov")
      (simp_all add: dec_override_def override_json_def dec_struct_def rfold_append rfold_if_some dec_member_plain
        set_override_field_def dec_pointer_def no_override_def in_key_order_def read_eth read_udapi nss_text.read_map media_text.read_map)
qed

interpretation override_text: written dec_override no_override override_json in_key_order override_encodable
  by unfold_locales (rule read_override)

section \<open>The file written and read\<close>

definition doc_text :: "overrides_doc \<Rightarrow> string" where
  "doc_text d = indented 0 (doc_json d) @ [CHR 0x0A]"

lemma shallow_object:
  assumes "\<And>k x. (k, x) \<in> set m \<Longrightarrow> shallow n (j x)"
  shows "shallow (Suc n) (json_object (map (\<lambda>(k, x). (k, j x)) m))"
proof -
  have "gomap_ok n (map (\<lambda>(k, x). (k, j x)) m)" using assms by (auto simp: gomap_ok_def shallow_def)
  then show ?thesis using json_ok_object json_depth_object by (simp add: shallow_def)
qed

lemma shallow_override: "shallow 3 (override_json ov)"
proof -
  have "shallow (Suc 0) (JObj (if_some (n \<noteq> 0) ''nss'' (jint n)))" for n by (rule shallow_struct) simp
  then have r: "shallow (Suc (Suc 0)) (json_object (map (\<lambda>(k, n). (k, JObj (if_some (n \<noteq> 0) ''nss'' (jint n)))) (mo_Radios ov)))"
    by (intro shallow_object)
  have "shallow (Suc 0) (JObj (if_some (s \<noteq> []) ''media'' (jstr s)))" for s by (rule shallow_struct) simp
  then have p: "shallow (Suc (Suc 0)) (json_object (map (\<lambda>(k, s). (k, JObj (if_some (s \<noteq> []) ''media'' (jstr s)))) (mo_Ports ov)))"
    by (intro shallow_object)
  have e: "shallow (Suc 0) (eth_json e)" for e unfolding eth_json_def by (rule shallow_struct) simp
  have names: "shallow (Suc 0) (JArr (map jstr names))" for names by (rule shallow_array) (simp add: shallow_def)
  then have u: "shallow (Suc (Suc 0)) (udapi_json u)" for u
    unfolding udapi_json_def by (intro shallow_struct) (simp add: shallow_def split: option.splits)
  have "shallow (Suc (Suc (Suc 0))) (override_json ov)"
    unfolding override_json_def
    by (rule shallow_struct) (use r p e u in \<open>auto simp: shallow_def intro: le_SucI split: option.splits\<close>)
  then show ?thesis by (simp add: numeral_3_eq_3)
qed

lemma doc_parses: "json_parse (doc_text d) = Some (doc_json d)"
proof -
  have "shallow (Suc 3) (json_object (map (\<lambda>(k, ov). (k, override_json ov)) (od_Models d)))"
    by (rule shallow_object) (rule shallow_override)
  then have "shallow (Suc (Suc 3)) (doc_json d)"
    unfolding doc_json_def by (intro shallow_struct) (simp add: shallow_def)
  then show ?thesis
    unfolding doc_text_def by (intro json_parse_indented) (simp_all add: shallow_def max_nesting_depth_def)
qed

lemma read_models:
  assumes "doc_encodable d"
  shows "dec_map f dec_override no_override [] (json_object (map (\<lambda>(k, ov). (k, override_json ov)) (od_Models d))) =
    Inr (models_in_order (od_Models d))"
  using assms override_text.read_map by (simp add: doc_encodable_def models_in_order_def)

lemma doc_read:
  assumes "doc_encodable d"
  shows "parse_doc (doc_text d) = Inr (d\<lparr>od_Models := models_in_order (od_Models d)\<rparr>)"
  using assms read_models [OF assms]
  by (simp add: parse_doc_def unmarshal_struct_def doc_parses doc_json_def dec_struct_def rfold_append rfold_if_some
      dec_member_plain set_doc_field_def doc_encodable_def)

lemma no_note: "pick_field [''models'', ''firmware_caps''] ''_source_note'' = None"
  by code_simp

lemma overrides_read:
  assumes "doc_encodable d"
  shows "parse_overrides (doc_text d) = Inr \<lparr>ov_Models = models_in_order (od_Models d), ov_FirmwareCaps = []\<rparr>"
  using assms read_models [OF assms]
  by (simp add: parse_overrides_def unmarshal_struct_def doc_parses doc_json_def dec_struct_def rfold_append rfold_if_some
      dec_member_plain dec_member_other no_note set_overrides_field_def)

text \<open>The order of the maps does not show in the text.\<close>

lemma sort_key_again: "sort_key fst (sort_key fst m) = sort_key fst m"
  by (rule sort_key_id_if_sorted) simp

lemma sort_key_Nil: "sort_key f m = [] \<longleftrightarrow> m = []"
  by (metis set_empty set_sort)

lemma override_json_order: "override_json (in_key_order ov) = override_json ov"
  by (simp add: override_json_def in_key_order_def json_object_def sort_key_mapped sort_key_again sort_key_Nil)

lemma doc_text_order: "doc_text (d\<lparr>od_Models := models_in_order ms\<rparr>) = doc_text (d\<lparr>od_Models := ms\<rparr>)"
proof -
  have "map (\<lambda>(k, ov). (k, override_json ov)) (models_in_order ms) = map (\<lambda>(k, ov). (k, override_json ov)) (sort_key fst ms)"
    by (simp add: models_in_order_def override_json_order split_def)
  then show ?thesis by (simp add: doc_text_def doc_json_def json_object_def sort_key_mapped sort_key_again)
qed

section \<open>Merging\<close>

text \<open>The entry of a model whose Ethernet layout was fetched\<close>

definition fetched_source :: "eth_result \<Rightarrow> string" where
  "fetched_source r = ''techspecs.ui.com networking-interface (fingerprint sku '' @ er_SKU r @ '')''"

definition with_eth :: "eth_result \<Rightarrow> model_override \<Rightarrow> model_override" where
  "with_eth r mo = mo\<lparr>mo_Eth := Some (eth_of (er_Eth r)),
     mo_Source := (if mo_Source mo = [] then fetched_source r else mo_Source mo)\<rparr>"

definition or_new :: "model_override option \<Rightarrow> model_override" where
  "or_new old = (case old of Some mo \<Rightarrow> mo | None \<Rightarrow> no_override)"

definition merged :: "eth_result list \<Rightarrow> string \<Rightarrow> model_override option \<Rightarrow> model_override option" where
  "merged rs model old =
     (case find (\<lambda>r. er_Model r = model) rs of
        None \<Rightarrow> old
      | Some r \<Rightarrow> Some (with_eth r (or_new old)))"

lemma merge_result_with_eth:
  "merge_result r (ms, n) =
     (AList.update (er_Model r) (with_eth r (or_new (map_of ms (er_Model r)))) ms,
      if mo_Eth (or_new (map_of ms (er_Model r))) \<noteq> Some (eth_of (er_Eth r)) then Suc n else n)"
proof -
  have "mo\<lparr>mo_Eth := e, mo_Source := mo_Source mo\<rparr> = mo\<lparr>mo_Eth := e\<rparr>" for mo e
    by (intro model_override.equality) simp_all
  then show ?thesis
    by (simp add: merge_result_def with_eth_def or_new_def Let_def fetched_source_def)
qed

lemma other_model: "distinct (map er_Model (r # rs)) \<Longrightarrow> x \<in> set rs \<Longrightarrow> er_Model x \<noteq> er_Model r"
  by (metis distinct.simps(2) image_eqI list.simps(9) set_map)

lemma merged_models:
  assumes "distinct (map er_Model rs)"
  shows "map_of (fst (fold merge_result rs (ms, n))) k = merged rs k (map_of ms k)"
  using assms
proof (induction rs arbitrary: ms n)
  case (Cons r rs)
  have none: "find (\<lambda>r'. er_Model r' = er_Model r) rs = None" using other_model [OF Cons.prems] by (simp add: find_None_iff)
  obtain n' where "merge_result r (ms, n) = (AList.update (er_Model r) (with_eth r (or_new (map_of ms (er_Model r)))) ms, n')"
    by (simp add: merge_result_with_eth)
  then show ?case using Cons none by (auto simp: merged_def update_conv' split: option.splits)
qed (simp add: merged_def)

lemma merged_count:
  assumes "distinct (map er_Model rs)"
  shows "snd (fold merge_result rs (ms, n)) =
    n + length (filter (\<lambda>r. mo_Eth (or_new (map_of ms (er_Model r))) \<noteq> Some (eth_of (er_Eth r))) rs)"
  using assms
proof (induction rs arbitrary: ms n)
  case (Cons r rs)
  let ?ms = "AList.update (er_Model r) (with_eth r (or_new (map_of ms (er_Model r)))) ms"
  have "map_of ?ms (er_Model x) = map_of ms (er_Model x)" if "x \<in> set rs" for x
    using other_model [OF Cons.prems that] by (simp add: update_conv')
  then have "filter (\<lambda>x. mo_Eth (or_new (map_of ?ms (er_Model x))) \<noteq> Some (eth_of (er_Eth x))) rs =
      filter (\<lambda>x. mo_Eth (or_new (map_of ms (er_Model x))) \<noteq> Some (eth_of (er_Eth x))) rs"
    by (intro filter_cong) simp_all
  then show ?case using Cons by (simp add: merge_result_with_eth)
qed simp

lemma merged_keys: "distinct (map fst ms) \<Longrightarrow> distinct (map fst (fst (fold merge_result rs (ms, n))))"
  by (induction rs arbitrary: ms n) (simp_all add: merge_result_with_eth distinct_update)

lemma update_same: "map_of m k = Some v \<Longrightarrow> AList.update k v m = m"
  by (induction m) (auto split: if_splits)

lemma merge_settled:
  assumes "\<And>r. r \<in> set rs \<Longrightarrow> \<exists>mo. map_of ms (er_Model r) = Some mo \<and> with_eth r mo = mo"
  shows "fold merge_result rs (ms, n) = (ms, n)"
  using assms
proof (induction rs)
  case (Cons r rs)
  obtain mo where mo: "map_of ms (er_Model r) = Some mo" "with_eth r mo = mo" using Cons.prems by auto
  then have "mo_Eth mo = Some (eth_of (er_Eth r))" by (metis (no_types) with_eth_def model_override.select_convs(1) model_override.surjective model_override.update_convs(1,5))
  then have "merge_result r (ms, n) = (ms, n)" using mo by (simp add: merge_result_with_eth or_new_def update_same)
  then show ?case using Cons by simp
qed simp

section \<open>What is merged can be written\<close>

lemma valid_utf8_ascii_cons: "code c < 128 \<Longrightarrow> valid_utf8 (c # s) = valid_utf8 s"
  by (simp add: valid_utf8.simps utf8_len_def)

lemma valid_utf8_append: "valid_utf8 s \<Longrightarrow> valid_utf8 t \<Longrightarrow> valid_utf8 (s @ t)"
proof (induction s rule: valid_utf8.induct)
  case (2 c s)
  obtain n where n: "utf8_len (c # s) = Some n" and rest: "valid_utf8 (drop (n - 1) s)"
    using "2.prems"(1) by (auto simp: valid_utf8.simps split: option.splits)
  have b: "1 \<le> n" "n \<le> length (c # s)" using utf8_len_bounds [OF n] by simp_all
  have "utf8_len (take n (c # s) @ (drop n (c # s) @ t)) = Some n" by (rule utf8_len_take [OF n])
  then have "utf8_len ((c # s) @ t) = Some n" by (simp only: append_assoc [symmetric] append_take_drop_id)
  moreover have "valid_utf8 (drop (n - 1) s @ t)" using "2.IH" [OF n rest "2.prems"(2)] .
  ultimately show ?case using b by (simp add: valid_utf8.simps)
qed simp

definition result_encodable :: "eth_result \<Rightarrow> bool" where
  "result_encodable r \<longleftrightarrow> valid_utf8 (er_Model r) \<and> valid_utf8 (er_SKU r) \<and> eth_encodable (eth_of (er_Eth r))"

lemma fetched_source_utf8: "valid_utf8 (er_SKU r) \<Longrightarrow> valid_utf8 (fetched_source r)"
proof -
  have "valid_utf8 ''techspecs.ui.com networking-interface (fingerprint sku ''" "valid_utf8 '')''"
    by (rule valid_utf8_ascii, simp add: code_def)+
  then show "valid_utf8 (er_SKU r) \<Longrightarrow> valid_utf8 (fetched_source r)"
    unfolding fetched_source_def by (intro valid_utf8_append)
qed

lemma with_eth_encodable: "result_encodable r \<Longrightarrow> override_encodable mo \<Longrightarrow> override_encodable (with_eth r mo)"
  by (simp add: override_encodable_def with_eth_def result_encodable_def fetched_source_utf8)

lemma no_override_encodable: "override_encodable no_override"
  by (simp add: override_encodable_def no_override_def)

lemma update_all:
  "list_all P m \<Longrightarrow> P (k, v) \<Longrightarrow> list_all P (AList.update k v m)"
  by (induction m) auto

lemma merged_encodable:
  assumes "list_all result_encodable rs" and "list_all (\<lambda>(k, ov). valid_utf8 k \<and> override_encodable ov) ms"
  shows "list_all (\<lambda>(k, ov). valid_utf8 k \<and> override_encodable ov) (fst (fold merge_result rs (ms, n)))"
  using assms
proof (induction rs arbitrary: ms n)
  case (Cons r rs)
  have r: "result_encodable r" using Cons.prems(1) by simp
  have "override_encodable (or_new (map_of ms (er_Model r)))"
    using Cons.prems(2) no_override_encodable by (auto simp: or_new_def list_all_iff dest: map_of_SomeD split: option.splits)
  then have "list_all (\<lambda>(k, ov). valid_utf8 k \<and> override_encodable ov)
      (AList.update (er_Model r) (with_eth r (or_new (map_of ms (er_Model r)))) ms)"
    using r Cons.prems(2) with_eth_encodable by (intro update_all) (auto simp: result_encodable_def)
  then show ?case using Cons by (simp add: merge_result_with_eth)
qed simp

lemma with_eth_order: "with_eth r (in_key_order mo) = in_key_order (with_eth r mo)"
  by (simp add: with_eth_def in_key_order_def)

lemma with_eth_again: "fetched_source r \<noteq> [] \<Longrightarrow> with_eth r (with_eth r mo) = with_eth r mo"
  by (simp add: with_eth_def)

lemma merged_of:
  assumes "distinct (map er_Model rs)" and "r \<in> set rs"
  shows "merged rs (er_Model r) old = Some (with_eth r (or_new old))"
proof -
  have "find (\<lambda>x. er_Model x = er_Model r) rs = Some r"
    using assms by (induction rs) force+
  then show ?thesis by (simp add: merged_def)
qed

lemma models_in_order_of:
  assumes "distinct (map fst ms)"
  shows "map_of (models_in_order ms) k = map_option in_key_order (map_of ms k)"
proof -
  have "map_of (sort_key fst ms) = map_of ms"
    using assms by (intro map_of_inject_set [THEN iffD2]) (simp_all add: distinct_map)
  then show ?thesis by (simp add: models_in_order_def map_of_map)
qed

text \<open>
  C12: the overrides file survives \<^verbatim>\<open>-fetch-eth\<close>, but for its firmware capabilities. The text written back
  is read by the harvest as the models' overrides that were there, with the Ethernet layout of every
  model fetched set and its source filled in where it was empty, everything else kept; the number
  reported is that of the layouts that differ; and merging the same results again changes nothing and
  writes the same text. What is written never has firmware capabilities, whatever the file had.
\<close>
theorem merge_keeps_overrides:
  assumes p: "parse_doc text = Inr doc" and d: "doc_encodable doc"
    and r: "list_all result_encodable rs" "distinct (map er_Model rs)"
  shows "\<exists>out ovr.
    mergeEthOverrides text rs =
      Inr (length (filter (\<lambda>r. mo_Eth (or_new (map_of (od_Models doc) (er_Model r))) \<noteq> Some (eth_of (er_Eth r))) rs), out) \<and>
    mergeEthOverrides out rs = Inr (0, out) \<and>
    parse_overrides out = Inr ovr \<and> ov_FirmwareCaps ovr = [] \<and>
    (\<forall>model. map_of (ov_Models ovr) model = map_option in_key_order (merged rs model (map_of (od_Models doc) model)))"
proof -
  let ?f = "fold merge_result rs (od_Models doc, 0)"
  let ?ms = "fst ?f"
  let ?doc = "doc\<lparr>od_Models := ?ms\<rparr>"
  have keys: "distinct (map fst ?ms)" using d merged_keys by (simp add: doc_encodable_def)
  have enc: "doc_encodable ?doc" using d keys merged_encodable [OF r(1)] by (simp add: doc_encodable_def)
  have ms: "map_of ?ms k = merged rs k (map_of (od_Models doc) k)" for k by (rule merged_models [OF r(2)])
  have first: "mergeEthOverrides text rs = Inr (snd ?f, doc_text ?doc)"
    using p by (simp add: mergeEthOverrides_def doc_text_def case_prod_beta)
  have settled: "fold merge_result rs (models_in_order ?ms, 0) = (models_in_order ?ms, 0)"
  proof (rule merge_settled)
    fix x assume x: "x \<in> set rs"
    then obtain mo where mo: "map_of ?ms (er_Model x) = Some (with_eth x mo)"
      using merged_of [OF r(2) x] ms by metis
    have "with_eth x (in_key_order (with_eth x mo)) = in_key_order (with_eth x mo)"
      using with_eth_again [of x] by (simp add: with_eth_order fetched_source_def)
    then show "\<exists>mo. map_of (models_in_order ?ms) (er_Model x) = Some mo \<and> with_eth x mo = mo"
      using mo by (simp add: models_in_order_of [OF keys])
  qed
  have "mergeEthOverrides (doc_text ?doc) rs = Inr (0, doc_text ?doc)"
    using doc_read [OF enc] settled doc_text_order [of ?ms doc] by (simp add: mergeEthOverrides_def doc_text_def [symmetric])
  then show ?thesis
    using first overrides_read [OF enc] merged_count [OF r(2), of "od_Models doc" 0] by (simp add: models_in_order_of [OF keys] ms)
qed

definition sample_overrides :: string where
  "sample_overrides =
     ''{\"models\":{\"U7\":{\"eth\":{\"count\":1,\"media\":\"GE\"}}},\"firmware_caps\":{\"usw@1\":{\"fw_caps\":5}}}''"

definition sample_results :: "eth_result list" where
  "sample_results = [\<lparr>er_Model = ''U7'', er_Eth = \<lparr>es_Count = 2, es_Media = ''2.5GbE''\<rparr>, er_SKU = ''U7''\<rparr>]"

definition sample_doc :: overrides_doc where
  "sample_doc = \<lparr>od_SourceNote = [], od_Models = [(''U7'', no_override\<lparr>mo_Eth := Some \<lparr>eo_Count = 1, eo_Media = ''GE''\<rparr>\<rparr>)]\<rparr>"

lemma sample_parsed:
  "parse_doc sample_overrides = Inr sample_doc"
  "\<exists>ovr. parse_overrides sample_overrides = Inr ovr \<and> ov_FirmwareCaps ovr = [(''usw@1'', \<lparr>fc_FWCaps = 5, fc_Source = []\<rparr>)]"
proof -
  show "parse_doc sample_overrides = Inr sample_doc" by code_simp
  have "(case parse_overrides sample_overrides of Inl _ \<Rightarrow> False
      | Inr ovr \<Rightarrow> ov_FirmwareCaps ovr = [(''usw@1'', \<lparr>fc_FWCaps = 5, fc_Source = []\<rparr>)])" by code_simp
  then show "\<exists>ovr. parse_overrides sample_overrides = Inr ovr \<and> ov_FirmwareCaps ovr = [(''usw@1'', \<lparr>fc_FWCaps = 5, fc_Source = []\<rparr>)]"
    by (simp split: sum.splits)
qed

lemma sample_encodable:
  "doc_encodable sample_doc" "list_all result_encodable sample_results" "distinct (map er_Model sample_results)"
  by code_simp+

theorem merge_keeps_overrides_witness:
  "\<exists>before out after. parse_overrides sample_overrides = Inr before \<and> ov_FirmwareCaps before = [(''usw@1'', \<lparr>fc_FWCaps = 5, fc_Source = []\<rparr>)] \<and>
     mergeEthOverrides sample_overrides sample_results = Inr (1, out) \<and> parse_overrides out = Inr after \<and> ov_FirmwareCaps after = [] \<and>
     map_option mo_Eth (map_of (ov_Models after) ''U7'') = Some (Some \<lparr>eo_Count = 2, eo_Media = ''2.5GbE''\<rparr>)"
proof -
  have n: "length (filter (\<lambda>r. mo_Eth (or_new (map_of (od_Models sample_doc) (er_Model r))) \<noteq> Some (eth_of (er_Eth r))) sample_results) = 1"
    by code_simp
  have m: "map_option mo_Eth (map_option in_key_order (merged sample_results ''U7'' (map_of (od_Models sample_doc) ''U7''))) =
      Some (Some \<lparr>eo_Count = 2, eo_Media = ''2.5GbE''\<rparr>)"
    by code_simp
  obtain out ovr where "mergeEthOverrides sample_overrides sample_results = Inr (1, out)" "parse_overrides out = Inr ovr"
      "ov_FirmwareCaps ovr = []"
      "\<forall>model. map_of (ov_Models ovr) model = map_option in_key_order (merged sample_results model (map_of (od_Models sample_doc) model))"
    using merge_keeps_overrides [OF sample_parsed(1) sample_encodable] unfolding n by blast
  then show ?thesis using sample_parsed(2) m by (metis (no_types))
qed

end
