(* ===== verification/Spec2Isabelle.thy ===== *)
theory Spec2Isabelle
  imports Discovery Herder_Logs Herder_Cli_Laws Container_Run Gen_Order Gen_Scan Gen_Merge
begin

text \<open>
  unifi-emu: emulated UniFi devices, and the herder that runs them in containers.

  The repository holds two programs and the generator of the catalog they share. \<^verbatim>\<open>unifi-emu\<close> runs a fleet of emulated devices, each of which
  informs a real controller, is adopted by it and keeps informing. \<^verbatim>\<open>unifi-emu-herder\<close> plans a fleet
  of device containers from a request, starts them on the caller's Docker network, watches them, and
  reports the run as lines of JSON on its standard output.

  \<^bold>\<open>Library.\<close> \<^verbatim>\<open>Go_Prelude\<close> has results (a sum of an error and a value, \<^verbatim>\<open>rbind\<close>, \<^verbatim>\<open>rmap\<close>, \<^verbatim>\<open>rfold\<close>),
  bytes as 8-bit words and the big-endian integers behind a locale of exact encodings.
  \<^verbatim>\<open>Go_Strings\<close> models the part of \<^verbatim>\<open>strings\<close>, \<^verbatim>\<open>strconv\<close> and \<^verbatim>\<open>hex\<close> the programs use, \<^verbatim>\<open>Go_Net\<close> hardware
  and IP addresses (behind a locale of values with a canonical text), \<^verbatim>\<open>Go_Json\<close> and \<^verbatim>\<open>Go_Marshal\<close>
  the JSON scanner, parser, writer and the decoding into structs, \<^verbatim>\<open>Go_URL\<close> the URL parser. These
  are models of Go's standard library; strings are lists of bytes, written as characters.

  \<^bold>\<open>The emulator.\<close> \<^verbatim>\<open>Discovery\<close> is the announcement packet (discovery/packet.go). \<^verbatim>\<open>Inform_Crypto\<close> and
  \<^verbatim>\<open>Inform_Packet\<close> are the TNBU packet (inform/crypto.go, inform/packet.go); the AES block function,
  GCM, zlib and snappy are parameters with the laws they document, gathered in locales.
  \<^verbatim>\<open>Inform_Tables\<close> and \<^verbatim>\<open>Inform_Session\<close> are the device's session: the reported payload and the state
  machine over the controller's replies (inform/tables.go, inform/session.go); \<^verbatim>\<open>Session_Laws\<close> has its
  invariant, the key-rotation rule and the payload read back. \<^verbatim>\<open>Emu_Registry\<close> is the model registry
  (registry.go), \<^verbatim>\<open>Emu_Device\<close> one device and its loop (device.go, loop.go) with \<^verbatim>\<open>Device_Laws\<close>, and
  \<^verbatim>\<open>Emu_Fleet\<close> the fleet (emu.go) as a step relation in which the goroutines take turns.

  \<^bold>\<open>The herder.\<close> \<^verbatim>\<open>Herder_Protocol\<close> is the control stream with its failure matrix (protocol.go),
  \<^verbatim>\<open>Herder_Identity\<close> and \<^verbatim>\<open>Identity_Laws\<close> the request and the allocation of identities (request.go,
  identity.go), \<^verbatim>\<open>Herder_Runtime\<close> the runner's configuration (runtimeconfig.go), \<^verbatim>\<open>Herder_Plan\<close> and
  \<^verbatim>\<open>Plan_Laws\<close> the launch plan and its specification as a topology (plan.go), \<^verbatim>\<open>Herder_Docker\<close> and
  \<^verbatim>\<open>Docker_Laws\<close> the images, container requests, verdicts and backend (images.go, containers.go,
  readiness.go, backend.go, reaper.go), \<^verbatim>\<open>Herder_Logs\<close> the redaction of diagnostics (logs.go),
  \<^verbatim>\<open>Herder_URL\<close> the check of the inform URL (informurl.go), \<^verbatim>\<open>Herder_Run\<close> and \<^verbatim>\<open>Run_Laws\<close> one whole run
  (run.go): what the daemon, the file system, the clock and the signals answer is a record, so the
  theorems hold for every environment.

  \<^bold>\<open>The commands.\<close> \<^verbatim>\<open>Go_Stream\<close> is the JSON decoder on a stream, \<^verbatim>\<open>Go_Duration\<close> and \<^verbatim>\<open>Go_Flag\<close> are
  duration texts and the flag package. \<^verbatim>\<open>Cli_Devices\<close> and \<^verbatim>\<open>Cli_Laws\<close> are
  the five sources of a fleet, the expansion of its addresses and the container's own address
  (cmd/unifi-emu/devices.go, containerip.go); \<^verbatim>\<open>Container_Laws\<close> joins the two programs: the devices a
  herder puts into a container are the ones the emulator in it runs. \<^verbatim>\<open>Adopt_Client\<close>, \<^verbatim>\<open>Adopt_Fleet\<close> and
  \<^verbatim>\<open>Adopt_Laws\<close> are the client of the controller's API and the adoption run (internal/adopt); the HTTP
  client with its retries, the clock and the context are a transport over a world, and its loops,
  which only the context ends, are partial functions, proved to return under a context that ends.
  \<^verbatim>\<open>Emu_URL\<close> resolves the host of an inform URL (informurl.go), \<^verbatim>\<open>Cli_Adopt\<close> has the adoption settings
  (cmd/unifi-emu/adopt.go) and \<^verbatim>\<open>Cli_Run\<close> the emulator command from its flags to its exit status
  (cmd/unifi-emu/main.go), with \<^verbatim>\<open>Cli_Run_Laws\<close>; \<^verbatim>\<open>Container_Run\<close> is the run of the command inside a
  container the herder starts. \<^verbatim>\<open>Herder_Cli\<close> and \<^verbatim>\<open>Herder_Cli_Laws\<close> are the herder's command
  (cmd/unifi-emu-herder/main.go).

  \<^bold>\<open>The model generator.\<close> \<^verbatim>\<open>modelgen\<close> (cmd/modelgen) writes the catalog of models the registry embeds,
  reduced from a controller's device list or harvested from its hardware database. \<^verbatim>\<open>Go_Encode\<close> has the
  indented JSON writer and the decoding of maps and pointers. \<^verbatim>\<open>Gen_Catalog\<close> is the catalog, its
  validation and the reduction of a device list, \<^verbatim>\<open>Gen_Bundle\<close> the search for models in the text of
  the database and the layouts derived from them (both main.go), \<^verbatim>\<open>Gen_Sources\<close> capabilities,
  exclusions, firmware versions, overrides and Tech Specs values (caps.go, exclusions.go,
  firmware.go, overrides.go, techspecs.go), and \<^verbatim>\<open>Gen_Harvest\<close> the harvest, the fetch of Ethernet
  layouts and the command (main.go, fetcheth.go); a URL has one answer in a run. \<^verbatim>\<open>Gen_Valid\<close> specifies
  validation and proves every mode's catalog valid, \<^verbatim>\<open>Gen_Written\<close> reads the written catalog back with
  the emulator's registry, \<^verbatim>\<open>Gen_Laws\<close> has what the modes promise, \<^verbatim>\<open>Gen_Scan\<close> the search for an
  object, \<^verbatim>\<open>Gen_Merge\<close> the overrides file across a fetch, and \<^verbatim>\<open>Gen_Order\<close> the independence of the order of maps.

  \<^bold>\<open>Conventions.\<close> A Go error is a value: a sum type or an option, with its code and phase where the
  code gives one and a constructor per message. Integers that can overflow are written with their
  wrap-around (\<^verbatim>\<open>wrap64\<close>). A map of the source is an association list in insertion order; where the code
  ranges over a map, the order is an argument. Loops over data are recursive functions; loops that
  wait for the outside run over the list of what the outside does.

  \<^bold>\<open>Not modelled.\<close> The YAML form of a device list, which rests on a third-party package; sockets, time
  and randomness beyond the values they deliver; the limits of memory; the folding of letters
  outside ASCII; the build info of a binary, which is an argument.

  This theory puts the components of the herder together: the plan a run starts from against the
  request it was given.
\<close>

section \<open>From the request to the containers\<close>

lemma resolve_models_ok:
  assumes "ResolveRuntimeConfig rng fs path getenv = Inr cfg" and "\<And>m. set (rng m) = set m"
  shows "\<forall>(model, rt) \<in> set (rc_Models cfg). runtime_ok rt"
  using assms(1) load_ok [OF _ assms(2)]
  by (fastforce simp: ResolveRuntimeConfig_def split: if_splits sum.splits stat_error.splits)

lemma own_Inr [simp]: "own r = Inr x \<longleftrightarrow> r = Inr x"
  by (cases r) (simp_all add: own_def)

lemma own_check_Inr [simp]: "own_check r = Inr u \<longleftrightarrow> r = None"
  by (cases r) (simp_all add: own_check_def)

lemma validate_parts:
  assumes "validate reg en = Inr pl"
  shows "\<exists>req cfg devices. read_request en = Inr req \<and>
    ResolveRuntimeConfig (en_Range en) (en_Files en) (en_RuntimeConfigPath en) (en_Getenv en) = Inr cfg \<and>
    Allocate (req_Devices req) (en_Rand en) = Inr devices \<and> CheckInformURL (en_InformURL en) = None \<and>
    BuildPlan reg \<lparr>in_RunID = en_RunID en, in_Network = en_Network en, in_InformURL = en_InformURL en,
      in_Devices = devices, in_Runtime = cfg, in_SyntheticImage = en_SyntheticImage en\<rparr> = Inr pl"
proof -
  have "validate_plan reg en = Inr pl" using assms by (auto simp: validate_def rbind_Inr_iff)
  then show ?thesis unfolding validate_plan_def rbind_Inr_iff own_Inr own_check_Inr by blast
qed

lemma increasing_indices:
  assumes "length out = length ds" "\<And>i. i < length ds \<Longrightarrow> resolves i (ds ! i) (out ! i)"
  shows "sorted_wrt (<) (map id_Index out)"
proof -
  have "map id_Index out = [0..<length ds]"
    using assms by (intro nth_equalityI) (auto simp: resolves_def)
  then show ?thesis by simp
qed

text \<open>
  C36: the plan a run starts from answers its request: reading the devices back gives one identity
  per requested device, in request order, with MACs, serials and names all distinct; every unit adds
  only allowlisted capabilities; and the inform URL handed to the containers passed the check. This
  puts the request, the runtime configuration, the allocation, the URL check and the plan together.
\<close>
theorem validated_plan_answers_request:
  assumes "validate reg en = Inr pl" and "\<And>m. set (en_Range en m) = set m"
  shows "\<exists>req. read_request en = Inr req \<and> length (Herder_Plan.Devices pl) = length (req_Devices req) \<and>
    (\<forall>i < length (req_Devices req). resolves i (req_Devices req ! i) (Herder_Plan.Devices pl ! i)) \<and>
    distinct (map id_MAC (Herder_Plan.Devices pl)) \<and> distinct (map id_Serial (Herder_Plan.Devices pl)) \<and> distinct (map id_Name (Herder_Plan.Devices pl)) \<and>
    (\<forall>u \<in> set (pl_Units pl). set (un_CapAdd u) \<subseteq> set capabilityAllowlist) \<and>
    pl_InformURL pl = en_InformURL en \<and> CheckInformURL (en_InformURL en) = None"
proof -
  obtain req cfg devices where v: "read_request en = Inr req"
    "ResolveRuntimeConfig (en_Range en) (en_Files en) (en_RuntimeConfigPath en) (en_Getenv en) = Inr cfg"
    "Allocate (req_Devices req) (en_Rand en) = Inr devices" "CheckInformURL (en_InformURL en) = None"
    and b: "BuildPlan reg \<lparr>in_RunID = en_RunID en, in_Network = en_Network en, in_InformURL = en_InformURL en,
      in_Devices = devices, in_Runtime = cfg, in_SyntheticImage = en_SyntheticImage en\<rparr> = Inr pl"
    using validate_parts [OF assms(1)] by blast
  note al = Allocate_all [OF v(3)] and bp = built_plan [OF b]
  have "pl_Units pl = topology cfg (en_SyntheticImage en) devices" using b by (simp add: BuildPlan_topology)
  then have "mset (concat (map un_Devices (pl_Units pl))) = mset devices" by (simp only: topology_devices)
  then have d: "Herder_Plan.Devices pl = devices"
    unfolding Herder_Plan.Devices_def using increasing_indices [OF al(1,2)] by (rule sort_back)
  have "set (un_CapAdd u) \<subseteq> set capabilityAllowlist" if "u \<in> set (pl_Units pl)" for u
    using unit_caps [OF bp(4) [OF that]] resolve_models_ok [OF v(2) assms(2)] by simp
  then show ?thesis using v(1,4) al d bp(3) by auto
qed

theorem validated_plan_answers_request_witness:
  "\<exists>pl. validate sample_models (sample_env []) = Inr pl \<and> distinct (map id_MAC (Herder_Plan.Devices pl))"
proof -
  have "(case validate sample_models (sample_env []) of Inl _ \<Rightarrow> False | Inr _ \<Rightarrow> True)" by code_simp
  then obtain pl where "validate sample_models (sample_env []) = Inr pl" by (auto split: sum.splits)
  moreover from validated_plan_answers_request [OF this] have "distinct (map id_MAC (Herder_Plan.Devices pl))"
    by (auto simp: sample_env_def)
  ultimately show ?thesis by blast
qed

end
